(* ===== verification/Prelude.thy ===== *)
theory Prelude
  imports Main "HOL-Library.Word"
begin

text \<open>
  Shared vocabulary of the development: identifiers, generic facts on lists, maps and folds,
  the generic contracts (a system of operations that keeps an invariant, a system of operations
  that only moves the state along a preorder) and the fact collections of the components.
\<close>

section \<open>Identifiers\<close>

text \<open>
  A \<open>uuid.UUID\<close> is a 16-byte array; \<open>uuid.Nil\<close> is the one whose bytes are all zero.
  The library's string form and its name-based constructor (\<open>uuid.NewSHA1\<close>) are
  parameters of the definitions that use them.
\<close>

type_synonym uuid = "128 word"

abbreviation uuid_Nil :: uuid where
  "uuid_Nil \<equiv> 0"

section \<open>Fact collections\<close>

named_theorems sched_simps \<open>unfolding rules of the scheduler's operations\<close>

section \<open>Lists\<close>

lemma find_SomeD: "find P xs = Some x \<Longrightarrow> x \<in> set xs \<and> P x"
  by (induction xs) (auto split: if_splits)

lemma find_map_same: "(\<And>x. P (f x) = P x) \<Longrightarrow> find P (map f xs) = map_option f (find P xs)"
  by (induction xs) auto

section \<open>Errors as values\<close>

text \<open>Sequencing on the error sum.\<close>

definition try_bind :: "'e + 'a \<Rightarrow> ('a \<Rightarrow> 'e + 'b) \<Rightarrow> 'e + 'b" where
  "try_bind r f = (case r of Inl e \<Rightarrow> Inl e | Inr x \<Rightarrow> f x)"

lemma try_bind_simps [simp]: "try_bind (Inl e) f = Inl e" "try_bind (Inr x) f = f x"
  by (simp_all add: try_bind_def)

lemma try_bind_Inr: "try_bind r f = Inr y \<longleftrightarrow> (\<exists>x. r = Inr x \<and> f x = Inr y)"
  by (cases r) auto

lemma try_bind_Inl: "try_bind r f = Inl e \<longleftrightarrow> r = Inl e \<or> (\<exists>x. r = Inr x \<and> f x = Inl e)"
  by (cases r) auto

section \<open>Folds that keep a property or follow a preorder\<close>

lemma fold_invariant_on:
  assumes "\<And>x s. x \<in> set xs \<Longrightarrow> P s \<Longrightarrow> P (f x s)" and "P s"
  shows "P (fold f xs s)"
  using assms by (induction xs arbitrary: s) auto

lemma fold_preorder:
  assumes "\<And>x s. R s (f x s)" and "\<And>s. R s s" and "\<And>a b c. R a b \<Longrightarrow> R b c \<Longrightarrow> R a c"
  shows "R s (fold f xs s)"
proof (induction xs arbitrary: s)
  case Nil
  show ?case by (simp add: assms(2))
next
  case (Cons x xs)
  have "R s (f x s)" by (rule assms(1))
  moreover have "R (f x s) (fold f xs (f x s))" by (rule Cons.IH)
  ultimately show ?case by (simp add: assms(3))
qed

section \<open>Generic contracts\<close>

text \<open>
  A component whose operations are steps of a state machine: \<open>step e s\<close> is the state after
  the event \<open>e\<close>, or \<open>None\<close> where the event is not possible. The contract is that every
  step keeps the invariant; the client's facts are about whole runs.
\<close>

locale invariant_machine =
  fixes step :: "'e \<Rightarrow> 's \<Rightarrow> 's option"
    and inv :: "'s \<Rightarrow> bool"
  assumes step_inv: "inv s \<Longrightarrow> step e s = Some t \<Longrightarrow> inv t"
begin

lemma run_inv:
  assumes "fold (\<lambda>e so. Option.bind so (step e)) es (Some s) = Some t" and "inv s"
  shows "inv t"
  using assms
proof (induction es arbitrary: s)
  case Nil
  then show ?case by simp
next
  case (Cons e es)
  have none: "fold (\<lambda>e so. Option.bind so (step e)) es None = None" for es
    by (induction es) auto
  from Cons.prems(1) obtain u where u: "step e s = Some u"
    by (cases "step e s") (auto simp: none)
  with Cons.prems(1) have "fold (\<lambda>e so. Option.bind so (step e)) es (Some u) = Some t"
    by simp
  moreover from Cons.prems(2) u have "inv u" by (rule step_inv)
  ultimately show ?case by (rule Cons.IH)
qed

end

end
