(* ===== verification/Scheduler.thy ===== *)
theory Scheduler
  imports Prelude
begin

text \<open>
  The DAG scheduler of \<open>lib/workflows/scheduler.go\<close>: \<open>schedule\<close>, its readiness sweep, its
  goroutines and its main loop, as a state machine whose steps are the interleaving points of
  the code (a goroutine acquires the semaphore, a goroutine records its result, the main loop
  receives from \<open>done\<close>, the context ends, the drain loop receives, the function returns).
\<close>

section \<open>Statuses, nodes and results\<close>

text \<open>
  The scheduler only handles status strings. The five it knows are constructors; every other
  string a \<open>runFn\<close> might return is an \<open>OtherStatus\<close>.
\<close>

datatype sched_status =
    Running | Succeeded | Failed | Skipped | AwaitingApproval | OtherStatus string

datatype run_outcome = RunSucceeded | RunFailed | RunPartial | RunSuspended

record schedNode =
  sn_ID :: uuid
  sn_DependsOn :: "uuid list"
  sn_ContinueOnFailure :: bool
  sn_RequiresApproval :: bool
  sn_Approved :: bool

record nodeResult =
  nr_Status :: sched_status
  nr_Err :: "string option"
  nr_Retryable :: bool
  nr_Completes :: "uuid list"

section \<open>State\<close>

text \<open>
  A goroutine started by \<open>launch\<close> first waits for the semaphore, then runs \<open>runFn\<close>, then has
  recorded its result and is about to push its id onto the unbuffered channel \<open>done\<close>. It holds
  its semaphore slot until that push was received (the deferred release runs after it).
\<close>

datatype phase = Waiting | Executing | Settled

text \<open>Where the caller's goroutine is: in the main loop, draining after a cancel, or back.\<close>

datatype loop_mode = Looping | Draining | Returned run_outcome

record sched =
  sc_results :: "uuid \<rightharpoonup> sched_status"
  sc_inflight :: "uuid set"
  sc_parked :: "uuid set"
  sc_completed :: "uuid set"
  sc_suspended :: bool
  sc_procs :: "(schedNode \<times> phase) list"
  sc_pending :: nat
  sc_mode :: loop_mode
  sc_emitted :: "(uuid \<times> sched_status) list"

section \<open>Bookkeeping\<close>

definition contOnFail :: "schedNode list \<Rightarrow> uuid \<Rightarrow> bool" where
  "contOnFail nodes = fold (\<lambda>n m. m(sn_ID n := sn_ContinueOnFailure n)) nodes (\<lambda>_. False)"

definition known :: "schedNode list \<Rightarrow> uuid set" where
  "known nodes = set (map sn_ID nodes)"

definition emit :: "uuid \<Rightarrow> sched_status \<Rightarrow> sched \<Rightarrow> sched" where
  "emit i st s = s\<lparr>sc_emitted := sc_emitted s @ [(i, st)]\<rparr>"

definition depPassed :: "schedNode list \<Rightarrow> (uuid \<rightharpoonup> sched_status) \<Rightarrow> uuid \<Rightarrow> bool" where
  "depPassed nodes results dep =
     (case results dep of
        Some Succeeded \<Rightarrow> True
      | Some Failed \<Rightarrow> contOnFail nodes dep
      | _ \<Rightarrow> False)"

definition depBlocks :: "schedNode list \<Rightarrow> (uuid \<rightharpoonup> sched_status) \<Rightarrow> uuid \<Rightarrow> bool" where
  "depBlocks nodes results dep =
     (case results dep of
        Some Failed \<Rightarrow> \<not> contOnFail nodes dep
      | Some Skipped \<Rightarrow> True
      | _ \<Rightarrow> False)"

definition markSettled :: "uuid \<Rightarrow> sched_status \<Rightarrow> sched \<Rightarrow> sched" where
  "markSettled i st s =
     emit i st (s\<lparr>sc_results := (sc_results s)(i \<mapsto> st), sc_inflight := sc_inflight s - {i}\<rparr>)"

definition launch :: "schedNode \<Rightarrow> sched \<Rightarrow> sched" where
  "launch n s = s\<lparr>sc_procs := sc_procs s @ [(n, Waiting)]\<rparr>"

section \<open>The sweep\<close>

text \<open>
  The scan of one node's dependencies: the flags \<open>blocked\<close>, \<open>ready\<close> and \<open>unknownDep\<close> as the
  loop leaves them. An unknown id and a blocking one end the loop.
\<close>

record scan =
  blocked :: bool
  ready :: bool
  unknownDep :: bool

fun scan_deps :: "schedNode list \<Rightarrow> (uuid \<rightharpoonup> sched_status) \<Rightarrow> bool \<Rightarrow> uuid list \<Rightarrow> scan" where
  "scan_deps nodes results rdy [] = \<lparr>blocked = False, ready = rdy, unknownDep = False\<rparr>"
| "scan_deps nodes results rdy (dep # deps) =
     (if dep \<notin> known nodes then \<lparr>blocked = False, ready = rdy, unknownDep = True\<rparr>
      else if results dep = None then scan_deps nodes results False deps
      else if depBlocks nodes results dep then \<lparr>blocked = True, ready = rdy, unknownDep = False\<rparr>
      else if \<not> depPassed nodes results dep then scan_deps nodes results False deps
      else scan_deps nodes results rdy deps)"

text \<open>What the body of the sweep does with one node.\<close>

datatype sweep_action =
    Keep | SettleUnknown | SettleBlocked | SettleCompleted | Park | Launch

definition sweep_decide :: "schedNode list \<Rightarrow> sched \<Rightarrow> schedNode \<Rightarrow> sweep_action" where
  "sweep_decide nodes s n =
     (if sc_results s (sn_ID n) \<noteq> None then Keep
      else if sn_ID n \<in> sc_inflight s then Keep
      else if sn_ID n \<in> sc_parked s then Keep
      else
        let sc = scan_deps nodes (sc_results s) True (sn_DependsOn n)
        in if unknownDep sc then SettleUnknown
           else if blocked sc then SettleBlocked
           else if ready sc then
             (if sn_ID n \<in> sc_completed s then SettleCompleted
              else if sn_RequiresApproval n \<and> \<not> sn_Approved n then Park
              else Launch)
           else Keep)"

text \<open>One iteration of the inner loop: the state, \<open>launched\<close> and \<open>progressed\<close>.\<close>

fun sweep_node :: "schedNode list \<Rightarrow> schedNode \<Rightarrow> sched \<times> nat \<times> bool \<Rightarrow> sched \<times> nat \<times> bool" where
  "sweep_node nodes n (s, launched, progressed) =
     (case sweep_decide nodes s n of
        Keep \<Rightarrow> (s, launched, progressed)
      | SettleUnknown \<Rightarrow> (markSettled (sn_ID n) Failed s, launched, True)
      | SettleBlocked \<Rightarrow> (markSettled (sn_ID n) Skipped s, launched, True)
      | SettleCompleted \<Rightarrow> (markSettled (sn_ID n) Succeeded s, launched, True)
      | Park \<Rightarrow>
          (emit (sn_ID n) AwaitingApproval
             (s\<lparr>sc_parked := insert (sn_ID n) (sc_parked s), sc_suspended := True\<rparr>),
           launched, True)
      | Launch \<Rightarrow>
          (launch n (s\<lparr>sc_inflight := insert (sn_ID n) (sc_inflight s)\<rparr>),
           Suc launched, progressed))"

definition sweep_pass :: "schedNode list \<Rightarrow> sched \<Rightarrow> nat \<Rightarrow> sched \<times> nat \<times> bool" where
  "sweep_pass nodes s launched = fold (sweep_node nodes) nodes (s, launched, False)"

text \<open>
  Nodes that are neither settled nor parked: every pass that makes progress takes one away, so
  the outer loop of the sweep stops.
\<close>

definition open_ids :: "schedNode list \<Rightarrow> sched \<Rightarrow> uuid set" where
  "open_ids nodes s = {i \<in> known nodes. sc_results s i = None \<and> i \<notin> sc_parked s}"

lemma finite_open_ids [simp]: "finite (open_ids nodes s)"
  by (simp add: open_ids_def known_def)

lemma markSettled_sel [simp]:
  "sc_results (markSettled i st s) = (sc_results s)(i \<mapsto> st)"
  "sc_inflight (markSettled i st s) = sc_inflight s - {i}"
  "sc_parked (markSettled i st s) = sc_parked s"
  "sc_completed (markSettled i st s) = sc_completed s"
  "sc_suspended (markSettled i st s) = sc_suspended s"
  "sc_procs (markSettled i st s) = sc_procs s"
  "sc_pending (markSettled i st s) = sc_pending s"
  "sc_mode (markSettled i st s) = sc_mode s"
  "sc_emitted (markSettled i st s) = sc_emitted s @ [(i, st)]"
  by (simp_all add: markSettled_def emit_def)

lemma emit_sel [simp]:
  "sc_results (emit i st s) = sc_results s"
  "sc_inflight (emit i st s) = sc_inflight s"
  "sc_parked (emit i st s) = sc_parked s"
  "sc_completed (emit i st s) = sc_completed s"
  "sc_suspended (emit i st s) = sc_suspended s"
  "sc_procs (emit i st s) = sc_procs s"
  "sc_pending (emit i st s) = sc_pending s"
  "sc_mode (emit i st s) = sc_mode s"
  "sc_emitted (emit i st s) = sc_emitted s @ [(i, st)]"
  by (simp_all add: emit_def)

lemma launch_sel [simp]:
  "sc_results (launch n s) = sc_results s"
  "sc_inflight (launch n s) = sc_inflight s"
  "sc_parked (launch n s) = sc_parked s"
  "sc_completed (launch n s) = sc_completed s"
  "sc_suspended (launch n s) = sc_suspended s"
  "sc_procs (launch n s) = sc_procs s @ [(n, Waiting)]"
  "sc_pending (launch n s) = sc_pending s"
  "sc_mode (launch n s) = sc_mode s"
  "sc_emitted (launch n s) = sc_emitted s"
  by (simp_all add: launch_def)

lemma sweep_decide_open:
  assumes "sweep_decide nodes s n \<noteq> Keep" and "n \<in> set nodes"
  shows "sn_ID n \<in> open_ids nodes s"
  using assms by (auto simp: sweep_decide_def open_ids_def known_def split: if_splits)

lemma sweep_node_open:
  assumes "n \<in> set nodes"
  shows "case sweep_node nodes n (s, l, p) of
    (t, l', p') \<Rightarrow> open_ids nodes t \<subseteq> open_ids nodes s \<and>
      (p' \<noteq> p \<longrightarrow> open_ids nodes t \<subset> open_ids nodes s) \<and> (p \<longrightarrow> p')"
  using sweep_decide_open [OF _ assms, of s]
  by (cases "sweep_decide nodes s n") (auto simp: open_ids_def)

lemma sweep_fold_open:
  assumes "set ns \<subseteq> set nodes" and "fold (sweep_node nodes) ns (s, l, p) = (t, l', p')"
  shows "open_ids nodes t \<subseteq> open_ids nodes s \<and>
    (p' \<noteq> p \<longrightarrow> open_ids nodes t \<subset> open_ids nodes s) \<and> (p \<longrightarrow> p')"
  using assms
proof (induction ns arbitrary: s l p)
  case Nil
  then show ?case by simp
next
  case (Cons n ns)
  obtain u k q where u: "sweep_node nodes n (s, l, p) = (u, k, q)"
    by (cases "sweep_node nodes n (s, l, p)")
  from Cons.prems u have rest: "fold (sweep_node nodes) ns (u, k, q) = (t, l', p')" by simp
  from Cons.prems have "n \<in> set nodes" by simp
  from sweep_node_open [OF this, where s = s and l = l and p = p] u
  have "open_ids nodes u \<subseteq> open_ids nodes s"
    "q \<noteq> p \<longrightarrow> open_ids nodes u \<subset> open_ids nodes s" "p \<longrightarrow> q" by auto
  with Cons.IH [OF _ rest] Cons.prems show ?case by auto
qed

text \<open>The outer loop: passes until one makes no progress.\<close>

function sweep :: "schedNode list \<Rightarrow> sched \<Rightarrow> nat \<Rightarrow> sched \<times> nat" where
  "sweep nodes s launched =
     (case sweep_pass nodes s launched of
        (t, l, progressed) \<Rightarrow> if progressed then sweep nodes t l else (t, l))"
  by pat_completeness auto
termination
proof (relation "measure (\<lambda>(nodes, s, l). card (open_ids nodes s))")
  fix nodes s launched t l progressed x2
  assume "(t, x2) = sweep_pass nodes s launched" and "(l, progressed) = x2" and progressed
  then have "fold (sweep_node nodes) nodes (s, launched, False) = (t, l, True)"
    by (cases progressed) (auto simp: sweep_pass_def)
  from sweep_fold_open [OF _ this] have "open_ids nodes t \<subset> open_ids nodes s" by simp
  then show "((nodes, t, l), nodes, s, launched) \<in> measure (\<lambda>(nodes, s, l). card (open_ids nodes s))"
    by (simp add: psubset_card_mono)
qed simp

declare sweep.simps [simp del]

section \<open>The steps of a call\<close>

definition settle_status :: "sched_status \<Rightarrow> sched_status" where
  "settle_status st = (case st of Succeeded \<Rightarrow> Succeeded | Failed \<Rightarrow> Failed | Skipped \<Rightarrow> Skipped | _ \<Rightarrow> Failed)"

definition clamp_concurrency :: "int \<Rightarrow> nat" where
  "clamp_concurrency c = (if c < 1 then 1 else nat c)"

definition hardFailed :: "schedNode list \<Rightarrow> sched \<Rightarrow> bool" where
  "hardFailed nodes s =
     list_ex (\<lambda>n. sc_results s (sn_ID n) = Some Failed \<and> \<not> contOnFail nodes (sn_ID n)) nodes"

definition softFailed :: "schedNode list \<Rightarrow> sched \<Rightarrow> bool" where
  "softFailed nodes s =
     list_ex (\<lambda>n. sc_results s (sn_ID n) = Some Failed \<and> contOnFail nodes (sn_ID n)) nodes"

text \<open>The status \<open>schedule\<close> returns once nothing is outstanding and the context is live.\<close>

definition final_outcome :: "schedNode list \<Rightarrow> sched \<Rightarrow> run_outcome" where
  "final_outcome nodes s =
     (if hardFailed nodes s then RunFailed
      else if sc_suspended s then RunSuspended
      else if softFailed nodes s then RunPartial
      else RunSucceeded)"

definition empty_sched :: sched where
  "empty_sched =
     \<lparr>sc_results = Map.empty, sc_inflight = {}, sc_parked = {}, sc_completed = {},
      sc_suspended = False, sc_procs = [], sc_pending = 0, sc_mode = Looping, sc_emitted = []\<rparr>"

text \<open>The call up to its main loop: an empty graph returns at once, else the first sweep.\<close>

definition schedule_init :: "schedNode list \<Rightarrow> sched" where
  "schedule_init nodes =
     (if nodes = [] then empty_sched\<lparr>sc_mode := Returned RunSucceeded\<rparr>
      else case sweep nodes empty_sched 0 of (s, launched) \<Rightarrow> s\<lparr>sc_pending := launched\<rparr>)"

datatype sched_event =
    Acquire uuid
  | Finish uuid nodeResult
  | Receive uuid
  | CtxDone
  | Drain uuid
  | Return

definition proc_phase :: "uuid \<Rightarrow> sched \<Rightarrow> phase option" where
  "proc_phase i s = map_option snd (find (\<lambda>np. sn_ID (fst np) = i) (sc_procs s))"

definition set_phase :: "uuid \<Rightarrow> phase \<Rightarrow> sched \<Rightarrow> sched" where
  "set_phase i ph s =
     s\<lparr>sc_procs := map (\<lambda>np. if sn_ID (fst np) = i then (fst np, ph) else np) (sc_procs s)\<rparr>"

definition drop_proc :: "uuid \<Rightarrow> sched \<Rightarrow> sched" where
  "drop_proc i s = s\<lparr>sc_procs := filter (\<lambda>np. sn_ID (fst np) \<noteq> i) (sc_procs s)\<rparr>"

text \<open>Semaphore slots taken: a goroutine holds one from its acquire until its push is received.\<close>

definition slots :: "sched \<Rightarrow> nat" where
  "slots s = length (filter (\<lambda>np. snd np \<noteq> Waiting) (sc_procs s))"

text \<open>The goroutine's critical section once \<open>runFn\<close> returned \<open>res\<close>.\<close>

definition record_result :: "uuid \<Rightarrow> nodeResult \<Rightarrow> sched \<Rightarrow> sched" where
  "record_result i res s =
     (let status = settle_status (nr_Status res);
          s1 = (if status = Succeeded
                then s\<lparr>sc_completed := sc_completed s \<union> set (nr_Completes res)\<rparr> else s)
      in markSettled i status s1)"

fun sched_step :: "schedNode list \<Rightarrow> int \<Rightarrow> sched_event \<Rightarrow> sched \<Rightarrow> sched option" where
  "sched_step nodes c (Acquire i) s =
     (if proc_phase i s = Some Waiting \<and> slots s < clamp_concurrency c
      then Some (emit i Running (set_phase i Executing s)) else None)"
| "sched_step nodes c (Finish i res) s =
     (if proc_phase i s = Some Executing
      then Some (set_phase i Settled (record_result i res s)) else None)"
| "sched_step nodes c (Receive i) s =
     (if sc_mode s = Looping \<and> sc_pending s > 0 \<and> proc_phase i s = Some Settled
      then (case sweep nodes (drop_proc i s) 0 of (t, launched) \<Rightarrow>
              Some (t\<lparr>sc_pending := sc_pending s - 1 + launched\<rparr>))
      else None)"
| "sched_step nodes c CtxDone s =
     (if sc_mode s = Looping \<and> sc_pending s > 0 then Some (s\<lparr>sc_mode := Draining\<rparr>) else None)"
| "sched_step nodes c (Drain i) s =
     (if sc_mode s = Draining \<and> sc_pending s > 0 \<and> proc_phase i s = Some Settled
      then Some ((drop_proc i s)\<lparr>sc_pending := sc_pending s - 1\<rparr>) else None)"
| "sched_step nodes c Return s =
     (if sc_pending s = 0 then
        (case sc_mode s of
           Looping \<Rightarrow> Some (s\<lparr>sc_mode := Returned (final_outcome nodes s)\<rparr>)
         | Draining \<Rightarrow> Some (s\<lparr>sc_mode := Returned RunFailed\<rparr>)
         | Returned _ \<Rightarrow> None)
      else None)"

fun sched_exec :: "schedNode list \<Rightarrow> int \<Rightarrow> sched_event list \<Rightarrow> sched \<Rightarrow> sched option" where
  "sched_exec nodes c [] s = Some s"
| "sched_exec nodes c (e # es) s =
     (case sched_step nodes c e s of None \<Rightarrow> None | Some t \<Rightarrow> sched_exec nodes c es t)"

inductive sched_reach :: "schedNode list \<Rightarrow> int \<Rightarrow> sched \<Rightarrow> bool" for nodes c where
  start: "sched_reach nodes c (schedule_init nodes)"
| step: "sched_reach nodes c s \<Longrightarrow> sched_step nodes c e s = Some t \<Longrightarrow> sched_reach nodes c t"

end
