(* ===== verification/Scheduler_Safety.thy ===== *)
theory Scheduler_Safety
  imports Scheduler
begin

text \<open>
  Invariants of the scheduler: its bookkeeping is consistent in every reachable state, results
  only grow, and every transition it fires is justified by the dependencies.
\<close>

section \<open>Induction over the sweep\<close>

lemma sweep_fold_induct:
  assumes "\<And>n s l p t l' p'. n \<in> set ns \<Longrightarrow> P s l \<Longrightarrow> sweep_node nodes n (s, l, p) = (t, l', p') \<Longrightarrow> P t l'"
    and "fold (sweep_node nodes) ns (s, l, p) = (t, l', p')" and "P s l"
  shows "P t l'"
  using assms
proof (induction ns arbitrary: s l p)
  case Nil
  then show ?case by simp
next
  case (Cons n ns)
  obtain u k q where u: "sweep_node nodes n (s, l, p) = (u, k, q)"
    by (cases "sweep_node nodes n (s, l, p)")
  from Cons.prems(3) u have "P u k" by (rule Cons.prems(1) [rotated]) simp
  moreover from Cons.prems(2) u have "fold (sweep_node nodes) ns (u, k, q) = (t, l', p')" by simp
  ultimately show ?case using Cons.IH Cons.prems(1) by (metis list.set_intros(2))
qed

lemma sweep_induct:
  assumes "\<And>n s l p t l' p'. n \<in> set nodes \<Longrightarrow> P s l \<Longrightarrow>
      sweep_node nodes n (s, l, p) = (t, l', p') \<Longrightarrow> P t l'"
    and "sweep nodes s l = (t, l')" and "P s l"
  shows "P t l'"
  using assms
proof (induction nodes s l rule: sweep.induct)
  case (1 nodes s l)
  obtain u k q where pass: "sweep_pass nodes s l = (u, k, q)" by (cases "sweep_pass nodes s l")
  have u: "P u k"
    by (rule sweep_fold_induct [where P = P, OF _ pass [unfolded sweep_pass_def] "1.prems"(3)])
      (rule "1.prems"(1))
  show ?case
  proof (cases q)
    case True
    with pass "1.prems"(2) have "sweep nodes u k = (t, l')" by (simp add: sweep.simps [of nodes s l])
    from "1.IH" [OF pass [symmetric] refl True "1.prems"(1) this u] show ?thesis .
  next
    case False
    with pass "1.prems"(2) u show ?thesis by (simp add: sweep.simps [of nodes s l])
  qed
qed

section \<open>What each decision of the sweep means\<close>

lemma scan_deps_ready_iff:
  "scan_deps nodes res r deps = \<lparr>blocked = False, ready = True, unknownDep = False\<rparr> \<longleftrightarrow>
     r \<and> (\<forall>d \<in> set deps. d \<in> known nodes \<and> depPassed nodes res d)"
  by (induction nodes res r deps rule: scan_deps.induct)
    (auto simp: depPassed_def depBlocks_def split: option.splits sched_status.splits if_splits)

lemma scan_deps_unknown:
  "unknownDep (scan_deps nodes res r deps) \<Longrightarrow> \<exists>d \<in> set deps. d \<notin> known nodes"
  by (induction nodes res r deps rule: scan_deps.induct) (auto split: if_splits)

lemma scan_deps_blocked:
  "blocked (scan_deps nodes res r deps) \<Longrightarrow> \<exists>d \<in> set deps. depBlocks nodes res d"
  by (induction nodes res r deps rule: scan_deps.induct) (auto split: if_splits)

lemma scan_deps_waiting:
  "scan_deps nodes res r deps = \<lparr>blocked = False, ready = False, unknownDep = False\<rparr> \<Longrightarrow> r \<Longrightarrow>
     ran res \<subseteq> {Succeeded, Failed, Skipped} \<Longrightarrow> \<exists>d \<in> set deps. d \<in> known nodes \<and> res d = None"
proof (induction nodes res r deps rule: scan_deps.induct)
  case (2 nodes res r dep deps)
  show ?case
  proof (cases "res dep")
    case None
    with "2.prems" show ?thesis by (auto split: if_splits)
  next
    case (Some st)
    with "2.prems" have "st \<in> {Succeeded, Failed, Skipped}" by (auto intro: ranI)
    then have "depPassed nodes res dep \<or> depBlocks nodes res dep"
      using Some by (auto simp: depPassed_def depBlocks_def)
    with "2" Some show ?thesis by (auto split: if_splits)
  qed
qed simp

lemma scan_eta: "sc = \<lparr>blocked = blocked sc, ready = ready sc, unknownDep = unknownDep sc\<rparr>" for sc :: scan
  by simp

definition fresh_node :: "sched \<Rightarrow> schedNode \<Rightarrow> bool" where
  "fresh_node s n \<longleftrightarrow> sc_results s (sn_ID n) = None \<and> sn_ID n \<notin> sc_inflight s \<and> sn_ID n \<notin> sc_parked s"

definition deps_passed :: "schedNode list \<Rightarrow> sched \<Rightarrow> schedNode \<Rightarrow> bool" where
  "deps_passed nodes s n \<longleftrightarrow>
     (\<forall>d \<in> set (sn_DependsOn n). d \<in> known nodes \<and> depPassed nodes (sc_results s) d)"

abbreviation gated :: "schedNode \<Rightarrow> bool" where
  "gated n \<equiv> sn_RequiresApproval n \<and> \<not> sn_Approved n"

lemma ready_deps_passed:
  assumes "ready (scan_deps nodes (sc_results s) True (sn_DependsOn n))"
    and "\<not> blocked (scan_deps nodes (sc_results s) True (sn_DependsOn n))"
    and "\<not> unknownDep (scan_deps nodes (sc_results s) True (sn_DependsOn n))"
  shows "deps_passed nodes s n"
  using scan_deps_ready_iff [of nodes "sc_results s" True "sn_DependsOn n"] assms
    scan_eta [of "scan_deps nodes (sc_results s) True (sn_DependsOn n)"]
  by (simp add: deps_passed_def)

lemma sweep_decideD:
  "sweep_decide nodes s n = Launch \<Longrightarrow>
     fresh_node s n \<and> deps_passed nodes s n \<and> sn_ID n \<notin> sc_completed s \<and> \<not> gated n"
  "sweep_decide nodes s n = Park \<Longrightarrow>
     fresh_node s n \<and> deps_passed nodes s n \<and> sn_ID n \<notin> sc_completed s \<and> gated n"
  "sweep_decide nodes s n = SettleCompleted \<Longrightarrow>
     fresh_node s n \<and> deps_passed nodes s n \<and> sn_ID n \<in> sc_completed s"
  "sweep_decide nodes s n = SettleBlocked \<Longrightarrow>
     fresh_node s n \<and> (\<exists>d \<in> set (sn_DependsOn n). depBlocks nodes (sc_results s) d)"
  "sweep_decide nodes s n = SettleUnknown \<Longrightarrow>
     fresh_node s n \<and> (\<exists>d \<in> set (sn_DependsOn n). d \<notin> known nodes)"
  by (auto simp: sweep_decide_def fresh_node_def Let_def
      intro: ready_deps_passed dest: scan_deps_unknown scan_deps_blocked split: if_splits)

section \<open>The bookkeeping invariant\<close>

abbreviation proc_ids :: "sched \<Rightarrow> uuid list" where
  "proc_ids s \<equiv> map (\<lambda>np. sn_ID (fst np)) (sc_procs s)"


definition book_inv :: "schedNode list \<Rightarrow> sched \<Rightarrow> bool" where
  "book_inv nodes s \<longleftrightarrow>
     distinct (proc_ids s) \<and>
     fst ` set (sc_procs s) \<subseteq> set nodes \<and>
     (\<forall>i. i \<in> sc_inflight s \<longleftrightarrow> (\<exists>n p. (n, p) \<in> set (sc_procs s) \<and> sn_ID n = i \<and> p \<noteq> Settled)) \<and>
     (\<forall>n. (n, Settled) \<in> set (sc_procs s) \<longrightarrow> sc_results s (sn_ID n) \<noteq> None) \<and>
     (\<forall>i \<in> sc_inflight s. sc_results s i = None) \<and>
     (\<forall>i \<in> sc_parked s. sc_results s i = None \<and> i \<notin> set (proc_ids s)) \<and>
     ran (sc_results s) \<subseteq> {Succeeded, Failed, Skipped} \<and>
     dom (sc_results s) \<subseteq> known nodes \<and> sc_parked s \<subseteq> known nodes \<and>
     (sc_suspended s \<longleftrightarrow> sc_parked s \<noteq> {})"

lemma known_ID [simp, intro]: "n \<in> set nodes \<Longrightarrow> sn_ID n \<in> known nodes"
  by (simp add: known_def)

lemma fresh_not_proc:
  assumes "book_inv nodes s" and "fresh_node s n"
  shows "sn_ID n \<notin> set (proc_ids s)"
proof
  assume "sn_ID n \<in> set (proc_ids s)"
  then obtain m p where m: "(m, p) \<in> set (sc_procs s)" "sn_ID m = sn_ID n" by auto
  show False
  proof (cases "p = Settled")
    case True
    with m assms show ?thesis by (auto simp: book_inv_def fresh_node_def)
  next
    case False
    with m assms show ?thesis unfolding book_inv_def fresh_node_def by metis
  qed
qed

lemma book_inv_settle:
  assumes "book_inv nodes s" and "fresh_node s n" and "n \<in> set nodes"
    and "st \<in> {Succeeded, Failed, Skipped}"
  shows "book_inv nodes (markSettled (sn_ID n) st s)"
  using assms fresh_not_proc [OF assms(1,2)]
  by (auto simp: book_inv_def fresh_node_def ran_def)

lemma book_inv_park:
  assumes "book_inv nodes s" and "fresh_node s n" and "n \<in> set nodes"
  shows "book_inv nodes (emit (sn_ID n) AwaitingApproval
           (s\<lparr>sc_parked := insert (sn_ID n) (sc_parked s), sc_suspended := True\<rparr>))"
  using assms fresh_not_proc [OF assms(1,2)]
  by (auto simp: book_inv_def fresh_node_def)

lemma book_inv_launch:
  assumes "book_inv nodes s" and "fresh_node s n" and "n \<in> set nodes"
  shows "book_inv nodes (launch n (s\<lparr>sc_inflight := insert (sn_ID n) (sc_inflight s)\<rparr>))"
  using assms fresh_not_proc [OF assms(1,2)]
  unfolding book_inv_def fresh_node_def by auto

lemma book_inv_sweep_node:
  assumes "n \<in> set nodes" and "book_inv nodes s" and "sweep_node nodes n (s, l, p) = (t, l', p')"
  shows "book_inv nodes t"
  using assms sweep_decideD [of nodes s n]
  by (cases "sweep_decide nodes s n")
    (auto intro!: book_inv_settle book_inv_park book_inv_launch)

lemma book_inv_sweep:
  "book_inv nodes s \<Longrightarrow> sweep nodes s l = (t, l') \<Longrightarrow> book_inv nodes t"
  by (rule sweep_induct [where P = "\<lambda>s l. book_inv nodes s"]) (auto intro: book_inv_sweep_node)

text \<open>The sweep launches goroutines and counts them; nothing else about the call changes.\<close>

definition sweep_frame :: "sched \<Rightarrow> nat \<Rightarrow> sched \<Rightarrow> nat \<Rightarrow> bool" where
  "sweep_frame s l t l' \<longleftrightarrow>
     sc_mode t = sc_mode s \<and> sc_pending t = sc_pending s \<and> sc_completed t = sc_completed s \<and>
     sc_results s \<subseteq>\<^sub>m sc_results t \<and> sc_parked s \<subseteq> sc_parked t \<and>
     (\<exists>new. sc_procs t = sc_procs s @ map (\<lambda>n. (n, Waiting)) new \<and> l' = l + length new) \<and>
     (\<exists>es. sc_emitted t = sc_emitted s @ es \<and> Running \<notin> snd ` set es)"

lemma sweep_frame_refl: "sweep_frame s l s l"
  by (auto simp: sweep_frame_def intro: exI [of _ "[]"])

lemma sweep_frame_trans:
  assumes "sweep_frame a i b j" and "sweep_frame b j c k"
  shows "sweep_frame a i c k"
proof -
  from assms obtain m n where procs: "sc_procs b = sc_procs a @ map (\<lambda>n. (n, Waiting)) m" "j = i + length m"
    "sc_procs c = sc_procs b @ map (\<lambda>n. (n, Waiting)) n" "k = j + length n"
    by (auto simp: sweep_frame_def)
  have "\<exists>new. sc_procs c = sc_procs a @ map (\<lambda>n. (n, Waiting)) new \<and> k = i + length new"
    by (rule exI [of _ "m @ n"]) (simp add: procs)
  moreover from assms obtain d e where em: "sc_emitted b = sc_emitted a @ d" "Running \<notin> snd ` set d"
    "sc_emitted c = sc_emitted b @ e" "Running \<notin> snd ` set e"
    by (auto simp: sweep_frame_def)
  have "\<exists>es. sc_emitted c = sc_emitted a @ es \<and> Running \<notin> snd ` set es"
    by (rule exI [of _ "d @ e"]) (use em in auto)
  ultimately show ?thesis using assms by (auto simp: sweep_frame_def intro: map_le_trans)
qed

lemma sweep_node_frame:
  assumes "sweep_node nodes n (s, l, p) = (t, l', p')"
  shows "sweep_frame s l t l'"
  using assms sweep_decideD [of nodes s n]
  by (cases "sweep_decide nodes s n")
    (auto simp: sweep_frame_def fresh_node_def map_le_def dom_def intro: exI [of _ "[n]"])

lemma sweep_frame:
  assumes "sweep nodes s l = (t, l')"
  shows "sweep_frame s l t l'"
proof (rule sweep_induct [where P = "\<lambda>t l'. sweep_frame s l t l'", OF _ assms])
  fix n u k p v k' p'
  assume "sweep_frame s l u k" and "sweep_node nodes n (u, k, p) = (v, k', p')"
  then show "sweep_frame s l v k'" by (blast intro: sweep_frame_trans sweep_node_frame)
qed (rule sweep_frame_refl)

section \<open>Steps keep the bookkeeping\<close>

lemma proc_phaseD:
  "proc_phase i s = Some ph \<Longrightarrow> \<exists>n. (n, ph) \<in> set (sc_procs s) \<and> sn_ID n = i"
  using find_SomeD [of "\<lambda>np. sn_ID (fst np) = i" "sc_procs s"] by (force simp: proc_phase_def)

lemma proc_unique:
  assumes "book_inv nodes s" and "(n, p) \<in> set (sc_procs s)" and "(m, q) \<in> set (sc_procs s)"
    and "sn_ID n = sn_ID m"
  shows "p = q"
proof -
  have "distinct (proc_ids s)" using assms(1) by (simp add: book_inv_def)
  then have "inj_on (\<lambda>np. sn_ID (fst np)) (set (sc_procs s))" by (simp add: distinct_map)
  from inj_onD [OF this, of "(n, p)" "(m, q)"] have "(n, p) = (m, q)" using assms(2-4) by simp
  then show ?thesis by simp
qed

lemma set_phase_sel [simp]:
  "sc_results (set_phase i ph s) = sc_results s"
  "sc_inflight (set_phase i ph s) = sc_inflight s"
  "sc_parked (set_phase i ph s) = sc_parked s"
  "sc_completed (set_phase i ph s) = sc_completed s"
  "sc_suspended (set_phase i ph s) = sc_suspended s"
  "sc_procs (set_phase i ph s) =
     map (\<lambda>np. if sn_ID (fst np) = i then (fst np, ph) else np) (sc_procs s)"
  "sc_pending (set_phase i ph s) = sc_pending s"
  "sc_mode (set_phase i ph s) = sc_mode s"
  "sc_emitted (set_phase i ph s) = sc_emitted s"
  by (simp_all add: set_phase_def)

lemma drop_proc_sel [simp]:
  "sc_results (drop_proc i s) = sc_results s"
  "sc_inflight (drop_proc i s) = sc_inflight s"
  "sc_parked (drop_proc i s) = sc_parked s"
  "sc_completed (drop_proc i s) = sc_completed s"
  "sc_suspended (drop_proc i s) = sc_suspended s"
  "sc_procs (drop_proc i s) = filter (\<lambda>np. sn_ID (fst np) \<noteq> i) (sc_procs s)"
  "sc_pending (drop_proc i s) = sc_pending s"
  "sc_mode (drop_proc i s) = sc_mode s"
  "sc_emitted (drop_proc i s) = sc_emitted s"
  by (simp_all add: drop_proc_def)

lemma record_result_sel [simp]:
  "sc_results (record_result i res s) = (sc_results s)(i \<mapsto> settle_status (nr_Status res))"
  "sc_inflight (record_result i res s) = sc_inflight s - {i}"
  "sc_parked (record_result i res s) = sc_parked s"
  "sc_suspended (record_result i res s) = sc_suspended s"
  "sc_procs (record_result i res s) = sc_procs s"
  "sc_pending (record_result i res s) = sc_pending s"
  "sc_mode (record_result i res s) = sc_mode s"
  "sc_emitted (record_result i res s) = sc_emitted s @ [(i, settle_status (nr_Status res))]"
  "sc_completed (record_result i res s) =
     (if settle_status (nr_Status res) = Succeeded
      then sc_completed s \<union> set (nr_Completes res) else sc_completed s)"
  by (simp_all add: record_result_def Let_def)

lemma settle_status_range: "settle_status st \<in> {Succeeded, Failed, Skipped}"
  by (cases st) (auto simp: settle_status_def)

lemma proc_ids_set_phase [simp]: "proc_ids (set_phase i ph s) = proc_ids s"
  by (auto simp: comp_def)

lemma book_inv_drop:
  assumes "book_inv nodes s" and "proc_phase i s = Some Settled"
  shows "book_inv nodes (drop_proc i s)"
proof -
  from proc_phaseD [OF assms(2)] obtain m where m: "(m, Settled) \<in> set (sc_procs s)" "sn_ID m = i"
    by auto
  have only: "p = Settled" if "(n, p) \<in> set (sc_procs s)" "sn_ID n = i" for n p
    using proc_unique [OF assms(1) that(1) m(1)] m(2) that(2) by simp
  show ?thesis
    using assms(1) only unfolding book_inv_def
    by (auto simp: distinct_map_filter)
qed

text \<open>A goroutine that moves to another phase stays the only one with its id.\<close>

lemma set_phase_mem:
  assumes "book_inv nodes s" and "(m, q) \<in> set (sc_procs s)"
  shows "(n, p) \<in> set (sc_procs (set_phase (sn_ID m) ph s)) \<longleftrightarrow>
    (if sn_ID n = sn_ID m then n = m \<and> p = ph else (n, p) \<in> set (sc_procs s))"
proof -
  have inj: "inj_on (\<lambda>np. sn_ID (fst np)) (set (sc_procs s))"
    using assms(1) by (simp add: book_inv_def distinct_map)
  have uniq: "x = (m, q)" if "x \<in> set (sc_procs s)" "sn_ID (fst x) = sn_ID m" for x
    using inj_onD [OF inj, of x "(m, q)"] that assms(2) by simp
  show ?thesis
    using uniq assms(2) by (force simp: image_iff)
qed

lemma book_inv_executing:
  assumes "book_inv nodes s" and "proc_phase i s = Some Waiting"
  shows "book_inv nodes (emit i Running (set_phase i Executing s))"
proof -
  from proc_phaseD [OF assms(2)] obtain m where m: "(m, Waiting) \<in> set (sc_procs s)" "sn_ID m = i"
    by auto
  define t where "t = emit i Running (set_phase i Executing s)"
  have mem: "(n, p) \<in> set (sc_procs t) \<longleftrightarrow>
      (if sn_ID n = i then n = m \<and> p = Executing else (n, p) \<in> set (sc_procs s))" for n p
    using set_phase_mem [OF assms(1) m(1), of n p Executing] m(2) by (simp add: t_def)
  have same: "sc_results t = sc_results s" "sc_inflight t = sc_inflight s" "sc_parked t = sc_parked s"
      "sc_suspended t = sc_suspended s" "proc_ids t = proc_ids s"
    by (simp_all add: t_def comp_def)
  have sub: "fst ` set (sc_procs t) \<subseteq> set nodes"
    using assms(1) by (auto simp: t_def book_inv_def)
  have infl: "j \<in> sc_inflight s \<longleftrightarrow> (\<exists>n p. (n, p) \<in> set (sc_procs t) \<and> sn_ID n = j \<and> p \<noteq> Settled)" for j
  proof (cases "j = i")
    case True
    have "i \<in> sc_inflight s" using assms(1) m by (auto simp: book_inv_def)
    then show ?thesis using True m mem by auto
  next
    case False
    then show ?thesis using assms(1) mem by (auto simp: book_inv_def)
  qed
  have "book_inv nodes t"
    using assms(1) sub infl mem unfolding book_inv_def same by simp
  then show ?thesis by (simp add: t_def)
qed

lemma book_inv_finish:
  assumes "book_inv nodes s" and "proc_phase i s = Some Executing"
  shows "book_inv nodes (set_phase i Settled (record_result i res s))"
proof -
  from proc_phaseD [OF assms(2)] obtain m where m: "(m, Executing) \<in> set (sc_procs s)" "sn_ID m = i"
    by auto
  define t where "t = set_phase i Settled (record_result i res s)"
  have mem: "(n, p) \<in> set (sc_procs t) \<longleftrightarrow>
      (if sn_ID n = i then n = m \<and> p = Settled else (n, p) \<in> set (sc_procs s))" for n p
    using set_phase_mem [OF assms(1) m(1), of n p Settled] m(2) by (simp add: t_def)
  have same: "sc_inflight t = sc_inflight s - {i}" "sc_parked t = sc_parked s"
      "sc_suspended t = sc_suspended s" "proc_ids t = proc_ids s"
      "sc_results t = (sc_results s)(i \<mapsto> settle_status (nr_Status res))"
    by (simp_all add: t_def comp_def)
  have sub: "fst ` set (sc_procs t) \<subseteq> set nodes"
    using assms(1) by (auto simp: t_def book_inv_def)
  have known: "i \<in> known nodes" using assms(1) m by (auto simp: book_inv_def)
  have "i \<in> set (proc_ids s)" using m by force
  moreover have "\<forall>j \<in> sc_parked s. j \<notin> set (proc_ids s)" using assms(1) unfolding book_inv_def by simp
  ultimately have unparked: "i \<notin> sc_parked s" by metis
  have infl: "j \<in> sc_inflight s - {i} \<longleftrightarrow>
      (\<exists>n p. (n, p) \<in> set (sc_procs t) \<and> sn_ID n = j \<and> p \<noteq> Settled)" for j
    using assms(1) mem by (auto simp: book_inv_def)
  have ran: "ran ((sc_results s)(i \<mapsto> settle_status (nr_Status res))) \<subseteq> {Succeeded, Failed, Skipped}"
    using assms(1) settle_status_range [of "nr_Status res"] by (auto simp: book_inv_def ran_def)
  have "book_inv nodes t"
    using assms(1) sub infl mem known unparked ran unfolding book_inv_def same
    by (auto split: if_splits)
  then show ?thesis by (simp add: t_def)
qed

lemma book_inv_only_control:
  "book_inv nodes s \<Longrightarrow> book_inv nodes (s\<lparr>sc_pending := k\<rparr>)"
  "book_inv nodes s \<Longrightarrow> book_inv nodes (s\<lparr>sc_mode := md\<rparr>)"
  by (simp_all add: book_inv_def)

lemma book_inv_step:
  assumes "sched_step nodes c e s = Some t" and "book_inv nodes s"
  shows "book_inv nodes t"
proof (cases e)
  case (Acquire i)
  with assms show ?thesis by (auto intro: book_inv_executing split: if_splits)
next
  case (Finish i res)
  with assms show ?thesis by (auto intro: book_inv_finish split: if_splits)
next
  case (Receive i)
  with assms obtain u l where u: "sweep nodes (drop_proc i s) 0 = (u, l)"
      "t = u\<lparr>sc_pending := sc_pending s - 1 + l\<rparr>" "proc_phase i s = Some Settled"
    by (auto split: if_splits prod.splits)
  have "book_inv nodes u" by (rule book_inv_sweep [OF book_inv_drop [OF assms(2) u(3)] u(1)])
  with u(2) show ?thesis by (simp add: book_inv_only_control)
next
  case CtxDone
  with assms show ?thesis by (auto intro: book_inv_only_control split: if_splits)
next
  case (Drain i)
  with assms show ?thesis by (auto intro: book_inv_only_control book_inv_drop split: if_splits)
next
  case Return
  with assms show ?thesis by (auto intro: book_inv_only_control split: if_splits loop_mode.splits)
qed

lemma book_inv_empty [simp]: "book_inv nodes empty_sched"
  by (simp add: book_inv_def empty_sched_def)

lemma book_inv_init: "book_inv nodes (schedule_init nodes)"
proof (cases "nodes = []")
  case True
  then show ?thesis by (simp add: schedule_init_def book_inv_only_control)
next
  case False
  obtain u l where u: "sweep nodes empty_sched 0 = (u, l)" by (cases "sweep nodes empty_sched 0")
  from book_inv_sweep [OF book_inv_empty u] False u show ?thesis
    by (simp add: schedule_init_def book_inv_only_control)
qed

lemma book_inv_reach: "sched_reach nodes c s \<Longrightarrow> book_inv nodes s"
  by (induction rule: sched_reach.induct) (auto intro: book_inv_init book_inv_step)

text \<open>Results and reports only grow.\<close>

lemma step_grows:
  assumes "sched_step nodes c e s = Some t" and "book_inv nodes s"
  shows "sc_results s \<subseteq>\<^sub>m sc_results t \<and> (\<exists>es. sc_emitted t = sc_emitted s @ es)"
proof (cases e)
  case (Finish i res)
  with assms(1) have *: "proc_phase i s = Some Executing" "t = set_phase i Settled (record_result i res s)"
    by (auto split: if_splits)
  from proc_phaseD [OF *(1)] obtain m where m: "(m, Executing) \<in> set (sc_procs s)" "sn_ID m = i" by auto
  have "i \<in> sc_inflight s" using assms(2) m by (auto simp: book_inv_def)
  then have "sc_results s i = None" using assms(2) by (simp add: book_inv_def)
  then show ?thesis by (auto simp: *(2) map_le_def)
next
  case (Receive i)
  with assms obtain u l where u: "sweep nodes (drop_proc i s) 0 = (u, l)"
      "t = u\<lparr>sc_pending := sc_pending s - 1 + l\<rparr>"
    by (auto split: if_splits prod.splits)
  with sweep_frame [OF u(1)] show ?thesis by (auto simp: sweep_frame_def)
qed (use assms in \<open>auto split: if_splits loop_mode.splits\<close>)

end
