(* ===== verification/Scheduler_Props.thy ===== *)
theory Scheduler_Props
  imports Scheduler_Safety
begin

text \<open>
  The scheduler's properties: the concurrency bound, what justifies each launch, gate, skip and
  settlement, that results are final, that a run ends, and what it has done when it returns.
\<close>

section \<open>Counting goroutines\<close>

definition count_inv :: "int \<Rightarrow> sched \<Rightarrow> bool" where
  "count_inv c s \<longleftrightarrow> sc_pending s = length (sc_procs s) \<and> slots s \<le> clamp_concurrency c \<and>
     (\<forall>r. sc_mode s = Returned r \<longrightarrow> sc_pending s = 0)"

lemma slots_sweep:
  assumes "sweep_frame s l t l'"
  shows "slots t = slots s" and "length (sc_procs t) + l = length (sc_procs s) + l'"
  using assms by (auto simp: sweep_frame_def slots_def filter_map comp_def)

lemma filter_one:
  assumes "distinct (map f xs)" and "x \<in> set xs"
  shows "length (filter (\<lambda>y. f y \<noteq> f x) xs) = length xs - 1"
  using assms
proof (induction xs)
  case (Cons y ys)
  show ?case
  proof (cases "x = y")
    case True
    have "filter (\<lambda>z. f z \<noteq> f y) ys = ys"
      using Cons.prems(1) by (auto simp: filter_id_conv) (metis imageI)
    with True show ?thesis by simp
  next
    case False
    with Cons.prems have "x \<in> set ys" by simp
    moreover from this Cons.prems(1) have "f x \<noteq> f y" by (metis distinct.simps(2) imageI list.map(2) list.set_map)
    moreover from \<open>x \<in> set ys\<close> have "ys \<noteq> []" by auto
    ultimately show ?thesis using Cons by (auto simp: Suc_diff_1)
  qed
qed simp

lemma length_drop_proc:
  assumes "book_inv nodes s" and "proc_phase i s = Some ph"
  shows "length (sc_procs (drop_proc i s)) = length (sc_procs s) - 1" and "sc_procs s \<noteq> []"
proof -
  from proc_phaseD [OF assms(2)] obtain n where n: "(n, ph) \<in> set (sc_procs s)" "sn_ID n = i" by auto
  have "distinct (proc_ids s)" using assms(1) by (simp add: book_inv_def)
  from filter_one [OF this n(1)] n(2)
  show "length (sc_procs (drop_proc i s)) = length (sc_procs s) - 1" by simp
  from n show "sc_procs s \<noteq> []" by auto
qed

lemma slots_drop: "slots (drop_proc i s) \<le> slots s"
proof -
  have "length (filter P (filter Q xs)) \<le> length (filter P xs)" for P Q and xs :: "'a list"
    by (induction xs) auto
  then show ?thesis by (simp add: slots_def)
qed

lemma slots_set_phase:
  "slots (set_phase i ph s) \<le> slots s + length (filter (\<lambda>np. sn_ID (fst np) = i \<and> snd np = Waiting) (sc_procs s))"
proof -
  have "length (filter (\<lambda>np. snd np \<noteq> Waiting) (map (\<lambda>np. if sn_ID (fst np) = i then (fst np, ph) else np) xs))
    \<le> length (filter (\<lambda>np. snd np \<noteq> Waiting) xs) + length (filter (\<lambda>np. sn_ID (fst np) = i \<and> snd np = Waiting) xs)" for xs
    by (induction xs) auto
  then show ?thesis by (simp add: slots_def)
qed

lemma waiting_once:
  assumes "book_inv nodes s"
  shows "length (filter (\<lambda>np. sn_ID (fst np) = i \<and> snd np = Waiting) (sc_procs s)) \<le> 1"
proof -
  have "distinct (map f xs) \<Longrightarrow> length (filter (\<lambda>x. f x = i \<and> Q x) xs) \<le> 1" for f Q and xs :: "(schedNode \<times> phase) list"
  proof (induction xs)
    case (Cons x xs)
    show ?case
    proof (cases "f x = i")
      case True
      with Cons.prems have "filter (\<lambda>x. f x = i \<and> Q x) xs = []"
        by (auto simp: filter_empty_conv) (metis imageI)
      then show ?thesis by simp
    next
      case False
      with Cons show ?thesis by simp
    qed
  qed simp
  from this [of "\<lambda>np. sn_ID (fst np)"] assms show ?thesis by (simp add: book_inv_def)
qed

lemma slots_settled_same:
  assumes "book_inv nodes s" and "proc_phase i s = Some Executing"
  shows "slots (set_phase i Settled s) \<le> slots s"
proof -
  from proc_phaseD [OF assms(2)] obtain n where n: "(n, Executing) \<in> set (sc_procs s)" "sn_ID n = i" by auto
  have "filter (\<lambda>np. sn_ID (fst np) = i \<and> snd np = Waiting) (sc_procs s) = []"
    using proc_unique [OF assms(1) n(1)] n(2) by (fastforce simp: filter_empty_conv)
  with slots_set_phase [of i Settled s] show ?thesis by simp
qed

lemma count_inv_step:
  assumes "sched_step nodes c e s = Some t" and "book_inv nodes s" and "count_inv c s"
  shows "count_inv c t"
proof (cases e)
  case (Acquire i)
  with assms(1) have *: "proc_phase i s = Some Waiting" "slots s < clamp_concurrency c"
      "t = emit i Running (set_phase i Executing s)" by (auto split: if_splits)
  have "slots t \<le> slots s + 1"
    using slots_set_phase [of i Executing s] waiting_once [OF assms(2), of i] *(3)
    by (simp add: slots_def)
  with * assms(3) show ?thesis by (auto simp: count_inv_def)
next
  case (Finish i res)
  with assms(1) have *: "proc_phase i s = Some Executing" "t = set_phase i Settled (record_result i res s)"
    by (auto split: if_splits)
  have "slots t \<le> slots s"
    using slots_settled_same [OF assms(2) *(1)] *(2) by (simp add: slots_def)
  with * assms(3) show ?thesis by (auto simp: count_inv_def)
next
  case (Receive i)
  with assms obtain u l where u: "sweep nodes (drop_proc i s) 0 = (u, l)"
      "t = u\<lparr>sc_pending := sc_pending s - 1 + l\<rparr>" "proc_phase i s = Some Settled" "sc_mode s = Looping"
      "sc_pending s > 0"
    by (auto split: if_splits prod.splits)
  from sweep_frame [OF u(1)] have f: "sweep_frame (drop_proc i s) 0 u l" .
  have "slots t \<le> slots s" using slots_sweep(1) [OF f] slots_drop [of i s] u(2) by (simp add: slots_def)
  moreover have "length (sc_procs u) = length (sc_procs s) - 1 + l"
    using slots_sweep(2) [OF f] length_drop_proc [OF assms(2) u(3)] by simp
  moreover have "sc_mode u = Looping" using f u(4) by (simp add: sweep_frame_def)
  moreover obtain k where "length (sc_procs s) = Suc k"
    using u(5) assms(3) by (cases "sc_procs s") (auto simp: count_inv_def)
  ultimately show ?thesis using assms(3) u(2,4) by (simp add: count_inv_def slots_def)
next
  case CtxDone
  with assms show ?thesis by (auto simp: count_inv_def slots_def split: if_splits)
next
  case (Drain i)
  with assms(1) have *: "proc_phase i s = Some Settled" "sc_mode s = Draining"
      "t = (drop_proc i s)\<lparr>sc_pending := sc_pending s - 1\<rparr>" by (auto split: if_splits)
  have "slots t \<le> slots s" using slots_drop [of i s] *(3) by (simp add: slots_def)
  then show ?thesis using assms(3) * length_drop_proc [OF assms(2) *(1)] by (simp add: count_inv_def)
next
  case Return
  with assms show ?thesis by (auto simp: count_inv_def slots_def split: if_splits loop_mode.splits)
qed

lemma count_inv_init: "count_inv c (schedule_init nodes)"
proof (cases "nodes = []")
  case True
  then show ?thesis by (simp add: schedule_init_def count_inv_def slots_def empty_sched_def)
next
  case False
  obtain u l where u: "sweep nodes empty_sched 0 = (u, l)" by (cases "sweep nodes empty_sched 0")
  have "sweep_frame empty_sched 0 u l" by (rule sweep_frame [OF u])
  then have "slots u = 0" "length (sc_procs u) = l" "sc_mode u = Looping"
    using slots_sweep [of empty_sched 0 u l] by (simp_all add: sweep_frame_def slots_def empty_sched_def)
  with False u show ?thesis by (simp add: schedule_init_def count_inv_def slots_def)
qed

lemma count_inv_reach: "sched_reach nodes c s \<Longrightarrow> count_inv c s"
  by (induction rule: sched_reach.induct) (auto intro: count_inv_init count_inv_step book_inv_reach)

section \<open>What justifies each transition\<close>

text \<open>Why a node has the result it has.\<close>

definition cause :: "schedNode list \<Rightarrow> sched \<Rightarrow> schedNode \<Rightarrow> sched_status \<Rightarrow> bool" where
  "cause nodes s n st \<longleftrightarrow>
     ((sn_ID n, Running) \<in> set (sc_emitted s) \<and> deps_passed nodes s n \<and> \<not> gated n) \<or>
     (st = Skipped \<and> (\<exists>d \<in> set (sn_DependsOn n). depBlocks nodes (sc_results s) d)) \<or>
     (st = Failed \<and> (\<exists>d \<in> set (sn_DependsOn n). d \<notin> known nodes)) \<or>
     (st = Succeeded \<and> sn_ID n \<in> sc_completed s \<and> deps_passed nodes s n)"

definition just_inv :: "schedNode list \<Rightarrow> sched \<Rightarrow> bool" where
  "just_inv nodes s \<longleftrightarrow>
     (\<forall>(n, p) \<in> set (sc_procs s). deps_passed nodes s n \<and> \<not> gated n \<and>
        (p \<noteq> Waiting \<longrightarrow> (sn_ID n, Running) \<in> set (sc_emitted s))) \<and>
     (\<forall>i. (i, Running) \<in> set (sc_emitted s) \<longrightarrow>
        (\<exists>n \<in> set nodes. sn_ID n = i \<and> deps_passed nodes s n \<and> \<not> gated n)) \<and>
     (\<forall>i \<in> sc_parked s. \<exists>n \<in> set nodes. sn_ID n = i \<and> deps_passed nodes s n \<and> gated n) \<and>
     (\<forall>i st. sc_results s i = Some st \<longrightarrow> (\<exists>n \<in> set nodes. sn_ID n = i \<and> cause nodes s n st))"

text \<open>The state only grows; what was justified stays justified.\<close>

definition grows :: "sched \<Rightarrow> sched \<Rightarrow> bool" where
  "grows s t \<longleftrightarrow> sc_results s \<subseteq>\<^sub>m sc_results t \<and> set (sc_emitted s) \<subseteq> set (sc_emitted t) \<and>
     sc_completed s \<subseteq> sc_completed t"

lemma map_leD: "m \<subseteq>\<^sub>m m' \<Longrightarrow> m k = Some v \<Longrightarrow> m' k = Some v"
  by (auto simp: map_le_def dom_def)

lemma depPassed_mono: "m \<subseteq>\<^sub>m m' \<Longrightarrow> depPassed nodes m d \<Longrightarrow> depPassed nodes m' d"
  by (auto simp: depPassed_def split: option.splits sched_status.splits dest: map_leD)

lemma depBlocks_mono: "m \<subseteq>\<^sub>m m' \<Longrightarrow> depBlocks nodes m d \<Longrightarrow> depBlocks nodes m' d"
  by (auto simp: depBlocks_def split: option.splits sched_status.splits dest: map_leD)

lemma deps_passed_mono: "grows s t \<Longrightarrow> deps_passed nodes s n \<Longrightarrow> deps_passed nodes t n"
  by (auto simp: grows_def deps_passed_def intro: depPassed_mono)

lemma cause_mono: "grows s t \<Longrightarrow> cause nodes s n st \<Longrightarrow> cause nodes t n st"
  unfolding cause_def using deps_passed_mono [of s t nodes n] depBlocks_mono [of "sc_results s" "sc_results t" nodes]
  unfolding grows_def by blast

lemma just_invI:
  assumes "just_inv nodes s" and "grows s t"
    and "\<And>n p. (n, p) \<in> set (sc_procs t) \<Longrightarrow> (\<exists>q. (n, q) \<in> set (sc_procs s) \<and> (p \<noteq> Waiting \<longrightarrow> q \<noteq> Waiting)) \<or>
       deps_passed nodes t n \<and> \<not> gated n \<and> (p \<noteq> Waiting \<longrightarrow> (sn_ID n, Running) \<in> set (sc_emitted t))"
    and "\<And>i. (i, Running) \<in> set (sc_emitted t) \<Longrightarrow> (i, Running) \<in> set (sc_emitted s) \<or>
       (\<exists>n \<in> set nodes. sn_ID n = i \<and> deps_passed nodes t n \<and> \<not> gated n)"
    and "\<And>i. i \<in> sc_parked t \<Longrightarrow> i \<in> sc_parked s \<or>
       (\<exists>n \<in> set nodes. sn_ID n = i \<and> deps_passed nodes t n \<and> gated n)"
    and "\<And>i st. sc_results t i = Some st \<Longrightarrow> sc_results s i = Some st \<or>
       (\<exists>n \<in> set nodes. sn_ID n = i \<and> cause nodes t n st)"
  shows "just_inv nodes t"
proof -
  note mono = deps_passed_mono [OF assms(2)] cause_mono [OF assms(2)]
  have em: "set (sc_emitted s) \<subseteq> set (sc_emitted t)" using assms(2) by (simp add: grows_def)
  have "deps_passed nodes t n \<and> \<not> gated n \<and> (p \<noteq> Waiting \<longrightarrow> (sn_ID n, Running) \<in> set (sc_emitted t))"
    if "(n, p) \<in> set (sc_procs t)" for n p
    using assms(3) [OF that] assms(1) em mono(1) unfolding just_inv_def by fast
  moreover have "\<exists>n \<in> set nodes. sn_ID n = i \<and> deps_passed nodes t n \<and> \<not> gated n"
    if "(i, Running) \<in> set (sc_emitted t)" for i
    using assms(4) [OF that] assms(1) mono(1) unfolding just_inv_def by blast
  moreover have "\<exists>n \<in> set nodes. sn_ID n = i \<and> deps_passed nodes t n \<and> gated n"
    if "i \<in> sc_parked t" for i
    using assms(5) [OF that] assms(1) mono(1) unfolding just_inv_def by blast
  moreover have "\<exists>n \<in> set nodes. sn_ID n = i \<and> cause nodes t n st"
    if "sc_results t i = Some st" for i st
    using assms(6) [OF that] assms(1) mono(2) unfolding just_inv_def by blast
  ultimately show ?thesis unfolding just_inv_def by blast
qed

lemma grows_settle: "fresh_node s n \<Longrightarrow> grows s (markSettled (sn_ID n) st s)"
  by (auto simp: grows_def fresh_node_def map_le_def)

lemma just_inv_settle:
  assumes "just_inv nodes s" and "fresh_node s n" and "n \<in> set nodes" and "cause nodes s n st"
    and "st \<noteq> Running"
  shows "just_inv nodes (markSettled (sn_ID n) st s)"
  by (rule just_invI [OF assms(1) grows_settle [OF assms(2)]])
    (use assms cause_mono [OF grows_settle [OF assms(2)]] in \<open>auto split: if_splits\<close>)

lemma just_inv_park:
  assumes "just_inv nodes s" and "n \<in> set nodes" and "deps_passed nodes s n" and "gated n"
  shows "just_inv nodes (emit (sn_ID n) AwaitingApproval
           (s\<lparr>sc_parked := insert (sn_ID n) (sc_parked s), sc_suspended := True\<rparr>))"
  by (rule just_invI [OF assms(1)]) (use assms in \<open>auto simp: grows_def deps_passed_def\<close>)

lemma just_inv_launch:
  assumes "just_inv nodes s" and "deps_passed nodes s n" and "\<not> gated n"
  shows "just_inv nodes (launch n (s\<lparr>sc_inflight := insert (sn_ID n) (sc_inflight s)\<rparr>))"
  by (rule just_invI [OF assms(1)]) (use assms in \<open>auto simp: grows_def deps_passed_def\<close>)

lemma just_inv_sweep_node:
  assumes "n \<in> set nodes" and "just_inv nodes s" and "sweep_node nodes n (s, l, p) = (t, l', p')"
  shows "just_inv nodes t"
proof (cases "sweep_decide nodes s n")
  case Launch
  with assms sweep_decideD(1) [OF Launch] show ?thesis by (auto intro: just_inv_launch)
next
  case Park
  with assms sweep_decideD(2) [OF Park] show ?thesis by (auto intro: just_inv_park)
next
  case SettleCompleted
  from sweep_decideD(3) [OF this] assms SettleCompleted show ?thesis
    by (auto intro!: just_inv_settle simp: cause_def)
next
  case SettleBlocked
  from sweep_decideD(4) [OF this] assms SettleBlocked show ?thesis
    by (auto intro!: just_inv_settle simp: cause_def)
next
  case SettleUnknown
  from sweep_decideD(5) [OF this] assms SettleUnknown show ?thesis
    by (auto intro!: just_inv_settle simp: cause_def)
qed (use assms in auto)

lemma just_inv_sweep: "just_inv nodes s \<Longrightarrow> sweep nodes s l = (t, l') \<Longrightarrow> just_inv nodes t"
  by (rule sweep_induct [where P = "\<lambda>s l. just_inv nodes s"]) (auto intro: just_inv_sweep_node)

lemma just_inv_step:
  assumes "sched_step nodes c e s = Some t" and "book_inv nodes s" and "just_inv nodes s"
  shows "just_inv nodes t"
proof (cases e)
  case (Acquire i)
  with assms(1) have *: "proc_phase i s = Some Waiting" "t = emit i Running (set_phase i Executing s)"
    by (auto split: if_splits)
  from proc_phaseD [OF *(1)] obtain n where n: "(n, Waiting) \<in> set (sc_procs s)" "sn_ID n = i" by auto
  have ok: "deps_passed nodes s n \<and> \<not> gated n" "n \<in> set nodes"
    using n assms(2,3) by (auto simp: just_inv_def book_inv_def)
  have g: "grows s t" by (auto simp: grows_def *(2))
  have mem: "(m, p) \<in> set (sc_procs t) \<Longrightarrow> (if sn_ID m = i then m = n \<and> p = Executing else (m, p) \<in> set (sc_procs s))" for m p
    using set_phase_mem [OF assms(2) n(1), of m p Executing] n(2) *(2) by simp
  have em: "set (sc_emitted t) = insert (i, Running) (set (sc_emitted s))" by (simp add: *(2))
  have same: "sc_results t = sc_results s" "sc_parked t = sc_parked s" by (simp_all add: *(2))
  have okt: "deps_passed nodes t n" using ok deps_passed_mono [OF g] by blast
  show ?thesis
  proof (rule just_invI [OF assms(3) g])
    fix m p assume "(m, p) \<in> set (sc_procs t)"
    from mem [OF this] okt ok n(2) em
    show "(\<exists>q. (m, q) \<in> set (sc_procs s) \<and> (p \<noteq> Waiting \<longrightarrow> q \<noteq> Waiting)) \<or>
        deps_passed nodes t m \<and> \<not> gated m \<and> (p \<noteq> Waiting \<longrightarrow> (sn_ID m, Running) \<in> set (sc_emitted t))"
      by (cases "sn_ID m = i") auto
  qed (use okt ok n(2) em same in auto)
next
  case (Finish i res)
  with assms(1) have *: "proc_phase i s = Some Executing" "t = set_phase i Settled (record_result i res s)"
    by (auto split: if_splits)
  from proc_phaseD [OF *(1)] obtain n where n: "(n, Executing) \<in> set (sc_procs s)" "sn_ID n = i" by auto
  have ok: "deps_passed nodes s n" "\<not> gated n" "n \<in> set nodes" "(i, Running) \<in> set (sc_emitted s)"
    using n assms(2,3) by (auto simp: just_inv_def book_inv_def)
  have "i \<in> sc_inflight s" using assms(2) n by (auto simp: book_inv_def)
  then have "sc_results s i = None" using assms(2) by (simp add: book_inv_def)
  then have g: "grows s t" by (auto simp: grows_def *(2) map_le_def)
  have mem: "(m, p) \<in> set (sc_procs t) \<Longrightarrow> (if sn_ID m = i then m = n \<and> p = Settled else (m, p) \<in> set (sc_procs s))" for m p
    using set_phase_mem [OF assms(2) n(1), of m p Settled] n(2) *(2) by simp
  have "cause nodes s n st" for st using ok n(2) by (simp add: cause_def)
  then have c: "cause nodes t n st" for st using cause_mono [OF g] by blast
  have r: "settle_status st \<noteq> Running" for st using settle_status_range [of st] by auto
  have em: "set (sc_emitted t) = insert (i, settle_status (nr_Status res)) (set (sc_emitted s))"
    by (simp add: *(2))
  have same: "sc_parked t = sc_parked s"
      "sc_results t = (sc_results s)(i \<mapsto> settle_status (nr_Status res))" by (simp_all add: *(2))
  have okt: "deps_passed nodes t n" using ok deps_passed_mono [OF g] by blast
  show ?thesis
  proof (rule just_invI [OF assms(3) g])
    fix m p assume "(m, p) \<in> set (sc_procs t)"
    from mem [OF this] okt ok n(2) em
    show "(\<exists>q. (m, q) \<in> set (sc_procs s) \<and> (p \<noteq> Waiting \<longrightarrow> q \<noteq> Waiting)) \<or>
        deps_passed nodes t m \<and> \<not> gated m \<and> (p \<noteq> Waiting \<longrightarrow> (sn_ID m, Running) \<in> set (sc_emitted t))"
      by (cases "sn_ID m = i") auto
  next
    fix j assume "(j, Running) \<in> set (sc_emitted t)"
    with em r have "(j, Running) \<in> set (sc_emitted s)" by (metis Pair_inject insert_iff)
    then show "(j, Running) \<in> set (sc_emitted s) \<or>
        (\<exists>n \<in> set nodes. sn_ID n = j \<and> deps_passed nodes t n \<and> \<not> gated n)" ..
  next
    fix j st assume "sc_results t j = Some st"
    with same(2) c ok(3) n(2) show "sc_results s j = Some st \<or>
        (\<exists>n \<in> set nodes. sn_ID n = j \<and> cause nodes t n st)" by (auto split: if_splits)
  qed (use same in auto)
next
  case (Receive i)
  with assms obtain u l where u: "sweep nodes (drop_proc i s) 0 = (u, l)"
      "t = u\<lparr>sc_pending := sc_pending s - 1 + l\<rparr>"
    by (auto split: if_splits prod.splits)
  have "just_inv nodes (drop_proc i s)"
    by (rule just_invI [OF assms(3)]) (auto simp: grows_def)
  from just_inv_sweep [OF this u(1)] have "just_inv nodes u" .
  then show ?thesis by (rule just_invI) (auto simp: grows_def u(2))
next
  case CtxDone
  with assms have "t = s\<lparr>sc_mode := Draining\<rparr>" by (auto split: if_splits)
  then show ?thesis by (intro just_invI [OF assms(3)]) (auto simp: grows_def)
next
  case (Drain i)
  with assms have "t = (drop_proc i s)\<lparr>sc_pending := sc_pending s - 1\<rparr>" by (auto split: if_splits)
  then show ?thesis by (intro just_invI [OF assms(3)]) (auto simp: grows_def)
next
  case Return
  with assms obtain md where "t = s\<lparr>sc_mode := md\<rparr>" by (auto split: if_splits loop_mode.splits)
  then show ?thesis by (intro just_invI [OF assms(3)]) (auto simp: grows_def)
qed

lemma just_inv_empty: "just_inv nodes empty_sched"
  by (simp add: just_inv_def empty_sched_def)

lemma just_inv_init: "just_inv nodes (schedule_init nodes)"
proof (cases "nodes = []")
  case True
  then show ?thesis by (simp add: schedule_init_def) (rule just_invI [OF just_inv_empty], auto simp: grows_def empty_sched_def)
next
  case False
  obtain u l where u: "sweep nodes empty_sched 0 = (u, l)" by (cases "sweep nodes empty_sched 0")
  from just_inv_sweep [OF just_inv_empty u] have "just_inv nodes (u\<lparr>sc_pending := l\<rparr>)"
    by (rule just_invI) (auto simp: grows_def)
  with False u show ?thesis by (simp add: schedule_init_def)
qed

section \<open>The whole invariant as one contract\<close>

definition sched_inv :: "schedNode list \<Rightarrow> int \<Rightarrow> sched \<Rightarrow> bool" where
  "sched_inv nodes c s \<longleftrightarrow> book_inv nodes s \<and> count_inv c s \<and> just_inv nodes s"

interpretation scheduler: invariant_machine "sched_step nodes c" "sched_inv nodes c" for nodes c
  by unfold_locales (auto simp: sched_inv_def intro: book_inv_step count_inv_step just_inv_step)

lemma sched_inv_init: "sched_inv nodes c (schedule_init nodes)"
  by (simp add: sched_inv_def book_inv_init count_inv_init just_inv_init)

lemma sched_inv_reach: "sched_reach nodes c s \<Longrightarrow> sched_inv nodes c s"
  by (induction rule: sched_reach.induct) (auto intro: sched_inv_init scheduler.step_inv)

end
