(* ===== verification/Scheduler_Live.thy ===== *)
theory Scheduler_Live
  imports Scheduler_Props
begin

text \<open>
  Termination of a call of \<open>schedule\<close> (every step uses up work, and until it returns some step
  is possible) and what the graph looks like when it returns.
\<close>

section \<open>The work left\<close>

fun phase_work :: "phase \<Rightarrow> nat" where
  "phase_work Waiting = 3"
| "phase_work Executing = 2"
| "phase_work Settled = 1"

fun mode_work :: "loop_mode \<Rightarrow> nat" where
  "mode_work Looping = 2"
| "mode_work Draining = 1"
| "mode_work (Returned r) = 0"

definition proc_work :: "sched \<Rightarrow> nat" where
  "proc_work s = sum_list (map (\<lambda>np. phase_work (snd np)) (sc_procs s))"

definition sched_work :: "schedNode list \<Rightarrow> sched \<Rightarrow> nat" where
  "sched_work nodes s =
     4 * card (open_ids nodes s - sc_inflight s) + proc_work s + mode_work (sc_mode s)"

lemma card_less_one:
  assumes "finite A" and "B \<subseteq> A - {x}" and "x \<in> A"
  shows "card B + 1 \<le> card A"
proof -
  have "card B \<le> card (A - {x})" using assms by (intro card_mono) auto
  moreover have "card (A - {x}) + 1 = card A" using card_Suc_Diff1 [OF assms(1,3)] by simp
  ultimately show ?thesis by simp
qed

lemma sweep_node_work:
  assumes "n \<in> set nodes" and "sweep_node nodes n (s, l, p) = (t, l', p')"
  shows "sched_work nodes t \<le> sched_work nodes s"
proof (cases "sweep_decide nodes s n = Keep")
  case True
  with assms show ?thesis by simp
next
  case False
  let ?A = "open_ids nodes s - sc_inflight s"
  have "fresh_node s n" using False sweep_decideD [of nodes s n] by (cases "sweep_decide nodes s n") auto
  then have inA: "sn_ID n \<in> ?A" using assms(1) by (auto simp: fresh_node_def open_ids_def)
  have "open_ids nodes t - sc_inflight t \<subseteq> ?A - {sn_ID n}"
    using assms(2) False by (cases "sweep_decide nodes s n") (auto simp: open_ids_def split: if_splits)
  from card_less_one [OF _ this inA] have "card (open_ids nodes t - sc_inflight t) + 1 \<le> card ?A" by simp
  moreover have "proc_work t \<le> proc_work s + 3" "sc_mode t = sc_mode s"
    using assms(2) False by (cases "sweep_decide nodes s n"; auto simp: proc_work_def)+
  ultimately show ?thesis by (simp add: sched_work_def)
qed

lemma sweep_work: "sweep nodes s l = (t, l') \<Longrightarrow> sched_work nodes t \<le> sched_work nodes s"
  by (rule sweep_induct [where P = "\<lambda>t l. sched_work nodes t \<le> sched_work nodes s"])
    (auto intro: order_trans [OF sweep_node_work])

lemma proc_work_set_phase:
  assumes "book_inv nodes s" and "proc_phase i s = Some ph"
  shows "proc_work (set_phase i ph' s) + phase_work ph = proc_work s + phase_work ph'"
proof -
  from proc_phaseD [OF assms(2)] obtain n where n: "(n, ph) \<in> set (sc_procs s)" "sn_ID n = i" by auto
  have "distinct (map (\<lambda>np. sn_ID (fst np)) xs) \<Longrightarrow> (n, ph) \<in> set xs \<Longrightarrow>
     sum_list (map (\<lambda>np. phase_work (snd np)) (map (\<lambda>np. if sn_ID (fst np) = i then (fst np, ph') else np) xs)) + phase_work ph =
     sum_list (map (\<lambda>np. phase_work (snd np)) xs) + phase_work ph'" for xs
  proof (induction xs)
    case (Cons x xs)
    show ?case
    proof (cases "x = (n, ph)")
      case True
      with Cons.prems n(2) have "\<forall>y \<in> set xs. sn_ID (fst y) \<noteq> i" by (auto simp: image_iff)
      then have "map (\<lambda>np. if sn_ID (fst np) = i then (fst np, ph') else np) xs = xs"
        by (intro map_idI) auto
      with True n(2) show ?thesis by simp
    next
      case False
      with Cons.prems n(2) have "(n, ph) \<in> set xs" "sn_ID (fst x) \<noteq> i" by (auto simp: image_iff)
      with Cons show ?thesis by simp
    qed
  qed simp
  from this [of "sc_procs s"] n(1) assms(1) show ?thesis
    by (simp add: proc_work_def book_inv_def)
qed

lemma proc_work_drop:
  assumes "proc_phase i s = Some Settled"
  shows "proc_work (drop_proc i s) + 1 \<le> proc_work s"
proof -
  from proc_phaseD [OF assms] obtain n where n: "(n, Settled) \<in> set (sc_procs s)" "sn_ID n = i" by auto
  have "(n, Settled) \<in> set xs \<Longrightarrow>
     sum_list (map (\<lambda>np. phase_work (snd np)) (filter (\<lambda>np. sn_ID (fst np) \<noteq> i) xs)) + 1 \<le>
     sum_list (map (\<lambda>np. phase_work (snd np)) xs)" for xs
  proof (induction xs)
    case (Cons x xs)
    have "sum_list (map (\<lambda>np. phase_work (snd np)) (filter (\<lambda>np. sn_ID (fst np) \<noteq> i) xs)) \<le>
        sum_list (map (\<lambda>np. phase_work (snd np)) xs)"
      by (rule sum_list_filter_le_nat)
    with Cons n(2) show ?case by (cases "x = (n, Settled)") auto
  qed simp
  from this [OF n(1)] show ?thesis by (simp add: proc_work_def)
qed

lemma sched_step_work:
  assumes "sched_step nodes c e s = Some t" and "book_inv nodes s"
  shows "sched_work nodes t < sched_work nodes s"
proof (cases e)
  case (Acquire i)
  with assms(1) have *: "proc_phase i s = Some Waiting" "t = emit i Running (set_phase i Executing s)"
    by (auto split: if_splits)
  from proc_work_set_phase [OF assms(2) *(1), of Executing] have "proc_work t + 1 = proc_work s"
    by (simp add: *(2) proc_work_def)
  then show ?thesis by (simp add: sched_work_def *(2) open_ids_def)
next
  case (Finish i res)
  with assms(1) have *: "proc_phase i s = Some Executing" "t = set_phase i Settled (record_result i res s)"
    by (auto split: if_splits)
  from proc_phaseD [OF *(1)] obtain n where n: "(n, Executing) \<in> set (sc_procs s)" "sn_ID n = i" by auto
  have "open_ids nodes t - sc_inflight t \<subseteq> open_ids nodes s - sc_inflight s"
    by (auto simp: *(2) open_ids_def split: if_splits)
  then have "card (open_ids nodes t - sc_inflight t) \<le> card (open_ids nodes s - sc_inflight s)"
    by (intro card_mono) auto
  moreover from proc_work_set_phase [OF assms(2) *(1), of Settled] have "proc_work t + 1 = proc_work s"
    by (simp add: *(2) proc_work_def)
  ultimately show ?thesis by (simp add: sched_work_def *(2))
next
  case (Receive i)
  with assms obtain u l where u: "sweep nodes (drop_proc i s) 0 = (u, l)"
      "t = u\<lparr>sc_pending := sc_pending s - 1 + l\<rparr>" "proc_phase i s = Some Settled"
    by (auto split: if_splits prod.splits)
  have "sched_work nodes t = sched_work nodes u" by (simp add: u(2) sched_work_def proc_work_def open_ids_def)
  also have "\<dots> \<le> sched_work nodes (drop_proc i s)" by (rule sweep_work [OF u(1)])
  also have "\<dots> < sched_work nodes s"
    using proc_work_drop [OF u(3)] by (simp add: sched_work_def open_ids_def)
  finally show ?thesis .
next
  case CtxDone
  with assms show ?thesis by (auto simp: sched_work_def open_ids_def proc_work_def split: if_splits)
next
  case (Drain i)
  with assms(1) have *: "proc_phase i s = Some Settled" "t = (drop_proc i s)\<lparr>sc_pending := sc_pending s - 1\<rparr>"
    by (auto split: if_splits)
  from proc_work_drop [OF *(1)] show ?thesis
    by (simp add: sched_work_def open_ids_def *(2) proc_work_def)
next
  case Return
  with assms show ?thesis
    by (auto simp: sched_work_def open_ids_def proc_work_def split: if_splits loop_mode.splits)
qed

lemma sched_exec_work:
  assumes "sched_exec nodes c es s = Some t" and "sched_inv nodes c s"
  shows "sched_work nodes t + length es \<le> sched_work nodes s" and "sched_inv nodes c t"
  using assms
proof (induction es arbitrary: s)
  case Nil
  { case 1 then show ?case by simp next case 2 then show ?case by simp }
next
  case (Cons e es)
  { case 1
    then obtain u where u: "sched_step nodes c e s = Some u" "sched_exec nodes c es u = Some t"
      by (auto split: option.splits)
    have i: "sched_inv nodes c u" by (rule scheduler.step_inv [OF 1(2) u(1)])
    from sched_step_work [OF u(1)] 1(2) Cons.IH(1) [OF u(2) i] show ?case by (auto simp: sched_inv_def)
  next
    case 2
    then obtain u where u: "sched_step nodes c e s = Some u" "sched_exec nodes c es u = Some t"
      by (auto split: option.splits)
    from Cons.IH(2) [OF u(2) scheduler.step_inv [OF 2(2) u(1)]] show ?case . }
qed

lemma sched_work_init: "sched_work nodes (schedule_init nodes) \<le> 4 * length nodes + 2"
proof (cases "nodes = []")
  case True
  then show ?thesis by (simp add: schedule_init_def sched_work_def proc_work_def empty_sched_def open_ids_def known_def)
next
  case False
  obtain u l where u: "sweep nodes empty_sched 0 = (u, l)" by (cases "sweep nodes empty_sched 0")
  have "card (known nodes) \<le> length nodes"
    unfolding known_def using card_length [of "map sn_ID nodes"] by simp
  then have "sched_work nodes empty_sched \<le> 4 * length nodes + 2"
    by (simp add: sched_work_def empty_sched_def proc_work_def open_ids_def)
  moreover have "sched_work nodes (u\<lparr>sc_pending := l\<rparr>) = sched_work nodes u"
    by (simp add: sched_work_def open_ids_def proc_work_def)
  ultimately show ?thesis using False u sweep_work [OF u] by (simp add: schedule_init_def)
qed

section \<open>Progress\<close>

text \<open>The events a runner with results \<open>f\<close> and a live context can produce.\<close>

definition honest :: "(uuid \<Rightarrow> nodeResult) \<Rightarrow> sched_event \<Rightarrow> bool" where
  "honest f e = (case e of Finish i res \<Rightarrow> res = f i | CtxDone \<Rightarrow> False | _ \<Rightarrow> True)"

lemma proc_phaseI:
  assumes "book_inv nodes s" and "(n, p) \<in> set (sc_procs s)"
  shows "proc_phase (sn_ID n) s = Some p"
proof -
  obtain x where x: "find (\<lambda>np. sn_ID (fst np) = sn_ID n) (sc_procs s) = Some x"
    using assms(2) by (cases "find (\<lambda>np. sn_ID (fst np) = sn_ID n) (sc_procs s)") (auto simp: find_None_iff)
  from find_SomeD [OF x] have "x \<in> set (sc_procs s)" "sn_ID (fst x) = sn_ID n" by auto
  then have "snd x = p" using proc_unique [OF assms(1) _ assms(2), of "fst x" "snd x"] by simp
  with x show ?thesis by (simp add: proc_phase_def)
qed

lemma sched_progress:
  assumes "sched_inv nodes c s" and "\<forall>r. sc_mode s \<noteq> Returned r"
  shows "\<exists>e t. honest f e \<and> sched_step nodes c e s = Some t"
proof (cases "sc_pending s = 0")
  case True
  then have "honest f Return \<and> sched_step nodes c Return s \<noteq> None"
    using assms(2) by (cases "sc_mode s") (auto simp: honest_def)
  then show ?thesis by blast
next
  case False
  note inv = assms(1) [unfolded sched_inv_def]
  then have b: "book_inv nodes s" and "sc_procs s \<noteq> []" using False by (auto simp: count_inv_def)
  show ?thesis
  proof (cases "\<exists>n. (n, Settled) \<in> set (sc_procs s)")
    case True
    then obtain n where "(n, Settled) \<in> set (sc_procs s)" by blast
    from proc_phaseI [OF b this] False assms(2)
    have "honest f (Receive (sn_ID n)) \<and> sched_step nodes c (Receive (sn_ID n)) s \<noteq> None \<or>
        honest f (Drain (sn_ID n)) \<and> sched_step nodes c (Drain (sn_ID n)) s \<noteq> None"
      by (cases "sc_mode s") (auto simp: honest_def split: prod.splits)
    then show ?thesis by blast
  next
    case no_settled: False
    show ?thesis
    proof (cases "\<exists>n. (n, Executing) \<in> set (sc_procs s)")
      case True
      then obtain n where "(n, Executing) \<in> set (sc_procs s)" by blast
      from proc_phaseI [OF b this]
      have "honest f (Finish (sn_ID n) (f (sn_ID n))) \<and> sched_step nodes c (Finish (sn_ID n) (f (sn_ID n))) s \<noteq> None"
        by (simp add: honest_def)
      then show ?thesis by blast
    next
      case False
      with no_settled have waiting: "\<forall>np \<in> set (sc_procs s). snd np = Waiting"
        by (metis phase.exhaust prod.collapse)
      then have "slots s = 0" by (auto simp: slots_def filter_empty_conv)
      moreover have "clamp_concurrency c > 0" by (simp add: clamp_concurrency_def)
      moreover from \<open>sc_procs s \<noteq> []\<close> waiting obtain n where "(n, Waiting) \<in> set (sc_procs s)"
        by (metis list.set_intros(1) neq_Nil_conv prod.collapse)
      ultimately have "honest f (Acquire (sn_ID n)) \<and> sched_step nodes c (Acquire (sn_ID n)) s \<noteq> None"
        using proc_phaseI [OF b] by (simp add: honest_def)
      then show ?thesis by blast
    qed
  qed
qed

lemma sched_returns:
  assumes "sched_inv nodes c s"
  shows "\<exists>es t r. list_all (honest f) es \<and> sched_exec nodes c es s = Some t \<and> sc_mode t = Returned r"
  using assms
proof (induction "sched_work nodes s" arbitrary: s rule: less_induct)
  case less
  show ?case
  proof (cases "\<exists>r. sc_mode s = Returned r")
    case True
    then show ?thesis by (intro exI [of _ "[]"]) auto
  next
    case False
    with sched_progress [OF less.prems] obtain e u where e: "honest f e" "sched_step nodes c e s = Some u"
      by blast
    have "sched_work nodes u < sched_work nodes s"
      using sched_step_work [OF e(2)] less.prems by (simp add: sched_inv_def)
    from less.hyps [OF this scheduler.step_inv [OF less.prems e(2)]]
    obtain es t r where "list_all (honest f) es" "sched_exec nodes c es u = Some t" "sc_mode t = Returned r"
      by blast
    with e show ?thesis by (intro exI [of _ "e # es"]) auto
  qed
qed

end
