(* ===== verification/Scheduler_Final.thy ===== *)
theory Scheduler_Final
  imports Scheduler_Live
begin

text \<open>
  What \<open>schedule\<close> has done when it returns: the sweep reaches a fixpoint, so on an acyclic
  graph every node is settled, parked, or downstream of a parked node; and the results are those
  of a sequential reference evaluation, whatever the interleaving was.
\<close>

section \<open>The sweep reaches a fixpoint\<close>

definition swept :: "schedNode list \<Rightarrow> sched \<Rightarrow> bool" where
  "swept nodes s \<longleftrightarrow> (\<forall>n \<in> set nodes. sweep_decide nodes s n = Keep)"

text \<open>Two states that differ only in what is in flight.\<close>

definition launch_ext :: "sched \<Rightarrow> sched \<Rightarrow> bool" where
  "launch_ext s t \<longleftrightarrow> sc_results t = sc_results s \<and> sc_parked t = sc_parked s \<and>
     sc_completed t = sc_completed s \<and> sc_inflight s \<subseteq> sc_inflight t"

lemma keep_launch_ext:
  assumes "launch_ext s t" and "sweep_decide nodes s n = Keep"
  shows "sweep_decide nodes t n = Keep"
  using assms unfolding sweep_decide_def launch_ext_def by (auto simp: Let_def split: if_splits)

lemma sweep_fold_quiet:
  assumes "set ns \<subseteq> set nodes" and "fold (sweep_node nodes) ns (s, l, False) = (t, l', False)"
  shows "launch_ext s t \<and> (\<forall>n \<in> set ns. sweep_decide nodes t n = Keep)"
  using assms
proof (induction ns arbitrary: s l)
  case Nil
  then show ?case by (simp add: launch_ext_def)
next
  case (Cons n ns)
  obtain u k q where u: "sweep_node nodes n (s, l, False) = (u, k, q)"
    by (cases "sweep_node nodes n (s, l, False)")
  with Cons.prems have rest: "fold (sweep_node nodes) ns (u, k, q) = (t, l', False)" and "set ns \<subseteq> set nodes"
    by simp_all
  from sweep_fold_open [OF this(2) this(1)] have q: "q = False" by auto
  consider "sweep_decide nodes s n = Keep" | "sweep_decide nodes s n = Launch"
    using u q by (cases "sweep_decide nodes s n") auto
  then have "launch_ext s u \<and> sweep_decide nodes u n = Keep"
  proof cases
    case 1
    with u show ?thesis by (simp add: launch_ext_def)
  next
    case 2
    with u have "u = launch n (s\<lparr>sc_inflight := insert (sn_ID n) (sc_inflight s)\<rparr>)" by simp
    then show ?thesis by (auto simp: launch_ext_def sweep_decide_def)
  qed
  then have su: "launch_ext s u" and nu: "sweep_decide nodes u n = Keep" by simp_all
  from Cons.IH [OF \<open>set ns \<subseteq> set nodes\<close> rest [unfolded q]]
  have ut: "launch_ext u t" and ns: "\<forall>n \<in> set ns. sweep_decide nodes t n = Keep" by auto
  from ut nu have "sweep_decide nodes t n = Keep" by (rule keep_launch_ext)
  with su ut ns show ?case by (auto simp: launch_ext_def)
qed

lemma sweep_swept: "sweep nodes s l = (t, l') \<Longrightarrow> swept nodes t"
proof (induction nodes s l rule: sweep.induct)
  case (1 nodes s l)
  obtain u k q where pass: "sweep_pass nodes s l = (u, k, q)" by (cases "sweep_pass nodes s l")
  show ?case
  proof (cases q)
    case True
    with pass "1.prems" have "sweep nodes u k = (t, l')" by (simp add: sweep.simps [of nodes s l])
    with "1.IH" [OF pass [symmetric] refl True] show ?thesis by simp
  next
    case False
    with pass "1.prems" have "u = t" by (simp add: sweep.simps [of nodes s l])
    with pass False have "fold (sweep_node nodes) nodes (s, l, False) = (t, k, False)"
      by (simp add: sweep_pass_def)
    from sweep_fold_quiet [OF _ this] show ?thesis by (simp add: swept_def)
  qed
qed

text \<open>While no result is waiting to be received, the main loop has nothing left to sweep.\<close>

definition quiet_inv :: "schedNode list \<Rightarrow> sched \<Rightarrow> bool" where
  "quiet_inv nodes s \<longleftrightarrow>
     (sc_mode s = Looping \<and> (\<forall>np \<in> set (sc_procs s). snd np \<noteq> Settled) \<longrightarrow> swept nodes s)"

lemma swept_cong:
  assumes "sc_results t = sc_results s" "sc_parked t = sc_parked s" "sc_completed t = sc_completed s"
    "sc_inflight t = sc_inflight s"
  shows "swept nodes t = swept nodes s"
  using assms by (simp add: swept_def sweep_decide_def)

lemma quiet_inv_step:
  assumes "sched_step nodes c e s = Some t" and "book_inv nodes s" and "quiet_inv nodes s"
  shows "quiet_inv nodes t"
proof (cases e)
  case (Acquire i)
  with assms(1) have *: "proc_phase i s = Some Waiting" "t = emit i Running (set_phase i Executing s)"
    by (auto split: if_splits)
  have sw: "swept nodes t = swept nodes s" by (rule swept_cong) (simp_all add: *(2))
  have "\<forall>np \<in> set (sc_procs s). snd np \<noteq> Settled" if "\<forall>np \<in> set (sc_procs t). snd np \<noteq> Settled"
  proof
    fix np assume np: "np \<in> set (sc_procs s)"
    from proc_phaseD [OF *(1)] obtain n where n: "(n, Waiting) \<in> set (sc_procs s)" "sn_ID n = i" by auto
    show "snd np \<noteq> Settled"
    proof (cases "sn_ID (fst np) = i")
      case True
      then show ?thesis using proc_unique [OF assms(2) _ n(1), of "fst np" "snd np"] np n(2) by simp
    next
      case False
      then have "np \<in> set (sc_procs t)" using np by (force simp: *(2) image_iff)
      with that show ?thesis by simp
    qed
  qed
  with assms(3) sw show ?thesis by (simp add: quiet_inv_def *(2))
next
  case (Finish i res)
  with assms(1) have *: "proc_phase i s = Some Executing" "t = set_phase i Settled (record_result i res s)"
    by (auto split: if_splits)
  from proc_phaseD [OF *(1)] obtain n where n: "(n, Executing) \<in> set (sc_procs s)" "sn_ID n = i" by auto
  then have "(n, Settled) \<in> set (sc_procs t)" by (force simp: *(2) image_iff)
  then show ?thesis by (force simp: quiet_inv_def)
next
  case (Receive i)
  with assms obtain u l where u: "sweep nodes (drop_proc i s) 0 = (u, l)"
      "t = u\<lparr>sc_pending := sc_pending s - 1 + l\<rparr>"
    by (auto split: if_splits prod.splits)
  have "swept nodes t = swept nodes u" by (rule swept_cong) (simp_all add: u(2))
  with sweep_swept [OF u(1)] show ?thesis by (simp add: quiet_inv_def)
qed (use assms in \<open>auto simp: quiet_inv_def split: if_splits loop_mode.splits\<close>)

lemma quiet_inv_init: "quiet_inv nodes (schedule_init nodes)"
proof (cases "nodes = []")
  case True
  then show ?thesis by (simp add: schedule_init_def quiet_inv_def)
next
  case False
  obtain u l where u: "sweep nodes empty_sched 0 = (u, l)" by (cases "sweep nodes empty_sched 0")
  have "swept nodes (u\<lparr>sc_pending := l\<rparr>) = swept nodes u" by (rule swept_cong) simp_all
  with sweep_swept [OF u] False u show ?thesis by (simp add: schedule_init_def quiet_inv_def)
qed

lemma quiet_inv_reach: "sched_reach nodes c s \<Longrightarrow> quiet_inv nodes s"
  by (induction rule: sched_reach.induct) (auto intro: quiet_inv_init quiet_inv_step book_inv_reach)

section \<open>The graph when the main loop ends\<close>

text \<open>The main loop ran out of outstanding goroutines: the call returns its final outcome.\<close>

definition loop_done :: "sched \<Rightarrow> bool" where
  "loop_done s \<longleftrightarrow> sc_mode s = Looping \<and> sc_pending s = 0"

definition dep_rel :: "schedNode list \<Rightarrow> (uuid \<times> uuid) set" where
  "dep_rel nodes = {(d, i). \<exists>n \<in> set nodes. sn_ID n = i \<and> d \<in> set (sn_DependsOn n)}"

text \<open>Executable acyclicity: every dependency inside the graph comes earlier in the list.\<close>

fun topo_ordered :: "uuid set \<Rightarrow> uuid set \<Rightarrow> schedNode list \<Rightarrow> bool" where
  "topo_ordered all seen [] = True"
| "topo_ordered all seen (n # ns) =
     (sn_ID n \<notin> seen \<and> (\<forall>d \<in> set (sn_DependsOn n). d \<in> all \<longrightarrow> d \<in> seen) \<and>
      topo_ordered all (insert (sn_ID n) seen) ns)"

lemma loop_done_facts:
  assumes "sched_reach nodes c s" and "loop_done s"
  shows "sc_procs s = []" "sc_inflight s = {}" "swept nodes s"
proof -
  from count_inv_reach [OF assms(1)] assms(2) show p: "sc_procs s = []"
    by (simp add: count_inv_def loop_done_def)
  from book_inv_reach [OF assms(1)] p show "sc_inflight s = {}" by (auto simp: book_inv_def)
  from quiet_inv_reach [OF assms(1)] p assms(2) show "swept nodes s"
    by (simp add: quiet_inv_def loop_done_def)
qed

lemma keep_scan:
  assumes "sweep_decide nodes s n = Keep" and "fresh_node s n"
  shows "scan_deps nodes (sc_results s) True (sn_DependsOn n) =
    \<lparr>blocked = False, ready = False, unknownDep = False\<rparr>"
proof -
  obtain b r u where sc: "scan_deps nodes (sc_results s) True (sn_DependsOn n) =
      \<lparr>blocked = b, ready = r, unknownDep = u\<rparr>"
    by (metis scan_eta)
  from assms show ?thesis
    unfolding sweep_decide_def fresh_node_def Let_def sc by (simp split: if_splits)
qed

text \<open>A node left neither settled nor parked waits on an unsettled node of the graph.\<close>

lemma loop_done_waiting:
  assumes "sched_reach nodes c s" and "loop_done s" and "n \<in> set nodes"
    and "sc_results s (sn_ID n) = None" and "sn_ID n \<notin> sc_parked s"
  shows "\<exists>d \<in> set (sn_DependsOn n). d \<in> known nodes \<and> sc_results s d = None"
proof -
  note fin = loop_done_facts [OF assms(1,2)]
  have "sweep_decide nodes s n = Keep" using fin(3) assms(3) by (simp add: swept_def)
  moreover have "fresh_node s n" using assms(4,5) fin(2) by (simp add: fresh_node_def)
  ultimately have "scan_deps nodes (sc_results s) True (sn_DependsOn n) =
      \<lparr>blocked = False, ready = False, unknownDep = False\<rparr>" by (rule keep_scan)
  then show ?thesis
    by (rule scan_deps_waiting) (use book_inv_reach [OF assms(1)] in \<open>auto simp: book_inv_def\<close>)
qed

lemma settled_or_gated:
  assumes "sched_reach nodes c s" and "loop_done s" and "wf (dep_rel nodes)" and "i \<in> known nodes"
    and "sc_results s i = None"
  shows "\<exists>g \<in> sc_parked s. (g, i) \<in> (dep_rel nodes)\<^sup>*"
  using assms(4,5)
proof (induction i rule: wf_induct_rule [OF assms(3)])
  case (1 i)
  from "1.prems"(1) obtain n where n: "n \<in> set nodes" "sn_ID n = i" by (auto simp: known_def)
  show ?case
  proof (cases "i \<in> sc_parked s")
    case True
    then show ?thesis by blast
  next
    case False
    with loop_done_waiting [OF assms(1,2) n(1)] n(2) "1.prems"(2) obtain d where
      d: "d \<in> set (sn_DependsOn n)" "d \<in> known nodes" "sc_results s d = None" by auto
    then have "(d, i) \<in> dep_rel nodes" using n by (auto simp: dep_rel_def)
    with "1.IH" [OF this d(2,3)] show ?thesis by (meson rtrancl.rtrancl_into_rtrancl)
  qed
qed

text \<open>A skipped node has an ancestor that failed hard or whose runner reported a skip.\<close>

lemma skipped_has_cause:
  assumes "just_inv nodes s" and "wf (dep_rel nodes)" and "sc_results s i = Some Skipped"
  shows "\<exists>a. (a, i) \<in> (dep_rel nodes)\<^sup>* \<and>
    (sc_results s a = Some Failed \<and> \<not> contOnFail nodes a \<or>
     sc_results s a = Some Skipped \<and> (a, Running) \<in> set (sc_emitted s))"
  using assms(3)
proof (induction i rule: wf_induct_rule [OF assms(2)])
  case (1 i)
  with assms(1) obtain n where n: "n \<in> set nodes" "sn_ID n = i" "cause nodes s n Skipped"
    unfolding just_inv_def by blast
  from n(3) consider "(i, Running) \<in> set (sc_emitted s)"
    | d where "d \<in> set (sn_DependsOn n)" "depBlocks nodes (sc_results s) d"
    using n(2) by (auto simp: cause_def)
  then show ?case
  proof cases
    case 1
    then show ?thesis using "1.prems" by blast
  next
    case (2 d)
    then have rel: "(d, i) \<in> dep_rel nodes" using n by (auto simp: dep_rel_def)
    from 2(2) consider "sc_results s d = Some Failed" "\<not> contOnFail nodes d" | "sc_results s d = Some Skipped"
      by (auto simp: depBlocks_def split: option.splits sched_status.splits)
    then show ?thesis
    proof cases
      case 1
      with rel show ?thesis by blast
    next
      case 2
      from "1.IH" [OF rel this] rel show ?thesis by (meson rtrancl.rtrancl_into_rtrancl)
    qed
  qed
qed

text \<open>A topological listing makes the dependency relation well-founded.\<close>

lemma topo_ordered_distinct:
  "topo_ordered all seen ns \<Longrightarrow> distinct (map sn_ID ns) \<and> set (map sn_ID ns) \<inter> seen = {}"
  by (induction ns arbitrary: seen) auto

definition node_index :: "schedNode list \<Rightarrow> uuid \<Rightarrow> nat" where
  "node_index ns i = length (takeWhile (\<lambda>m. sn_ID m \<noteq> i) ns)"

lemma topo_ordered_index:
  "topo_ordered all seen ns \<Longrightarrow> n \<in> set ns \<Longrightarrow> d \<in> set (sn_DependsOn n) \<Longrightarrow> d \<in> all \<Longrightarrow>
     d \<in> seen \<or> node_index ns d < node_index ns (sn_ID n)"
proof (induction ns arbitrary: seen)
  case (Cons m ms)
  have "sn_ID m \<notin> sn_ID ` set ms" using topo_ordered_distinct [OF Cons.prems(1)] by simp
  then have "n = m \<or> (n \<in> set ms \<and> sn_ID n \<noteq> sn_ID m)"
    using Cons.prems(2) by (metis imageI set_ConsD)
  then show ?case using Cons.IH [of "insert (sn_ID m) seen"] Cons.prems
    by (auto simp: node_index_def)
qed simp

lemma topo_ordered_wf:
  assumes "topo_ordered (known nodes) {} nodes"
  shows "wf (dep_rel nodes)"
proof (rule wf_subset [OF wf_measure])
  let ?rank = "\<lambda>i. if i \<in> known nodes then Suc (node_index nodes i) else 0"
  show "dep_rel nodes \<subseteq> measure ?rank"
    using topo_ordered_index [OF assms] by (auto simp: dep_rel_def)
qed

section \<open>Every transition is reported once\<close>

definition emit_inv :: "sched \<Rightarrow> bool" where
  "emit_inv s \<longleftrightarrow> distinct (sc_emitted s) \<and>
     (\<forall>i st. (i, st) \<in> set (sc_emitted s) \<longrightarrow>
        (st = Running \<and> (sc_results s i \<noteq> None \<or> (\<exists>n. (n, Executing) \<in> set (sc_procs s) \<and> sn_ID n = i))) \<or>
        (st = AwaitingApproval \<and> i \<in> sc_parked s) \<or>
        (st \<notin> {Running, AwaitingApproval} \<and> sc_results s i = Some st))"

lemma emit_inv_new:
  assumes "emit_inv s" and "sc_emitted t = sc_emitted s @ [(i, st)]" and "(i, st) \<notin> set (sc_emitted s)"
    and "sc_results s \<subseteq>\<^sub>m sc_results t" and "sc_parked s \<subseteq> sc_parked t"
    and "\<And>n. (n, Executing) \<in> set (sc_procs s) \<Longrightarrow>
      sc_results t (sn_ID n) \<noteq> None \<or> (n, Executing) \<in> set (sc_procs t)"
    and "(st = Running \<and> (\<exists>n. (n, Executing) \<in> set (sc_procs t) \<and> sn_ID n = i)) \<or>
        (st = AwaitingApproval \<and> i \<in> sc_parked t) \<or>
        (st \<notin> {Running, AwaitingApproval} \<and> sc_results t i = Some st)"
  shows "emit_inv t"
proof -
  have old: "(st' = Running \<and> (sc_results t j \<noteq> None \<or> (\<exists>n. (n, Executing) \<in> set (sc_procs t) \<and> sn_ID n = j))) \<or>
        (st' = AwaitingApproval \<and> j \<in> sc_parked t) \<or>
        (st' \<notin> {Running, AwaitingApproval} \<and> sc_results t j = Some st')"
    if "(j, st') \<in> set (sc_emitted s)" for j st'
  proof -
    have "sc_results s j = Some v \<Longrightarrow> sc_results t j = Some v" for v using assms(4) by (rule map_leD)
    moreover have "sc_results s j \<noteq> None \<Longrightarrow> sc_results t j \<noteq> None" using calculation by blast
    ultimately show ?thesis using that assms(1,5,6) unfolding emit_inv_def by blast
  qed
  show ?thesis using assms(1,2,3,7) old unfolding emit_inv_def by auto
qed

lemma emit_inv_same:
  assumes "emit_inv s" and "sc_emitted t = sc_emitted s" and "sc_results t = sc_results s"
    and "sc_parked t = sc_parked s"
    and "\<And>n. (n, Executing) \<in> set (sc_procs s) \<Longrightarrow> sc_results s (sn_ID n) = None \<Longrightarrow> (n, Executing) \<in> set (sc_procs t)"
  shows "emit_inv t"
  using assms(1,5) unfolding emit_inv_def assms(2-4) by blast

lemma fresh_unreported:
  assumes "emit_inv s" and "book_inv nodes s" and "fresh_node s n"
  shows "(sn_ID n, st) \<notin> set (sc_emitted s)"
proof
  assume "(sn_ID n, st) \<in> set (sc_emitted s)"
  then have "sc_results s (sn_ID n) \<noteq> None \<or> sn_ID n \<in> sc_parked s \<or>
      (\<exists>m. (m, Executing) \<in> set (sc_procs s) \<and> sn_ID m = sn_ID n)"
    using assms(1) unfolding emit_inv_def by blast
  then show False using assms(3) fresh_not_proc [OF assms(2,3)] by (force simp: fresh_node_def)
qed

lemma emit_inv_settle:
  assumes "emit_inv s" and "book_inv nodes s" and "fresh_node s n" and "st \<in> {Succeeded, Failed, Skipped}"
  shows "emit_inv (markSettled (sn_ID n) st s)"
  by (rule emit_inv_new [OF assms(1) markSettled_sel(9) fresh_unreported [OF assms(1-3)]])
    (use assms(3,4) in \<open>auto simp: fresh_node_def map_le_def\<close>)

lemma emit_inv_sweep_node:
  assumes "n \<in> set nodes" and "book_inv nodes s \<and> emit_inv s" and "sweep_node nodes n (s, l, p) = (t, l', p')"
  shows "book_inv nodes t \<and> emit_inv t"
proof
  show "book_inv nodes t" using assms by (blast intro: book_inv_sweep_node)
  note fresh = fresh_unreported [of s nodes n]
  show "emit_inv t"
  proof (cases "sweep_decide nodes s n")
    case Launch
    then show ?thesis using assms(2,3) by (auto intro: emit_inv_same)
  next
    case Park
    let ?u = "s\<lparr>sc_parked := insert (sn_ID n) (sc_parked s), sc_suspended := True\<rparr>"
    from Park assms(3) have t: "t = emit (sn_ID n) AwaitingApproval ?u" by simp
    show ?thesis unfolding t
      by (rule emit_inv_new [of s _ "sn_ID n" AwaitingApproval])
        (use assms(2) sweep_decideD(2) [OF Park] fresh in auto)
  next
    case SettleCompleted
    then show ?thesis using assms(2,3) sweep_decideD(3) by (auto intro: emit_inv_settle)
  next
    case SettleBlocked
    then show ?thesis using assms(2,3) sweep_decideD(4) by (auto intro: emit_inv_settle)
  next
    case SettleUnknown
    then show ?thesis using assms(2,3) sweep_decideD(5) by (auto intro: emit_inv_settle)
  qed (use assms in auto)
qed

lemma emit_inv_sweep:
  assumes "book_inv nodes s" and "emit_inv s" and "sweep nodes s l = (t, l')"
  shows "emit_inv t"
  using sweep_induct [where P = "\<lambda>s l. book_inv nodes s \<and> emit_inv s", OF _ assms(3)]
    emit_inv_sweep_node [of _ nodes] assms(1,2) by blast

lemma emit_inv_step:
  assumes "sched_step nodes c e s = Some t" and "book_inv nodes s" and "emit_inv s"
  shows "emit_inv t"
proof (cases e)
  case (Acquire i)
  with assms(1) have *: "proc_phase i s = Some Waiting" "t = emit i Running (set_phase i Executing s)"
    by (auto split: if_splits)
  from proc_phaseD [OF *(1)] obtain m where m: "(m, Waiting) \<in> set (sc_procs s)" "sn_ID m = i" by auto
  have "i \<in> sc_inflight s" using assms(2) m by (auto simp: book_inv_def)
  then have none: "sc_results s i = None" using assms(2) by (simp add: book_inv_def)
  have wait: "\<not> (\<exists>n. (n, Executing) \<in> set (sc_procs s) \<and> sn_ID n = i)"
    using proc_unique [OF assms(2) m(1), of _ Executing] m(2) by blast
  have mem: "(n, Executing) \<in> set (sc_procs t) \<longleftrightarrow> (if sn_ID n = i then n = m else (n, Executing) \<in> set (sc_procs s))" for n
    using set_phase_mem [OF assms(2) m(1), of n Executing Executing] m(2) *(2) by simp
  have new: "(i, Running) \<notin> set (sc_emitted s)"
    using assms(3) none wait unfolding emit_inv_def by blast
  show ?thesis
    by (rule emit_inv_new [OF assms(3) _ new]) (use *(2) mem m(2) wait in \<open>auto simp del: set_phase_sel(6)\<close>)
next
  case (Finish i res)
  with assms(1) have *: "proc_phase i s = Some Executing" "t = set_phase i Settled (record_result i res s)"
    by (auto split: if_splits)
  let ?st = "settle_status (nr_Status res)"
  from proc_phaseD [OF *(1)] obtain m where m: "(m, Executing) \<in> set (sc_procs s)" "sn_ID m = i" by auto
  have "i \<in> sc_inflight s" using assms(2) m by (auto simp: book_inv_def)
  then have none: "sc_results s i = None" using assms(2) by (simp add: book_inv_def)
  have st: "?st \<notin> {Running, AwaitingApproval}" using settle_status_range [of "nr_Status res"] by auto
  have mem: "(n, Executing) \<in> set (sc_procs t) \<longleftrightarrow> sn_ID n \<noteq> i \<and> (n, Executing) \<in> set (sc_procs s)" for n
    using set_phase_mem [OF assms(2) m(1), of n Executing Settled] m(2) *(2) by (auto split: if_splits)
  have new: "(i, ?st) \<notin> set (sc_emitted s)"
  proof
    assume "(i, ?st) \<in> set (sc_emitted s)"
    then have "sc_results s i = Some ?st" using assms(3) st unfolding emit_inv_def by blast
    with none show False by simp
  qed
  have em: "sc_emitted t = sc_emitted s @ [(i, ?st)]" and res: "sc_results t = (sc_results s)(i \<mapsto> ?st)"
    and par: "sc_parked t = sc_parked s" by (simp_all add: *(2))
  show ?thesis
    by (rule emit_inv_new [OF assms(3) em new]) (use res par mem st none in \<open>auto simp: map_le_def\<close>)
next
  case (Receive i)
  with assms obtain u l where u: "sweep nodes (drop_proc i s) 0 = (u, l)"
      "t = u\<lparr>sc_pending := sc_pending s - 1 + l\<rparr>" "proc_phase i s = Some Settled"
    by (auto split: if_splits prod.splits)
  from proc_phaseD [OF u(3)] obtain m where m: "(m, Settled) \<in> set (sc_procs s)" "sn_ID m = i" by auto
  have "\<forall>n. (n, Executing) \<in> set (sc_procs s) \<longrightarrow> sn_ID n \<noteq> i"
    using proc_unique [OF assms(2) m(1), of _ Executing] m(2) by blast
  then have "emit_inv (drop_proc i s)" by (intro emit_inv_same [OF assms(3)]) auto
  from emit_inv_sweep [OF book_inv_drop [OF assms(2) u(3)] this u(1)] show ?thesis
    by (rule emit_inv_same) (auto simp: u(2))
next
  case CtxDone
  with assms have "t = s\<lparr>sc_mode := Draining\<rparr>" by (auto split: if_splits)
  then show ?thesis by (intro emit_inv_same [OF assms(3)]) auto
next
  case (Drain i)
  with assms have *: "proc_phase i s = Some Settled" "t = (drop_proc i s)\<lparr>sc_pending := sc_pending s - 1\<rparr>"
    by (auto split: if_splits)
  from proc_phaseD [OF *(1)] obtain m where m: "(m, Settled) \<in> set (sc_procs s)" "sn_ID m = i" by auto
  have "\<forall>n. (n, Executing) \<in> set (sc_procs s) \<longrightarrow> sn_ID n \<noteq> i"
    using proc_unique [OF assms(2) m(1), of _ Executing] m(2) by blast
  with *(2) show ?thesis by (intro emit_inv_same [OF assms(3)]) auto
next
  case Return
  with assms obtain md where "t = s\<lparr>sc_mode := md\<rparr>" by (auto split: if_splits loop_mode.splits)
  then show ?thesis by (intro emit_inv_same [OF assms(3)]) auto
qed

lemma emit_inv_init: "emit_inv (schedule_init nodes)"
proof (cases "nodes = []")
  case True
  then show ?thesis by (simp add: schedule_init_def emit_inv_def empty_sched_def)
next
  case False
  obtain u l where u: "sweep nodes empty_sched 0 = (u, l)" by (cases "sweep nodes empty_sched 0")
  have "emit_inv empty_sched" by (simp add: emit_inv_def empty_sched_def)
  from emit_inv_sweep [OF book_inv_empty this u] have "emit_inv (u\<lparr>sc_pending := l\<rparr>)"
    by (rule emit_inv_same) auto
  with False u show ?thesis by (simp add: schedule_init_def)
qed

lemma emit_inv_reach: "sched_reach nodes c s \<Longrightarrow> emit_inv s"
  by (induction rule: sched_reach.induct) (auto intro: emit_inv_init emit_inv_step book_inv_reach)

end
