(* ===== verification/Scheduler_Ref.thy ===== *)
theory Scheduler_Ref
  imports Scheduler_Final
begin

text \<open>
  A sequential reference evaluation of a graph, and the proof that every complete execution of
  the concurrent scheduler computes exactly its results: the outcome of a run does not depend on
  the order in which components finish or on the concurrency.
\<close>

section \<open>The reference\<close>

record ref_state =
  rf_results :: "uuid \<rightharpoonup> sched_status"
  rf_completed :: "uuid set"
  rf_parked :: "uuid set"

definition ref_step :: "schedNode list \<Rightarrow> (uuid \<Rightarrow> nodeResult) \<Rightarrow> schedNode \<Rightarrow> ref_state \<Rightarrow> ref_state" where
  "ref_step nodes f n r =
     (if list_ex (depBlocks nodes (rf_results r)) (sn_DependsOn n)
      then r\<lparr>rf_results := (rf_results r)(sn_ID n \<mapsto> Skipped)\<rparr>
      else if list_all (depPassed nodes (rf_results r)) (sn_DependsOn n) then
        (if sn_ID n \<in> rf_completed r then r\<lparr>rf_results := (rf_results r)(sn_ID n \<mapsto> Succeeded)\<rparr>
         else if gated n then r\<lparr>rf_parked := insert (sn_ID n) (rf_parked r)\<rparr>
         else let st = settle_status (nr_Status (f (sn_ID n))) in
           r\<lparr>rf_results := (rf_results r)(sn_ID n \<mapsto> st),
             rf_completed := (if st = Succeeded then rf_completed r \<union> set (nr_Completes (f (sn_ID n)))
                              else rf_completed r)\<rparr>)
      else r)"

definition ref_schedule :: "schedNode list \<Rightarrow> (uuid \<Rightarrow> nodeResult) \<Rightarrow> ref_state" where
  "ref_schedule nodes f =
     fold (ref_step nodes f) nodes \<lparr>rf_results = Map.empty, rf_completed = {}, rf_parked = {}\<rparr>"

section \<open>Executions of a deterministic runner\<close>

text \<open>
  Runs in which \<open>runFn\<close> answers with \<open>f\<close> and the context lives, and the contract on the
  \<open>Completes\<close> lists: a node only completes nodes that depend on it.
\<close>

inductive honest_reach :: "schedNode list \<Rightarrow> int \<Rightarrow> (uuid \<Rightarrow> nodeResult) \<Rightarrow> sched \<Rightarrow> bool"
  for nodes c f where
  start: "honest_reach nodes c f (schedule_init nodes)"
| step: "honest_reach nodes c f s \<Longrightarrow> honest f e \<Longrightarrow> sched_step nodes c e s = Some t \<Longrightarrow>
     honest_reach nodes c f t"

lemma honest_reach_reach: "honest_reach nodes c f s \<Longrightarrow> sched_reach nodes c s"
  by (induction rule: honest_reach.induct) (auto intro: sched_reach.intros)

definition completes_dependents :: "schedNode list \<Rightarrow> (uuid \<Rightarrow> nodeResult) \<Rightarrow> bool" where
  "completes_dependents nodes f \<longleftrightarrow>
     list_all (\<lambda>d. settle_status (nr_Status (f (sn_ID d))) = Succeeded \<longrightarrow>
       list_all (\<lambda>n. sn_ID n \<in> set (nr_Completes (f (sn_ID d))) \<longrightarrow> sn_ID d \<in> set (sn_DependsOn n)) nodes) nodes"

definition executed :: "sched \<Rightarrow> uuid set" where
  "executed s = {i. (i, Running) \<in> set (sc_emitted s)}"

text \<open>What a deterministic runner adds to the invariant.\<close>

definition swept_cause :: "schedNode list \<Rightarrow> sched \<Rightarrow> schedNode \<Rightarrow> sched_status \<Rightarrow> bool" where
  "swept_cause nodes s n st \<longleftrightarrow>
     (st = Skipped \<and> (\<exists>d \<in> set (sn_DependsOn n). depBlocks nodes (sc_results s) d)) \<or>
     (st = Succeeded \<and> sn_ID n \<in> sc_completed s \<and> deps_passed nodes s n) \<or>
     (\<exists>d \<in> set (sn_DependsOn n). d \<notin> known nodes)"

definition det_inv :: "schedNode list \<Rightarrow> (uuid \<Rightarrow> nodeResult) \<Rightarrow> sched \<Rightarrow> bool" where
  "det_inv nodes f s \<longleftrightarrow>
     (\<forall>i \<in> executed s. i \<in> sc_inflight s \<or> sc_results s i = Some (settle_status (nr_Status (f i)))) \<and>
     sc_completed s =
       {c. \<exists>d \<in> executed s. sc_results s d = Some Succeeded \<and> c \<in> set (nr_Completes (f d))} \<and>
     (\<forall>i \<in> executed s \<union> sc_parked s \<union> set (proc_ids s). i \<notin> sc_completed s) \<and>
     (\<forall>n \<in> set nodes. \<forall>st. sc_results s (sn_ID n) = Some st \<longrightarrow> sn_ID n \<notin> executed s \<longrightarrow>
        swept_cause nodes s n st)"

lemma swept_cause_mono: "grows s t \<Longrightarrow> swept_cause nodes s n st \<Longrightarrow> swept_cause nodes t n st"
  unfolding swept_cause_def using deps_passed_mono [of s t nodes n] depBlocks_mono [of "sc_results s" "sc_results t" nodes]
  unfolding grows_def by blast

lemma det_fresh: "det_inv nodes f s \<Longrightarrow> fresh_node s n \<Longrightarrow> sn_ID n \<notin> executed s"
  by (auto simp: det_inv_def fresh_node_def)

lemma executed_emit: "executed (emit i st s) = (if st = Running then insert i (executed s) else executed s)"
  by (auto simp: executed_def)

lemma executed_settle: "st \<noteq> Running \<Longrightarrow> executed (markSettled i st s) = executed s"
  by (auto simp: executed_def)

lemma executed_cong: "sc_emitted t = sc_emitted s \<Longrightarrow> executed t = executed s"
  by (simp add: executed_def)

lemma det_settle:
  assumes "det_inv nodes f s" and "fresh_node s n" and "n \<in> set nodes" and "distinct (map sn_ID nodes)"
    and "swept_cause nodes s n st" and "st \<noteq> Running"
  shows "det_inv nodes f (markSettled (sn_ID n) st s)" (is "det_inv nodes f ?t")
proof -
  have ex: "executed ?t = executed s" by (rule executed_settle [OF assms(6)])
  have nex: "sn_ID n \<notin> executed s" by (rule det_fresh [OF assms(1,2)])
  have g: "grows s ?t" by (rule grows_settle [OF assms(2)])
  have d1: "\<forall>i \<in> executed ?t. i \<in> sc_inflight ?t \<or> sc_results ?t i = Some (settle_status (nr_Status (f i)))"
    using assms(1) nex unfolding ex det_inv_def by auto
  have eq: "sc_results ?t d = sc_results s d" if "d \<in> executed s" for d
    using that nex by auto
  have "{c. \<exists>d \<in> executed ?t. sc_results ?t d = Some Succeeded \<and> c \<in> set (nr_Completes (f d))} =
      {c. \<exists>d \<in> executed s. sc_results s d = Some Succeeded \<and> c \<in> set (nr_Completes (f d))}"
    unfolding ex using eq by (auto simp del: markSettled_sel)
  then have d2: "sc_completed ?t = {c. \<exists>d \<in> executed ?t. sc_results ?t d = Some Succeeded \<and> c \<in> set (nr_Completes (f d))}"
    using assms(1) unfolding det_inv_def markSettled_sel(4) by simp
  have d3: "\<forall>i \<in> executed ?t \<union> sc_parked ?t \<union> set (proc_ids ?t). i \<notin> sc_completed ?t"
    using assms(1) unfolding ex det_inv_def markSettled_sel by blast
  have d4: "swept_cause nodes ?t m st'"
    if "m \<in> set nodes" "sc_results ?t (sn_ID m) = Some st'" "sn_ID m \<notin> executed ?t" for m st'
  proof (cases "sn_ID m = sn_ID n")
    case True
    then have "m = n" using that(1) assms(3,4) by (auto simp: distinct_map dest: inj_onD)
    with that(2) show ?thesis using swept_cause_mono [OF g assms(5)] by simp
  next
    case False
    with that(2) have "sc_results s (sn_ID m) = Some st'" by simp
    with assms(1) that(1,3) ex have "swept_cause nodes s m st'" unfolding det_inv_def by blast
    then show ?thesis by (rule swept_cause_mono [OF g])
  qed
  from d1 d2 d3 d4 show ?thesis unfolding det_inv_def by blast
qed

lemma det_same_results:
  assumes "det_inv nodes f s" and "sc_results t = sc_results s" and "sc_completed t = sc_completed s"
    and "executed t = executed s" and "sc_inflight s \<subseteq> sc_inflight t"
    and "\<forall>i \<in> sc_parked t \<union> set (proc_ids t). i \<in> sc_parked s \<union> set (proc_ids s) \<or> i \<notin> sc_completed s"
  shows "det_inv nodes f t"
proof -
  have "swept_cause nodes t n st = swept_cause nodes s n st" for n st
    by (simp add: swept_cause_def deps_passed_def assms(2,3))
  then show ?thesis
    using assms(1,5,6) unfolding det_inv_def assms(2-4) by blast
qed

lemma det_sweep_node:
  assumes "n \<in> set nodes" and "det_inv nodes f s" and "sweep_node nodes n (s, l, p) = (t, l', p')"
    and "distinct (map sn_ID nodes)"
  shows "det_inv nodes f t"
proof (cases "sweep_decide nodes s n")
  case Keep
  with assms show ?thesis by simp
next
  case SettleUnknown
  with assms sweep_decideD(5) [OF SettleUnknown] show ?thesis
    by (auto intro!: det_settle simp: swept_cause_def)
next
  case SettleBlocked
  with assms sweep_decideD(4) [OF SettleBlocked] show ?thesis
    by (auto intro!: det_settle simp: swept_cause_def)
next
  case SettleCompleted
  with assms sweep_decideD(3) [OF SettleCompleted] show ?thesis
    by (auto intro!: det_settle simp: swept_cause_def)
next
  case Park
  with assms sweep_decideD(2) [OF Park] show ?thesis
    by (auto intro!: det_same_results [OF assms(2)] simp: executed_emit executed_def)
next
  case Launch
  with assms sweep_decideD(1) [OF Launch] show ?thesis
    by (auto intro!: det_same_results [OF assms(2)] simp: executed_def)
qed

lemma det_sweep:
  assumes "distinct (map sn_ID nodes)" and "det_inv nodes f s" and "sweep nodes s l = (t, l')"
  shows "det_inv nodes f t"
  by (rule sweep_induct [where P = "\<lambda>s l. det_inv nodes f s", OF _ assms(3,2)])
    (rule det_sweep_node [OF _ _ _ assms(1)])

lemma collect_insert:
  "i \<in> E \<Longrightarrow> {c. \<exists>d \<in> E. (d = i \<and> b \<or> P d) \<and> c \<in> F d} =
     (if b then {c. \<exists>d \<in> E. P d \<and> c \<in> F d} \<union> F i else {c. \<exists>d \<in> E. P d \<and> c \<in> F d})"
  by auto

lemma det_finish:
  assumes "det_inv nodes f s" and "book_inv nodes s" and "just_inv nodes s"
    and "completes_dependents nodes f" and "distinct (map sn_ID nodes)"
    and "proc_phase i s = Some Executing" and "t = set_phase i Settled (record_result i (f i) s)"
  shows "det_inv nodes f t"
proof -
  let ?st = "settle_status (nr_Status (f i))"
  from proc_phaseD [OF assms(6)] obtain n where n: "(n, Executing) \<in> set (sc_procs s)" "sn_ID n = i" by auto
  have nn: "n \<in> set nodes" using n assms(2) by (auto simp: book_inv_def)
  have iex: "i \<in> executed s" using n assms(3) by (auto simp: just_inv_def executed_def)
  have "i \<in> sc_inflight s" using assms(2) n by (auto simp: book_inv_def)
  then have none: "sc_results s i = None" using assms(2) by (simp add: book_inv_def)
  have st: "?st \<noteq> Running" using settle_status_range [of "nr_Status (f i)"] by auto
  have ex: "executed t = executed s" using st by (auto simp: executed_def assms(7))
  have res: "sc_results t = (sc_results s)(i \<mapsto> ?st)" and par: "sc_parked t = sc_parked s"
    and ids: "proc_ids t = proc_ids s" and infl: "sc_inflight t = sc_inflight s - {i}"
    and comp: "sc_completed t = (if ?st = Succeeded then sc_completed s \<union> set (nr_Completes (f i)) else sc_completed s)"
    by (simp_all add: assms(7) comp_def)
  have g: "grows s t" using none by (auto simp: grows_def assms(7) map_le_def)
  have passed: "\<exists>k \<in> set nodes. sn_ID k = m \<and> deps_passed nodes s k"
    if "m \<in> executed s \<union> sc_parked s \<union> set (proc_ids s)" for m
  proof -
    from that consider "(m, Running) \<in> set (sc_emitted s)" | "m \<in> sc_parked s"
      | k p where "(k, p) \<in> set (sc_procs s)" "sn_ID k = m"
      by (auto simp: executed_def)
    then show ?thesis
    proof cases
      case 1
      with assms(3) show ?thesis unfolding just_inv_def by blast
    next
      case 2
      with assms(3) show ?thesis unfolding just_inv_def by blast
    next
      case (3 k p)
      then have "deps_passed nodes s k" using assms(3) unfolding just_inv_def by blast
      moreover have "k \<in> set nodes" using 3 assms(2) by (auto simp: book_inv_def)
      ultimately show ?thesis using 3 by blast
    qed
  qed
  have new: "m \<notin> executed s \<union> sc_parked s \<union> set (proc_ids s)" if "?st = Succeeded" "m \<in> set (nr_Completes (f i))" for m
  proof
    assume "m \<in> executed s \<union> sc_parked s \<union> set (proc_ids s)"
    then obtain k where k: "k \<in> set nodes" "sn_ID k = m" "deps_passed nodes s k"
      using passed by blast
    have "i \<in> set (sn_DependsOn k)"
      using assms(4) nn n(2) that k(1,2) by (auto simp: completes_dependents_def list_all_iff)
    with k(3) none show False by (auto simp: deps_passed_def depPassed_def)
  qed
  have d1: "\<forall>j \<in> executed t. j \<in> sc_inflight t \<or> sc_results t j = Some (settle_status (nr_Status (f j)))"
    using assms(1) unfolding ex res infl det_inv_def by auto
  have old: "sc_completed s = {c. \<exists>d \<in> executed s. sc_results s d = Some Succeeded \<and> c \<in> set (nr_Completes (f d))}"
    using assms(1) by (simp add: det_inv_def)
  have d2: "sc_completed t = {c. \<exists>d \<in> executed t. sc_results t d = Some Succeeded \<and> c \<in> set (nr_Completes (f d))}"
  proof -
    have eq: "sc_results t d = Some Succeeded \<longleftrightarrow> (d = i \<and> ?st = Succeeded) \<or> sc_results s d = Some Succeeded" for d
      using none by (auto simp: res)
    show ?thesis
      unfolding comp ex eq collect_insert [OF iex, of "?st = Succeeded" "\<lambda>d. sc_results s d = Some Succeeded"
          "\<lambda>d. set (nr_Completes (f d))"]
      by (simp only: old)
  qed
  have d3: "\<forall>j \<in> executed t \<union> sc_parked t \<union> set (proc_ids t). j \<notin> sc_completed t"
  proof
    fix j assume "j \<in> executed t \<union> sc_parked t \<union> set (proc_ids t)"
    then have j: "j \<in> executed s \<union> sc_parked s \<union> set (proc_ids s)" by (simp only: ex par ids)
    then have "j \<notin> sc_completed s" using assms(1) unfolding det_inv_def by blast
    with new [of j] j show "j \<notin> sc_completed t" unfolding comp by (auto split: if_splits)
  qed
  have d4: "swept_cause nodes t m st'"
    if "m \<in> set nodes" "sc_results t (sn_ID m) = Some st'" "sn_ID m \<notin> executed t" for m st'
  proof -
    from that(3) ex iex have "sn_ID m \<noteq> i" by auto
    with that(2) res have "sc_results s (sn_ID m) = Some st'" by simp
    with assms(1) that(1,3) ex have "swept_cause nodes s m st'" unfolding det_inv_def by blast
    then show ?thesis by (rule swept_cause_mono [OF g])
  qed
  from d1 d2 d3 d4 show ?thesis unfolding det_inv_def by blast
qed

lemma det_acquire:
  assumes "det_inv nodes f s" and "book_inv nodes s" and "proc_phase i s = Some Waiting"
    and "t = emit i Running (set_phase i Executing s)"
  shows "det_inv nodes f t"
proof -
  from proc_phaseD [OF assms(3)] obtain n where n: "(n, Waiting) \<in> set (sc_procs s)" "sn_ID n = i" by auto
  have infl: "i \<in> sc_inflight s" using assms(2) n by (auto simp: book_inv_def)
  then have none: "sc_results s i = None" using assms(2) by (simp add: book_inv_def)
  have iproc: "i \<in> set (proc_ids s)" using n by force
  have ex: "executed t = insert i (executed s)" by (auto simp: executed_def assms(4))
  have same: "sc_results t = sc_results s" "sc_completed t = sc_completed s" "sc_inflight t = sc_inflight s"
      "sc_parked t = sc_parked s" "proc_ids t = proc_ids s"
    by (simp_all add: assms(4) comp_def)
  have sw: "swept_cause nodes t m st = swept_cause nodes s m st" for m st
    by (simp add: swept_cause_def deps_passed_def same)
  have "sc_completed s = {c. \<exists>d \<in> executed s. sc_results s d = Some Succeeded \<and> c \<in> set (nr_Completes (f d))}"
    using assms(1) by (simp add: det_inv_def)
  then have d2: "sc_completed t = {c. \<exists>d \<in> executed t. sc_results t d = Some Succeeded \<and> c \<in> set (nr_Completes (f d))}"
    using none unfolding ex same by auto
  show ?thesis
    using assms(1) infl iproc d2 unfolding det_inv_def ex same sw by blast
qed

lemma det_step:
  assumes "sched_step nodes c e s = Some t" and "honest f e" and "sched_reach nodes c s"
    and "det_inv nodes f s" and "completes_dependents nodes f" and "distinct (map sn_ID nodes)"
  shows "det_inv nodes f t"
proof -
  note inv = sched_inv_reach [OF assms(3), unfolded sched_inv_def]
  show ?thesis
  proof (cases e)
    case (Acquire i)
    with assms(1) inv show ?thesis by (auto intro: det_acquire [OF assms(4)] split: if_splits)
  next
    case (Finish i res)
    with assms(1,2) have "proc_phase i s = Some Executing" "t = set_phase i Settled (record_result i (f i) s)"
      by (auto simp: honest_def split: if_splits)
    with inv assms(4-6) show ?thesis by (blast intro: det_finish)
  next
    case (Receive i)
    with assms obtain u l where u: "sweep nodes (drop_proc i s) 0 = (u, l)"
        "t = u\<lparr>sc_pending := sc_pending s - 1 + l\<rparr>"
      by (auto split: if_splits prod.splits)
    have "det_inv nodes f (drop_proc i s)"
      by (rule det_same_results [OF assms(4)]) (auto simp: executed_def)
    from det_sweep [OF assms(6) this u(1)] show ?thesis
      by (rule det_same_results) (auto simp: u(2) executed_def)
  next
    case CtxDone
    with assms(2) show ?thesis by (simp add: honest_def)
  next
    case (Drain i)
    with assms(1) have "t = (drop_proc i s)\<lparr>sc_pending := sc_pending s - 1\<rparr>" by (auto split: if_splits)
    then show ?thesis by (intro det_same_results [OF assms(4)]) (auto simp: executed_def)
  next
    case Return
    with assms(1) obtain md where "t = s\<lparr>sc_mode := md\<rparr>" by (auto split: if_splits loop_mode.splits)
    then show ?thesis by (intro det_same_results [OF assms(4)]) (auto simp: executed_def)
  qed
qed

lemma det_inv_empty: "det_inv nodes f empty_sched"
  by (simp add: det_inv_def empty_sched_def executed_def)

lemma det_inv_init:
  assumes "distinct (map sn_ID nodes)"
  shows "det_inv nodes f (schedule_init nodes)"
proof (cases "nodes = []")
  case True
  then show ?thesis
    by (simp add: schedule_init_def) (rule det_same_results [OF det_inv_empty], auto simp: executed_def)
next
  case False
  obtain u l where u: "sweep nodes empty_sched 0 = (u, l)" by (cases "sweep nodes empty_sched 0")
  from det_sweep [OF assms det_inv_empty u] have "det_inv nodes f (u\<lparr>sc_pending := l\<rparr>)"
    by (rule det_same_results) (auto simp: executed_def)
  with False u show ?thesis by (simp add: schedule_init_def)
qed

lemma det_inv_reach:
  assumes "honest_reach nodes c f s" and "completes_dependents nodes f" and "distinct (map sn_ID nodes)"
  shows "det_inv nodes f s"
  using assms
  by (induction rule: honest_reach.induct) (blast intro: det_inv_init det_step honest_reach_reach)+

section \<open>The equations every complete execution satisfies\<close>

lemma passed_not_blocks: "depPassed nodes m d \<Longrightarrow> \<not> depBlocks nodes m d"
  by (auto simp: depPassed_def depBlocks_def split: option.splits sched_status.splits)

lemma loop_done_equation:
  assumes "honest_reach nodes c f s" and "loop_done s" and "completes_dependents nodes f"
    and "distinct (map sn_ID nodes)" and "n \<in> set nodes" and "set (sn_DependsOn n) \<subseteq> known nodes"
  defines "i \<equiv> sn_ID n" and "res \<equiv> sc_results s"
  shows "(\<exists>d \<in> set (sn_DependsOn n). depBlocks nodes res d) \<Longrightarrow>
      res i = Some Skipped \<and> i \<notin> sc_parked s \<and> i \<notin> executed s"
    and "(\<forall>d \<in> set (sn_DependsOn n). depPassed nodes res d) \<Longrightarrow> i \<in> sc_completed s \<Longrightarrow>
      res i = Some Succeeded \<and> i \<notin> sc_parked s \<and> i \<notin> executed s"
    and "(\<forall>d \<in> set (sn_DependsOn n). depPassed nodes res d) \<Longrightarrow> i \<notin> sc_completed s \<Longrightarrow> gated n \<Longrightarrow>
      res i = None \<and> i \<in> sc_parked s \<and> i \<notin> executed s"
    and "(\<forall>d \<in> set (sn_DependsOn n). depPassed nodes res d) \<Longrightarrow> i \<notin> sc_completed s \<Longrightarrow> \<not> gated n \<Longrightarrow>
      res i = Some (settle_status (nr_Status (f i))) \<and> i \<notin> sc_parked s \<and> i \<in> executed s"
    and "\<not> (\<exists>d \<in> set (sn_DependsOn n). depBlocks nodes res d) \<Longrightarrow>
      \<not> (\<forall>d \<in> set (sn_DependsOn n). depPassed nodes res d) \<Longrightarrow>
      res i = None \<and> i \<notin> sc_parked s \<and> i \<notin> executed s"
proof -
  let ?blocks = "\<exists>d \<in> set (sn_DependsOn n). depBlocks nodes res d"
  let ?passed = "\<forall>d \<in> set (sn_DependsOn n). depPassed nodes res d"
  note reach = honest_reach_reach [OF assms(1)]
  note det = det_inv_reach [OF assms(1,3,4), unfolded det_inv_def]
  note just = sched_inv_reach [OF reach, unfolded sched_inv_def, THEN conjunct2, THEN conjunct2, unfolded just_inv_def]
  note book = book_inv_reach [OF reach]
  note fin = loop_done_facts [OF reach assms(2)]
  have only: "m = n" if "m \<in> set nodes" "sn_ID m = i" for m
    using that assms(4,5) by (auto simp: i_def distinct_map dest: inj_onD)
  have passed_eq: "deps_passed nodes s n = ?passed"
    using assms(6) by (auto simp: deps_passed_def res_def)
  have ex: "?passed \<and> \<not> gated n \<and> i \<notin> sc_completed s \<and> res i = Some (settle_status (nr_Status (f i)))"
    if "i \<in> executed s"
  proof -
    from that just obtain m where "m \<in> set nodes" "sn_ID m = i" "deps_passed nodes s m" "\<not> gated m"
      unfolding executed_def by blast
    with only passed_eq have "?passed" "\<not> gated n" by auto
    moreover have "i \<notin> sc_completed s" using det that by blast
    moreover have "res i = Some (settle_status (nr_Status (f i)))"
      using det that fin(2) unfolding res_def by blast
    ultimately show ?thesis by blast
  qed
  have park: "?passed \<and> gated n \<and> i \<notin> sc_completed s \<and> res i = None" if "i \<in> sc_parked s"
  proof -
    from that just obtain m where "m \<in> set nodes" "sn_ID m = i" "deps_passed nodes s m" "gated m" by blast
    with only passed_eq have "?passed" "gated n" by auto
    moreover have "i \<notin> sc_completed s" using det that by blast
    moreover have "res i = None" using book that by (simp add: book_inv_def res_def)
    ultimately show ?thesis by blast
  qed
  have sw: "(st = Skipped \<and> ?blocks) \<or> (st = Succeeded \<and> i \<in> sc_completed s \<and> ?passed)"
    if "res i = Some st" "i \<notin> executed s" for st
    using det that assms(5,6) passed_eq unfolding swept_cause_def res_def i_def by blast
  have open_node: "\<not> ?blocks \<and> \<not> ?passed" if "res i = None" "i \<notin> sc_parked s"
  proof -
    have "fresh_node s n" using that fin(2) by (simp add: fresh_node_def i_def res_def)
    moreover have "sweep_decide nodes s n = Keep" using fin(3) assms(5) by (simp add: swept_def)
    ultimately have keep: "scan_deps nodes (sc_results s) True (sn_DependsOn n) =
        \<lparr>blocked = False, ready = False, unknownDep = False\<rparr>" by (rule keep_scan [rotated])
    then have "\<not> ?passed"
      using scan_deps_ready_iff [of nodes "sc_results s" True "sn_DependsOn n"] assms(6) unfolding res_def
      by auto
    moreover have "blocked (scan_deps nodes m r deps)"
      if "d \<in> set deps" "depBlocks nodes m d" "set deps \<subseteq> known nodes" for m r deps d
      using that by (induction nodes m r deps rule: scan_deps.induct) (auto simp: depBlocks_def)
    from this [of _ "sn_DependsOn n" "sc_results s" True] keep assms(6) have "\<not> ?blocks"
      unfolding res_def by auto
    ultimately show ?thesis by blast
  qed
  have excl: "\<not> (?blocks \<and> ?passed)" using passed_not_blocks by blast
  show "res i = Some Skipped \<and> i \<notin> sc_parked s \<and> i \<notin> executed s" if ?blocks
    using that ex park sw open_node excl by (cases "res i") blast+
  show "res i = Some Succeeded \<and> i \<notin> sc_parked s \<and> i \<notin> executed s" if ?passed "i \<in> sc_completed s"
    using that ex park sw open_node excl by (cases "res i") blast+
  show "res i = None \<and> i \<in> sc_parked s \<and> i \<notin> executed s" if ?passed "i \<notin> sc_completed s" "gated n"
    using that ex park sw open_node excl by (cases "res i") blast+
  show "res i = Some (settle_status (nr_Status (f i))) \<and> i \<notin> sc_parked s \<and> i \<in> executed s"
    if ?passed "i \<notin> sc_completed s" "\<not> gated n"
    using that ex park sw open_node excl by (cases "res i") blast+
  show "res i = None \<and> i \<notin> sc_parked s \<and> i \<notin> executed s" if "\<not> ?blocks" "\<not> ?passed"
    using that ex park sw open_node excl by (cases "res i") blast+
qed

section \<open>Agreement with the reference\<close>

text \<open>The reference state after a prefix whose ids are \<open>seen\<close>, compared with a finished run.\<close>

definition ref_agrees :: "uuid set \<Rightarrow> (uuid \<Rightarrow> nodeResult) \<Rightarrow> sched \<Rightarrow> ref_state \<Rightarrow> bool" where
  "ref_agrees seen f s r \<longleftrightarrow>
     rf_results r = sc_results s |` seen \<and> rf_parked r = sc_parked s \<inter> seen \<and>
     rf_completed r =
       {c. \<exists>d \<in> executed s \<inter> seen. sc_results s d = Some Succeeded \<and> c \<in> set (nr_Completes (f d))}"

lemma ref_step_agrees:
  assumes "honest_reach nodes c f s" and "loop_done s" and "completes_dependents nodes f"
    and "distinct (map sn_ID nodes)" and "n \<in> set nodes" and "set (sn_DependsOn n) \<subseteq> known nodes"
    and "ref_agrees seen f s r" and "set (sn_DependsOn n) \<subseteq> seen" and "sn_ID n \<notin> seen"
  shows "ref_agrees (insert (sn_ID n) seen) f s (ref_step nodes f n r)"
proof -
  let ?i = "sn_ID n"
  note eqn = loop_done_equation [OF assms(1-6)]
  have res: "rf_results r = sc_results s |` seen" and par: "rf_parked r = sc_parked s \<inter> seen"
    and comp: "rf_completed r =
       {c. \<exists>d \<in> executed s \<inter> seen. sc_results s d = Some Succeeded \<and> c \<in> set (nr_Completes (f d))}"
    using assms(7) by (auto simp: ref_agrees_def)
  have look: "rf_results r d = sc_results s d" if "d \<in> set (sn_DependsOn n)" for d
    using that assms(8) by (auto simp: res)
  have blk: "list_ex (depBlocks nodes (rf_results r)) (sn_DependsOn n) \<longleftrightarrow>
      (\<exists>d \<in> set (sn_DependsOn n). depBlocks nodes (sc_results s) d)"
    using look by (auto simp: list_ex_iff depBlocks_def)
  have pas: "list_all (depPassed nodes (rf_results r)) (sn_DependsOn n) \<longleftrightarrow>
      (\<forall>d \<in> set (sn_DependsOn n). depPassed nodes (sc_results s) d)"
    using look by (auto simp: list_all_iff depPassed_def)
  have full: "sc_completed s =
      {c. \<exists>d \<in> executed s. sc_results s d = Some Succeeded \<and> c \<in> set (nr_Completes (f d))}"
    using det_inv_reach [OF assms(1,3,4)] by (simp add: det_inv_def)
  have dep: "d \<in> seen" if "d \<in> executed s" "sc_results s d = Some Succeeded" "?i \<in> set (nr_Completes (f d))" for d
  proof -
    from det_inv_reach [OF assms(1,3,4)] loop_done_facts(2) [OF honest_reach_reach [OF assms(1)] assms(2)] that
    have "settle_status (nr_Status (f d)) = Succeeded" by (auto simp: det_inv_def)
    moreover from book_inv_reach [OF honest_reach_reach [OF assms(1)]] that(2) have "d \<in> known nodes"
      by (auto simp: book_inv_def)
    then obtain m where "m \<in> set nodes" "sn_ID m = d" by (auto simp: known_def)
    ultimately have "d \<in> set (sn_DependsOn n)"
      using assms(3,5) that(3) unfolding completes_dependents_def list_all_iff by metis
    with assms(8) show ?thesis by blast
  qed
  have cmp: "?i \<in> rf_completed r \<longleftrightarrow> ?i \<in> sc_completed s"
    unfolding comp full using dep by blast
  have upd: "sc_results s |` insert ?i seen = (case sc_results s ?i of None \<Rightarrow> sc_results s |` seen
      | Some v \<Rightarrow> (sc_results s |` seen)(?i \<mapsto> v))"
    using assms(9) by (auto simp: restrict_map_def fun_eq_iff split: option.splits)
  consider "\<exists>d \<in> set (sn_DependsOn n). depBlocks nodes (sc_results s) d"
    | "\<not> (\<exists>d \<in> set (sn_DependsOn n). depBlocks nodes (sc_results s) d)"
      "\<forall>d \<in> set (sn_DependsOn n). depPassed nodes (sc_results s) d"
    | "\<not> (\<exists>d \<in> set (sn_DependsOn n). depBlocks nodes (sc_results s) d)"
      "\<not> (\<forall>d \<in> set (sn_DependsOn n). depPassed nodes (sc_results s) d)" by blast
  then show ?thesis
  proof cases
    case 1
    with eqn(1) blk show ?thesis by (auto simp: ref_agrees_def ref_step_def res par comp upd)
  next
    case 2
    note c2 = 2
    consider "?i \<in> sc_completed s" | "?i \<notin> sc_completed s" "gated n" | "?i \<notin> sc_completed s" "\<not> gated n" by blast
    then show ?thesis
    proof cases
      case 1
      with eqn(2) [OF c2(2)] c2 blk pas cmp show ?thesis
        by (auto simp: ref_agrees_def ref_step_def res par comp upd)
    next
      case 2
      with eqn(3) [OF c2(2)] c2 blk pas cmp show ?thesis
        by (auto simp: ref_agrees_def ref_step_def res par comp upd)
    next
      case 3
      from eqn(4) [OF c2(2) 3] have e: "sc_results s ?i = Some (settle_status (nr_Status (f ?i)))"
          "?i \<notin> sc_parked s" "?i \<in> executed s" by simp_all
      have ncmp: "?i \<notin> rf_completed r" using 3 cmp by simp
      have step: "ref_step nodes f n r =
          r\<lparr>rf_results := (rf_results r)(?i \<mapsto> settle_status (nr_Status (f ?i))),
            rf_completed := (if settle_status (nr_Status (f ?i)) = Succeeded
              then rf_completed r \<union> set (nr_Completes (f ?i)) else rf_completed r)\<rparr>"
        using c2 blk pas ncmp 3 by (auto simp: ref_step_def Let_def)
      show ?thesis unfolding step ref_agrees_def using e
        by (auto simp: res par comp upd)
    qed
  next
    case 3
    with eqn(5) blk pas show ?thesis by (auto simp: ref_agrees_def ref_step_def res par comp upd)
  qed
qed

lemma ref_fold_agrees:
  assumes "honest_reach nodes c f s" and "loop_done s" and "completes_dependents nodes f"
    and "distinct (map sn_ID nodes)" and "list_all (\<lambda>n. set (sn_DependsOn n) \<subseteq> known nodes) nodes"
    and "set ns \<subseteq> set nodes" and "topo_ordered (known nodes) seen ns" and "ref_agrees seen f s r"
  shows "ref_agrees (seen \<union> set (map sn_ID ns)) f s (fold (ref_step nodes f) ns r)"
  using assms(6-8)
proof (induction ns arbitrary: seen r)
  case (Cons n ns)
  from Cons.prems assms(5) have n: "n \<in> set nodes" "set (sn_DependsOn n) \<subseteq> known nodes"
      "set (sn_DependsOn n) \<subseteq> seen" "sn_ID n \<notin> seen"
    by (auto simp: list_all_iff)
  from ref_step_agrees [OF assms(1-4) n(1,2) Cons.prems(3) n(3,4)]
  have "ref_agrees (insert (sn_ID n) seen) f s (ref_step nodes f n r)" .
  from Cons.IH [OF _ _ this] Cons.prems show ?case by simp
qed simp

text \<open>
  C37: the outcome of a run does not depend on scheduling. On a topologically listed graph whose
  dependencies are all present, with a runner whose answers are a function of the component and
  whose results only complete dependents, every interleaving that ends its main loop leaves
  exactly the results and the parked gates of the sequential reference evaluation, at any
  concurrency.
\<close>

theorem schedule_matches_reference:
  assumes "honest_reach nodes c f s" and "loop_done s" and "completes_dependents nodes f"
    and "topo_ordered (known nodes) {} nodes"
    and "list_all (\<lambda>n. set (sn_DependsOn n) \<subseteq> known nodes) nodes"
  shows "sc_results s = rf_results (ref_schedule nodes f) \<and> sc_parked s = rf_parked (ref_schedule nodes f)"
proof -
  from topo_ordered_distinct [OF assms(4)] have dist: "distinct (map sn_ID nodes)" by simp
  have "ref_agrees {} f s \<lparr>rf_results = Map.empty, rf_completed = {}, rf_parked = {}\<rparr>"
    by (simp add: ref_agrees_def)
  from ref_fold_agrees [OF assms(1-3) dist assms(5) order_refl assms(4) this]
  have "ref_agrees (known nodes) f s (ref_schedule nodes f)"
    by (simp add: ref_schedule_def known_def)
  moreover have "dom (sc_results s) \<subseteq> known nodes" "sc_parked s \<subseteq> known nodes"
    using book_inv_reach [OF honest_reach_reach [OF assms(1)]] by (simp_all add: book_inv_def)
  ultimately show ?thesis
    by (auto simp: ref_agrees_def restrict_map_def fun_eq_iff domIff subset_iff)
qed

end
