(* ===== verification/Scheduler_Claims.thy ===== *)
theory Scheduler_Claims
  imports Scheduler_Ref
begin

text \<open>The scheduler's properties over whole executions, with concrete runs that instantiate them.\<close>

section \<open>From executions to reachability\<close>

lemma exec_reach: "sched_reach nodes c s \<Longrightarrow> sched_exec nodes c es s = Some t \<Longrightarrow> sched_reach nodes c t"
  by (induction es arbitrary: s) (auto intro: sched_reach.step split: option.splits)

lemma exec_honest_reach:
  "honest_reach nodes c f s \<Longrightarrow> list_all (honest f) es \<Longrightarrow> sched_exec nodes c es s = Some t \<Longrightarrow>
     honest_reach nodes c f t"
  by (induction es arbitrary: s) (auto intro: honest_reach.step split: option.splits)

lemma book_inv_exec: "book_inv nodes s \<Longrightarrow> sched_exec nodes c es s = Some t \<Longrightarrow> book_inv nodes t"
  by (induction es arbitrary: s) (auto dest: book_inv_step split: option.splits)

lemma exec_grows:
  "book_inv nodes s \<Longrightarrow> sched_exec nodes c es s = Some t \<Longrightarrow>
     sc_results s \<subseteq>\<^sub>m sc_results t \<and> (\<exists>em. sc_emitted t = sc_emitted s @ em)"
proof (induction es arbitrary: s)
  case (Cons e es)
  then obtain u where u: "sched_step nodes c e s = Some u" "sched_exec nodes c es u = Some t"
    by (auto split: option.splits)
  from step_grows [OF u(1) Cons.prems(1)] Cons.IH [OF book_inv_step [OF u(1) Cons.prems(1)] u(2)]
  show ?case by (metis append.assoc map_le_trans)
qed auto

section \<open>A concrete graph\<close>

text \<open>
  A plan (1) whose apply (2) is gated, a chart (3) after the apply, an independent component (4)
  allowed to fail, and a dependent of it (5).
\<close>

definition demo_node :: "uuid \<Rightarrow> uuid list \<Rightarrow> bool \<Rightarrow> bool \<Rightarrow> schedNode" where
  "demo_node i deps cof gate =
     \<lparr>sn_ID = i, sn_DependsOn = deps, sn_ContinueOnFailure = cof, sn_RequiresApproval = gate, sn_Approved = False\<rparr>"

definition demo_nodes :: "schedNode list" where
  "demo_nodes = [demo_node 1 [] False False, demo_node 2 [1] False True, demo_node 3 [2] False False,
     demo_node 4 [] True False, demo_node 5 [4] False False]"

definition demo_ok :: nodeResult where
  "demo_ok = \<lparr>nr_Status = Succeeded, nr_Err = None, nr_Retryable = False, nr_Completes = []\<rparr>"

definition demo_runner :: "uuid \<Rightarrow> nodeResult" where
  "demo_runner i = (if i = 4 then demo_ok\<lparr>nr_Status := Failed\<rparr> else demo_ok)"

definition demo_events :: "sched_event list" where
  "demo_events = [Acquire 4, Acquire 1, Finish 4 (demo_runner 4), Receive 4, Finish 1 (demo_runner 1),
     Acquire 5, Receive 1, Finish 5 (demo_runner 5), Receive 5]"

definition demo_end :: sched where
  "demo_end = the (sched_exec demo_nodes 2 demo_events (schedule_init demo_nodes))"

lemma demo_exec: "sched_exec demo_nodes 2 demo_events (schedule_init demo_nodes) = Some demo_end"
proof -
  have "sched_exec demo_nodes 2 demo_events (schedule_init demo_nodes) \<noteq> None"
    by (simp only: Option.is_none_def [symmetric]) code_simp
  then show ?thesis by (auto simp: demo_end_def)
qed

lemma demo_facts:
  "sc_mode demo_end = Looping" "sc_pending demo_end = 0" "sc_results demo_end 1 = Some Succeeded"
  "sc_results demo_end 4 = Some Failed" "sc_results demo_end 5 = Some Succeeded"
  "sc_results demo_end 3 = None" "2 \<in> sc_parked demo_end" "(1, Running) \<in> set (sc_emitted demo_end)"
  by code_simp+

lemma demo_honest: "list_all (honest demo_runner) demo_events"
  by (simp add: demo_events_def honest_def)

lemma demo_honest_reach: "honest_reach demo_nodes 2 demo_runner demo_end"
  by (rule exec_honest_reach [OF honest_reach.start demo_honest demo_exec])

lemma demo_reach: "sched_reach demo_nodes 2 demo_end"
  by (rule honest_reach_reach [OF demo_honest_reach])

lemma demo_topo:
  "topo_ordered (known demo_nodes) {} demo_nodes"
  "list_all (\<lambda>n. set (sn_DependsOn n) \<subseteq> known demo_nodes) demo_nodes"
  by code_simp+

lemma demo_loop_done: "loop_done demo_end"
  by (simp add: loop_done_def demo_facts)

theorem schedule_matches_reference_witness:
  "sc_results demo_end = rf_results (ref_schedule demo_nodes demo_runner) \<and>
   sc_parked demo_end = rf_parked (ref_schedule demo_nodes demo_runner) \<and>
   sc_results demo_end 5 = Some Succeeded"
proof -
  have "completes_dependents demo_nodes demo_runner" by code_simp
  from schedule_matches_reference [OF demo_honest_reach demo_loop_done this demo_topo] demo_facts(5)
  show ?thesis by blast
qed

section \<open>Properties\<close>

text \<open>
  C38: a call of the scheduler always ends. However the goroutines, the main loop and the context
  interleave, an execution has at most \<open>4 n + 2\<close> steps on \<open>n\<close> nodes, and from wherever it
  stands, whatever the runner answers for the nodes still to come, it can be completed to a return.
\<close>

theorem schedule_terminates:
  assumes "sched_exec nodes c es (schedule_init nodes) = Some s"
  shows "length es \<le> 4 * length nodes + 2 \<and>
    (\<exists>es' t r. list_all (honest f) es' \<and> sched_exec nodes c es' s = Some t \<and> sc_mode t = Returned r)"
  using sched_exec_work [OF assms sched_inv_init] sched_work_init [of nodes] sched_returns [of nodes c s f]
  by simp

theorem schedule_terminates_witness:
  "length demo_events \<le> 22 \<and>
    (\<exists>es' t r. list_all (honest demo_runner) es' \<and> sched_exec demo_nodes 2 es' demo_end = Some t \<and>
       sc_mode t = Returned r)"
  using schedule_terminates [OF demo_exec, of demo_runner] by (simp add: demo_nodes_def)

text \<open>
  C39: no component starts early or behind a closed gate. Whenever the scheduler reports a node as
  running, every dependency of that node is part of the graph and has passed (it succeeded, or it
  failed and is allowed to fail), and the node needs no approval or has it. This holds in every
  reachable state, under any interleaving.
\<close>

theorem launch_safe:
  assumes "sched_reach nodes c s" and "(i, Running) \<in> set (sc_emitted s)"
  shows "\<exists>n \<in> set nodes. sn_ID n = i \<and>
    (\<forall>d \<in> set (sn_DependsOn n). d \<in> known nodes \<and>
       (sc_results s d = Some Succeeded \<or> sc_results s d = Some Failed \<and> contOnFail nodes d)) \<and>
    (sn_RequiresApproval n \<longrightarrow> sn_Approved n)"
proof -
  have passed: "sc_results s d = Some Succeeded \<or> sc_results s d = Some Failed \<and> contOnFail nodes d"
    if "depPassed nodes (sc_results s) d" for d
    using that by (auto simp: depPassed_def split: option.splits sched_status.splits)
  from sched_inv_reach [OF assms(1)] assms(2)
  obtain n where "n \<in> set nodes" "sn_ID n = i" "deps_passed nodes s n" "\<not> gated n"
    unfolding sched_inv_def just_inv_def by blast
  with passed show ?thesis by (auto simp: deps_passed_def)
qed

theorem launch_safe_witness:
  "\<exists>n \<in> set demo_nodes. sn_ID n = 1 \<and>
    (\<forall>d \<in> set (sn_DependsOn n). d \<in> known demo_nodes \<and>
       (sc_results demo_end d = Some Succeeded \<or>
        sc_results demo_end d = Some Failed \<and> contOnFail demo_nodes d)) \<and>
    (sn_RequiresApproval n \<longrightarrow> sn_Approved n)"
  by (rule launch_safe [OF demo_reach demo_facts(8)])

text \<open>
  The concurrency bound. At most \<open>max 1 concurrency\<close> goroutines are past the semaphore at any
  time, so at most that many \<open>runFn\<close> calls overlap.
\<close>

lemma concurrency_bound:
  assumes "sched_reach nodes c s"
  shows "int (length (filter (\<lambda>np. snd np = Executing) (sc_procs s))) \<le> max 1 c"
proof -
  have "length (filter (\<lambda>np. snd np = Executing) xs) \<le> length (filter (\<lambda>np. snd np \<noteq> Waiting) xs)"
    for xs :: "(schedNode \<times> phase) list"
    by (induction xs) auto
  then have "length (filter (\<lambda>np. snd np = Executing) (sc_procs s)) \<le> clamp_concurrency c"
    using count_inv_reach [OF assms] unfolding count_inv_def slots_def by (meson order_trans)
  then show ?thesis by (simp add: clamp_concurrency_def split: if_splits)
qed

lemma concurrency_bound_example:
  "int (length (filter (\<lambda>np. snd np = Executing) (sc_procs demo_end))) \<le> 2"
  using concurrency_bound [OF demo_reach] by simp

text \<open>
  Results are final and every transition is reported once. Along any execution a recorded
  result is never changed or removed, the reported transitions only grow, and no transition of a
  node is ever reported twice (no node runs twice, parks twice or settles twice).
\<close>

lemma results_final:
  assumes "sched_reach nodes c s" and "sched_exec nodes c es s = Some t"
  shows "sc_results s \<subseteq>\<^sub>m sc_results t \<and> (\<exists>em. sc_emitted t = sc_emitted s @ em) \<and>
    distinct (sc_emitted t)"
  using exec_grows [OF book_inv_reach [OF assms(1)] assms(2)] emit_inv_reach [OF exec_reach [OF assms]]
  by (simp add: emit_inv_def)

lemma results_final_example:
  "sc_results (schedule_init demo_nodes) \<subseteq>\<^sub>m sc_results demo_end \<and>
   (\<exists>em. sc_emitted demo_end = sc_emitted (schedule_init demo_nodes) @ em) \<and>
   distinct (sc_emitted demo_end)"
  by (rule results_final [OF sched_reach.start demo_exec])



text \<open>
  Nothing is skipped without reason. On an acyclic graph a node is reported skipped only if it
  or one of its transitive dependencies failed without being allowed to, or its own runner (or an
  ancestor's) reported a skip.
\<close>

lemma skip_justified:
  assumes "sched_reach nodes c s" and "topo_ordered (known nodes) {} nodes"
    and "sc_results s i = Some Skipped"
  shows "\<exists>a. (a, i) \<in> (dep_rel nodes)\<^sup>* \<and>
    (sc_results s a = Some Failed \<and> \<not> contOnFail nodes a \<or>
     sc_results s a = Some Skipped \<and> (a, Running) \<in> set (sc_emitted s))"
  using skipped_has_cause [OF _ topo_ordered_wf [OF assms(2)] assms(3)] sched_inv_reach [OF assms(1)]
  by (simp add: sched_inv_def)

definition fail_runner :: "uuid \<Rightarrow> nodeResult" where
  "fail_runner i = demo_ok\<lparr>nr_Status := Failed\<rparr>"

definition fail_events :: "sched_event list" where
  "fail_events = [Acquire 1, Finish 1 (fail_runner 1), Receive 1]"

definition fail_end :: sched where
  "fail_end = the (sched_exec demo_nodes 2 fail_events (schedule_init demo_nodes))"

lemma skip_justified_example:
  "sc_results fail_end 3 = Some Skipped \<and>
   (\<exists>a. (a, 3) \<in> (dep_rel demo_nodes)\<^sup>* \<and>
    (sc_results fail_end a = Some Failed \<and> \<not> contOnFail demo_nodes a \<or>
     sc_results fail_end a = Some Skipped \<and> (a, Running) \<in> set (sc_emitted fail_end)))"
proof -
  have "sched_exec demo_nodes 2 fail_events (schedule_init demo_nodes) \<noteq> None"
    by (simp only: Option.is_none_def [symmetric]) code_simp
  then have "sched_exec demo_nodes 2 fail_events (schedule_init demo_nodes) = Some fail_end"
    by (auto simp: fail_end_def)
  from exec_reach [OF sched_reach.start this] have r: "sched_reach demo_nodes 2 fail_end" .
  have s: "sc_results fail_end 3 = Some Skipped" by code_simp
  from skip_justified [OF r demo_topo(1) s] s show ?thesis by blast
qed

end
