(* ===== verification/GoStrings.thy ===== *)
theory GoStrings
  imports Prelude "HOL-Library.Sublist"
begin

text \<open>
  The functions of Go's \<open>strings\<close> package (and the few regular expressions) the code uses. A Go
  string is a sequence of bytes, which is what a list of \<open>char\<close> is; positions count bytes.
\<close>

section \<open>Searching\<close>

text \<open>\<open>strings.Index\<close> and \<open>strings.LastIndex\<close>; \<open>None\<close> is the answer -1.\<close>

fun str_index :: "string \<Rightarrow> string \<Rightarrow> nat option" where
  "str_index sub [] = (if sub = [] then Some 0 else None)"
| "str_index sub (c # cs) =
     (if prefix sub (c # cs) then Some 0 else map_option Suc (str_index sub cs))"

fun str_last_index :: "string \<Rightarrow> string \<Rightarrow> nat option" where
  "str_last_index sub [] = (if sub = [] then Some 0 else None)"
| "str_last_index sub (c # cs) =
     (case str_last_index sub cs of
        Some k \<Rightarrow> Some (Suc k)
      | None \<Rightarrow> if prefix sub (c # cs) then Some 0 else None)"

text \<open>\<open>strings.Cut\<close>: around the first separator, with the flag whether it occurs.\<close>

definition str_cut :: "string \<Rightarrow> string \<Rightarrow> string \<times> string \<times> bool" where
  "str_cut s sep =
     (case str_index sep s of
        Some k \<Rightarrow> (take k s, drop (k + length sep) s, True)
      | None \<Rightarrow> (s, [], False))"

lemma str_index_SomeD:
  "str_index sub s = Some k \<Longrightarrow> k + length sub \<le> length s \<and> take (length sub) (drop k s) = sub"
proof (induction sub s arbitrary: k rule: str_index.induct)
  case (2 sub c cs)
  show ?case
  proof (cases "prefix sub (c # cs)")
    case True
    with "2.prems" prefix_length_le [OF True] show ?thesis by (auto elim!: prefixE)
  next
    case False
    with "2" show ?thesis by (auto split: if_splits)
  qed
qed (auto split: if_splits)

lemma str_last_index_SomeD:
  "str_last_index sub s = Some k \<Longrightarrow> k + length sub \<le> length s \<and> take (length sub) (drop k s) = sub"
proof (induction sub s arbitrary: k rule: str_last_index.induct)
  case (2 sub c cs)
  show ?case
  proof (cases "str_last_index sub cs")
    case None
    with "2.prems" have "prefix sub (c # cs)" "k = 0" by (auto split: if_splits)
    with prefix_length_le [OF this(1)] show ?thesis by (auto elim!: prefixE)
  next
    case (Some j)
    with "2" show ?thesis by auto
  qed
qed (auto split: if_splits)

lemma str_index_split:
  assumes "str_index sub s = Some k"
  shows "s = take k s @ sub @ drop (k + length sub) s"
proof -
  from str_index_SomeD [OF assms] have "drop k s = sub @ drop (length sub) (drop k s)"
    by (metis append_take_drop_id)
  then show ?thesis by (metis add.commute append_take_drop_id drop_drop)
qed

lemma str_last_index_split:
  assumes "str_last_index sub s = Some k"
  shows "s = take k s @ sub @ drop (k + length sub) s"
proof -
  from str_last_index_SomeD [OF assms] have "drop k s = sub @ drop (length sub) (drop k s)"
    by (metis append_take_drop_id)
  then show ?thesis by (metis add.commute append_take_drop_id drop_drop)
qed

lemma str_last_index_None: "str_last_index sub s = None \<Longrightarrow> \<not> sublist sub s"
proof (induction sub s rule: str_last_index.induct)
  case (2 sub c cs)
  then show ?case by (auto simp: sublist_Cons_right split: option.splits if_splits)
qed (auto split: if_splits)

lemma str_last_index_last:
  "str_last_index sub s = Some k \<Longrightarrow> \<not> sublist sub (drop (Suc k) s)" if "sub \<noteq> []" for sub :: string
  using that
proof (induction s arbitrary: k)
  case (Cons c cs)
  show ?case
  proof (cases "str_last_index sub cs")
    case None
    with Cons.prems have "k = 0" by (auto split: if_splits)
    with str_last_index_None [OF None] show ?thesis by simp
  next
    case (Some j)
    with Cons show ?thesis by auto
  qed
qed simp

section \<open>Trimming\<close>

text \<open>
  \<open>strings.TrimSpace\<close> removes the runes of \<open>unicode.IsSpace\<close> from both ends. These are their
  UTF-8 encodings: the six ASCII ones, U+0085, U+00A0, U+1680, U+2000 to U+200A, U+2028, U+2029,
  U+202F, U+205F and U+3000. No encoding is a proper prefix or suffix of another, so removing an
  encoding from an end is what decoding the rune there does.
\<close>

definition byte_list :: "nat list \<Rightarrow> string" where
  "byte_list = map char_of"

definition space_runes :: "string list" where
  "space_runes =
     [[CHR 0x09], [CHR 0x0A], [CHR 0x0B], [CHR 0x0C], [CHR 0x0D], [CHR 0x20], [CHR 0xC2, CHR 0x85],
      [CHR 0xC2, CHR 0xA0], [CHR 0xE1, CHR 0x9A, CHR 0x80], [CHR 0xE2, CHR 0x80, CHR 0x80],
      [CHR 0xE2, CHR 0x80, CHR 0x81], [CHR 0xE2, CHR 0x80, CHR 0x82], [CHR 0xE2, CHR 0x80, CHR 0x83],
      [CHR 0xE2, CHR 0x80, CHR 0x84], [CHR 0xE2, CHR 0x80, CHR 0x85], [CHR 0xE2, CHR 0x80, CHR 0x86],
      [CHR 0xE2, CHR 0x80, CHR 0x87], [CHR 0xE2, CHR 0x80, CHR 0x88], [CHR 0xE2, CHR 0x80, CHR 0x89],
      [CHR 0xE2, CHR 0x80, CHR 0x8A], [CHR 0xE2, CHR 0x80, CHR 0xA8], [CHR 0xE2, CHR 0x80, CHR 0xA9],
      [CHR 0xE2, CHR 0x80, CHR 0xAF], [CHR 0xE2, CHR 0x81, CHR 0x9F], [CHR 0xE3, CHR 0x80, CHR 0x80]]"

lemma space_runes_nonempty: "r \<in> set space_runes \<Longrightarrow> r \<noteq> []"
  by (auto simp: space_runes_def)

function trim_left :: "string \<Rightarrow> string" where
  "trim_left s =
     (case find (\<lambda>r. prefix r s) space_runes of
        Some r \<Rightarrow> trim_left (drop (length r) s)
      | None \<Rightarrow> s)"
  by pat_completeness auto
termination
proof (relation "measure length")
  fix s r assume "find (\<lambda>r. prefix r s) space_runes = Some r"
  from find_SomeD [OF this] have "prefix r s" "r \<noteq> []" by (auto dest: space_runes_nonempty)
  moreover from this have "length r \<le> length s" by (auto dest: prefix_length_le)
  ultimately show "(drop (length r) s, s) \<in> measure length" by (cases r) auto
qed simp

declare trim_left.simps [simp del]

function trim_right :: "string \<Rightarrow> string" where
  "trim_right s =
     (case find (\<lambda>r. suffix r s) space_runes of
        Some r \<Rightarrow> trim_right (take (length s - length r) s)
      | None \<Rightarrow> s)"
  by pat_completeness auto
termination
proof (relation "measure length")
  fix s r assume "find (\<lambda>r. suffix r s) space_runes = Some r"
  from find_SomeD [OF this] have "suffix r s" "r \<noteq> []" by (auto dest: space_runes_nonempty)
  moreover from this have "length r \<le> length s" by (auto dest: suffix_length_le)
  ultimately show "(take (length s - length r) s, s) \<in> measure length" by (cases r) auto
qed simp

declare trim_right.simps [simp del]

definition trim_space :: "string \<Rightarrow> string" where
  "trim_space s = trim_right (trim_left s)"

text \<open>\<open>strings.TrimSuffix\<close>.\<close>

definition trim_suffix :: "string \<Rightarrow> string \<Rightarrow> string" where
  "trim_suffix s suf = (if suffix suf s then take (length s - length suf) s else s)"

lemma trim_suffix_append [simp]: "trim_suffix (s @ suf) suf = s"
  by (simp add: trim_suffix_def suffix_def)

section \<open>Character classes\<close>

definition is_lower :: "char \<Rightarrow> bool" where
  "is_lower c \<longleftrightarrow> of_char c \<in> {97..122::nat}"

definition is_upper :: "char \<Rightarrow> bool" where
  "is_upper c \<longleftrightarrow> of_char c \<in> {65..90::nat}"

definition is_digit :: "char \<Rightarrow> bool" where
  "is_digit c \<longleftrightarrow> of_char c \<in> {48..57::nat}"

text \<open>The pattern \<open>^[A-Za-z_][A-Za-z0-9_]*$\<close>; in Go's RE2 \<open>$\<close> is the end of the text.\<close>

fun ident_match :: "string \<Rightarrow> bool" where
  "ident_match [] = False"
| "ident_match (c # cs) =
     ((is_lower c \<or> is_upper c \<or> c = CHR ''_'') \<and>
      list_all (\<lambda>d. is_lower d \<or> is_upper d \<or> is_digit d \<or> d = CHR ''_'') cs)"

text \<open>The pattern \<open>^[a-z0-9]([-a-z0-9]*[a-z0-9])?$\<close> of a DNS-1123 label.\<close>

definition label_char :: "char \<Rightarrow> bool" where
  "label_char c \<longleftrightarrow> is_lower c \<or> is_digit c"

definition dns_label_match :: "string \<Rightarrow> bool" where
  "dns_label_match s \<longleftrightarrow>
     s \<noteq> [] \<and> label_char (hd s) \<and> label_char (last s) \<and>
     list_all (\<lambda>c. c = CHR ''-'' \<or> label_char c) s"

section \<open>UTF-8\<close>

text \<open>
  \<open>utf8.DecodeRuneInString\<close>: the first rune of a string and its width; an invalid or truncated
  sequence is \<open>U+FFFD\<close> of width 1.
\<close>

definition byte_at :: "string \<Rightarrow> nat \<Rightarrow> nat" where
  "byte_at s k = (if k < length s then of_char (s ! k) else 0)"

definition is_cont :: "nat \<Rightarrow> bool" where
  "is_cont b \<longleftrightarrow> 0x80 \<le> b \<and> b \<le> 0xBF"

definition rune_error :: nat where
  "rune_error = 0xFFFD"

definition decode_rune :: "string \<Rightarrow> nat \<times> nat" where
  "decode_rune s =
     (let b0 = byte_at s 0; b1 = byte_at s 1; b2 = byte_at s 2; b3 = byte_at s 3
      in if b0 < 0x80 then (b0, 1)
         else if 0xC2 \<le> b0 \<and> b0 \<le> 0xDF \<and> is_cont b1 then ((b0 - 0xC0) * 64 + (b1 - 0x80), 2)
         else if 0xE0 \<le> b0 \<and> b0 \<le> 0xEF \<and> is_cont b1 \<and> is_cont b2 \<and>
                 (b0 = 0xE0 \<longrightarrow> 0xA0 \<le> b1) \<and> (b0 = 0xED \<longrightarrow> b1 \<le> 0x9F)
           then ((b0 - 0xE0) * 4096 + (b1 - 0x80) * 64 + (b2 - 0x80), 3)
         else if 0xF0 \<le> b0 \<and> b0 \<le> 0xF4 \<and> is_cont b1 \<and> is_cont b2 \<and> is_cont b3 \<and>
                 (b0 = 0xF0 \<longrightarrow> 0x90 \<le> b1) \<and> (b0 = 0xF4 \<longrightarrow> b1 \<le> 0x8F)
           then ((b0 - 0xF0) * 262144 + (b1 - 0x80) * 4096 + (b2 - 0x80) * 64 + (b3 - 0x80), 4)
         else (rune_error, 1))"

definition encode_rune :: "nat \<Rightarrow> string" where
  "encode_rune r =
     byte_list
       (if r < 0x80 then [r]
        else if r < 0x800 then [0xC0 + r div 64, 0x80 + r mod 64]
        else if r < 0x10000 then [0xE0 + r div 4096, 0x80 + r div 64 mod 64, 0x80 + r mod 64]
        else [0xF0 + r div 262144, 0x80 + r div 4096 mod 64, 0x80 + r div 64 mod 64, 0x80 + r mod 64])"

lemma decode_rune_width: "1 \<le> snd (decode_rune s)"
  by (simp add: decode_rune_def Let_def)

text \<open>The runes of a string, as \<open>for _, r := range s\<close> visits them.\<close>

function runes :: "string \<Rightarrow> nat list" where
  "runes s = (if s = [] then [] else fst (decode_rune s) # runes (drop (snd (decode_rune s)) s))"
  by pat_completeness auto
termination
proof (relation "measure length")
  fix s :: string assume "s \<noteq> []"
  with decode_rune_width [of s] show "(drop (snd (decode_rune s)) s, s) \<in> measure length"
    by (cases s) auto
qed simp

declare runes.simps [simp del]

definition rune_count :: "string \<Rightarrow> nat" where
  "rune_count s = length (runes s)"

lemma runes_ascii_Cons: "of_char c < (128::nat) \<Longrightarrow> runes (c # cs) = of_char c # runes cs"
  by (simp add: runes.simps [of "c # cs"] decode_rune_def byte_at_def Let_def)

lemma runes_Nil [simp]: "runes [] = []"
  by (simp add: runes.simps)

section \<open>Lines and cut sets\<close>

text \<open>\<open>strings.Split(s, c)\<close> for a one-byte separator: always at least one part.\<close>

fun split_on :: "char \<Rightarrow> string \<Rightarrow> string list" where
  "split_on c [] = [[]]"
| "split_on c (x # xs) =
     (if x = c then [] # split_on c xs
      else case split_on c xs of l # ls \<Rightarrow> (x # l) # ls | [] \<Rightarrow> [[x]])"

text \<open>\<open>strings.Join\<close>.\<close>

fun str_join :: "string \<Rightarrow> string list \<Rightarrow> string" where
  "str_join sep [] = []"
| "str_join sep [x] = x"
| "str_join sep (x # y # xs) = x @ sep @ str_join sep (y # xs)"

definition newline :: char where
  "newline = CHR 0x0A"

definition split_lines :: "string \<Rightarrow> string list" where
  "split_lines = split_on newline"

lemma split_on_nonempty [simp]: "split_on c s \<noteq> []"
  by (induction c s rule: split_on.induct) (auto split: list.splits)

lemma join_split_on [simp]: "str_join [c] (split_on c s) = s"
proof (induction c s rule: split_on.induct)
  case (2 c x xs)
  obtain l ls where l: "split_on c xs = l # ls" by (cases "split_on c xs") auto
  with 2 show ?case by (cases ls) (auto split: if_splits)
qed simp

text \<open>\<open>strings.TrimRight\<close> with an ASCII cut set, \<open>strings.Contains\<close>, \<open>strings.ContainsAny\<close>.\<close>

definition trim_right_set :: "char list \<Rightarrow> string \<Rightarrow> string" where
  "trim_right_set cs s = rev (dropWhile (\<lambda>c. c \<in> set cs) (rev s))"

definition trim_set :: "char list \<Rightarrow> string \<Rightarrow> string" where
  "trim_set cs s = trim_right_set cs (dropWhile (\<lambda>c. c \<in> set cs) s)"

definition contains_any :: "char list \<Rightarrow> string \<Rightarrow> bool" where
  "contains_any cs s \<longleftrightarrow> list_ex (\<lambda>c. c \<in> set cs) s"

definition str_contains :: "string \<Rightarrow> string \<Rightarrow> bool" where
  "str_contains s sub \<longleftrightarrow> str_index sub s \<noteq> None"

lemma str_contains_iff: "str_contains s sub \<longleftrightarrow> sublist sub s"
  unfolding str_contains_def
proof (induction sub s rule: str_index.induct)
  case (2 sub c cs)
  then show ?case by (auto simp: sublist_Cons_right)
qed auto

text \<open>
  \<open>strings.ToLower\<close>: byte by byte on ASCII text; otherwise rune by rune through \<open>unicode.ToLower\<close>,
  whose table for the runes beyond ASCII is the parameter \<open>low\<close>.
\<close>

definition is_ascii :: "string \<Rightarrow> bool" where
  "is_ascii s \<longleftrightarrow> list_all (\<lambda>c. of_char c < (128 :: nat)) s"

definition lower_char :: "char \<Rightarrow> char" where
  "lower_char c = (if is_upper c then char_of (of_char c + 32 :: nat) else c)"

definition to_lower :: "(nat \<Rightarrow> nat) \<Rightarrow> string \<Rightarrow> string" where
  "to_lower low s =
     (if is_ascii s then map lower_char s
      else concat (map (\<lambda>r. encode_rune (if r < 128 then of_char (lower_char (char_of r)) else low r)) (runes s)))"

section \<open>Numbers and quoting\<close>

text \<open>\<open>strconv.Itoa\<close> on non-negative numbers.\<close>

definition digit_char :: "nat \<Rightarrow> char" where
  "digit_char d = char_of (48 + d)"

function show_nat :: "nat \<Rightarrow> string" where
  "show_nat n = (if n < 10 then [digit_char n] else show_nat (n div 10) @ [digit_char (n mod 10)])"
  by pat_completeness auto
termination by (relation "measure id") auto

declare show_nat.simps [simp del]

text \<open>
  \<open>strconv.Quote\<close> (the verb \<open>%q\<close>); \<open>is_print\<close> is \<open>strconv.IsPrint\<close> on the runes beyond ASCII.
\<close>

definition hex_char :: "nat \<Rightarrow> char" where
  "hex_char d = (if d < 10 then char_of (48 + d) else char_of (87 + d))"

fun hex_digits :: "nat \<Rightarrow> nat \<Rightarrow> string" where
  "hex_digits 0 n = []"
| "hex_digits (Suc k) n = hex_digits k (n div 16) @ [hex_char (n mod 16)]"

definition quote_rune :: "(nat \<Rightarrow> bool) \<Rightarrow> nat \<Rightarrow> string" where
  "quote_rune is_print r =
     (let bs = char_of (92 :: nat) in
      if r = 34 \<or> r = 92 then [bs, char_of r]
      else if (r < 128 \<and> 32 \<le> r \<and> r < 127) \<or> (128 \<le> r \<and> is_print r) then encode_rune r
      else if r = 7 then bs # ''a'' else if r = 8 then bs # ''b'' else if r = 12 then bs # ''f''
      else if r = 10 then bs # ''n'' else if r = 13 then bs # ''r'' else if r = 9 then bs # ''t''
      else if r = 11 then bs # ''v''
      else if r < 32 \<or> r = 127 then bs # ''x'' @ hex_digits 2 r
      else if r < 65536 then bs # ''u'' @ hex_digits 4 r
      else bs # ''U'' @ hex_digits 8 r)"

function quote_body :: "(nat \<Rightarrow> bool) \<Rightarrow> string \<Rightarrow> string" where
  "quote_body is_print s =
     (if s = [] then []
      else (if fst (decode_rune s) = rune_error \<and> snd (decode_rune s) = 1
            then char_of (92 :: nat) # ''x'' @ hex_digits 2 (byte_at s 0)
            else quote_rune is_print (fst (decode_rune s)))
           @ quote_body is_print (drop (snd (decode_rune s)) s))"
  by pat_completeness auto
termination
proof (relation "measure (\<lambda>(p, s). length s)")
  fix p :: "nat \<Rightarrow> bool" and s :: string assume "s \<noteq> []"
  with decode_rune_width [of s] show "((p, drop (snd (decode_rune s)) s), (p, s)) \<in> measure (\<lambda>(p, s). length s)"
    by (cases s) auto
qed simp

declare quote_body.simps [simp del]

definition quote_go :: "(nat \<Rightarrow> bool) \<Rightarrow> string \<Rightarrow> string" where
  "quote_go is_print s = [char_of (34 :: nat)] @ quote_body is_print s @ [char_of (34 :: nat)]"

end
