(* ===== verification/Workflow.thy ===== *)
theory Workflow
  imports GoStrings
begin

text \<open>
  The data of a workflow: its stages and components as the builder sends them
  (\<open>lib/workflows/service.go\<close>, \<open>stages.go\<close>), the approval policy (\<open>ent/schema/component.go\<close>), the
  execution units of a run snapshot (\<open>runs.go\<close>) and the validation errors (\<open>dag.go\<close>). Component
  types, commands and backends are strings, as in the code.
\<close>

section \<open>Constants\<close>

abbreviation TypeHelm :: string where "TypeHelm \<equiv> ''helm''"
abbreviation TypeManifest :: string where "TypeManifest \<equiv> ''manifest''"
abbreviation TypeTerraform :: string where "TypeTerraform \<equiv> ''terraform''"

abbreviation SourceHTTPRepo :: string where "SourceHTTPRepo \<equiv> ''http_repo''"
abbreviation SourceOCI :: string where "SourceOCI \<equiv> ''oci''"
abbreviation SourceGit :: string where "SourceGit \<equiv> ''git''"

abbreviation BackendS3 :: string where "BackendS3 \<equiv> ''s3''"
abbreviation BackendGCS :: string where "BackendGCS \<equiv> ''gcs''"
abbreviation BackendAzure :: string where "BackendAzure \<equiv> ''azurerm''"
abbreviation BackendSpacefleet :: string where "BackendSpacefleet \<equiv> ''spacefleet''"

abbreviation ActionDeploy :: string where "ActionDeploy \<equiv> ''deploy''"
abbreviation ActionUninstall :: string where "ActionUninstall \<equiv> ''uninstall''"
abbreviation ActionPreview :: string where "ActionPreview \<equiv> ''preview''"
abbreviation ActionDrift :: string where "ActionDrift \<equiv> ''drift''"
abbreviation ActionStateOp :: string where "ActionStateOp \<equiv> ''state_op''"

abbreviation CommandPlan :: string where "CommandPlan \<equiv> ''plan''"
abbreviation CommandApply :: string where "CommandApply \<equiv> ''apply''"
abbreviation CommandStateOp :: string where "CommandStateOp \<equiv> ''state_op''"

section \<open>Configuration maps\<close>

text \<open>A \<open>map[string]string\<close>; reading an absent key gives the empty string.\<close>

type_synonym config = "string \<rightharpoonup> string"

definition cfg :: "config \<Rightarrow> string \<Rightarrow> string" where
  "cfg c k = (case c k of None \<Rightarrow> [] | Some v \<Rightarrow> v)"

section \<open>Components, stages, execution units\<close>

record ApprovalPolicy =
  Approvers :: "string list"
  Required :: int
  RequireDifferentApprover :: bool
  TimeoutMinutes :: int

definition zero_policy :: ApprovalPolicy where
  "zero_policy = \<lparr>Approvers = [], Required = 0, RequireDifferentApprover = False, TimeoutMinutes = 0\<rparr>"

record ComponentInput =
  ci_ID :: uuid
  ci_Name :: string
  ci_Type :: string
  ci_Config :: config
  ci_ContinueOnFailure :: bool
  ci_RequiresApproval :: bool
  ci_ApprovalPolicy :: ApprovalPolicy
  ci_TargetClusterID :: "uuid option"
  ci_TargetNamespace :: string
  ci_ChartCredentialID :: "uuid option"
  ci_GitHubInstallationID :: "uuid option"

record StageInput =
  si_ID :: uuid
  si_Name :: string
  si_Components :: "ComponentInput list"

record GraphNode =
  gn_ID :: uuid
  gn_ComponentID :: uuid
  gn_Name :: string
  gn_Type :: string
  gn_Config :: config
  gn_DependsOn :: "uuid list"
  gn_ContinueOnFailure :: bool
  gn_RequiresApproval :: bool
  gn_ApprovalPolicy :: "ApprovalPolicy option"
  gn_TargetClusterID :: "uuid option"
  gn_TargetNamespace :: string
  gn_ChartCredentialID :: "uuid option"
  gn_GitHubInstallationID :: "uuid option"
  gn_StageID :: "uuid option"

section \<open>Validation errors\<close>

datatype stage_fault = NoStageName | StageNameTooLong

text \<open>What is wrong with a component's configuration, one constructor per message.\<close>

datatype config_fault =
    NameNotSlug
  | UnknownType
  | RequiresTargetCluster
  | RequiresTargetNamespace
  | RequiresKey string
  | RequiresChartSource
  | UnknownChartSource
  | BadCreateNamespace
  | BadValuesSources
  | ValuesSourceRequires nat string
  | ForbidsTargetCluster
  | ForbidsTargetNamespace
  | UnsupportedBackend
  | BadBackendConfig
  | BackendTakesNoSettings
  | BackendTakesNoWorkspace
  | BackendRequires string
  | BackendSecret
  | UnsupportedVersion
  | LockfileNeedsNewer
  | BadCloudCredential
  | BadAuthCluster
  | BadFlags string
  | BadWorkspace
  | BadTFVars
  | BadTFVarName
  | BadReference string
  | GitSourceRequired string string
  | GitRefRequired string string
  | OnlyInValues string string
  | UnknownRunKey string string
  | NoSuchComponent string string
  | AmbiguousComponent string string
  | NotTerraform string string
  | NotEarlierStage string string
  | ApproverEmpty
  | ApproverMalformed string
  | TooManyApprovers
  | RequiredNegative
  | RequiredTooMany
  | TimeoutOutOfRange

datatype wf_error =
    ErrMissingID string
  | ErrDuplicateID uuid
  | ErrInvalidStage stage_fault
  | ErrInvalidConfig string config_fault

end
