(* ===== verification/Interpolate.thy ===== *)
theory Interpolate
  imports GoStrings
begin

text \<open>
  The \<open>${{ namespace.path }}\<close> reference syntax of \<open>lib/interpolate/interpolate.go\<close>: parsing a
  string into literal and reference segments, listing the references, and rendering.
\<close>

section \<open>References, segments, templates\<close>

datatype namespace = NamespaceVars | NamespaceRun | NamespaceComponents

definition namespace_text :: "namespace \<Rightarrow> string" where
  "namespace_text ns = (case ns of
     NamespaceVars \<Rightarrow> ''vars'' | NamespaceRun \<Rightarrow> ''run'' | NamespaceComponents \<Rightarrow> ''components'')"

record Ref =
  Namespace :: namespace
  Var :: string
  RunKey :: string
  Component :: string
  Output :: string
  Raw :: string

datatype segment = Literal string | Reference Ref

type_synonym Template = "segment list"

text \<open>The ways \<open>Parse\<close> and \<open>parseExpr\<close> fail; each carries the authored reference.\<close>

datatype parse_error =
    Unterminated
  | EmptyReference string
  | BadVarName string
  | BadRunKey string
  | BadComponentPath string
  | UnknownNamespace string string

definition outputsSep :: string where
  "outputsSep = ''.outputs.''"

abbreviation empty_ref :: "namespace \<Rightarrow> string \<Rightarrow> Ref" where
  "empty_ref ns raw \<equiv>
     \<lparr>Namespace = ns, Var = [], RunKey = [], Component = [], Output = [], Raw = raw\<rparr>"

section \<open>Parsing\<close>

definition parseExpr :: "string \<Rightarrow> string \<Rightarrow> parse_error + Ref" where
  "parseExpr expr raw =
     (if expr = [] then Inl (EmptyReference raw)
      else case str_cut expr ''.'' of (ns, rest, _) \<Rightarrow>
        if ns = ''vars'' then
          (if \<not> ident_match rest then Inl (BadVarName raw)
           else Inr ((empty_ref NamespaceVars raw)\<lparr>Var := rest\<rparr>))
        else if ns = ''run'' then
          (if \<not> ident_match rest then Inl (BadRunKey raw)
           else Inr ((empty_ref NamespaceRun raw)\<lparr>RunKey := rest\<rparr>))
        else if ns = ''components'' then
          (case str_last_index outputsSep rest of
             None \<Rightarrow> Inl (BadComponentPath raw)
           | Some idx \<Rightarrow>
               let name = take idx rest; key = drop (idx + length outputsSep) rest
               in if name = [] \<or> key = [] then Inl (BadComponentPath raw)
                  else Inr ((empty_ref NamespaceComponents raw)\<lparr>Component := name, Output := key\<rparr>))
        else Inl (UnknownNamespace raw ns))"

text \<open>The pending literal becomes a segment unless it is empty.\<close>

definition flush_lit :: "string \<Rightarrow> Template \<Rightarrow> Template" where
  "flush_lit lit segs = (if lit = [] then segs else segs @ [Literal lit])"

text \<open>The scanning loop: the rest of the input, the pending literal and the segments so far.\<close>

function parse_loop :: "string \<Rightarrow> string \<Rightarrow> Template \<Rightarrow> parse_error + Template" where
  "parse_loop s lit segs =
     (if s = [] then Inr (flush_lit lit segs)
      else if prefix ''$${{'' s then parse_loop (drop 4 s) (lit @ ''${{'') segs
      else if prefix ''${{'' s then
        (case str_index ''}}'' s of
           None \<Rightarrow> Inl Unterminated
         | Some e \<Rightarrow>
             let raw = take (e + 2) s in
             (case parseExpr (trim_space (drop 3 (take e s))) raw of
                Inl err \<Rightarrow> Inl err
              | Inr ref \<Rightarrow> parse_loop (drop (e + 2) s) [] (flush_lit lit segs @ [Reference ref])))
      else parse_loop (tl s) (lit @ [hd s]) segs)"
  by pat_completeness auto
termination
  by (relation "measure (\<lambda>(s, lit, segs). length s)") (auto simp: prefix_def)

declare parse_loop.simps [simp del]

definition Parse :: "string \<Rightarrow> parse_error + Template" where
  "Parse s = parse_loop s [] []"

fun Refs :: "Template \<Rightarrow> Ref list" where
  "Refs [] = []"
| "Refs (Literal l # t) = Refs t"
| "Refs (Reference r # t) = r # Refs t"

section \<open>Rendering\<close>

text \<open>Each reference through the lookup; its first error ends the rendering.\<close>

fun Render :: "Template \<Rightarrow> (Ref \<Rightarrow> 'e + string) \<Rightarrow> 'e + string" where
  "Render [] lookup = Inr []"
| "Render (Literal l # t) lookup = map_sum id (\<lambda>b. l @ b) (Render t lookup)"
| "Render (Reference r # t) lookup =
     (case lookup r of
        Inl e \<Rightarrow> Inl e
      | Inr v \<Rightarrow> map_sum id (\<lambda>b. v @ b) (Render t lookup))"

section \<open>Parsing loses nothing\<close>

text \<open>The authored text of a template: literals with every \<open>${{\<close> escaped, references raw.\<close>

fun escape :: "string \<Rightarrow> string" where
  "escape [] = []"
| "escape (c # cs) = (if prefix ''${{'' (c # cs) then ''$${{'' @ escape (drop 2 cs) else c # escape cs)"

fun authored :: "Template \<Rightarrow> string" where
  "authored [] = []"
| "authored (Literal l # t) = escape l @ authored t"
| "authored (Reference r # t) = Raw r @ authored t"

lemma authored_append [simp]: "authored (a @ b) = authored a @ authored b"
  by (induction a rule: authored.induct) auto

text \<open>No \<open>${{\<close> begins in the pending literal and ends in the input.\<close>

definition no_straddle :: "string \<Rightarrow> string \<Rightarrow> bool" where
  "no_straddle lit s \<longleftrightarrow>
     \<not> (suffix ''$'' lit \<and> prefix ''{{'' s) \<and> \<not> (suffix ''${'' lit \<and> prefix ''{'' s)"

lemma no_straddle_Cons:
  assumes "no_straddle (c # cs) ys" and "cs \<noteq> []"
  shows "no_straddle cs ys"
  using assms by (auto simp: no_straddle_def suffix_Cons)

lemma prefix3_append:
  "no_straddle (c # cs) ys \<Longrightarrow> prefix ''${{'' ((c # cs) @ ys) = prefix ''${{'' (c # cs)"
  by (cases cs; cases "tl cs") (auto simp: no_straddle_def suffix_def)

lemma escape_append: "no_straddle xs ys \<Longrightarrow> escape (xs @ ys) = escape xs @ escape ys"
proof (induction xs rule: escape.induct)
  case (2 c cs)
  show ?case
  proof (cases "prefix ''${{'' (c # cs)")
    case True
    then obtain zs where zs: "cs = ''{{'' @ zs" and "c = CHR ''$''" by (auto simp: prefix_def)
    then have "no_straddle zs ys"
      using "2.prems" by (cases "zs = []") (auto simp: no_straddle_def suffix_Cons)
    with "2.IH"(1) [OF True] zs True show ?thesis by simp
  next
    case False
    have "no_straddle cs ys"
    proof (cases "cs = []")
      case True
      then show ?thesis by (simp add: no_straddle_def)
    next
      case False
      then show ?thesis by (rule no_straddle_Cons [OF "2.prems"])
    qed
    with "2.IH"(2) [OF False] prefix3_append [OF "2.prems"] False show ?thesis by auto
  qed
qed simp

lemma authored_flush: "authored (flush_lit lit segs) = authored segs @ escape lit"
  by (simp add: flush_lit_def)

lemma parseExpr_Raw: "parseExpr e raw = Inr r \<Longrightarrow> Raw r = raw"
  by (auto simp: parseExpr_def Let_def split: prod.splits if_splits option.splits)

lemma parse_loop_authored:
  "parse_loop s lit segs = Inr t \<Longrightarrow> no_straddle lit s \<Longrightarrow>
     authored t = authored segs @ escape lit @ s"
proof (induction s lit segs rule: parse_loop.induct)
  case (1 s lit segs)
  consider "s = []" | "s \<noteq> []" "prefix ''$${{'' s"
    | "s \<noteq> []" "\<not> prefix ''$${{'' s" "prefix ''${{'' s"
    | "s \<noteq> []" "\<not> prefix ''$${{'' s" "\<not> prefix ''${{'' s" by blast
  then show ?case
  proof cases
    case 1
    then show ?thesis using "1.prems"(1) by (auto simp: parse_loop.simps authored_flush)
  next
    case 2
    then obtain r where s: "s = ''$${{'' @ r" by (auto simp: prefix_def)
    have "no_straddle (lit @ ''${{'') r" by (auto simp: no_straddle_def suffix_def)
    moreover have "escape (lit @ ''${{'') = escape lit @ ''$${{''"
      by (subst escape_append) (auto simp: no_straddle_def)
    moreover have "parse_loop r (lit @ ''${{'') segs = Inr t"
      using "1.prems"(1) 2 unfolding parse_loop.simps [of s] by (simp add: s)
    ultimately show ?thesis using "1.IH"(1) [OF 2] s by simp
  next
    case 3
    from "1.prems"(1) 3 obtain e r where e: "str_index ''}}'' s = Some e"
        "parseExpr (trim_space (drop 3 (take e s))) (take (e + 2) s) = Inr r"
        "parse_loop (drop (e + 2) s) [] (flush_lit lit segs @ [Reference r]) = Inr t"
      by (auto simp: parse_loop.simps [of s] Let_def split: option.splits sum.splits)
    have "no_straddle [] (drop (e + 2) s)" by (simp add: no_straddle_def)
    from "1.IH"(2) [OF 3 e(1) refl e(2) e(3) this] parseExpr_Raw [OF e(2)]
    show ?thesis by (simp add: authored_flush)
  next
    case 4
    then obtain c r where s: "s = c # r" by (cases s) auto
    have "no_straddle lit [c]" using "1.prems"(2) s by (auto simp: no_straddle_def prefix_def)
    from escape_append [OF this] have esc: "escape (lit @ [c]) = escape lit @ [c]" by simp
    have "no_straddle (lit @ [c]) r"
      using "1.prems"(2) 4(3) s by (auto simp: no_straddle_def suffix_def prefix_def append_eq_Cons_conv)
    moreover have "parse_loop r (lit @ [c]) segs = Inr t"
      using "1.prems"(1) unfolding parse_loop.simps [of s] if_not_P [OF 4(1)] if_not_P [OF 4(2)] if_not_P [OF 4(3)]
      by (simp add: s)
    ultimately show ?thesis using "1.IH"(3) [OF 4] s esc by simp
  qed
qed

section \<open>Literal text\<close>

lemma escape_head:
  "\<not> prefix ''${{'' (escape s)"
  "prefix ''{{'' (escape s) \<longleftrightarrow> prefix ''{{'' s"
  "prefix ''{'' (escape s) \<longleftrightarrow> prefix ''{'' s"
proof -
  show c: "prefix ''{'' (escape s) \<longleftrightarrow> prefix ''{'' s" for s
    by (cases s) auto
  show b: "prefix ''{{'' (escape s) \<longleftrightarrow> prefix ''{{'' s" for s
  proof (cases s)
    case (Cons a r)
    with c [of r] show ?thesis by auto
  qed simp
  show "\<not> prefix ''${{'' (escape s)"
  proof (cases s)
    case (Cons a r)
    with b [of r] show ?thesis by auto
  qed simp
qed

lemma parse_loop_escape: "parse_loop (escape s) lit segs = Inr (flush_lit (lit @ s) segs)"
proof (induction s arbitrary: lit rule: escape.induct)
  case 1
  then show ?case by (simp add: parse_loop.simps)
next
  case (2 c cs)
  show ?case
  proof (cases "prefix ''${{'' (c # cs)")
    case True
    then obtain zs where zs: "cs = ''{{'' @ zs" and c: "c = CHR ''$''" by (auto simp: prefix_def)
    have "escape (c # cs) = ''$${{'' @ escape zs" using True zs by simp
    moreover have "parse_loop (''$${{'' @ r) lit segs = parse_loop r (lit @ ''${{'') segs" for r
      by (subst parse_loop.simps) simp
    ultimately show ?thesis using "2.IH"(1) [OF True, of "lit @ ''${{''"] zs c by simp
  next
    case False
    have e: "escape (c # cs) = c # escape cs" using False by (simp only: escape.simps if_False)
    have "\<not> prefix ''$${{'' (c # escape cs)" "\<not> prefix ''${{'' (c # escape cs)"
      using escape_head [of cs] False by (auto simp: prefix_Cons)
    then have "parse_loop (c # escape cs) lit segs = parse_loop (escape cs) (lit @ [c]) segs"
      by (subst parse_loop.simps) (simp only: if_False list.distinct list.sel)
    with "2.IH"(2) [OF False, of "lit @ [c]"] show ?thesis unfolding e by simp
  qed
qed

section \<open>The shape of references\<close>

definition ref_wf :: "Ref \<Rightarrow> bool" where
  "ref_wf r =
     (case Namespace r of
        NamespaceVars \<Rightarrow> ident_match (Var r) \<and> RunKey r = [] \<and> Component r = [] \<and> Output r = []
      | NamespaceRun \<Rightarrow> ident_match (RunKey r) \<and> Var r = [] \<and> Component r = [] \<and> Output r = []
      | NamespaceComponents \<Rightarrow>
          Component r \<noteq> [] \<and> Output r \<noteq> [] \<and> \<not> sublist outputsSep (Output r) \<and> Var r = [] \<and> RunKey r = [])"

lemma parseExpr_wf: "parseExpr e raw = Inr r \<Longrightarrow> ref_wf r"
proof (cases "str_cut e ''.''")
  case (fields ns rest found)
  assume ok: "parseExpr e raw = Inr r"
  show ?thesis
  proof (cases "ns = ''components''")
    case True
    with ok fields obtain idx where idx: "str_last_index outputsSep rest = Some idx"
        "Component r = take idx rest" "Output r = drop (idx + length outputsSep) rest"
        "Component r \<noteq> []" "Output r \<noteq> []" "Namespace r = NamespaceComponents" "Var r = []" "RunKey r = []"
      by (auto simp: parseExpr_def Let_def split: if_splits option.splits)
    have "\<not> sublist outputsSep (drop (Suc idx) rest)"
      by (rule str_last_index_last [OF _ idx(1)]) (simp add: outputsSep_def)
    moreover have "suffix (Output r) (drop (Suc idx) rest)"
    proof -
      have "drop (idx + length outputsSep) rest = drop (length outputsSep - 1) (drop (Suc idx) rest)"
        by (simp add: outputsSep_def add.commute)
      then show ?thesis unfolding idx(3) by (metis suffix_drop)
    qed
    ultimately have "\<not> sublist outputsSep (Output r)"
      by (meson sublist_order.order_trans suffix_imp_sublist)
    with idx show ?thesis by (simp add: ref_wf_def)
  next
    case False
    with ok fields show ?thesis
      by (auto simp: parseExpr_def ref_wf_def split: if_splits)
  qed
qed

lemma parse_loop_wf:
  "parse_loop s lit segs = Inr t \<Longrightarrow> \<forall>r\<in>set (Refs segs). ref_wf r \<Longrightarrow> \<forall>r\<in>set (Refs t). ref_wf r"
proof (induction s lit segs rule: parse_loop.induct)
  case (1 s lit segs)
  have app: "Refs (a @ b) = Refs a @ Refs b" for a b by (induction a rule: Refs.induct) auto
  have flush: "Refs (flush_lit l xs) = Refs xs" for l xs by (simp add: flush_lit_def app)
  consider "s = []" | "s \<noteq> []" "prefix ''$${{'' s"
    | "s \<noteq> []" "\<not> prefix ''$${{'' s" "prefix ''${{'' s"
    | "s \<noteq> []" "\<not> prefix ''$${{'' s" "\<not> prefix ''${{'' s" by blast
  then show ?case
  proof cases
    case 1
    with "1.prems" show ?thesis by (auto simp: parse_loop.simps flush)
  next
    case 2
    with "1.prems" "1.IH"(1) [OF 2] show ?thesis by (simp add: parse_loop.simps [of s])
  next
    case 3
    from "1.prems"(1) 3 obtain e r where e: "str_index ''}}'' s = Some e"
        "parseExpr (trim_space (drop 3 (take e s))) (take (e + 2) s) = Inr r"
        "parse_loop (drop (e + 2) s) [] (flush_lit lit segs @ [Reference r]) = Inr t"
      by (auto simp: parse_loop.simps [of s] Let_def split: option.splits sum.splits)
    have "\<forall>x\<in>set (Refs (flush_lit lit segs @ [Reference r])). ref_wf x"
      using "1.prems"(2) parseExpr_wf [OF e(2)] by (simp add: app flush)
    from "1.IH"(2) [OF 3 e(1) refl e(2) e(3) this] show ?thesis .
  next
    case 4
    with "1.prems" "1.IH"(3) [OF 4] show ?thesis by (simp add: parse_loop.simps [of s])
  qed
qed

section \<open>Claims\<close>

definition demo_text :: string where
  "demo_text = ''a$${{b ${{ vars.HOST }}:${{ components.a.outputs.b.outputs.c }}''"

text \<open>
  C19: parsing loses nothing: writing the segments back, with every literal \<open>${{\<close> escaped and every
  reference as it was authored, gives the text that was parsed.
\<close>
theorem Parse_authored:
  assumes "Parse s = Inr t"
  shows "authored t = s"
  using parse_loop_authored [of s "[]" "[]" t] assms by (simp add: Parse_def no_straddle_def)

theorem Parse_authored_witness:
  "\<exists>t. Parse demo_text = Inr t \<and> length (Refs t) = 2 \<and> authored t = demo_text"
proof -
  have "\<not> isl (Parse demo_text) \<and> length (Refs (projr (Parse demo_text))) = 2" by code_simp
  then obtain t where t: "Parse demo_text = Inr t" "length (Refs t) = 2" by (cases "Parse demo_text") auto
  with Parse_authored [OF t(1)] show ?thesis by blast
qed

text \<open>
  C32: any text can be written literally: escaping its \<open>${{\<close> gives a template without references that
  renders to the text, whatever the lookup.
\<close>
theorem escape_renders_literally:
  "\<exists>t. Parse (escape s) = Inr t \<and> Refs t = [] \<and> Render t lookup = Inr s"
  using parse_loop_escape [of s "[]" "[]"] by (auto simp: Parse_def flush_lit_def)

text \<open>
  C33: every reference of a parsed template has the fields of its namespace: an identifier for \<open>vars\<close>
  and \<open>run\<close>, a non-empty component name and output key for \<open>components\<close>, where the key holds no
  further separator (a name may hold one).
\<close>
theorem Parse_refs_wf:
  assumes "Parse s = Inr t" and "r \<in> set (Refs t)"
  shows "ref_wf r"
  using parse_loop_wf [of s "[]" "[]" t] assms by (simp add: Parse_def)

theorem Parse_refs_wf_witness:
  "\<exists>t r. Parse demo_text = Inr t \<and> r \<in> set (Refs t) \<and> Component r = ''a.outputs.b'' \<and> Output r = ''c'' \<and> ref_wf r"
proof -
  have "\<not> isl (Parse demo_text) \<and>
      (case Refs (projr (Parse demo_text)) of [a, b] \<Rightarrow> Component b = ''a.outputs.b'' \<and> Output b = ''c'' | _ \<Rightarrow> False)"
    by code_simp
  then obtain t a b where t: "Parse demo_text = Inr t" "Refs t = [a, b]" "Component b = ''a.outputs.b''" "Output b = ''c''"
    by (cases "Parse demo_text") (auto split: list.splits)
  with Parse_refs_wf [OF t(1), of b] show ?thesis by auto
qed

end
