(* ===== verification/Json.thy ===== *)
theory Json
  imports GoStrings
begin

text \<open>
  \<open>encoding/json\<close> as the code uses it: \<open>json.Unmarshal\<close> accepts exactly one JSON value surrounded
  by white space, nested at most 10000 deep, and decodes it into the type of its target. Numbers
  are kept as their text.
\<close>

datatype json =
    JNull
  | JBool bool
  | JNum string
  | JStr string
  | JArr "json list"
  | JObj "(string \<times> json) list"

section \<open>Lexical elements\<close>

definition json_ws :: "char \<Rightarrow> bool" where
  "json_ws c \<longleftrightarrow> of_char c \<in> {9, 10, 13, 32 :: nat}"

definition skip_ws :: "string \<Rightarrow> string" where
  "skip_ws = dropWhile json_ws"

fun hex_digit :: "char \<Rightarrow> nat option" where
  "hex_digit c =
     (let b = of_char c in
      if is_digit c then Some (b - 48)
      else if 97 \<le> b \<and> b \<le> 102 then Some (b - 87)
      else if 65 \<le> b \<and> b \<le> 70 then Some (b - 55)
      else None)"

fun hex4 :: "string \<Rightarrow> (nat \<times> string) option" where
  "hex4 (a # b # c # d # r) =
     (case (hex_digit a, hex_digit b, hex_digit c, hex_digit d) of
        (Some w, Some x, Some y, Some z) \<Rightarrow> Some (((w * 16 + x) * 16 + y) * 16 + z, r)
      | _ \<Rightarrow> None)"
| "hex4 _ = None"

lemma hex4_shorter: "hex4 s = Some (n, r) \<Longrightarrow> length r < length s"
  by (induction s rule: hex4.induct) (auto split: option.splits)

definition quote_char :: char where
  "quote_char = char_of (34 :: nat)"

definition backslash :: char where
  "backslash = char_of (92 :: nat)"

text \<open>A two-character escape.\<close>

definition simple_escape :: "char \<Rightarrow> char option" where
  "simple_escape e =
     (if e = quote_char \<or> e = backslash \<or> e = CHR ''/'' then Some e
      else if e = CHR ''b'' then Some (char_of (8 :: nat))
      else if e = CHR ''f'' then Some (char_of (12 :: nat))
      else if e = CHR ''n'' then Some (char_of (10 :: nat))
      else if e = CHR ''r'' then Some (char_of (13 :: nat))
      else if e = CHR ''t'' then Some (char_of (9 :: nat))
      else None)"

definition high_surrogate :: "nat \<Rightarrow> bool" where
  "high_surrogate u \<longleftrightarrow> 0xD800 \<le> u \<and> u \<le> 0xDBFF"

definition low_surrogate :: "nat \<Rightarrow> bool" where
  "low_surrogate u \<longleftrightarrow> 0xDC00 \<le> u \<and> u \<le> 0xDFFF"

text \<open>The rune of a \<open>\\u\<close> escape: a surrogate pair is one rune, a lone surrogate \<open>U+FFFD\<close>.\<close>

definition unicode_escape :: "string \<Rightarrow> (nat \<times> string) option" where
  "unicode_escape s =
     (case hex4 s of
        None \<Rightarrow> None
      | Some (u, r) \<Rightarrow>
          if high_surrogate u \<and> prefix [backslash, CHR ''u''] r then
            (case hex4 (drop 2 r) of
               Some (v, r2) \<Rightarrow>
                 if low_surrogate v then Some (0x10000 + (u - 0xD800) * 1024 + (v - 0xDC00), r2)
                 else Some (rune_error, r)
             | None \<Rightarrow> Some (rune_error, r))
          else if high_surrogate u \<or> low_surrogate u then Some (rune_error, r)
          else Some (u, r))"

lemma unicode_escape_shorter: "unicode_escape s = Some (n, r) \<Longrightarrow> length r < length s"
  by (auto simp: unicode_escape_def dest!: hex4_shorter split: option.splits if_splits)

function str_body :: "string \<Rightarrow> string \<Rightarrow> (string \<times> string) option" where
  "str_body s acc =
     (case s of
        [] \<Rightarrow> None
      | c # cs \<Rightarrow>
          if c = quote_char then Some (acc, cs)
          else if of_char c < (32 :: nat) then None
          else if c = backslash then
            (case cs of
               [] \<Rightarrow> None
             | e # es \<Rightarrow>
                 if e = CHR ''u'' then
                   (case unicode_escape es of
                      None \<Rightarrow> None
                    | Some (u, r) \<Rightarrow> str_body r (acc @ encode_rune u))
                 else (case simple_escape e of
                         None \<Rightarrow> None
                       | Some x \<Rightarrow> str_body es (acc @ [x])))
          else (case decode_rune s of (u, w) \<Rightarrow> str_body (drop w s) (acc @ encode_rune u)))"
  by pat_completeness auto
termination
proof (relation "measure (\<lambda>(s, acc). length s)", goal_cases)
  case (4 s acc c cs u w)
  then have "w = snd (decode_rune s)" by (metis snd_conv)
  with decode_rune_width [of s] 4 show ?case by auto
qed (auto dest: unicode_escape_shorter)

declare str_body.simps [simp del]

text \<open>A number: sign, integer part without leading zeros, fraction, exponent.\<close>

definition take_digits :: "string \<Rightarrow> string \<times> string" where
  "take_digits s = (takeWhile is_digit s, dropWhile is_digit s)"

definition num_int :: "string \<Rightarrow> (string \<times> string) option" where
  "num_int s =
     (case s of
        [] \<Rightarrow> None
      | c # cs \<Rightarrow>
          if c = CHR ''0'' then Some ([c], cs)
          else case take_digits s of (ds, r) \<Rightarrow> if ds = [] then None else Some (ds, r))"

definition num_frac :: "string \<Rightarrow> (string \<times> string) option" where
  "num_frac s =
     (case s of
        c # cs \<Rightarrow>
          if c = CHR ''.'' then
            (case take_digits cs of (ds, r) \<Rightarrow> if ds = [] then None else Some (c # ds, r))
          else Some ([], s)
      | [] \<Rightarrow> Some ([], []))"

definition num_exp :: "string \<Rightarrow> (string \<times> string) option" where
  "num_exp s =
     (case s of
        c # cs \<Rightarrow>
          if c = CHR ''e'' \<or> c = CHR ''E'' then
            (let sign = (if cs \<noteq> [] \<and> (hd cs = CHR ''+'' \<or> hd cs = CHR ''-'') then [hd cs] else [])
             in case take_digits (drop (length sign) cs) of
                  (ds, r) \<Rightarrow> if ds = [] then None else Some (c # sign @ ds, r))
          else Some ([], s)
      | [] \<Rightarrow> Some ([], []))"

definition num_body :: "string \<Rightarrow> (string \<times> string) option" where
  "num_body s =
     (let sign = (if s \<noteq> [] \<and> hd s = CHR ''-'' then [hd s] else []) in
      case num_int (drop (length sign) s) of
        None \<Rightarrow> None
      | Some (i, r1) \<Rightarrow>
          (case num_frac r1 of
             None \<Rightarrow> None
           | Some (f, r2) \<Rightarrow>
               (case num_exp r2 of
                  None \<Rightarrow> None
                | Some (e, r3) \<Rightarrow> Some (sign @ i @ f @ e, r3))))"

section \<open>Values\<close>

definition max_nesting :: nat where
  "max_nesting = 10000"

definition literal_value :: "string \<Rightarrow> (json \<times> string) option" where
  "literal_value s =
     (if prefix ''null'' s then Some (JNull, drop 4 s)
      else if prefix ''true'' s then Some (JBool True, drop 4 s)
      else if prefix ''false'' s then Some (JBool False, drop 5 s)
      else map_option (\<lambda>(t, r). (JNum t, r)) (num_body s))"

lemma skip_ws_length: "length (skip_ws s) \<le> length s"
  unfolding skip_ws_def by (rule length_dropWhile_le)

lemma skip_ws_Cons: "skip_ws s = c # cs \<Longrightarrow> length cs < length s"
  using skip_ws_length [of s] by simp

text \<open>
  The three functions always return a strictly shorter rest; the comparison of lengths before a
  further element only makes that evident to the definition.
\<close>

function parse_value :: "nat \<Rightarrow> string \<Rightarrow> (json \<times> string) option"
  and parse_elems :: "nat \<Rightarrow> string \<Rightarrow> json list \<Rightarrow> (json \<times> string) option"
  and parse_members :: "nat \<Rightarrow> string \<Rightarrow> (string \<times> json) list \<Rightarrow> (json \<times> string) option"
where
  "parse_value d s =
     (case skip_ws s of
        [] \<Rightarrow> None
      | c # cs \<Rightarrow>
          if c = quote_char then map_option (\<lambda>(x, r). (JStr x, r)) (str_body cs [])
          else if c = CHR ''['' then
            (if max_nesting \<le> d then None
             else case skip_ws cs of
                    [] \<Rightarrow> None
                  | e # es \<Rightarrow> if e = CHR '']'' then Some (JArr [], es) else parse_elems (Suc d) cs [])
          else if c = CHR ''{'' then
            (if max_nesting \<le> d then None
             else case skip_ws cs of
                    [] \<Rightarrow> None
                  | e # es \<Rightarrow> if e = CHR ''}'' then Some (JObj [], es) else parse_members (Suc d) cs [])
          else literal_value (c # cs))"
| "parse_elems d s acc =
     (case parse_value d s of
        None \<Rightarrow> None
      | Some (v, r) \<Rightarrow>
          (case skip_ws r of
             [] \<Rightarrow> None
           | c # cs \<Rightarrow>
               if c = CHR '']'' then Some (JArr (acc @ [v]), cs)
               else if c = CHR '','' \<and> length cs < length s then parse_elems d cs (acc @ [v])
               else None))"
| "parse_members d s acc =
     (case skip_ws s of
        [] \<Rightarrow> None
      | q # qs \<Rightarrow>
          if q \<noteq> quote_char then None
          else case str_body qs [] of
            None \<Rightarrow> None
          | Some (k, r1) \<Rightarrow>
              (case skip_ws r1 of
                 [] \<Rightarrow> None
               | colon # vs \<Rightarrow>
                   if colon \<noteq> CHR '':'' \<or> length s \<le> length vs then None
                   else case parse_value d vs of
                     None \<Rightarrow> None
                   | Some (v, r2) \<Rightarrow>
                       (case skip_ws r2 of
                          [] \<Rightarrow> None
                        | c # cs \<Rightarrow>
                            if c = CHR ''}'' then Some (JObj (acc @ [(k, v)]), cs)
                            else if c = CHR '','' \<and> length cs < length s
                              then parse_members d cs (acc @ [(k, v)])
                            else None)))"
  by pat_completeness auto

termination
proof (relation "measures
    [case_sum (\<lambda>(d, s). length s) (case_sum (\<lambda>(d, s, acc). length s) (\<lambda>(d, s, acc). length s)),
     case_sum (\<lambda>_. 0) (case_sum (\<lambda>_. 1) (\<lambda>_. 1))]")
qed (auto dest: skip_ws_Cons)

declare parse_value.simps [simp del] parse_elems.simps [simp del] parse_members.simps [simp del]

text \<open>\<open>json.Valid\<close> and the value: nothing but white space may follow.\<close>

definition json_parse :: "string \<Rightarrow> json option" where
  "json_parse s =
     (case parse_value 0 s of
        Some (v, r) \<Rightarrow> if skip_ws r = [] then Some v else None
      | None \<Rightarrow> None)"

section \<open>Decoding into Go types\<close>

text \<open>
  A number decoded into \<open>any\<close> becomes a \<open>float64\<close> and is an error when it is out of range: when its
  magnitude is at least halfway between the largest finite value and \<open>2^1024\<close>.
\<close>

fun digits_value :: "string \<Rightarrow> int \<Rightarrow> int" where
  "digits_value [] acc = acc"
| "digits_value (c # cs) acc = digits_value cs (acc * 10 + (of_char c - 48))"

definition num_overflows :: "string \<Rightarrow> bool" where
  "num_overflows t =
     (let u = (if t \<noteq> [] \<and> hd t = CHR ''-'' then tl t else t);
          (i, r1) = take_digits u;
          f = (if r1 \<noteq> [] \<and> hd r1 = CHR ''.'' then fst (take_digits (tl r1)) else []);
          r2 = (if r1 \<noteq> [] \<and> hd r1 = CHR ''.'' then snd (take_digits (tl r1)) else r1);
          e = (if r2 = [] then 0
               else if tl r2 \<noteq> [] \<and> hd (tl r2) = CHR ''-'' then - digits_value (tl (tl r2)) 0
               else if tl r2 \<noteq> [] \<and> hd (tl r2) = CHR ''+'' then digits_value (tl (tl r2)) 0
               else digits_value (tl r2) 0);
          m = digits_value (i @ f) 0;
          x = e - int (length f);
          limit = 2 ^ 1024 - 2 ^ 970 :: int
      in if x \<ge> 0 then m * 10 ^ nat x \<ge> limit else m \<ge> limit * 10 ^ nat (- x))"

fun any_ok :: "json \<Rightarrow> bool" where
  "any_ok (JNum t) \<longleftrightarrow> \<not> num_overflows t"
| "any_ok (JArr vs) \<longleftrightarrow> list_all any_ok vs"
| "any_ok (JObj kvs) \<longleftrightarrow> list_all (\<lambda>kv. any_ok (snd kv)) kvs"
| "any_ok _ \<longleftrightarrow> True"

text \<open>
  The targets: \<open>map[string]any\<close>, \<open>map[string]json.RawMessage\<close> (\<open>None\<close> inside is the nil map),
  \<open>[]string\<close>, \<open>map[string]string\<close> and \<open>[]map[string]string\<close>. A repeated key keeps its last value, so
  an object is decoded as an association list with the last binding first; \<open>null\<close> leaves the zero
  value.
\<close>

definition decode_any_map :: "string \<Rightarrow> (string \<times> json) list option" where
  "decode_any_map s =
     (case json_parse s of
        Some JNull \<Rightarrow> Some []
      | Some (JObj kvs) \<Rightarrow> if list_all (\<lambda>kv. any_ok (snd kv)) kvs then Some (rev kvs) else None
      | _ \<Rightarrow> None)"

definition decode_raw_map :: "string \<Rightarrow> (string \<times> json) list option option" where
  "decode_raw_map s =
     (case json_parse s of
        Some JNull \<Rightarrow> Some None
      | Some (JObj kvs) \<Rightarrow> Some (Some (rev kvs))
      | _ \<Rightarrow> None)"

fun decode_string :: "json \<Rightarrow> string option" where
  "decode_string (JStr s) = Some s"
| "decode_string JNull = Some []"
| "decode_string _ = None"

fun collect :: "('a \<Rightarrow> 'b option) \<Rightarrow> 'a list \<Rightarrow> 'b list option" where
  "collect f [] = Some []"
| "collect f (x # xs) =
     (case f x of None \<Rightarrow> None | Some y \<Rightarrow> map_option (\<lambda>ys. y # ys) (collect f xs))"

definition decode_string_list :: "string \<Rightarrow> string list option" where
  "decode_string_list s =
     (case json_parse s of
        Some JNull \<Rightarrow> Some []
      | Some (JArr vs) \<Rightarrow> collect decode_string vs
      | _ \<Rightarrow> None)"

fun decode_string_map :: "json \<Rightarrow> (string \<times> string) list option" where
  "decode_string_map JNull = Some []"
| "decode_string_map (JObj kvs) =
     map_option rev (collect (\<lambda>(k, v). map_option (Pair k) (decode_string v)) kvs)"
| "decode_string_map _ = None"

definition decode_map_list :: "string \<Rightarrow> (string \<times> string) list list option" where
  "decode_map_list s =
     (case json_parse s of
        Some JNull \<Rightarrow> Some []
      | Some (JArr vs) \<Rightarrow> collect decode_string_map vs
      | _ \<Rightarrow> None)"

end
