(* ===== verification/Validate.thy ===== *)
theory Validate
  imports Workflow Interpolate Json
begin

text \<open>
  The write-time validation of a workflow: \<open>lib/slug\<close>, \<open>lib/workflows/stages.go\<close>,
  \<open>dag.go\<close> and the save-time half of \<open>interpolation.go\<close>; \<open>lib/tofu/versions.go\<close>. A validator
  returns \<open>None\<close> where the code returns \<open>nil\<close>. \<open>uuid.Parse\<close> of \<open>github.com/google/uuid\<close> is the
  parameter \<open>uuid_parse\<close>.
\<close>

section \<open>Slugs and labels\<close>

definition slug_Valid :: "string \<Rightarrow> bool" where
  "slug_Valid s \<longleftrightarrow> length s > 0 \<and> length s \<le> 63 \<and> dns_label_match s"

definition validDNSLabel :: "string \<Rightarrow> bool" where
  "validDNSLabel s \<longleftrightarrow> length s \<le> 63 \<and> dns_label_match s"

section \<open>OpenTofu versions\<close>

record Version =
  Minor :: string
  Image :: string
  NativeS3Lock :: bool

definition Versions :: "Version list" where
  "Versions =
     [\<lparr>Minor = ''1.12'', Image = ''ghcr.io/opentofu/opentofu:1.12.1'', NativeS3Lock = True\<rparr>,
      \<lparr>Minor = ''1.11'', Image = ''ghcr.io/opentofu/opentofu:1.11.8'', NativeS3Lock = True\<rparr>,
      \<lparr>Minor = ''1.10'', Image = ''ghcr.io/opentofu/opentofu:1.10.10'', NativeS3Lock = True\<rparr>,
      \<lparr>Minor = ''1.9'', Image = ''ghcr.io/opentofu/opentofu:1.9.4'', NativeS3Lock = False\<rparr>]"

definition DefaultVersion :: string where
  "DefaultVersion = ''1.9''"

definition ResolveVersion :: "string \<Rightarrow> Version option" where
  "ResolveVersion minor =
     (let m = (if minor = [] then DefaultVersion else minor) in find (\<lambda>v. Minor v = m) Versions)"

section \<open>Stages\<close>

definition flattenStages :: "StageInput list \<Rightarrow> ComponentInput list" where
  "flattenStages stages = concat (map si_Components stages)"

text \<open>One stage of the loop: its components depend on \<open>prev\<close>; an empty stage is skipped.\<close>

definition stage_deps_step ::
  "(uuid \<rightharpoonup> uuid list) \<times> uuid list \<Rightarrow> StageInput \<Rightarrow> (uuid \<rightharpoonup> uuid list) \<times> uuid list" where
  "stage_deps_step acc st =
     (case acc of (deps, prev) \<Rightarrow>
        if si_Components st = [] then (deps, prev)
        else (foldl (\<lambda>m c. m(ci_ID c \<mapsto> prev)) deps (si_Components st),
              map ci_ID (si_Components st)))"

definition stageDependencies :: "StageInput list \<Rightarrow> (uuid \<rightharpoonup> uuid list)" where
  "stageDependencies stages = fst (foldl stage_deps_step (Map.empty, []) stages)"

text \<open>Reading a Go map of lists: an absent key is the nil slice.\<close>

definition deps_of :: "('a \<rightharpoonup> 'b list) \<Rightarrow> 'a \<Rightarrow> 'b list" where
  "deps_of m k = (case m k of None \<Rightarrow> [] | Some ds \<Rightarrow> ds)"

section \<open>Per-type configuration\<close>

definition hasTargetCluster :: "ComponentInput \<Rightarrow> bool" where
  "hasTargetCluster n \<longleftrightarrow> ci_TargetClusterID n \<noteq> None \<and> ci_TargetClusterID n \<noteq> Some uuid_Nil"

fun requireConfig :: "ComponentInput \<Rightarrow> string list \<Rightarrow> wf_error option" where
  "requireConfig n [] = None"
| "requireConfig n (k # ks) =
     (if cfg (ci_Config n) k = [] then Some (ErrInvalidConfig (ci_Name n) (RequiresKey k))
      else requireConfig n ks)"

definition decodeValuesSources :: "string \<Rightarrow> (string \<times> string) list list option" where
  "decodeValuesSources encoded = (if encoded = [] then Some [] else decode_map_list encoded)"

definition src_get :: "(string \<times> string) list \<Rightarrow> string \<Rightarrow> string" where
  "src_get src k = (case map_of src k of None \<Rightarrow> [] | Some v \<Rightarrow> v)"

fun values_source_faults :: "ComponentInput \<Rightarrow> nat \<Rightarrow> (string \<times> string) list list \<Rightarrow> wf_error option" where
  "values_source_faults n i [] = None"
| "values_source_faults n i (src # srcs) =
     (if src_get src ''repo_url'' = [] then Some (ErrInvalidConfig (ci_Name n) (ValuesSourceRequires i ''repo_url''))
      else if src_get src ''path'' = [] then Some (ErrInvalidConfig (ci_Name n) (ValuesSourceRequires i ''path''))
      else values_source_faults n (Suc i) srcs)"

definition validateValuesSources :: "ComponentInput \<Rightarrow> wf_error option" where
  "validateValuesSources n =
     (case decodeValuesSources (cfg (ci_Config n) ''values_sources'') of
        None \<Rightarrow> Some (ErrInvalidConfig (ci_Name n) BadValuesSources)
      | Some sources \<Rightarrow> values_source_faults n 0 sources)"

section \<open>Interpolation references of a helm component\<close>

text \<open>Field name, authored value, whether it is the inline values.\<close>

definition helmInterpolationFields :: "ComponentInput \<Rightarrow> (string \<times> string \<times> bool) list" where
  "helmInterpolationFields n =
     [(''values'', cfg (ci_Config n) ''values'', True),
      (''release_name'', cfg (ci_Config n) ''release_name'', False),
      (''target_namespace'', ci_TargetNamespace n, False)]"

definition validateHelmRef :: "ComponentInput \<Rightarrow> Ref \<Rightarrow> string \<Rightarrow> bool \<Rightarrow> bool \<Rightarrow> wf_error option" where
  "validateHelmRef n ref field inValues gitSource =
     (case Namespace ref of
        NamespaceVars \<Rightarrow> None
      | NamespaceComponents \<Rightarrow> None
      | NamespaceRun \<Rightarrow>
          let key = RunKey ref; fault = (\<lambda>f. Some (ErrInvalidConfig (ci_Name n) (f field (Raw ref))))
          in if key = ''id'' \<or> key = ''action'' then None
             else if key = ''git_ref'' then
               (if \<not> gitSource then fault GitSourceRequired
                else if cfg (ci_Config n) ''git_ref'' = [] then fault GitRefRequired
                else None)
             else if key = ''git_sha'' \<or> key = ''git_sha_short'' then
               (if \<not> gitSource then fault GitSourceRequired
                else if \<not> inValues then fault OnlyInValues
                else None)
             else fault UnknownRunKey)"

fun first_fault :: "('a \<Rightarrow> 'e option) \<Rightarrow> 'a list \<Rightarrow> 'e option" where
  "first_fault f [] = None"
| "first_fault f (x # xs) = (case f x of None \<Rightarrow> first_fault f xs | Some e \<Rightarrow> Some e)"

definition validateHelmField :: "ComponentInput \<Rightarrow> string \<times> string \<times> bool \<Rightarrow> wf_error option" where
  "validateHelmField n f =
     (case f of (name, value, inValues) \<Rightarrow>
        (case Parse value of
           Inl _ \<Rightarrow> Some (ErrInvalidConfig (ci_Name n) (BadReference name))
         | Inr tpl \<Rightarrow>
             first_fault (\<lambda>ref. validateHelmRef n ref name inValues (cfg (ci_Config n) ''chart_source'' = SourceGit))
               (Refs tpl)))"

definition validateHelmInterpolation :: "ComponentInput \<Rightarrow> wf_error option" where
  "validateHelmInterpolation n = first_fault (validateHelmField n) (helmInterpolationFields n)"

section \<open>Component types\<close>

definition chart_source_fault :: "ComponentInput \<Rightarrow> wf_error option" where
  "chart_source_fault n =
     (let source = cfg (ci_Config n) ''chart_source'' in
      if source = SourceHTTPRepo then requireConfig n [''repo_url'', ''chart'']
      else if source = SourceOCI then requireConfig n [''repo_url'']
      else if source = SourceGit then requireConfig n [''repo_url'']
      else if source = [] then Some (ErrInvalidConfig (ci_Name n) RequiresChartSource)
      else Some (ErrInvalidConfig (ci_Name n) UnknownChartSource))"

definition validateHelmConfig :: "ComponentInput \<Rightarrow> wf_error option" where
  "validateHelmConfig n =
     (let bad = (\<lambda>f. Some (ErrInvalidConfig (ci_Name n) f)) in
      if \<not> hasTargetCluster n then bad RequiresTargetCluster
      else if ci_TargetNamespace n = [] then bad RequiresTargetNamespace
      else case chart_source_fault n of
        Some e \<Rightarrow> Some e
      | None \<Rightarrow>
          if cfg (ci_Config n) ''create_namespace'' \<notin> {[], ''true'', ''false''} then bad BadCreateNamespace
          else case validateValuesSources n of
            Some e \<Rightarrow> Some e
          | None \<Rightarrow> validateHelmInterpolation n)"

definition validateManifestConfig :: "ComponentInput \<Rightarrow> wf_error option" where
  "validateManifestConfig n =
     (if \<not> hasTargetCluster n then Some (ErrInvalidConfig (ci_Name n) RequiresTargetCluster)
      else requireConfig n [''repo_url'', ''path''])"

definition backendRequiredKeys :: "string \<Rightarrow> string list option" where
  "backendRequiredKeys b =
     (if b = BackendS3 then Some [''bucket'', ''key'', ''region'']
      else if b = BackendGCS then Some [''bucket'', ''prefix'']
      else if b = BackendAzure then Some [''storage_account_name'', ''container_name'', ''key'']
      else if b = BackendSpacefleet then Some []
      else None)"

definition backendSecretKeys :: "string \<Rightarrow> string list" where
  "backendSecretKeys b =
     (if b = BackendS3 then [''access_key'', ''secret_key'', ''token'']
      else if b = BackendGCS then [''encryption_key'', ''credentials'', ''access_token'']
      else if b = BackendAzure then
        [''access_key'', ''sas_token'', ''client_secret'', ''client_certificate_password'', ''oidc_token'']
      else [])"

text \<open>A backend setting as \<open>s, _ := backendCfg[key].(string)\<close> reads it.\<close>

definition setting_string :: "(string \<times> json) list \<Rightarrow> string \<Rightarrow> string" where
  "setting_string c k = (case map_of c k of Some (JStr s) \<Rightarrow> s | _ \<Rightarrow> [])"

text \<open>The pattern \<open>^[A-Za-z_][A-Za-z0-9_-]*$\<close> and the pattern \<open>^[A-Za-z0-9_.-]{1,90}$\<close>.\<close>

definition tfVarName_match :: "string \<Rightarrow> bool" where
  "tfVarName_match s =
     (case s of
        [] \<Rightarrow> False
      | c # cs \<Rightarrow> (is_lower c \<or> is_upper c \<or> c = CHR ''_'') \<and>
          list_all (\<lambda>d. is_lower d \<or> is_upper d \<or> is_digit d \<or> d = CHR ''_'' \<or> d = CHR ''-'') cs)"

definition workspace_match :: "string \<Rightarrow> bool" where
  "workspace_match s \<longleftrightarrow>
     1 \<le> length s \<and> length s \<le> 90 \<and>
     list_all (\<lambda>d. is_lower d \<or> is_upper d \<or> is_digit d \<or> d \<in> set ''_.-'') s"

text \<open>The state backend and its settings, up to the secrets.\<close>

definition backend_fault :: "ComponentInput \<Rightarrow> (string \<times> json) list \<Rightarrow> string list \<Rightarrow> config_fault option" where
  "backend_fault n settings required =
     (let backend = cfg (ci_Config n) ''backend'' in
      if backend = BackendSpacefleet \<and> settings \<noteq> [] then Some BackendTakesNoSettings
      else if backend = BackendSpacefleet \<and> cfg (ci_Config n) ''workspace'' \<noteq> [] then Some BackendTakesNoWorkspace
      else case find (\<lambda>k. setting_string settings k = []) required of
        Some k \<Rightarrow> Some (BackendRequires k)
      | None \<Rightarrow>
          if list_ex (\<lambda>k. map_of settings k \<noteq> None) (backendSecretKeys backend) then Some BackendSecret
          else None)"

text \<open>The OpenTofu line, and \<open>use_lockfile\<close> only where the line has it.\<close>

definition version_fault :: "ComponentInput \<Rightarrow> (string \<times> json) list \<Rightarrow> config_fault option" where
  "version_fault n settings =
     (case ResolveVersion (cfg (ci_Config n) ''tofu_version'') of
        None \<Rightarrow> Some UnsupportedVersion
      | Some v \<Rightarrow>
          if map_of settings ''use_lockfile'' \<noteq> None \<and> cfg (ci_Config n) ''backend'' = BackendS3 \<and> \<not> NativeS3Lock v
          then Some LockfileNeedsNewer else None)"

definition uuid_field_fault :: "(string \<Rightarrow> uuid option) \<Rightarrow> string \<Rightarrow> config_fault \<Rightarrow> config_fault option" where
  "uuid_field_fault uuid_parse s fault = (if s \<noteq> [] \<and> uuid_parse s = None then Some fault else None)"

definition flags_fault :: "ComponentInput \<Rightarrow> string \<Rightarrow> config_fault option" where
  "flags_fault n key =
     (let raw = cfg (ci_Config n) key in
      if raw \<noteq> [] \<and> decode_string_list raw = None then Some (BadFlags key) else None)"

definition workspace_fault :: "ComponentInput \<Rightarrow> config_fault option" where
  "workspace_fault n =
     (let ws = cfg (ci_Config n) ''workspace'' in
      if ws \<noteq> [] \<and> \<not> workspace_match ws then Some BadWorkspace else None)"

definition tfvars_fault :: "ComponentInput \<Rightarrow> config_fault option" where
  "tfvars_fault n =
     (let raw = trim_space (cfg (ci_Config n) ''tfvars'') in
      if raw = [] then None
      else case decode_raw_map raw of
        Some (Some vars) \<Rightarrow> if list_all (tfVarName_match \<circ> fst) vars then None else Some BadTFVarName
      | _ \<Rightarrow> Some BadTFVars)"

definition backend_settings :: "ComponentInput \<Rightarrow> (string \<times> json) list option" where
  "backend_settings n =
     (let raw = cfg (ci_Config n) ''backend_config'' in if raw = [] then Some [] else decode_any_map raw)"

text \<open>The checks of the settings, in the code's order.\<close>

definition terraform_faults ::
  "(string \<Rightarrow> uuid option) \<Rightarrow> ComponentInput \<Rightarrow> (string \<times> json) list \<Rightarrow> string list \<Rightarrow> config_fault option list" where
  "terraform_faults uuid_parse n settings required =
     [backend_fault n settings required,
      version_fault n settings,
      uuid_field_fault uuid_parse (cfg (ci_Config n) ''cloud_credential_id'') BadCloudCredential,
      uuid_field_fault uuid_parse (cfg (ci_Config n) ''auth_cluster_id'') BadAuthCluster,
      flags_fault n ''init_flags'',
      flags_fault n ''plan_flags'',
      flags_fault n ''apply_flags'',
      workspace_fault n,
      tfvars_fault n]"

definition validateTerraformConfig :: "(string \<Rightarrow> uuid option) \<Rightarrow> ComponentInput \<Rightarrow> wf_error option" where
  "validateTerraformConfig uuid_parse n =
     (let bad = (\<lambda>f. Some (ErrInvalidConfig (ci_Name n) f)) in
      if hasTargetCluster n then bad ForbidsTargetCluster
      else if ci_TargetNamespace n \<noteq> [] then bad ForbidsTargetNamespace
      else case requireConfig n [''repo_url''] of
        Some e \<Rightarrow> Some e
      | None \<Rightarrow>
          (case backendRequiredKeys (cfg (ci_Config n) ''backend'') of
             None \<Rightarrow> bad UnsupportedBackend
           | Some required \<Rightarrow>
               (case backend_settings n of
                  None \<Rightarrow> bad BadBackendConfig
                | Some settings \<Rightarrow>
                    map_option (ErrInvalidConfig (ci_Name n))
                      (first_fault id (terraform_faults uuid_parse n settings required)))))"

definition validateConfig :: "(string \<Rightarrow> uuid option) \<Rightarrow> ComponentInput \<Rightarrow> wf_error option" where
  "validateConfig uuid_parse n =
     (if ci_Type n = TypeHelm then validateHelmConfig n
      else if ci_Type n = TypeManifest then validateManifestConfig n
      else if ci_Type n = TypeTerraform then validateTerraformConfig uuid_parse n
      else Some (ErrInvalidConfig (ci_Name n) UnknownType))"

section \<open>References to outputs\<close>

text \<open>The worklist of \<open>transitiveDeps\<close>: the stack, its last element on top, and the set seen.\<close>

function deps_walk :: "(uuid \<rightharpoonup> uuid list) \<Rightarrow> uuid list \<Rightarrow> uuid set \<Rightarrow> uuid set" where
  "deps_walk expanded stack seen =
     (if stack = [] then seen
      else let d = last stack; rest = butlast stack in
        if d \<in> seen then deps_walk expanded rest seen
        else deps_walk expanded (rest @ deps_of expanded d) (insert d seen))"
  by pat_completeness auto
termination
proof (relation "measures [\<lambda>(e, st, seen). card (UNIV - seen), \<lambda>(e, st, seen). length st]", goal_cases)
  case (3 e st seen d rest)
  then have "UNIV - insert d seen \<subset> UNIV - seen" by blast
  then have "card (UNIV - insert d seen) < card (UNIV - seen)" by (rule psubset_card_mono [rotated]) simp
  then show ?case by simp
qed auto

declare deps_walk.simps [simp del]

definition transitiveDeps :: "(uuid \<rightharpoonup> uuid list) \<Rightarrow> uuid \<Rightarrow> uuid set" where
  "transitiveDeps expanded i = deps_walk expanded (deps_of expanded i) {}"

definition output_ref_fault ::
  "ComponentInput list \<Rightarrow> (uuid \<rightharpoonup> uuid list) \<Rightarrow> ComponentInput \<Rightarrow> string \<Rightarrow> Ref \<Rightarrow> wf_error option" where
  "output_ref_fault components expanded n field ref =
     (if Namespace ref \<noteq> NamespaceComponents then None
      else let bad = (\<lambda>f. Some (ErrInvalidConfig (ci_Name n) (f field (Raw ref))))
        in case filter (\<lambda>c. ci_Name c = Component ref) components of
             [] \<Rightarrow> bad NoSuchComponent
           | [target] \<Rightarrow>
               if ci_Type target \<noteq> TypeTerraform then bad NotTerraform
               else if ci_ID target \<notin> transitiveDeps expanded (ci_ID n) then bad NotEarlierStage
               else None
           | _ \<Rightarrow> bad AmbiguousComponent)"

definition output_field_fault ::
  "ComponentInput list \<Rightarrow> (uuid \<rightharpoonup> uuid list) \<Rightarrow> ComponentInput \<Rightarrow> string \<times> string \<times> bool \<Rightarrow> wf_error option" where
  "output_field_fault components expanded n f =
     (case f of (name, value, _) \<Rightarrow>
        (case Parse value of
           Inl _ \<Rightarrow> None
         | Inr tpl \<Rightarrow> first_fault (output_ref_fault components expanded n name) (Refs tpl)))"

definition validateOutputRefs ::
  "ComponentInput list \<Rightarrow> (uuid \<rightharpoonup> uuid list) \<Rightarrow> wf_error option" where
  "validateOutputRefs components expanded =
     first_fault
       (\<lambda>n. if ci_Type n \<noteq> TypeHelm then None
            else first_fault (output_field_fault components expanded n) (helmInterpolationFields n))
       components"

section \<open>The workflow\<close>

text \<open>The identity and name checks; the ids seen so far are carried along.\<close>

fun check_components :: "uuid set \<Rightarrow> ComponentInput list \<Rightarrow> wf_error + uuid set" where
  "check_components ids [] = Inr ids"
| "check_components ids (c # cs) =
     (if ci_ID c = uuid_Nil then Inl (ErrMissingID (ci_Name c))
      else if \<not> slug_Valid (ci_Name c) then Inl (ErrInvalidConfig (ci_Name c) NameNotSlug)
      else if ci_ID c \<in> ids then Inl (ErrDuplicateID (ci_ID c))
      else check_components (insert (ci_ID c) ids) cs)"

fun check_stages :: "uuid set \<Rightarrow> StageInput list \<Rightarrow> wf_error + uuid set" where
  "check_stages ids [] = Inr ids"
| "check_stages ids (st # sts) =
     (if si_ID st = uuid_Nil then Inl (ErrMissingID (si_Name st))
      else if si_ID st \<in> ids then Inl (ErrDuplicateID (si_ID st))
      else if trim_space (si_Name st) = [] then Inl (ErrInvalidStage NoStageName)
      else if rune_count (trim_space (si_Name st)) > 100 then Inl (ErrInvalidStage StageNameTooLong)
      else case check_components (insert (si_ID st) ids) (si_Components st) of
             Inl e \<Rightarrow> Inl e
           | Inr ids' \<Rightarrow> check_stages ids' sts)"

definition validateWorkflow :: "(string \<Rightarrow> uuid option) \<Rightarrow> StageInput list \<Rightarrow> wf_error option" where
  "validateWorkflow uuid_parse stages =
     (case check_stages {} stages of
        Inl e \<Rightarrow> Some e
      | Inr _ \<Rightarrow>
          let components = flattenStages stages in
          (case first_fault (validateConfig uuid_parse) components of
             Some e \<Rightarrow> Some e
           | None \<Rightarrow> validateOutputRefs components (stageDependencies stages)))"

end
