(* ===== verification/Validate_Props.thy ===== *)
theory Validate_Props
  imports Validate
begin

text \<open>
  What a saved workflow satisfies. The stage edges of \<open>stageDependencies\<close> order exactly the pairs of
  components of different stages; the worklist of \<open>transitiveDeps\<close> computes reachability; and
  \<open>validateWorkflow\<close> accepts exactly the workflows of \<open>workflow_ok\<close>.
\<close>

section \<open>Reachability along dependencies\<close>

definition dep_edges :: "(uuid \<rightharpoonup> uuid list) \<Rightarrow> (uuid \<times> uuid) set" where
  "dep_edges m = {(a, b). b \<in> set (deps_of m a)}"

lemma dep_edges_iff [simp]: "(a, b) \<in> dep_edges m \<longleftrightarrow> b \<in> set (deps_of m a)"
  by (simp add: dep_edges_def)

lemma deps_walk_sound:
  "deps_walk e stack seen \<subseteq> seen \<union> (dep_edges e)\<^sup>* `` set stack"
proof (induction e stack seen rule: deps_walk.induct)
  case (1 e stack seen)
  show ?case
  proof (cases "stack = []")
    case True
    then show ?thesis by (simp add: deps_walk.simps)
  next
    case False
    then have sub: "set (butlast stack) \<subseteq> set stack" "last stack \<in> set stack"
      by (auto dest: in_set_butlastD)
    show ?thesis
    proof (cases "last stack \<in> seen")
      case True
      with False have "deps_walk e stack seen = deps_walk e (butlast stack) seen"
        by (simp add: deps_walk.simps [of e stack] Let_def)
      with "1.IH"(1) [OF False refl refl True] sub(1) show ?thesis by blast
    next
      case new: False
      with False have step: "deps_walk e stack seen =
          deps_walk e (butlast stack @ deps_of e (last stack)) (insert (last stack) seen)"
        by (simp add: deps_walk.simps [of e stack] Let_def)
      have "(dep_edges e)\<^sup>* `` set (deps_of e (last stack)) \<subseteq> (dep_edges e)\<^sup>* `` {last stack}"
        by (auto intro: converse_rtrancl_into_rtrancl)
      moreover have "(dep_edges e)\<^sup>* `` {last stack} \<union> (dep_edges e)\<^sup>* `` set (butlast stack)
          \<subseteq> (dep_edges e)\<^sup>* `` set stack" "last stack \<in> (dep_edges e)\<^sup>* `` set stack"
        using sub by blast+
      moreover note "1.IH"(2) [OF False refl refl new]
      ultimately show ?thesis unfolding step by (simp add: Image_Un) blast
    qed
  qed
qed

lemma deps_walk_closed:
  assumes "\<And>d. d \<in> seen \<Longrightarrow> set (deps_of e d) \<subseteq> seen \<union> set stack"
  shows "seen \<union> set stack \<subseteq> deps_walk e stack seen \<and>
    (\<forall>d\<in>deps_walk e stack seen. set (deps_of e d) \<subseteq> deps_walk e stack seen)"
  using assms
proof (induction e stack seen rule: deps_walk.induct)
  case (1 e stack seen)
  show ?case
  proof (cases "stack = []")
    case True
    with "1.prems" show ?thesis by (simp add: deps_walk.simps)
  next
    case False
    then have st: "set stack = insert (last stack) (set (butlast stack))"
      by (metis append_butlast_last_id list.simps(15) rotate1.simps(2) set_rotate1)
    show ?thesis
    proof (cases "last stack \<in> seen")
      case True
      with False have step: "deps_walk e stack seen = deps_walk e (butlast stack) seen"
        by (simp add: deps_walk.simps [of e stack] Let_def)
      have "set (deps_of e d) \<subseteq> seen \<union> set (butlast stack)" if "d \<in> seen" for d
        using "1.prems" [OF that] st True by auto
      from "1.IH"(1) [OF False refl refl True this] show ?thesis
        unfolding step using st True by auto
    next
      case new: False
      with False have step: "deps_walk e stack seen =
          deps_walk e (butlast stack @ deps_of e (last stack)) (insert (last stack) seen)"
        by (simp add: deps_walk.simps [of e stack] Let_def)
      have "set (deps_of e d) \<subseteq> insert (last stack) seen \<union> set (butlast stack @ deps_of e (last stack))"
        if "d \<in> insert (last stack) seen" for d
        using that "1.prems" [of d] st by auto
      from "1.IH"(2) [OF False refl refl new this] show ?thesis
        unfolding step using st by auto
    qed
  qed
qed

lemma deps_walk_reach:
  assumes "\<And>d. d \<in> seen \<Longrightarrow> set (deps_of e d) \<subseteq> seen \<union> set stack"
  shows "(dep_edges e)\<^sup>* `` set stack \<subseteq> deps_walk e stack seen"
proof -
  let ?R = "deps_walk e stack seen"
  note c = deps_walk_closed [OF assms]
  have "(a, b) \<in> (dep_edges e)\<^sup>* \<Longrightarrow> a \<in> ?R \<Longrightarrow> b \<in> ?R" for a b
    by (induction rule: rtrancl_induct) (use c in auto)
  with c show ?thesis by blast
qed

theorem transitiveDeps_trancl: "transitiveDeps e i = (dep_edges e)\<^sup>+ `` {i}"
proof -
  have "transitiveDeps e i = (dep_edges e)\<^sup>* `` set (deps_of e i)"
    unfolding transitiveDeps_def
    using deps_walk_sound [of e "deps_of e i" "{}"] deps_walk_reach [of "{}" e "deps_of e i"] by auto
  also have "\<dots> = (dep_edges e)\<^sup>+ `` {i}"
    by (auto intro: rtrancl_into_trancl2 dest!: tranclD)
  finally show ?thesis .
qed

section \<open>Stage order\<close>

definition stage_ids :: "StageInput \<Rightarrow> uuid list" where
  "stage_ids st = map ci_ID (si_Components st)"

definition component_ids :: "StageInput list \<Rightarrow> uuid list" where
  "component_ids stages = concat (map stage_ids stages)"

text \<open>\<open>y\<close> is a component of a stage before the stage of \<open>x\<close>.\<close>

definition earlier_stage :: "StageInput list \<Rightarrow> uuid \<Rightarrow> uuid \<Rightarrow> bool" where
  "earlier_stage stages x y \<longleftrightarrow>
     (\<exists>i j. i < j \<and> j < length stages \<and> x \<in> set (stage_ids (stages ! j)) \<and> y \<in> set (stage_ids (stages ! i)))"

lemma component_ids_flatten: "component_ids stages = map ci_ID (flattenStages stages)"
  by (simp add: component_ids_def flattenStages_def stage_ids_def [abs_def] map_concat comp_def)

lemma component_ids_snoc [simp]: "component_ids (sts @ [st]) = component_ids sts @ stage_ids st"
  by (simp add: component_ids_def)

lemma component_ids_nth:
  "x \<in> set (component_ids stages) \<longleftrightarrow> (\<exists>j<length stages. x \<in> set (stage_ids (stages ! j)))"
  by (simp add: component_ids_def) (metis in_set_conv_nth)

lemma earlier_stage_in:
  assumes "earlier_stage stages x y"
  shows "x \<in> set (component_ids stages)" and "y \<in> set (component_ids stages)"
  using assms unfolding earlier_stage_def component_ids_nth by (blast intro: less_trans)+

lemma foldl_deps:
  "foldl (\<lambda>m c. m(ci_ID c \<mapsto> p)) D cs = (\<lambda>x. if x \<in> ci_ID ` set cs then Some p else D x)"
  by (induction cs arbitrary: D) auto

lemma stage_deps_step_simps:
  "stage_ids st = [] \<Longrightarrow> stage_deps_step (D, p) st = (D, p)"
  "stage_ids st \<noteq> [] \<Longrightarrow>
     stage_deps_step (D, p) st = ((\<lambda>x. if x \<in> set (stage_ids st) then Some p else D x), stage_ids st)"
  by (auto simp: stage_deps_step_def stage_ids_def foldl_deps)

lemma earlier_stage_snoc:
  assumes "distinct (component_ids (sts @ [st]))"
  shows "earlier_stage (sts @ [st]) x y \<longleftrightarrow>
    (if x \<in> set (stage_ids st) then y \<in> set (component_ids sts) else earlier_stage sts x y)"
proof -
  let ?n = "length sts"
  have nth: "(sts @ [st]) ! j = (if j < ?n then sts ! j else st)" if "j < Suc ?n" for j
    using that by (auto simp: nth_append less_Suc_eq)
  have "earlier_stage (sts @ [st]) x y \<longleftrightarrow> earlier_stage sts x y \<or>
      (x \<in> set (stage_ids st) \<and> (\<exists>i<?n. y \<in> set (stage_ids (sts ! i))))" (is "?l \<longleftrightarrow> ?r")
  proof
    assume ?l
    then obtain i j where ij: "i < j" "j < Suc ?n" "x \<in> set (stage_ids ((sts @ [st]) ! j))"
      "y \<in> set (stage_ids ((sts @ [st]) ! i))" by (auto simp: earlier_stage_def)
    then show ?r by (cases "j < ?n") (auto simp: earlier_stage_def nth)
  next
    assume ?r
    then show ?l
    proof
      assume "earlier_stage sts x y"
      then obtain i j where "i < j" "j < ?n" "x \<in> set (stage_ids (sts ! j))" "y \<in> set (stage_ids (sts ! i))"
        by (auto simp: earlier_stage_def)
      then show ?l unfolding earlier_stage_def by (intro exI [of _ i] exI [of _ j]) (simp add: nth)
    next
      assume "x \<in> set (stage_ids st) \<and> (\<exists>i<?n. y \<in> set (stage_ids (sts ! i)))"
      then obtain i where "x \<in> set (stage_ids st)" "i < ?n" "y \<in> set (stage_ids (sts ! i))" by blast
      then show ?l unfolding earlier_stage_def by (intro exI [of _ i] exI [of _ ?n]) (simp add: nth)
    qed
  qed
  moreover have "\<not> earlier_stage sts x y" if "x \<in> set (stage_ids st)"
  proof
    assume "earlier_stage sts x y"
    then have "x \<in> set (component_ids sts)" by (rule earlier_stage_in)
    with that assms show False by auto
  qed
  ultimately show ?thesis by (simp add: component_ids_nth)
qed

lemma stage_edges_invariant:
  assumes "distinct (component_ids stages)"
  shows "case foldl stage_deps_step (Map.empty, []) stages of (D, p) \<Rightarrow>
     dom D \<subseteq> set (component_ids stages) \<and>
     set p \<union> (dep_edges D)\<^sup>+ `` set p = set (component_ids stages) \<and>
     (\<forall>x y. (x, y) \<in> (dep_edges D)\<^sup>+ \<longleftrightarrow> earlier_stage stages x y)"
  using assms
proof (induction stages rule: rev_induct)
  case Nil
  have "dep_edges Map.empty = {}" by (auto simp: dep_edges_def deps_of_def)
  then show ?case by (simp add: component_ids_def earlier_stage_def)
next
  case (snoc st sts)
  obtain D p where Dp: "foldl stage_deps_step (Map.empty, []) sts = (D, p)" by force
  from snoc have dom: "dom D \<subseteq> set (component_ids sts)"
    and cover: "set p \<union> (dep_edges D)\<^sup>+ `` set p = set (component_ids sts)"
    and clos: "\<And>x y. (x, y) \<in> (dep_edges D)\<^sup>+ \<longleftrightarrow> earlier_stage sts x y"
    by (auto simp: Dp)
  show ?case
  proof (cases "stage_ids st = []")
    case True
    with dom cover clos show ?thesis
      by (auto simp: Dp stage_deps_step_simps earlier_stage_snoc [OF snoc.prems] component_ids_nth)
  next
    case False
    let ?N = "set (stage_ids st)"
    let ?D = "\<lambda>x. if x \<in> ?N then Some p else D x"
    have disj: "?N \<inter> set (component_ids sts) = {}" using snoc.prems by auto
    have edges: "dep_edges ?D = dep_edges D \<union> ?N \<times> set p"
    proof -
      have "D a = None" if "a \<in> ?N" for a using that dom disj by (meson disjoint_iff domIff subsetD)
      then show ?thesis by (auto simp: dep_edges_def deps_of_def split: if_splits)
    qed
    have notin: "y \<notin> ?N" if "(x, y) \<in> dep_edges D" for x y
    proof -
      from that have "earlier_stage sts x y" by (simp add: clos [symmetric] r_into_trancl)
      then have "y \<in> set (component_ids sts)" by (rule earlier_stage_in)
      with disj show ?thesis by blast
    qed
    have pN: "set p \<inter> ?N = {}" using cover disj by blast
    have old: "(x, y) \<in> (dep_edges ?D)\<^sup>+ \<Longrightarrow> x \<notin> ?N \<Longrightarrow> (x, y) \<in> (dep_edges D)\<^sup>+ \<and> y \<notin> ?N" for x y
    proof (induction rule: trancl_induct)
      case (base y)
      then show ?case unfolding edges using notin by auto
    next
      case (step y z)
      then show ?case unfolding edges using notin by (auto intro: trancl_into_trancl)
    qed
    have mono: "(x, y) \<in> (dep_edges D)\<^sup>+ \<Longrightarrow> (x, y) \<in> (dep_edges ?D)\<^sup>+" for x y
      unfolding edges by (rule trancl_mono) auto
    have new: "(x, y) \<in> (dep_edges ?D)\<^sup>+ \<longleftrightarrow> y \<in> set (component_ids sts)" if "x \<in> ?N" for x y
    proof
      assume "(x, y) \<in> (dep_edges ?D)\<^sup>+"
      then obtain z where z: "(x, z) \<in> dep_edges ?D" "(z, y) \<in> (dep_edges ?D)\<^sup>*" by (meson tranclD)
      then have "z \<in> set p" using that by (simp add: deps_of_def)
      moreover have "y = z \<or> (z, y) \<in> (dep_edges D)\<^sup>+"
        using z(2) old [of z y] pN \<open>z \<in> set p\<close> by (auto simp: rtrancl_eq_or_trancl)
      ultimately show "y \<in> set (component_ids sts)" using cover by blast
    next
      assume "y \<in> set (component_ids sts)"
      with cover obtain z where "z \<in> set p" "y = z \<or> (z, y) \<in> (dep_edges D)\<^sup>+" by blast
      moreover have "(x, z) \<in> dep_edges ?D" if "z \<in> set p" for z
        using that \<open>x \<in> ?N\<close> by (simp add: deps_of_def)
      ultimately show "(x, y) \<in> (dep_edges ?D)\<^sup>+"
        using mono by (meson r_into_trancl trancl_into_trancl2)
    qed
    have c3: "(x, y) \<in> (dep_edges ?D)\<^sup>+ \<longleftrightarrow> earlier_stage (sts @ [st]) x y" for x y
      unfolding earlier_stage_snoc [OF snoc.prems] using new old [of x y] mono [of x y] clos by auto
    have "(dep_edges ?D)\<^sup>+ `` ?N = set (component_ids sts)"
    proof -
      from False obtain x where "x \<in> ?N" by (cases "stage_ids st") auto
      with new show ?thesis by blast
    qed
    then have "set (stage_ids st) \<union> (dep_edges ?D)\<^sup>+ `` ?N = set (component_ids (sts @ [st]))" by auto
    moreover have "dom ?D \<subseteq> set (component_ids (sts @ [st]))" using dom by (auto split: if_splits)
    ultimately show ?thesis using c3 False by (simp add: Dp stage_deps_step_simps)
  qed
qed

lemma stageDependencies_trancl:
  assumes "distinct (component_ids stages)"
  shows "(x, y) \<in> (dep_edges (stageDependencies stages))\<^sup>+ \<longleftrightarrow> earlier_stage stages x y"
  using stage_edges_invariant [OF assms] by (auto simp: stageDependencies_def split: prod.splits)

section \<open>Accepted workflows\<close>

lemma first_fault_None [simp]: "first_fault f xs = None \<longleftrightarrow> (\<forall>x\<in>set xs. f x = None)"
  by (induction xs) (auto split: option.splits)

lemma requireConfig_None [simp]: "requireConfig n ks = None \<longleftrightarrow> (\<forall>k\<in>set ks. cfg (ci_Config n) k \<noteq> [])"
  by (induction n ks rule: requireConfig.induct) auto

definition all_ids :: "StageInput list \<Rightarrow> uuid list" where
  "all_ids stages = concat (map (\<lambda>st. si_ID st # stage_ids st) stages)"

definition stage_name_ok :: "string \<Rightarrow> bool" where
  "stage_name_ok name \<longleftrightarrow> trim_space name \<noteq> [] \<and> rune_count (trim_space name) \<le> 100"

text \<open>
  A reference to outputs is good when its name has exactly one bearer, an OpenTofu component of an
  earlier stage.
\<close>

definition output_ref_ok :: "StageInput list \<Rightarrow> ComponentInput \<Rightarrow> Ref \<Rightarrow> bool" where
  "output_ref_ok stages n ref \<longleftrightarrow>
     (\<exists>target. filter (\<lambda>c. ci_Name c = Component ref) (flattenStages stages) = [target] \<and>
        ci_Type target = TypeTerraform \<and> earlier_stage stages (ci_ID n) (ci_ID target))"

definition workflow_ok :: "(string \<Rightarrow> uuid option) \<Rightarrow> StageInput list \<Rightarrow> bool" where
  "workflow_ok uuid_parse stages \<longleftrightarrow>
     uuid_Nil \<notin> set (all_ids stages) \<and> distinct (all_ids stages) \<and>
     (\<forall>st\<in>set stages. stage_name_ok (si_Name st)) \<and>
     (\<forall>c\<in>set (flattenStages stages). slug_Valid (ci_Name c) \<and> validateConfig uuid_parse c = None) \<and>
     (\<forall>c\<in>set (flattenStages stages). ci_Type c = TypeHelm \<longrightarrow>
        (\<forall>(field, text, inValues)\<in>set (helmInterpolationFields c). \<forall>tpl. Parse text = Inr tpl \<longrightarrow>
           (\<forall>ref\<in>set (Refs tpl). Namespace ref = NamespaceComponents \<longrightarrow> output_ref_ok stages c ref)))"

lemma check_components_Inr:
  "check_components ids cs = Inr ids' \<longleftrightarrow>
     ids' = ids \<union> ci_ID ` set cs \<and> distinct (map ci_ID cs) \<and> ids \<inter> ci_ID ` set cs = {} \<and>
     (\<forall>c\<in>set cs. ci_ID c \<noteq> uuid_Nil \<and> slug_Valid (ci_Name c))"
  by (induction ids cs rule: check_components.induct) auto

lemma check_stages_Inr:
  "(\<exists>ids'. check_stages ids sts = Inr ids') \<longleftrightarrow>
     distinct (all_ids sts) \<and> ids \<inter> set (all_ids sts) = {} \<and> uuid_Nil \<notin> set (all_ids sts) \<and>
     (\<forall>st\<in>set sts. stage_name_ok (si_Name st)) \<and>
     (\<forall>c\<in>set (flattenStages sts). slug_Valid (ci_Name c))"
proof (induction sts arbitrary: ids)
  case Nil
  then show ?case by (simp add: all_ids_def flattenStages_def)
next
  case (Cons st sts)
  have ids: "all_ids (st # sts) = si_ID st # stage_ids st @ all_ids sts"
    and flat: "flattenStages (st # sts) = si_Components st @ flattenStages sts"
    and sids: "set (stage_ids st) = ci_ID ` set (si_Components st)"
    by (simp_all add: all_ids_def flattenStages_def stage_ids_def)
  show ?case
  proof (cases "check_components (insert (si_ID st) ids) (si_Components st)")
    case (Inl e)
    then have "\<not> (distinct (stage_ids st) \<and> insert (si_ID st) ids \<inter> set (stage_ids st) = {} \<and>
        (\<forall>c\<in>set (si_Components st). ci_ID c \<noteq> uuid_Nil \<and> slug_Valid (ci_Name c)))"
      using check_components_Inr [of "insert (si_ID st) ids" "si_Components st"] sids
      by (auto simp: stage_ids_def)
    with Inl show ?thesis unfolding ids flat using sids by auto
  next
    case (Inr ids')
    then have "ids' = insert (si_ID st) ids \<union> set (stage_ids st)" "distinct (stage_ids st)"
      "insert (si_ID st) ids \<inter> set (stage_ids st) = {}"
      "\<forall>c\<in>set (si_Components st). ci_ID c \<noteq> uuid_Nil \<and> slug_Valid (ci_Name c)"
      by (auto simp: check_components_Inr stage_ids_def)
    with Inr Cons.IH [of ids'] show ?thesis
      unfolding ids flat using sids by (auto simp: stage_name_ok_def)
  qed
qed

lemma output_ref_fault_None:
  assumes "distinct (component_ids stages)"
  shows "output_ref_fault (flattenStages stages) (stageDependencies stages) n field ref = None \<longleftrightarrow>
     (Namespace ref = NamespaceComponents \<longrightarrow> output_ref_ok stages n ref)"
  unfolding output_ref_fault_def output_ref_ok_def transitiveDeps_trancl
  by (auto simp: stageDependencies_trancl [OF assms] Let_def split: list.splits if_splits)

lemma distinct_all_ids: "distinct (all_ids sts) \<Longrightarrow> distinct (component_ids sts)"
proof (induction sts)
  case (Cons st sts)
  have "set (component_ids sts) \<subseteq> set (all_ids sts)" by (auto simp: component_ids_def all_ids_def)
  with Cons show ?case by (auto simp: component_ids_def all_ids_def)
qed (simp add: component_ids_def)

lemma validateWorkflow_None_iff: "validateWorkflow up stages = None \<longleftrightarrow> workflow_ok up stages"
proof (cases "check_stages {} stages")
  case (Inl e)
  with check_stages_Inr [of "{}" stages] show ?thesis
    by (auto simp: validateWorkflow_def workflow_ok_def)
next
  case (Inr ids)
  with check_stages_Inr [of "{}" stages] have ok: "distinct (all_ids stages)" "uuid_Nil \<notin> set (all_ids stages)"
    "\<forall>st\<in>set stages. stage_name_ok (si_Name st)" "\<forall>c\<in>set (flattenStages stages). slug_Valid (ci_Name c)" by auto
  have field: "output_field_fault (flattenStages stages) (stageDependencies stages) n f = None \<longleftrightarrow>
      (case f of (field, text, inValues) \<Rightarrow> \<forall>tpl. Parse text = Inr tpl \<longrightarrow>
         (\<forall>ref\<in>set (Refs tpl). Namespace ref = NamespaceComponents \<longrightarrow> output_ref_ok stages n ref))" for n f
    by (cases f) (auto simp: output_field_fault_def output_ref_fault_None [OF distinct_all_ids [OF ok(1)]]
      split: sum.splits)
  have "validateOutputRefs (flattenStages stages) (stageDependencies stages) = None \<longleftrightarrow>
      (\<forall>c\<in>set (flattenStages stages). ci_Type c = TypeHelm \<longrightarrow>
        (\<forall>(field, text, inValues)\<in>set (helmInterpolationFields c). \<forall>tpl. Parse text = Inr tpl \<longrightarrow>
           (\<forall>ref\<in>set (Refs tpl). Namespace ref = NamespaceComponents \<longrightarrow> output_ref_ok stages c ref)))"
    unfolding validateOutputRefs_def first_fault_None field [symmetric] by auto
  moreover have "validateWorkflow up stages = None \<longleftrightarrow>
      (\<forall>c\<in>set (flattenStages stages). validateConfig up c = None) \<and>
      validateOutputRefs (flattenStages stages) (stageDependencies stages) = None"
    using first_fault_None [of "validateConfig up" "flattenStages stages"]
    by (cases "first_fault (validateConfig up) (flattenStages stages)")
      (auto simp: validateWorkflow_def Inr Let_def simp del: first_fault_None)
  ultimately show ?thesis unfolding workflow_ok_def ball_conj_distrib using ok by simp
qed

end
