(* ===== verification/TofuPlan.thy ===== *)
theory TofuPlan
  imports GoStrings
begin

text \<open>
  Reading the logs of an OpenTofu step: \<open>lib/tofu/plan.go\<close> (the plan verdict and the structured
  plan) and \<open>lib/tofu/lock.go\<close> (the lock a step failed to acquire).
\<close>

section \<open>The plan\<close>

record ResourceChange =
  rc_Address :: string
  rc_Action :: string
  rc_Detail :: string
  rc_Diff :: string

record Plan =
  pl_Found :: bool
  pl_HasChanges :: bool
  pl_Add :: nat
  pl_Change :: nat
  pl_Destroy :: nat
  pl_Replace :: nat
  pl_Resources :: "ResourceChange list"
  pl_OutputsChanged :: bool
  pl_Body :: string
  pl_Drift :: "ResourceChange list"
  pl_HasDrift :: bool
  pl_RefreshOnly :: bool

definition empty_plan :: Plan where
  "empty_plan =
     \<lparr>pl_Found = False, pl_HasChanges = False, pl_Add = 0, pl_Change = 0, pl_Destroy = 0, pl_Replace = 0,
      pl_Resources = [], pl_OutputsChanged = False, pl_Body = [], pl_Drift = [], pl_HasDrift = False,
      pl_RefreshOnly = False\<rparr>"

section \<open>Headings and terminators\<close>

definition has_prefix_of :: "string list \<Rightarrow> string \<Rightarrow> bool" where
  "has_prefix_of ps t \<longleftrightarrow> list_ex (\<lambda>p. prefix p t) ps"

text \<open>The box-drawing runes \<open>U+2500\<close> and \<open>U+2577\<close>.\<close>

definition box_horizontal :: string where
  "box_horizontal = [CHR 0xE2, CHR 0x94, CHR 0x80]"

definition box_down :: string where
  "box_down = [CHR 0xE2, CHR 0x95, CHR 0xB7]"

definition isPlanTerminator :: "string \<Rightarrow> bool" where
  "isPlanTerminator line \<longleftrightarrow>
     has_prefix_of
       [box_horizontal, box_down, ''Saved the plan to:'', ''Note: You didn'' @ [CHR 0x27] @ ''t use the -out option'',
        ''You can apply this plan to save these new output values'', ''secret/'', ''SPACEFLEET_'', ''apk add'',
        ''fetch https://''] (trim_space line)"

definition isDriftTerminator :: "string \<Rightarrow> bool" where
  "isDriftTerminator t \<longleftrightarrow>
     has_prefix_of
       [box_horizontal, box_down, ''This is a refresh-only plan'', ''Unless you have made equivalent changes'',
        ''No changes.''] t \<or>
     suffix ''will perform the following actions:'' t"

definition classifyHeading :: "string \<Rightarrow> string \<times> string" where
  "classifyHeading phrase =
     (let detail = trim_space phrase in
      (if prefix ''will be created'' detail then ''create''
       else if prefix ''will be updated in-place'' detail then ''update''
       else if str_contains detail ''must be replaced'' \<or> prefix ''will be replaced'' detail then ''replace''
       else if prefix ''will be destroyed'' detail then ''delete''
       else if prefix ''will be read'' detail then ''read''
       else if prefix ''has moved to'' detail then ''move''
       else if prefix ''will be imported'' detail then ''import''
       else if prefix ''will no longer be managed'' detail \<or> prefix ''will be forgotten'' detail then ''forget''
       else ''other'', detail))"

definition classifyDriftHeading :: "string \<Rightarrow> string \<times> string" where
  "classifyDriftHeading phrase =
     (let detail = trim_space phrase in
      (if prefix ''has been deleted'' detail then ''drift_delete''
       else if prefix ''has been changed'' detail \<or> prefix ''has changed'' detail then ''drift_update''
       else ''other'', detail))"

text \<open>
  The pattern \<open>^\s*# ([^\s(]\S*) (.+)$\<close> on one line: the address and the phrase after it. RE2's \<open>\s\<close>
  is the five ASCII characters.
\<close>

definition re_space :: "char \<Rightarrow> bool" where
  "re_space c \<longleftrightarrow> c \<in> {CHR 0x09, CHR 0x0A, CHR 0x0C, CHR 0x0D, CHR 0x20}"

definition resourceHeading :: "string \<Rightarrow> (string \<times> string) option" where
  "resourceHeading line =
     (case dropWhile re_space line of
        CHR ''#'' # CHR '' '' # rest \<Rightarrow>
          let addr = takeWhile (\<lambda>c. \<not> re_space c) rest; after = dropWhile (\<lambda>c. \<not> re_space c) rest
          in if addr = [] \<or> hd addr = CHR ''('' \<or> after = [] \<or> hd after \<noteq> CHR '' '' \<or> tl after = [] then None
             else Some (addr, tl after)
      | _ \<Rightarrow> None)"

text \<open>
  The pattern \<open>^Plan: (\d+) to add, (\d+) to change, (\d+) to destroy\.\<close>; a number beyond 64 bits is
  read as the largest one, as \<open>strconv.Atoi\<close> does.
\<close>

definition digits_nat :: "string \<Rightarrow> nat" where
  "digits_nat ds = min (foldl (\<lambda>acc c. acc * 10 + (of_char c - 48)) 0 ds) (2 ^ 63 - 1)"

definition number_then :: "string \<Rightarrow> string \<Rightarrow> (nat \<times> string) option" where
  "number_then s sep =
     (let ds = takeWhile is_digit s; r = dropWhile is_digit s in
      if ds \<noteq> [] \<and> prefix sep r then Some (digits_nat ds, drop (length sep) r) else None)"

definition planTotals :: "string \<Rightarrow> (nat \<times> nat \<times> nat) option" where
  "planTotals t =
     (if \<not> prefix ''Plan: '' t then None
      else case number_then (drop 6 t) '' to add, '' of
        None \<Rightarrow> None
      | Some (a, r1) \<Rightarrow>
          (case number_then r1 '' to change, '' of
             None \<Rightarrow> None
           | Some (c, r2) \<Rightarrow>
               (case number_then r2 '' to destroy.'' of None \<Rightarrow> None | Some (d, _) \<Rightarrow> Some (a, c, d))))"

section \<open>Resource blocks\<close>

definition block_text :: "string list \<Rightarrow> string" where
  "block_text ls = trim_right_set [newline, CHR '' ''] (str_join [newline] ls)"

text \<open>The resource whose block is open, with the lines of its block so far.\<close>

type_synonym open_block = "(ResourceChange \<times> string list) option"

definition flush_block :: "open_block \<Rightarrow> ResourceChange list \<Rightarrow> ResourceChange list" where
  "flush_block cur out = (case cur of None \<Rightarrow> out | Some (r, ls) \<Rightarrow> out @ [r\<lparr>rc_Diff := block_text ls\<rparr>])"

definition open_heading :: "(string \<Rightarrow> string \<times> string) \<Rightarrow> string \<Rightarrow> string \<Rightarrow> string \<Rightarrow> open_block" where
  "open_heading classify addr phrase line =
     (case classify phrase of (action, detail) \<Rightarrow>
        Some (\<lparr>rc_Address = addr, rc_Action = action, rc_Detail = detail, rc_Diff = []\<rparr>, [line]))"

definition extend_block :: "open_block \<Rightarrow> string \<Rightarrow> open_block" where
  "extend_block cur line = map_option (\<lambda>(r, ls). (r, ls @ [line])) cur"

definition block_step ::
  "(string \<Rightarrow> string \<times> string) \<Rightarrow> open_block \<times> ResourceChange list \<Rightarrow> string \<Rightarrow> open_block \<times> ResourceChange list" where
  "block_step classify st line =
     (case st of (cur, out) \<Rightarrow>
        (case resourceHeading line of
           Some (addr, phrase) \<Rightarrow> (open_heading classify addr phrase line, flush_block cur out)
         | None \<Rightarrow> (extend_block cur line, out)))"

definition parseResourceBlocks :: "string list \<Rightarrow> (string \<Rightarrow> string \<times> string) \<Rightarrow> ResourceChange list" where
  "parseResourceBlocks lines classify =
     (case foldl (block_step classify) (None, []) lines of (cur, out) \<Rightarrow> flush_block cur out)"

section \<open>The drift section and the start of the plan\<close>

text \<open>The first index from \<open>k\<close> on whose line satisfies \<open>P\<close>.\<close>

definition find_from :: "('a \<Rightarrow> bool) \<Rightarrow> nat \<Rightarrow> 'a list \<Rightarrow> nat option" where
  "find_from P k xs = find (\<lambda>i. P (xs ! i)) [k..<length xs]"

definition drift_bounds :: "string list \<Rightarrow> (nat \<times> nat) option" where
  "drift_bounds lines =
     (case find_from (\<lambda>l. str_contains (trim_space l) ''detected the following changes made outside of'') 0 lines of
        None \<Rightarrow> None
      | Some s \<Rightarrow>
          Some (s, case find_from (isDriftTerminator \<circ> trim_space) (Suc s) lines of
                     Some e \<Rightarrow> e | None \<Rightarrow> length lines))"

definition refresh_only :: "string list \<Rightarrow> bool" where
  "refresh_only lines =
     list_ex (\<lambda>l. has_prefix_of [''This is a refresh-only plan'',
       ''No changes. Your infrastructure still matches the configuration''] (trim_space l)) lines"

definition actions_heading :: "string \<Rightarrow> bool" where
  "actions_heading line = suffix ''will perform the following actions:'' (trim_space line)"

definition plan_start :: "nat \<Rightarrow> string list \<Rightarrow> nat option" where
  "plan_start k lines = find_from (\<lambda>l. actions_heading l \<or> prefix ''No changes.'' (trim_space l)) k lines"

definition plan_end :: "nat \<Rightarrow> string list \<Rightarrow> nat" where
  "plan_end s lines = (case find_from isPlanTerminator (Suc s) lines of Some e \<Rightarrow> e | None \<Rightarrow> length lines)"

definition slice :: "nat \<Rightarrow> nat \<Rightarrow> 'a list \<Rightarrow> 'a list" where
  "slice a b xs = drop a (take b xs)"

section \<open>The body\<close>

record walk =
  wk_inActions :: bool
  wk_cur :: open_block
  wk_plan :: Plan

definition flush_walk :: "walk \<Rightarrow> walk" where
  "flush_walk w =
     w\<lparr>wk_cur := None, wk_plan := (wk_plan w)\<lparr>pl_Resources := flush_block (wk_cur w) (pl_Resources (wk_plan w))\<rparr>\<rparr>"

definition walk_line :: "walk \<Rightarrow> string \<Rightarrow> walk" where
  "walk_line w line =
     (let t = trim_space line in
      case planTotals t of
        Some (a, c, d) \<Rightarrow>
          (let w1 = flush_walk w in
           w1\<lparr>wk_inActions := False, wk_plan := (wk_plan w1)\<lparr>pl_Add := a, pl_Change := c, pl_Destroy := d\<rparr>\<rparr>)
      | None \<Rightarrow>
          if t = ''Changes to Outputs:'' then
            (let w1 = flush_walk w in
             w1\<lparr>wk_inActions := False, wk_plan := (wk_plan w1)\<lparr>pl_OutputsChanged := True, pl_HasChanges := True\<rparr>\<rparr>)
          else if wk_inActions w then
            (case resourceHeading line of
               Some (addr, phrase) \<Rightarrow>
                 (let w1 = flush_walk w in
                  w1\<lparr>wk_cur := open_heading classifyHeading addr phrase line,
                     wk_plan := (wk_plan w1)\<lparr>pl_Replace := pl_Replace (wk_plan w1) +
                       (if fst (classifyHeading phrase) = ''replace'' then 1 else 0)\<rparr>\<rparr>)
             | None \<Rightarrow> w\<lparr>wk_cur := extend_block (wk_cur w) line\<rparr>)
          else w)"

definition with_drift :: "string list \<Rightarrow> Plan" where
  "with_drift lines =
     (let drift = (case drift_bounds lines of
                     None \<Rightarrow> [] | Some (s, e) \<Rightarrow> parseResourceBlocks (slice (Suc s) e lines) classifyDriftHeading)
      in empty_plan\<lparr>pl_Drift := drift, pl_HasDrift := (drift \<noteq> []), pl_RefreshOnly := refresh_only lines\<rparr>)"

definition ParsePlan :: "string \<Rightarrow> Plan" where
  "ParsePlan logs =
     (let lines = split_lines logs; p = with_drift lines;
          from = (case drift_bounds lines of None \<Rightarrow> 0 | Some (s, e) \<Rightarrow> e)
      in case plan_start from lines of
           None \<Rightarrow>
             (case drift_bounds lines of
                Some (s, e) \<Rightarrow>
                  if pl_HasDrift p then
                    p\<lparr>pl_Found := True, pl_HasChanges := True, pl_Body := block_text (slice s e lines)\<rparr>
                  else p
              | None \<Rightarrow> p)
         | Some start \<Rightarrow>
             let acts = actions_heading (lines ! start);
                 body = slice start (plan_end start lines) lines;
                 p1 = p\<lparr>pl_Found := True, pl_HasChanges := acts \<or> (pl_RefreshOnly p \<and> pl_HasDrift p)\<rparr>;
                 w = foldl walk_line \<lparr>wk_inActions = pl_HasChanges p1, wk_cur = None, wk_plan = p1\<rparr> body
             in (wk_plan (flush_walk w))\<lparr>pl_Body := block_text body\<rparr>)"

section \<open>The verdict\<close>

definition PlanChangesPrefix :: string where
  "PlanChangesPrefix = ''SPACEFLEET_PLAN_CHANGES=''"

definition verdict_line :: "(bool \<times> bool) \<Rightarrow> string \<Rightarrow> bool \<times> bool" where
  "verdict_line acc line =
     (let l = trim_right_set [CHR 0x0D] line in
      if l = PlanChangesPrefix @ ''true'' then (True, True)
      else if l = PlanChangesPrefix @ ''false'' then (False, True)
      else acc)"

text \<open>\<open>hasChanges\<close> and \<open>ok\<close>.\<close>

definition PlanVerdict :: "string \<Rightarrow> bool \<times> bool" where
  "PlanVerdict logs = foldl verdict_line (False, False) (split_lines logs)"

section \<open>The state lock\<close>

record LockInfo =
  li_ID :: string
  li_Path :: string
  li_Operation :: string
  li_Who :: string
  li_Version :: string
  li_Created :: string
  li_Info :: string

definition lockErrorMarker :: string where
  "lockErrorMarker = ''Error acquiring the state lock''"

definition gutter_runes :: "string list" where
  "gutter_runes = [[CHR 0xE2, CHR 0x94, CHR 0x82], [CHR 0xE2, CHR 0x95, CHR 0xB7], [CHR 0xE2, CHR 0x95, CHR 0xB5]]"

function trim_gutter :: "string \<Rightarrow> string" where
  "trim_gutter s =
     (case find (\<lambda>r. prefix r s) gutter_runes of
        Some r \<Rightarrow> trim_gutter (drop (length r) s)
      | None \<Rightarrow> s)"
  by pat_completeness auto
termination
proof (relation "measure length")
  fix s r assume "find (\<lambda>r. prefix r s) gutter_runes = Some r"
  from find_SomeD [OF this] have "prefix r s" "r \<noteq> []" by (auto simp: gutter_runes_def)
  moreover from this have "length r \<le> length s" by (auto dest: prefix_length_le)
  ultimately show "(drop (length r) s, s) \<in> measure length" by (cases r) auto
qed simp

declare trim_gutter.simps [simp del]

definition lock_line :: "string \<Rightarrow> string" where
  "lock_line raw = trim_space (trim_gutter (trim_space raw))"

definition set_lock_field :: "LockInfo \<Rightarrow> string \<Rightarrow> string \<Rightarrow> LockInfo option" where
  "set_lock_field info key v =
     (if key = ''ID'' then Some (info\<lparr>li_ID := v\<rparr>)
      else if key = ''Path'' then Some (info\<lparr>li_Path := v\<rparr>)
      else if key = ''Operation'' then Some (info\<lparr>li_Operation := v\<rparr>)
      else if key = ''Who'' then Some (info\<lparr>li_Who := v\<rparr>)
      else if key = ''Version'' then Some (info\<lparr>li_Version := v\<rparr>)
      else if key = ''Created'' then Some (info\<lparr>li_Created := v\<rparr>)
      else if key = ''Info'' then Some (info\<lparr>li_Info := v\<rparr>)
      else None)"

text \<open>The lines of the block; anything that is not one of its fields ends it.\<close>

fun lock_block :: "LockInfo \<Rightarrow> string list \<Rightarrow> LockInfo" where
  "lock_block info [] = info"
| "lock_block info (raw # raws) =
     (let line = lock_line raw in
      if line = [] then info
      else case str_cut line '':'' of (key, v, ok) \<Rightarrow>
        if \<not> ok then info
        else case set_lock_field info (trim_space key) (trim_space v) of
          None \<Rightarrow> info
        | Some info' \<Rightarrow> lock_block info' raws)"

definition empty_lock :: LockInfo where
  "empty_lock = \<lparr>li_ID = [], li_Path = [], li_Operation = [], li_Who = [], li_Version = [], li_Created = [], li_Info = []\<rparr>"

definition ParseLockInfo :: "string \<Rightarrow> LockInfo option" where
  "ParseLockInfo logs =
     (case str_index lockErrorMarker logs of
        None \<Rightarrow> None
      | Some i \<Rightarrow>
          (case dropWhile (\<lambda>raw. lock_line raw \<noteq> ''Lock Info:'') (split_lines (drop i logs)) of
             [] \<Rightarrow> None
           | _ # block \<Rightarrow>
               (let info = lock_block empty_lock block in if li_ID info = [] then None else Some info)))"

end
