(* ===== verification/Snapshot.thy ===== *)
theory Snapshot
  imports Validate_Props TofuPlan Scheduler_Ref
begin

text \<open>
  The run snapshot (\<open>lib/workflows/runs.go\<close>: \<open>snapshotComponents\<close>, \<open>componentNode\<close>,
  \<open>expandExecutionNodes\<close>), the approval policies (\<open>approvals.go\<close>) and the pure parts of the worker
  (\<open>worker.go\<close>, \<open>planner.go\<close>) that read it. \<open>deriveApplyID\<close> is \<open>uuid.NewSHA1\<close> of
  \<open>github.com/google/uuid\<close>, the parameter \<open>derive\<close>.
\<close>

section \<open>Rows\<close>

record Component =
  co_ID :: uuid
  co_OrganizationID :: uuid
  co_ApplicationID :: uuid
  co_StageID :: uuid
  co_Ordinal :: int
  co_Name :: string
  co_Type :: string
  co_Config :: config
  co_ContinueOnFailure :: bool
  co_RequiresApproval :: bool
  co_ApprovalPolicy :: ApprovalPolicy
  co_TargetClusterID :: uuid
  co_TargetNamespace :: string
  co_ChartCredentialID :: uuid
  co_GithubInstallationID :: uuid

text \<open>A stage row with its loaded components.\<close>

record WorkflowStage =
  ws_ID :: uuid
  ws_Name :: string
  ws_Components :: "Component list"

record GraphStage =
  gs_ID :: uuid
  gs_Name :: string

record GraphSnapshot =
  snap_Nodes :: "GraphNode list"
  snap_Stages :: "GraphStage list"

section \<open>Approval policies\<close>

fun collect_approvers :: "(nat \<Rightarrow> nat) \<Rightarrow> string list \<Rightarrow> string list \<Rightarrow> config_fault + string list" where
  "collect_approvers low [] acc = Inr acc"
| "collect_approvers low (raw # raws) acc =
     (let a = to_lower low (trim_space raw) in
      if a = [] then Inl ApproverEmpty
      else if contains_any [CHR '' '', CHR 0x09, CHR 0x0D, CHR 0x0A, CHR '',''] a then Inl (ApproverMalformed a)
      else collect_approvers low raws (if a \<in> set acc then acc else acc @ [a]))"

definition maxApprovalTimeoutMinutes :: int where
  "maxApprovalTimeoutMinutes = 7 * 24 * 60"

definition normalizeApprovalPolicy :: "(nat \<Rightarrow> nat) \<Rightarrow> ComponentInput \<Rightarrow> wf_error + ApprovalPolicy" where
  "normalizeApprovalPolicy low n =
     (let p = ci_ApprovalPolicy n; bad = (\<lambda>f. Inl (ErrInvalidConfig (ci_Name n) f)) in
      case collect_approvers low (Approvers p) [] of
        Inl f \<Rightarrow> bad f
      | Inr approvers \<Rightarrow>
          if length approvers > 50 then bad TooManyApprovers
          else if Required p < 0 then bad RequiredNegative
          else if approvers \<noteq> [] \<and> Required p > int (length approvers) then bad RequiredTooMany
          else if TimeoutMinutes p < 0 \<or> TimeoutMinutes p > maxApprovalTimeoutMinutes then bad TimeoutOutOfRange
          else Inr \<lparr>Approvers = approvers, Required = Required p,
                 RequireDifferentApprover = RequireDifferentApprover p, TimeoutMinutes = TimeoutMinutes p\<rparr>)"

definition isZeroPolicy :: "ApprovalPolicy \<Rightarrow> bool" where
  "isZeroPolicy p \<longleftrightarrow>
     Approvers p = [] \<and> Required p \<le> 1 \<and> \<not> RequireDifferentApprover p \<and> TimeoutMinutes p = 0"

definition approvalsRequired :: "ApprovalPolicy option \<Rightarrow> int" where
  "approvalsRequired p = (case p of None \<Rightarrow> 1 | Some q \<Rightarrow> if Required q < 1 then 1 else Required q)"

section \<open>Actions\<close>

definition validAction :: "string \<Rightarrow> bool" where
  "validAction action \<longleftrightarrow> action \<in> {ActionDeploy, ActionUninstall, ActionPreview, ActionDrift}"

definition isReadOnlyAction :: "string \<Rightarrow> bool" where
  "isReadOnlyAction action \<longleftrightarrow> action = ActionPreview \<or> action = ActionDrift"

section \<open>Snapshot nodes\<close>

definition nonzero :: "uuid \<Rightarrow> uuid option" where
  "nonzero i = (if i = uuid_Nil then None else Some i)"

definition componentNode :: "Component \<Rightarrow> uuid \<Rightarrow> GraphNode" where
  "componentNode c stageID =
     \<lparr>gn_ID = co_ID c, gn_ComponentID = co_ID c, gn_Name = co_Name c, gn_Type = co_Type c,
      gn_Config = co_Config c, gn_DependsOn = [], gn_ContinueOnFailure = co_ContinueOnFailure c,
      gn_RequiresApproval = co_RequiresApproval c,
      gn_ApprovalPolicy = (if isZeroPolicy (co_ApprovalPolicy c) then None else Some (co_ApprovalPolicy c)),
      gn_TargetClusterID = nonzero (co_TargetClusterID c), gn_TargetNamespace = co_TargetNamespace c,
      gn_ChartCredentialID = nonzero (co_ChartCredentialID c),
      gn_GitHubInstallationID = nonzero (co_GithubInstallationID c), gn_StageID = nonzero stageID\<rparr>"

definition withCommand :: "config \<Rightarrow> string \<Rightarrow> config" where
  "withCommand c cmd = c(''command'' \<mapsto> cmd)"

text \<open>The display suffixes; the middle dot is \<open>U+00B7\<close>.\<close>

definition tofuPlanNameSuffix :: string where
  "tofuPlanNameSuffix = [CHR '' '', CHR 0xC2, CHR 0xB7] @ '' plan''"

definition tofuApplyNameSuffix :: string where
  "tofuApplyNameSuffix = [CHR '' '', CHR 0xC2, CHR 0xB7] @ '' apply''"

definition plan_unit :: "GraphNode \<Rightarrow> uuid list \<Rightarrow> bool \<Rightarrow> GraphNode" where
  "plan_unit n deps preview =
     n\<lparr>gn_Name := gn_Name n @ tofuPlanNameSuffix, gn_DependsOn := deps, gn_RequiresApproval := False,
       gn_ContinueOnFailure := (preview \<and> gn_ContinueOnFailure n),
       gn_Config := withCommand (gn_Config n) CommandPlan\<rparr>"

definition apply_unit :: "(uuid \<Rightarrow> uuid) \<Rightarrow> GraphNode \<Rightarrow> GraphNode" where
  "apply_unit derive n =
     n\<lparr>gn_ID := derive (gn_ID n), gn_Name := gn_Name n @ tofuApplyNameSuffix, gn_DependsOn := [gn_ID n],
       gn_Config := withCommand (gn_Config n) CommandApply\<rparr>"

definition apply_of :: "(uuid \<Rightarrow> uuid) \<Rightarrow> GraphNode list \<Rightarrow> bool \<Rightarrow> (uuid \<rightharpoonup> uuid)" where
  "apply_of derive nodes preview =
     foldl (\<lambda>m n. if gn_Type n = TypeTerraform \<and> \<not> preview then m(gn_ID n \<mapsto> derive (gn_ID n)) else m) Map.empty nodes"

definition remap_deps :: "(uuid \<rightharpoonup> uuid) \<Rightarrow> uuid list \<Rightarrow> uuid list" where
  "remap_deps ap deps = map (\<lambda>d. case ap d of Some a \<Rightarrow> a | None \<Rightarrow> d) deps"

definition expand_node ::
  "(uuid \<Rightarrow> uuid) \<Rightarrow> (uuid \<rightharpoonup> uuid) \<Rightarrow> string \<Rightarrow> GraphNode \<Rightarrow> GraphNode list" where
  "expand_node derive ap action n =
     (let deps = remap_deps ap (gn_DependsOn n) in
      if gn_Type n \<noteq> TypeTerraform then
        (if action = ActionDrift then [] else [n\<lparr>gn_DependsOn := deps\<rparr>])
      else if isReadOnlyAction action then [plan_unit n deps True]
      else [plan_unit n deps False, apply_unit derive n])"

definition expandExecutionNodes :: "(uuid \<Rightarrow> uuid) \<Rightarrow> GraphNode list \<Rightarrow> string \<Rightarrow> GraphNode list" where
  "expandExecutionNodes derive nodes action =
     concat (map (expand_node derive (apply_of derive nodes (isReadOnlyAction action)) action) nodes)"

text \<open>The inputs \<open>stageDependencies\<close> is given: identities only.\<close>

definition bare_input :: "Component \<Rightarrow> ComponentInput" where
  "bare_input c =
     \<lparr>ci_ID = co_ID c, ci_Name = [], ci_Type = [], ci_Config = Map.empty, ci_ContinueOnFailure = False,
      ci_RequiresApproval = False, ci_ApprovalPolicy = zero_policy, ci_TargetClusterID = None,
      ci_TargetNamespace = [], ci_ChartCredentialID = None, ci_GitHubInstallationID = None\<rparr>"

definition bare_stage :: "WorkflowStage \<Rightarrow> StageInput" where
  "bare_stage st = \<lparr>si_ID = ws_ID st, si_Name = [], si_Components = map bare_input (ws_Components st)\<rparr>"

definition stage_nodes :: "(uuid \<rightharpoonup> uuid list) \<Rightarrow> WorkflowStage \<Rightarrow> GraphNode list" where
  "stage_nodes deps st =
     map (\<lambda>c. (componentNode c (ws_ID st))\<lparr>gn_DependsOn := deps_of deps (co_ID c)\<rparr>) (ws_Components st)"

definition snapshotComponents :: "(uuid \<Rightarrow> uuid) \<Rightarrow> WorkflowStage list \<Rightarrow> string \<Rightarrow> GraphSnapshot" where
  "snapshotComponents derive stages action =
     (let deps = stageDependencies (map bare_stage stages) in
      \<lparr>snap_Nodes = expandExecutionNodes derive (concat (map (stage_nodes deps) stages)) action,
       snap_Stages = map (\<lambda>st. \<lparr>gs_ID = ws_ID st, gs_Name = ws_Name st\<rparr>)
         (filter (\<lambda>st. ws_Components st \<noteq> []) stages)\<rparr>)"

section \<open>Reading a snapshot\<close>

definition by_id :: "GraphNode list \<Rightarrow> (uuid \<rightharpoonup> GraphNode)" where
  "by_id nodes = foldl (\<lambda>m n. m(gn_ID n \<mapsto> n)) Map.empty nodes"

definition is_plan_unit :: "GraphNode \<Rightarrow> bool" where
  "is_plan_unit n \<longleftrightarrow> gn_Type n = TypeTerraform \<and> cfg (gn_Config n) ''command'' = CommandPlan"

definition upstreamTofuPlanID :: "GraphNode \<Rightarrow> (uuid \<rightharpoonup> GraphNode) \<Rightarrow> uuid" where
  "upstreamTofuPlanID node byID =
     (case find (\<lambda>dep. case byID dep of Some d \<Rightarrow> is_plan_unit d | None \<Rightarrow> False) (gn_DependsOn node) of
        Some dep \<Rightarrow> (case byID dep of Some d \<Rightarrow> gn_ID d | None \<Rightarrow> uuid_Nil)
      | None \<Rightarrow> uuid_Nil)"

definition tofuHandoverPlanID :: "GraphNode \<Rightarrow> (uuid \<rightharpoonup> GraphNode) \<Rightarrow> uuid" where
  "tofuHandoverPlanID node byID =
     (if cfg (gn_Config node) ''command'' = CommandApply then upstreamTofuPlanID node byID else gn_ID node)"

definition ownsTofuHandover :: "GraphNode \<Rightarrow> bool" where
  "ownsTofuHandover n \<longleftrightarrow>
     gn_Type n = TypeTerraform \<and> cfg (gn_Config n) ''command'' \<in> {CommandPlan, CommandStateOp}"

definition recordsTofuState :: "string \<Rightarrow> GraphNode \<Rightarrow> bool" where
  "recordsTofuState action node \<longleftrightarrow>
     gn_Type node = TypeTerraform \<and>
     (if cfg (gn_Config node) ''command'' = CommandApply then action = ActionDeploy \<or> action = ActionUninstall
      else if cfg (gn_Config node) ''command'' = CommandStateOp then action = ActionStateOp
      else False)"

definition noChangeCompletes ::
  "(uuid \<Rightarrow> uuid) \<Rightarrow> string \<Rightarrow> GraphNode \<Rightarrow> string \<Rightarrow> (uuid \<rightharpoonup> GraphNode) \<Rightarrow> uuid list" where
  "noChangeCompletes derive action node logs byID =
     (if action \<noteq> ActionDeploy \<and> action \<noteq> ActionUninstall then []
      else if \<not> is_plan_unit node then []
      else case byID (derive (gn_ID node)) of
        None \<Rightarrow> []
      | Some ap \<Rightarrow>
          if cfg (gn_Config ap) ''command'' \<noteq> CommandApply \<or> upstreamTofuPlanID ap byID \<noteq> gn_ID node then []
          else (case PlanVerdict logs of (changes, ok) \<Rightarrow>
            if \<not> ok \<or> changes then []
            else if \<not> pl_Found (ParsePlan logs) \<or> pl_HasChanges (ParsePlan logs) then []
            else [gn_ID ap]))"

definition nothingToApplyMessage :: "GraphNode \<Rightarrow> string" where
  "nothingToApplyMessage ap =
     (if gn_RequiresApproval ap then ''nothing to apply: the plan has no changes, so no approval was needed''
      else ''nothing to apply: the plan has no changes'')"

text \<open>
  The scheduler's nodes: dependencies and gates of a read-only run are cleared, a gate counts as
  approved when its component run carries an approval time (\<open>approved\<close>).
\<close>

definition sched_node :: "string \<Rightarrow> (uuid \<Rightarrow> bool) \<Rightarrow> GraphNode \<Rightarrow> schedNode" where
  "sched_node action approved n =
     \<lparr>sn_ID = gn_ID n,
      sn_DependsOn = (if isReadOnlyAction action then [] else gn_DependsOn n),
      sn_ContinueOnFailure = gn_ContinueOnFailure n,
      sn_RequiresApproval = (\<not> isReadOnlyAction action \<and> gn_RequiresApproval n),
      sn_Approved = approved (gn_ID n)\<rparr>"

definition run_concurrency :: "GraphNode list \<Rightarrow> nat" where
  "run_concurrency nodes = min (length nodes) 8"

end
