(* ===== verification/Snapshot_Props.thy ===== *)
theory Snapshot_Props
  imports Snapshot
begin

text \<open>
  A snapshot is a graph the scheduler can run: units listed after everything they depend on, every
  dependency present, and the plan of an OpenTofu component directly before its apply.
\<close>

section \<open>Ordered units\<close>

fun ordered_units :: "uuid set \<Rightarrow> GraphNode list \<Rightarrow> bool" where
  "ordered_units seen [] = True"
| "ordered_units seen (n # ns) =
     (gn_ID n \<notin> seen \<and> set (gn_DependsOn n) \<subseteq> seen \<and> ordered_units (insert (gn_ID n) seen) ns)"

definition unit_ids :: "GraphNode list \<Rightarrow> uuid set" where
  "unit_ids nodes = gn_ID ` set nodes"

lemma unit_ids_simps [simp]:
  "unit_ids [] = {}" "unit_ids (n # ns) = insert (gn_ID n) (unit_ids ns)" "unit_ids (a @ b) = unit_ids a \<union> unit_ids b"
  by (auto simp: unit_ids_def)

lemma ordered_units_append:
  "ordered_units seen (a @ b) \<longleftrightarrow> ordered_units seen a \<and> ordered_units (seen \<union> unit_ids a) b"
  by (induction a arbitrary: seen) auto

lemma ordered_units_distinct: "ordered_units seen ns \<Longrightarrow> distinct (map gn_ID ns) \<and> unit_ids ns \<inter> seen = {}"
  by (induction ns arbitrary: seen) (auto simp: unit_ids_def)

lemma ordered_units_deps: "ordered_units seen ns \<Longrightarrow> n \<in> set ns \<Longrightarrow> set (gn_DependsOn n) \<subseteq> seen \<union> unit_ids ns"
  by (induction ns arbitrary: seen) fastforce+

section \<open>Expansion\<close>

lemma apply_of_apply:
  "apply_of derive nodes preview d =
     (if \<not> preview \<and> (\<exists>n\<in>set nodes. gn_Type n = TypeTerraform \<and> gn_ID n = d) then Some (derive d) else None)"
proof -
  have "foldl (\<lambda>m n. if gn_Type n = TypeTerraform \<and> \<not> preview then m(gn_ID n \<mapsto> derive (gn_ID n)) else m) m nodes d =
      (if \<not> preview \<and> (\<exists>n\<in>set nodes. gn_Type n = TypeTerraform \<and> gn_ID n = d) then Some (derive d) else m d)" for m
    by (induction nodes arbitrary: m) auto
  then show ?thesis by (simp add: apply_of_def)
qed

text \<open>The unit a dependent waits for.\<close>

definition final_unit :: "(uuid \<Rightarrow> uuid) \<Rightarrow> GraphNode list \<Rightarrow> string \<Rightarrow> uuid \<Rightarrow> uuid" where
  "final_unit derive nodes action d =
     (case apply_of derive nodes (isReadOnlyAction action) d of Some a \<Rightarrow> a | None \<Rightarrow> d)"

lemma remap_deps_final: "remap_deps (apply_of derive nodes (isReadOnlyAction action)) = map (final_unit derive nodes action)"
  by (simp add: remap_deps_def final_unit_def [abs_def] fun_eq_iff)

text \<open>Identities a derivation must keep apart: documented behaviour of a name-based UUID.\<close>

definition fresh_derive :: "(uuid \<Rightarrow> uuid) \<Rightarrow> uuid set \<Rightarrow> bool" where
  "fresh_derive derive ids \<longleftrightarrow> inj_on derive ids \<and> derive ` ids \<inter> ids = {}"

lemma expand_node_ids:
  assumes "action \<noteq> ActionDrift"
  shows "unit_ids (expand_node derive (apply_of derive nodes (isReadOnlyAction action)) action n) =
    (if gn_Type n = TypeTerraform \<and> \<not> isReadOnlyAction action then {gn_ID n, derive (gn_ID n)} else {gn_ID n})"
  using assms by (auto simp: expand_node_def Let_def plan_unit_def apply_unit_def)

lemma expand_ordered:
  assumes "ordered_units {} nodes" and "fresh_derive derive (unit_ids nodes)" and "action \<noteq> ActionDrift"
  shows "ordered_units {} (expandExecutionNodes derive nodes action)"
proof -
  let ?ap = "apply_of derive nodes (isReadOnlyAction action)"
  let ?ex = "\<lambda>ns. concat (map (expand_node derive ?ap action) ns)"
  have ids: "\<And>n. unit_ids (expand_node derive ?ap action n) =
      (if gn_Type n = TypeTerraform \<and> \<not> isReadOnlyAction action then {gn_ID n, derive (gn_ID n)} else {gn_ID n})"
    by (rule expand_node_ids [OF assms(3)])
  have all: "unit_ids (?ex pre) \<subseteq> unit_ids pre \<union> derive ` unit_ids pre" for pre
    by (induction pre) (auto simp: ids)
  have final: "final_unit derive nodes action d \<in> unit_ids (?ex pre)"
    if "d \<in> unit_ids pre" "set pre \<subseteq> set nodes" for d pre
  proof -
    from that obtain n where n: "n \<in> set pre" "gn_ID n = d" by (auto simp: unit_ids_def)
    from ordered_units_distinct [OF assms(1)] have inj: "inj_on gn_ID (set nodes)" by (simp add: distinct_map)
    have "(\<exists>m\<in>set nodes. gn_Type m = TypeTerraform \<and> gn_ID m = d) \<longleftrightarrow> gn_Type n = TypeTerraform"
      using n that(2) inj_onD [OF inj] by blast
    then have "final_unit derive nodes action d \<in> unit_ids (expand_node derive ?ap action n)"
      using n by (simp add: final_unit_def apply_of_apply ids)
    moreover have "unit_ids (expand_node derive ?ap action n) \<subseteq> unit_ids (?ex pre)"
      using n(1) by (auto simp: unit_ids_def)
    ultimately show ?thesis by blast
  qed
  have "ordered_units {} (?ex pre)" if "prefix pre nodes" for pre
    using that
  proof (induction pre rule: rev_induct)
    case (snoc n pre)
    then obtain post where nodes: "nodes = pre @ n # post" by (auto simp: prefix_def)
    from assms(1) have ord: "gn_ID n \<notin> unit_ids pre" "set (gn_DependsOn n) \<subseteq> unit_ids pre"
      unfolding nodes by (simp_all add: ordered_units_append)
    from nodes have pre: "set pre \<subseteq> set nodes" "unit_ids pre \<subseteq> unit_ids nodes" "gn_ID n \<in> unit_ids nodes" by auto
    have der: "derive (gn_ID n) \<notin> unit_ids (?ex pre)" "gn_ID n \<notin> unit_ids (?ex pre)" "derive (gn_ID n) \<noteq> gn_ID n"
    proof -
      from assms(2) pre(3) have d1: "derive (gn_ID n) \<notin> unit_ids nodes" by (auto simp: fresh_derive_def)
      have d2: "derive (gn_ID n) \<notin> derive ` unit_ids pre"
      proof
        assume "derive (gn_ID n) \<in> derive ` unit_ids pre"
        then obtain x where x: "x \<in> unit_ids pre" "derive (gn_ID n) = derive x" by blast
        with pre have "x \<in> unit_ids nodes" by blast
        with x(2) pre(3) assms(2) have "gn_ID n = x" unfolding fresh_derive_def by (meson inj_onD)
        with x(1) ord(1) show False by simp
      qed
      from d1 d2 pre(2) all [of pre] show "derive (gn_ID n) \<notin> unit_ids (?ex pre)" by blast
      have "gn_ID n \<notin> derive ` unit_ids pre" using assms(2) pre(2,3) unfolding fresh_derive_def by blast
      with ord(1) all [of pre] show "gn_ID n \<notin> unit_ids (?ex pre)" by blast
      show "derive (gn_ID n) \<noteq> gn_ID n" using d1 pre(3) by metis
    qed
    have deps: "set (remap_deps ?ap (gn_DependsOn n)) \<subseteq> unit_ids (?ex pre)"
      using final [OF _ pre(1)] ord(2) by (auto simp: remap_deps_final)
    have "ordered_units (unit_ids (?ex pre)) (expand_node derive ?ap action n)"
      using der deps assms(3) by (auto simp: expand_node_def Let_def plan_unit_def apply_unit_def)
    moreover have "prefix pre nodes" unfolding nodes by simp
    ultimately show ?case using snoc.IH by (simp add: ordered_units_append)
  qed simp
  from this [of nodes] show ?thesis by (simp add: expandExecutionNodes_def)
qed

section \<open>The whole snapshot\<close>

lemma bare_stage_ids [simp]: "stage_ids (bare_stage st) = map co_ID (ws_Components st)"
  by (simp add: stage_ids_def bare_stage_def bare_input_def comp_def)

definition row_ids :: "WorkflowStage list \<Rightarrow> uuid list" where
  "row_ids stages = concat (map (\<lambda>st. map co_ID (ws_Components st)) stages)"

lemma component_ids_bare: "component_ids (map bare_stage stages) = row_ids stages"
  by (simp add: component_ids_def row_ids_def comp_def)

lemma unit_ids_stage_nodes: "unit_ids (concat (map (stage_nodes deps) stages)) = set (row_ids stages)"
proof -
  have "unit_ids (stage_nodes deps st) = co_ID ` set (ws_Components st)" for st
    by (simp add: unit_ids_def stage_nodes_def componentNode_def image_image)
  then show ?thesis by (induction stages) (simp_all add: row_ids_def)
qed

lemma stage_dep_earlier:
  assumes "distinct (row_ids stages)" and "stages = pre @ st # post" and "c \<in> set (ws_Components st)"
  shows "set (deps_of (stageDependencies (map bare_stage stages)) (co_ID c)) \<subseteq> set (row_ids pre)"
proof
  fix y assume "y \<in> set (deps_of (stageDependencies (map bare_stage stages)) (co_ID c))"
  then have "(co_ID c, y) \<in> (dep_edges (stageDependencies (map bare_stage stages)))\<^sup>+"
    by (intro r_into_trancl) simp
  then have "earlier_stage (map bare_stage stages) (co_ID c) y"
    using assms(1) by (simp add: stageDependencies_trancl component_ids_bare)
  then obtain i j where ij: "i < j" "j < length stages" "co_ID c \<in> co_ID ` set (ws_Components (stages ! j))"
      "y \<in> co_ID ` set (ws_Components (stages ! i))"
    by (auto simp: earlier_stage_def)
  have "j = length pre"
  proof (rule ccontr)
    assume ne: "j \<noteq> length pre"
    let ?x = "co_ID c"
    have "row_ids stages = row_ids pre @ map co_ID (ws_Components st) @ row_ids post"
      unfolding assms(2) by (simp add: row_ids_def)
    with assms(1) have "set (map co_ID (ws_Components st)) \<inter> set (row_ids pre) = {}"
      "set (map co_ID (ws_Components st)) \<inter> set (row_ids post) = {}"
      by (simp_all add: distinct_append Int_commute Int_Un_distrib)
    moreover have "?x \<in> set (map co_ID (ws_Components st))" using assms(3) by simp
    ultimately have x: "?x \<notin> set (row_ids pre)" "?x \<notin> set (row_ids post)" by blast+
    from ne consider "j < length pre" | "length pre < j" by linarith
    then show False
    proof cases
      case 1
      then have "stages ! j \<in> set pre" using assms(2) by (simp add: nth_append)
      with ij(3) x(1) show False by (auto simp: row_ids_def)
    next
      case 2
      then obtain k where "j = length pre + Suc k" by (metis add_Suc_right less_natE)
      then have "stages ! j \<in> set post" using assms(2) ij(2) by (simp add: nth_append)
      with ij(3) x(2) show False by (auto simp: row_ids_def)
    qed
  qed
  then have "stages ! i \<in> set pre" using ij(1) assms(2) by (simp add: nth_append)
  with ij(4) show "y \<in> set (row_ids pre)" by (auto simp: row_ids_def)
qed

lemma ordered_stage_nodes:
  assumes "distinct (map co_ID (ws_Components st))" and "co_ID ` set (ws_Components st) \<inter> seen = {}"
    and "\<And>c. c \<in> set (ws_Components st) \<Longrightarrow> set (deps_of deps (co_ID c)) \<subseteq> seen"
  shows "ordered_units seen (stage_nodes deps st)"
proof -
  have "ordered_units (seen \<union> extra) (map (\<lambda>c. (componentNode c i)\<lparr>gn_DependsOn := deps_of deps (co_ID c)\<rparr>) cs)"
    if "distinct (map co_ID cs)" "co_ID ` set cs \<inter> (seen \<union> extra) = {}"
      "\<And>c. c \<in> set cs \<Longrightarrow> set (deps_of deps (co_ID c)) \<subseteq> seen" for cs extra i
    using that
  proof (induction cs arbitrary: extra)
    case (Cons c cs)
    have "ordered_units (seen \<union> insert (co_ID c) extra)
        (map (\<lambda>c. (componentNode c i)\<lparr>gn_DependsOn := deps_of deps (co_ID c)\<rparr>) cs)"
      using Cons.prems by (intro Cons.IH) auto
    with Cons.prems show ?case by (auto simp: componentNode_def)
  qed simp
  from this [of "ws_Components st" "{}"] assms show ?thesis by (simp add: stage_nodes_def)
qed

lemma ordered_authored:
  assumes "distinct (row_ids stages)"
  shows "ordered_units {} (concat (map (stage_nodes (stageDependencies (map bare_stage stages))) stages))"
proof -
  let ?deps = "stageDependencies (map bare_stage stages)"
  have "ordered_units {} (concat (map (stage_nodes ?deps) pre))" if "prefix pre stages" for pre
    using that
  proof (induction pre rule: rev_induct)
    case (snoc st pre)
    then obtain post where st: "stages = pre @ st # post" by (auto simp: prefix_def)
    then have rows: "row_ids stages = row_ids pre @ map co_ID (ws_Components st) @ row_ids post"
      by (simp add: row_ids_def)
    have "ordered_units (unit_ids (concat (map (stage_nodes ?deps) pre))) (stage_nodes ?deps st)"
      unfolding unit_ids_stage_nodes
    proof (rule ordered_stage_nodes)
      show "distinct (map co_ID (ws_Components st))" using assms rows by simp
      have "set (map co_ID (ws_Components st)) \<inter> set (row_ids pre) = {}"
        using assms unfolding rows by (simp only: distinct_append set_append) blast
      then show "co_ID ` set (ws_Components st) \<inter> set (row_ids pre) = {}" by simp
    qed (rule stage_dep_earlier [OF assms st])
    moreover have "prefix pre stages" unfolding st by simp
    ultimately show ?case using snoc.IH by (simp add: ordered_units_append)
  qed simp
  from this [of stages] show ?thesis by simp
qed

section \<open>What the scheduler is given\<close>

definition schedulable :: "schedNode list \<Rightarrow> bool" where
  "schedulable ns \<longleftrightarrow>
     topo_ordered (known ns) {} ns \<and> list_all (\<lambda>n. set (sn_DependsOn n) \<subseteq> known ns) ns"

lemma known_sched: "known (map (sched_node action approved) nodes) = unit_ids nodes"
  by (auto simp: known_def unit_ids_def sched_node_def)

lemma topo_ordered_sched:
  "ordered_units seen nodes \<Longrightarrow> topo_ordered all seen (map (sched_node action approved) nodes)"
  by (induction nodes arbitrary: seen) (auto simp: sched_node_def)

lemma topo_ordered_independent:
  "isReadOnlyAction action \<Longrightarrow> distinct (map gn_ID nodes) \<Longrightarrow> unit_ids nodes \<inter> seen = {} \<Longrightarrow>
     topo_ordered all seen (map (sched_node action approved) nodes)"
proof (induction nodes arbitrary: seen)
  case (Cons n nodes)
  then show ?case by (auto simp: sched_node_def unit_ids_def)
qed simp

lemma expand_distinct_drift:
  "distinct (map gn_ID nodes) \<Longrightarrow> distinct (map gn_ID (expandExecutionNodes derive nodes ActionDrift))"
proof -
  have "map gn_ID (concat (map (expand_node derive ap ActionDrift) nodes)) =
      map gn_ID (filter (\<lambda>n. gn_Type n = TypeTerraform) nodes)" for ap
    by (induction nodes) (auto simp: expand_node_def isReadOnlyAction_def plan_unit_def Let_def)
  then show "distinct (map gn_ID nodes) \<Longrightarrow> distinct (map gn_ID (expandExecutionNodes derive nodes ActionDrift))"
    by (simp add: expandExecutionNodes_def distinct_map_filter)
qed

lemma snapshot_schedulable:
  assumes "distinct (row_ids stages)" and "fresh_derive derive (set (row_ids stages))"
  shows "schedulable (map (sched_node action approved) (snap_Nodes (snapshotComponents derive stages action)))"
proof -
  let ?authored = "concat (map (stage_nodes (stageDependencies (map bare_stage stages))) stages)"
  let ?nodes = "expandExecutionNodes derive ?authored action"
  have nodes: "snap_Nodes (snapshotComponents derive stages action) = ?nodes"
    by (simp add: snapshotComponents_def Let_def)
  note ord = ordered_authored [OF assms(1)]
  show ?thesis
  proof (cases "action = ActionDrift")
    case True
    then have "isReadOnlyAction action" by (simp add: isReadOnlyAction_def)
    moreover have "distinct (map gn_ID ?nodes)"
      using expand_distinct_drift ordered_units_distinct [OF ord] True by blast
    ultimately show ?thesis
      unfolding nodes schedulable_def
      by (auto simp: topo_ordered_independent list_all_iff sched_node_def)
  next
    case False
    from assms(2) have "fresh_derive derive (unit_ids ?authored)" by (simp add: unit_ids_stage_nodes)
    from expand_ordered [OF ord this False] have o: "ordered_units {} ?nodes" .
    have "set (gn_DependsOn n) \<subseteq> unit_ids ?nodes" if "n \<in> set ?nodes" for n
      using ordered_units_deps [OF o that] by simp
    then show ?thesis
      unfolding nodes schedulable_def known_sched
      by (auto simp: topo_ordered_sched [OF o] list_all_iff sched_node_def)
  qed
qed

section \<open>Approval policies\<close>

lemma collect_approvers_Inr:
  "collect_approvers low raws acc = Inr as \<Longrightarrow>
     set as = set acc \<union> (\<lambda>a. to_lower low (trim_space a)) ` set raws \<and>
     (distinct acc \<longrightarrow> distinct as) \<and> ([] \<notin> set acc \<longrightarrow> [] \<notin> set as)"
proof (induction raws arbitrary: acc)
  case (Cons raw raws)
  let ?a = "to_lower low (trim_space raw)" and ?acc = "if to_lower low (trim_space raw) \<in> set acc then acc else acc @ [to_lower low (trim_space raw)]"
  from Cons.prems have "?a \<noteq> []" "collect_approvers low raws ?acc = Inr as"
    by (simp_all add: Let_def split: if_splits)
  from Cons.IH [OF this(2)] this(1) show ?case by (cases "?a \<in> set acc") auto
qed simp

section \<open>A plan completes its own apply\<close>

lemma by_id_Some:
  "distinct (map gn_ID nodes) \<Longrightarrow> by_id nodes i = Some n \<longleftrightarrow> n \<in> set nodes \<and> gn_ID n = i"
proof -
  have "foldl (\<lambda>m n. m(gn_ID n \<mapsto> n)) m nodes i = Some n \<longleftrightarrow>
      (if i \<in> gn_ID ` set nodes then n \<in> set nodes \<and> gn_ID n = i else m i = Some n)"
    if "distinct (map gn_ID nodes)" for m
    using that by (induction nodes arbitrary: m) (auto simp: image_iff)
  from this [of Map.empty] show "distinct (map gn_ID nodes) \<Longrightarrow>
      by_id nodes i = Some n \<longleftrightarrow> n \<in> set nodes \<and> gn_ID n = i"
    by (auto simp: by_id_def split: if_splits)
qed

lemma upstream_plan:
  assumes "distinct (map gn_ID nodes)" and "upstreamTofuPlanID ap (by_id nodes) = p" and "p \<noteq> uuid_Nil"
  shows "p \<in> set (gn_DependsOn ap)"
  using assms(2,3) by_id_Some [OF assms(1)]
  by (auto simp: upstreamTofuPlanID_def dest!: find_SomeD split: option.splits)

lemma noChangeCompletes_elim:
  assumes "i \<in> set (noChangeCompletes derive action node logs byID)"
  obtains ap where "byID (derive (gn_ID node)) = Some ap" "i = gn_ID ap"
    "action = ActionDeploy \<or> action = ActionUninstall" "is_plan_unit node"
    "cfg (gn_Config ap) ''command'' = CommandApply" "upstreamTofuPlanID ap byID = gn_ID node"
    "PlanVerdict logs = (False, True)" "pl_Found (ParsePlan logs)" "\<not> pl_HasChanges (ParsePlan logs)"
  using assms
  by (cases "byID (derive (gn_ID node))"; cases "PlanVerdict logs")
    (auto simp: noChangeCompletes_def split: if_splits)

lemma snapshot_completes:
  assumes "distinct (map gn_ID nodes)" and "uuid_Nil \<notin> unit_ids nodes"
    and "\<forall>n\<in>set nodes. nr_Completes (f (gn_ID n)) = noChangeCompletes derive action n (logs (gn_ID n)) (by_id nodes)"
  shows "completes_dependents (map (sched_node action approved) nodes) f"
proof -
  have "gn_ID d \<in> set (sn_DependsOn (sched_node action approved n))"
    if d: "d \<in> set nodes" and n: "n \<in> set nodes" and c: "gn_ID n \<in> set (nr_Completes (f (gn_ID d)))" for d n
  proof -
    from c assms(3) d have "gn_ID n \<in> set (noChangeCompletes derive action d (logs (gn_ID d)) (by_id nodes))" by simp
    then obtain ap where ap: "by_id nodes (derive (gn_ID d)) = Some ap" "gn_ID n = gn_ID ap"
      "action = ActionDeploy \<or> action = ActionUninstall" "upstreamTofuPlanID ap (by_id nodes) = gn_ID d"
      by (rule noChangeCompletes_elim)
    have "gn_ID d \<noteq> uuid_Nil" using assms(2) d by (auto simp: unit_ids_def)
    with upstream_plan [OF assms(1) ap(4)] have "gn_ID d \<in> set (gn_DependsOn ap)" .
    moreover have "ap = n"
      using ap(1,2) n assms(1) by_id_Some [OF assms(1)] by (auto simp: distinct_map inj_on_def)
    ultimately show ?thesis using ap(3) by (auto simp: sched_node_def isReadOnlyAction_def)
  qed
  then show ?thesis
    by (auto simp: completes_dependents_def list_all_iff) (auto simp: sched_node_def)
qed

end
