(* ===== verification/Snapshot_Barrier.thy ===== *)
theory Snapshot_Barrier
  imports Snapshot_Props
begin

text \<open>
  The order a snapshot imposes on a run: along the scheduler's dependencies the units of a component
  reach every unit of every component of an earlier stage, and a node that runs has all it reaches
  behind it.
\<close>

section \<open>What lies behind a node that ran\<close>

definition needs :: "schedNode list \<Rightarrow> (uuid \<times> uuid) set" where
  "needs nodes = {(i, d). \<exists>n \<in> set nodes. sn_ID n = i \<and> d \<in> set (sn_DependsOn n)}"

lemma passed_deps:
  assumes "just_inv nodes s" and "schedulable nodes" and "depPassed nodes (sc_results s) d" and "(d, e) \<in> needs nodes"
  shows "depPassed nodes (sc_results s) e"
proof -
  from assms(2) have ok: "topo_ordered (known nodes) {} nodes" "\<And>n d. n \<in> set nodes \<Longrightarrow> d \<in> set (sn_DependsOn n) \<Longrightarrow> d \<in> known nodes"
    by (auto simp: schedulable_def list_all_iff)
  from topo_ordered_distinct [OF ok(1)] have inj: "inj_on sn_ID (set nodes)" by (simp add: distinct_map)
  from assms(4) obtain n where n: "n \<in> set nodes" "sn_ID n = d" "e \<in> set (sn_DependsOn n)" by (auto simp: needs_def)
  from assms(3) obtain st where st: "sc_results s d = Some st" "st = Succeeded \<or> st = Failed"
    by (auto simp: depPassed_def split: option.splits sched_status.splits)
  with assms(1) obtain m where m: "m \<in> set nodes" "sn_ID m = d" "cause nodes s m st"
    unfolding just_inv_def by blast
  from m n inj have "m = n" by (auto dest: inj_onD)
  with m ok(2) st(2) have "deps_passed nodes s n" by (auto simp: cause_def)
  with n(3) show ?thesis by (simp add: deps_passed_def)
qed

lemma ran_behind:
  assumes "just_inv nodes s" and "schedulable nodes" and "(i, Running) \<in> set (sc_emitted s)" and "(i, e) \<in> (needs nodes)\<^sup>+"
  shows "depPassed nodes (sc_results s) e"
  using assms(4)
proof (induction rule: trancl_induct)
  case (base e)
  from assms(2) have "topo_ordered (known nodes) {} nodes" by (simp add: schedulable_def)
  from topo_ordered_distinct [OF this] have inj: "inj_on sn_ID (set nodes)" by (simp add: distinct_map)
  from assms(1,3) obtain n where n: "n \<in> set nodes" "sn_ID n = i" "deps_passed nodes s n"
    unfolding just_inv_def by blast
  from base obtain m where m: "m \<in> set nodes" "sn_ID m = i" "e \<in> set (sn_DependsOn m)" by (auto simp: needs_def)
  with n inj have "m = n" by (auto dest: inj_onD)
  with n m show ?case by (simp add: deps_passed_def)
next
  case (step d e)
  from passed_deps [OF assms(1,2) step.IH step.hyps(2)] show ?case .
qed

section \<open>The units of a component\<close>

abbreviation authored_nodes :: "WorkflowStage list \<Rightarrow> GraphNode list" where
  "authored_nodes stages \<equiv> concat (map (stage_nodes (stageDependencies (map bare_stage stages))) stages)"

lemma snap_Nodes_expand:
  "snap_Nodes (snapshotComponents derive stages action) = expandExecutionNodes derive (authored_nodes stages) action"
  by (simp add: snapshotComponents_def Let_def)

lemma authored_node:
  "n \<in> set (authored_nodes stages) \<Longrightarrow> gn_ComponentID n = gn_ID n \<and>
     gn_DependsOn n = deps_of (stageDependencies (map bare_stage stages)) (gn_ID n)"
  by (auto simp: stage_nodes_def componentNode_def)

lemma authored_ids: "gn_ID ` set (authored_nodes stages) = set (row_ids stages)"
  using unit_ids_stage_nodes by (simp add: unit_ids_def)

text \<open>The hypotheses of a run that changes something: rows with distinct ids, and apply ids kept apart.\<close>

definition deploy_ok :: "(uuid \<Rightarrow> uuid) \<Rightarrow> WorkflowStage list \<Rightarrow> string \<Rightarrow> bool" where
  "deploy_ok derive stages action \<longleftrightarrow>
     distinct (row_ids stages) \<and> fresh_derive derive (set (row_ids stages)) \<and> \<not> isReadOnlyAction action"

lemma deploy_okD:
  assumes "deploy_ok derive stages action"
  shows "distinct (row_ids stages)" "fresh_derive derive (set (row_ids stages))"
    "\<not> isReadOnlyAction action" "action \<noteq> ActionDrift"
  using assms by (auto simp: deploy_ok_def isReadOnlyAction_def)

abbreviation stage_edges :: "WorkflowStage list \<Rightarrow> (uuid \<times> uuid) set" where
  "stage_edges stages \<equiv> dep_edges (stageDependencies (map bare_stage stages))"

abbreviation run_units :: "(uuid \<Rightarrow> uuid) \<Rightarrow> WorkflowStage list \<Rightarrow> string \<Rightarrow> GraphNode list" where
  "run_units derive stages action \<equiv> snap_Nodes (snapshotComponents derive stages action)"

abbreviation final_id :: "(uuid \<Rightarrow> uuid) \<Rightarrow> WorkflowStage list \<Rightarrow> string \<Rightarrow> uuid \<Rightarrow> uuid" where
  "final_id derive stages action \<equiv> final_unit derive (authored_nodes stages) action"

definition unit_rel :: "(uuid \<Rightarrow> uuid) \<Rightarrow> WorkflowStage list \<Rightarrow> string \<Rightarrow> (uuid \<times> uuid) set" where
  "unit_rel derive stages action =
     {(a, b). \<exists>u \<in> set (run_units derive stages action). gn_ID u = a \<and> b \<in> set (gn_DependsOn u)}"

abbreviation given_nodes ::
  "(uuid \<Rightarrow> uuid) \<Rightarrow> WorkflowStage list \<Rightarrow> string \<Rightarrow> (uuid \<Rightarrow> bool) \<Rightarrow> schedNode list" where
  "given_nodes derive stages action approved \<equiv> map (sched_node action approved) (run_units derive stages action)"

lemma run_units_iff:
  assumes "deploy_ok derive stages action"
  shows "u \<in> set (run_units derive stages action) \<longleftrightarrow> (\<exists>n \<in> set (authored_nodes stages).
     let deps = map (final_id derive stages action) (gn_DependsOn n) in
     if gn_Type n \<noteq> TypeTerraform then u = n\<lparr>gn_DependsOn := deps\<rparr>
     else u = plan_unit n deps False \<or> u = apply_unit derive n)"
proof -
  have "u \<in> set (expand_node derive (apply_of derive (authored_nodes stages) (isReadOnlyAction action)) action n) \<longleftrightarrow>
     (let deps = map (final_id derive stages action) (gn_DependsOn n) in
       if gn_Type n \<noteq> TypeTerraform then u = n\<lparr>gn_DependsOn := deps\<rparr>
       else u = plan_unit n deps False \<or> u = apply_unit derive n)" for n
    unfolding expand_node_def remap_deps_final using deploy_okD(3,4) [OF assms] by (simp add: Let_def)
  then show ?thesis unfolding snap_Nodes_expand expandExecutionNodes_def by simp
qed

lemma authored_inj: "deploy_ok derive stages action \<Longrightarrow> inj_on gn_ID (set (authored_nodes stages))"
  using ordered_units_distinct [OF ordered_authored] deploy_okD(1) by (metis distinct_map)

lemma first_unit:
  assumes "deploy_ok derive stages action" and "n \<in> set (authored_nodes stages)" and "d \<in> set (gn_DependsOn n)"
  shows "(gn_ID n, final_id derive stages action d) \<in> unit_rel derive stages action"
proof -
  let ?deps = "map (final_id derive stages action) (gn_DependsOn n)"
  let ?u = "if gn_Type n \<noteq> TypeTerraform then n\<lparr>gn_DependsOn := ?deps\<rparr> else plan_unit n ?deps False"
  have "?u \<in> set (run_units derive stages action)"
    unfolding run_units_iff [OF assms(1)] using assms(2) by (intro bexI [of _ n]) (simp_all add: Let_def)
  moreover have "gn_ID ?u = gn_ID n" "gn_DependsOn ?u = ?deps" by (simp_all add: plan_unit_def)
  ultimately show ?thesis unfolding unit_rel_def using assms(3) by fastforce
qed

lemma final_authored:
  assumes "deploy_ok derive stages action" and "n \<in> set (authored_nodes stages)"
  shows "final_id derive stages action (gn_ID n) = (if gn_Type n = TypeTerraform then derive (gn_ID n) else gn_ID n)"
proof -
  have "(\<exists>m\<in>set (authored_nodes stages). gn_Type m = TypeTerraform \<and> gn_ID m = gn_ID n) \<longleftrightarrow> gn_Type n = TypeTerraform"
    using assms(2) inj_onD [OF authored_inj [OF assms(1)]] by metis
  then show ?thesis using deploy_okD(3) [OF assms(1)] by (simp only: final_unit_def apply_of_apply) simp
qed

lemma apply_unit_in:
  assumes "deploy_ok derive stages action" and "n \<in> set (authored_nodes stages)" and "gn_Type n = TypeTerraform"
  shows "apply_unit derive n \<in> set (run_units derive stages action)"
    and "(derive (gn_ID n), gn_ID n) \<in> unit_rel derive stages action"
proof -
  show a: "apply_unit derive n \<in> set (run_units derive stages action)"
    unfolding run_units_iff [OF assms(1)] using assms(2,3) by (intro bexI [of _ n]) (simp_all add: Let_def)
  show "(derive (gn_ID n), gn_ID n) \<in> unit_rel derive stages action"
    unfolding unit_rel_def using a by (force simp: apply_unit_def)
qed

lemma unit_of:
  assumes "deploy_ok derive stages action" and "u \<in> set (run_units derive stages action)"
  obtains n where "n \<in> set (authored_nodes stages)" "gn_ComponentID u = gn_ID n"
    "gn_ID u = gn_ID n \<or> gn_Type n = TypeTerraform \<and> gn_ID u = derive (gn_ID n)"
proof -
  from assms(2) obtain n where n: "n \<in> set (authored_nodes stages)"
    and u: "let deps = map (final_id derive stages action) (gn_DependsOn n) in
     if gn_Type n \<noteq> TypeTerraform then u = n\<lparr>gn_DependsOn := deps\<rparr>
     else u = plan_unit n deps False \<or> u = apply_unit derive n"
    unfolding run_units_iff [OF assms(1)] by blast
  from u authored_node [OF n] show ?thesis
    by (intro that [OF n]) (simp_all add: Let_def plan_unit_def apply_unit_def split: if_splits, auto)
qed

text \<open>An edge between components is a path between their units, ending at either unit of the target.\<close>

lemma edge_path_step:
  assumes ok: "deploy_ok derive stages action" and e: "(a, b) \<in> stage_edges stages"
  shows "(a, b) \<in> (unit_rel derive stages action)\<^sup>+ \<and>
    (a, final_id derive stages action b) \<in> (unit_rel derive stages action)\<^sup>+"
proof -
  from e have "earlier_stage (map bare_stage stages) a b"
    using stageDependencies_trancl [of "map bare_stage stages" a b] deploy_okD(1) [OF ok]
    by (simp add: component_ids_bare r_into_trancl)
  from earlier_stage_in [OF this] have "a \<in> gn_ID ` set (authored_nodes stages)" "b \<in> gn_ID ` set (authored_nodes stages)"
    unfolding component_ids_bare authored_ids by auto
  then obtain n m where n: "n \<in> set (authored_nodes stages)" "gn_ID n = a"
    and m: "m \<in> set (authored_nodes stages)" "gn_ID m = b" by blast
  have "b \<in> set (gn_DependsOn n)" using authored_node [OF n(1)] n(2) e by simp
  from first_unit [OF ok n(1) this] n(2)
  have 1: "(a, final_id derive stages action b) \<in> unit_rel derive stages action" by simp
  have "(final_id derive stages action b, b) \<in> (unit_rel derive stages action)\<^sup>*"
    using apply_unit_in(2) [OF ok m(1)] final_authored [OF ok m(1)] m(2) by (cases "gn_Type m = TypeTerraform") auto
  with 1 show ?thesis by (meson r_into_trancl rtrancl_into_trancl2)
qed

lemma edge_path:
  assumes ok: "deploy_ok derive stages action" and "(x, y) \<in> (stage_edges stages)\<^sup>+"
  shows "(x, y) \<in> (unit_rel derive stages action)\<^sup>+ \<and>
    (x, final_id derive stages action y) \<in> (unit_rel derive stages action)\<^sup>+"
  using assms(2)
proof (induction rule: trancl_induct)
  case (base y)
  then show ?case by (rule edge_path_step [OF ok])
next
  case (step y z)
  from edge_path_step [OF ok step.hyps(2)] step.IH show ?case by (meson trancl_trans)
qed

lemma earlier_unit_reached:
  assumes ok: "deploy_ok derive stages action"
    and u: "u \<in> set (run_units derive stages action)" and v: "v \<in> set (run_units derive stages action)"
    and "earlier_stage (map bare_stage stages) (gn_ComponentID u) (gn_ComponentID v)"
  shows "(gn_ID u, gn_ID v) \<in> (unit_rel derive stages action)\<^sup>+"
proof -
  from unit_of [OF ok u] obtain n where n: "n \<in> set (authored_nodes stages)" "gn_ComponentID u = gn_ID n"
    "gn_ID u = gn_ID n \<or> gn_Type n = TypeTerraform \<and> gn_ID u = derive (gn_ID n)" .
  from unit_of [OF ok v] obtain m where m: "m \<in> set (authored_nodes stages)" "gn_ComponentID v = gn_ID m"
    "gn_ID v = gn_ID m \<or> gn_Type m = TypeTerraform \<and> gn_ID v = derive (gn_ID m)" .
  have "(gn_ID n, gn_ID m) \<in> (stage_edges stages)\<^sup>+"
    using assms(4) n(2) m(2) deploy_okD(1) [OF ok] by (simp add: stageDependencies_trancl component_ids_bare)
  from edge_path [OF ok this] m(3) final_authored [OF ok m(1)]
  have "(gn_ID n, gn_ID v) \<in> (unit_rel derive stages action)\<^sup>+" by metis
  moreover have "(gn_ID u, gn_ID n) \<in> (unit_rel derive stages action)\<^sup>*"
    using n(3) apply_unit_in(2) [OF ok n(1)] by (metis r_into_rtrancl rtrancl.rtrancl_refl)
  ultimately show ?thesis by (meson rtrancl_trancl_trancl)
qed

section \<open>The scheduler on a snapshot\<close>

lemma needs_units:
  "deploy_ok derive stages action \<Longrightarrow>
     needs (given_nodes derive stages action approved) = unit_rel derive stages action"
  using deploy_okD(3) by (fastforce simp: needs_def unit_rel_def sched_node_def)

lemma given_schedulable: "deploy_ok derive stages action \<Longrightarrow> schedulable (given_nodes derive stages action approved)"
  using snapshot_schedulable deploy_okD(1,2) by blast

lemma earlier_unit_passed:
  assumes ok: "deploy_ok derive stages action"
    and "sched_reach (given_nodes derive stages action approved) c s"
    and "u \<in> set (run_units derive stages action)" and "v \<in> set (run_units derive stages action)"
    and "(gn_ID u, Running) \<in> set (sc_emitted s)"
    and "earlier_stage (map bare_stage stages) (gn_ComponentID u) (gn_ComponentID v)"
  shows "depPassed (given_nodes derive stages action approved) (sc_results s) (gn_ID v)"
  using sched_inv_reach [OF assms(2)] earlier_unit_reached [OF ok assms(3,4,6)] needs_units [OF ok]
  by (intro ran_behind [OF _ given_schedulable [OF ok] assms(5)]) (simp_all add: sched_inv_def)

lemma given_distinct:
  assumes "deploy_ok derive stages action"
  shows "inj_on gn_ID (set (run_units derive stages action))"
proof -
  have "ordered_units {} (run_units derive stages action)"
    unfolding snap_Nodes_expand using deploy_okD [OF assms]
    by (intro expand_ordered ordered_authored) (simp_all add: unit_ids_stage_nodes)
  from ordered_units_distinct [OF this] show ?thesis by (simp add: distinct_map)
qed

lemma contOnFail_in: "contOnFail nodes i \<Longrightarrow> \<exists>n \<in> set nodes. sn_ID n = i \<and> sn_ContinueOnFailure n"
proof -
  have "fold (\<lambda>n m. m(sn_ID n := sn_ContinueOnFailure n)) nodes m i \<Longrightarrow>
      m i \<or> (\<exists>n \<in> set nodes. sn_ID n = i \<and> sn_ContinueOnFailure n)" for m
    by (induction nodes arbitrary: m) (fastforce split: if_splits)+
  from this [of "\<lambda>_. False"] show "contOnFail nodes i \<Longrightarrow> ?thesis" by (simp add: contOnFail_def)
qed

lemma applied_plan:
  assumes ok: "deploy_ok derive stages action"
    and "sched_reach (given_nodes derive stages action approved) c s"
    and n: "n \<in> set (authored_nodes stages)" "gn_Type n = TypeTerraform"
    and "(derive (gn_ID n), Running) \<in> set (sc_emitted s)"
  shows "sc_results s (gn_ID n) = Some Succeeded \<and> (gn_RequiresApproval n \<longrightarrow> approved (derive (gn_ID n)))"
proof -
  let ?ns = "given_nodes derive stages action approved"
  let ?p = "plan_unit n (map (final_id derive stages action) (gn_DependsOn n)) False" and ?a = "apply_unit derive n"
  have j: "just_inv ?ns s" using sched_inv_reach [OF assms(2)] by (simp add: sched_inv_def)
  note inj = inj_onD [OF given_distinct [OF ok]]
  have p: "?p \<in> set (run_units derive stages action)"
    unfolding run_units_iff [OF ok] using n by (intro bexI [of _ n]) (simp_all add: Let_def)
  have "\<not> contOnFail ?ns (gn_ID n)"
  proof
    assume "contOnFail ?ns (gn_ID n)"
    from contOnFail_in [OF this] obtain w where w: "w \<in> set (run_units derive stages action)"
      "gn_ID w = gn_ID n" "gn_ContinueOnFailure w" by (auto simp: sched_node_def)
    with inj [OF _ w(1) p] have "w = ?p" by (simp add: plan_unit_def)
    with w(3) show False by (simp add: plan_unit_def)
  qed
  moreover have "depPassed ?ns (sc_results s) (gn_ID n)"
    using apply_unit_in(2) [OF ok n] needs_units [OF ok]
    by (intro ran_behind [OF j given_schedulable [OF ok] assms(5)]) auto
  ultimately have "sc_results s (gn_ID n) = Some Succeeded"
    by (auto simp: depPassed_def split: option.splits sched_status.splits)
  moreover from j assms(5) obtain m where "m \<in> set ?ns" "sn_ID m = derive (gn_ID n)" "\<not> gated m"
    unfolding just_inv_def by blast
  then obtain w where w: "w \<in> set (run_units derive stages action)"
      "gn_ID w = derive (gn_ID n)" "\<not> gated (sched_node action approved w)"
    by (auto simp: sched_node_def)
  from inj [OF _ w(1) apply_unit_in(1) [OF ok n]] w(2) have "w = ?a" by (simp add: apply_unit_def)
  with w(3) deploy_okD(3) [OF ok] have "gn_RequiresApproval n \<longrightarrow> approved (derive (gn_ID n))"
    by (auto simp: sched_node_def apply_unit_def)
  ultimately show ?thesis ..
qed

end
