(* ===== verification/Snapshot_Claims.thy ===== *)
theory Snapshot_Claims
  imports Snapshot_Barrier Scheduler_Claims
begin

text \<open>
  Properties of run snapshots and of the scheduler on them, with a workflow that instantiates them:
  an OpenTofu component behind an approval gate, an empty stage, a Helm component.
\<close>

section \<open>A concrete workflow\<close>

definition demo_component :: "uuid \<Rightarrow> string \<Rightarrow> string \<Rightarrow> bool \<Rightarrow> Component" where
  "demo_component i name ty gate =
     \<lparr>co_ID = i, co_OrganizationID = 50, co_ApplicationID = 51, co_StageID = 10, co_Ordinal = 0,
      co_Name = name, co_Type = ty, co_Config = Map.empty, co_ContinueOnFailure = False,
      co_RequiresApproval = gate, co_ApprovalPolicy = zero_policy, co_TargetClusterID = 0,
      co_TargetNamespace = [], co_ChartCredentialID = 0, co_GithubInstallationID = 0\<rparr>"

definition demo_stages :: "WorkflowStage list" where
  "demo_stages =
     [\<lparr>ws_ID = 10, ws_Name = ''infra'', ws_Components = [demo_component 1 ''net'' TypeTerraform True]\<rparr>,
      \<lparr>ws_ID = 11, ws_Name = ''later'', ws_Components = []\<rparr>,
      \<lparr>ws_ID = 12, ws_Name = ''apps'', ws_Components = [demo_component 2 ''web'' TypeHelm False]\<rparr>]"

definition demo_derive :: "uuid \<Rightarrow> uuid" where
  "demo_derive i = i + 100"

definition demo_given :: "schedNode list" where
  "demo_given = given_nodes demo_derive demo_stages ActionDeploy (\<lambda>_. True)"

lemma demo_given: "demo_given =
   [\<lparr>sn_ID = 1, sn_DependsOn = [], sn_ContinueOnFailure = False, sn_RequiresApproval = False, sn_Approved = True\<rparr>,
    \<lparr>sn_ID = 101, sn_DependsOn = [1], sn_ContinueOnFailure = False, sn_RequiresApproval = True, sn_Approved = True\<rparr>,
    \<lparr>sn_ID = 2, sn_DependsOn = [101], sn_ContinueOnFailure = False, sn_RequiresApproval = False, sn_Approved = True\<rparr>]"
  by code_simp

lemma demo_deploy_ok: "deploy_ok demo_derive demo_stages ActionDeploy"
  by (simp add: deploy_ok_def demo_stages_def row_ids_def demo_component_def fresh_derive_def demo_derive_def
      isReadOnlyAction_def)

definition demo_unit_events :: "sched_event list" where
  "demo_unit_events = [Acquire 1, Finish 1 demo_ok, Receive 1, Acquire 101, Finish 101 demo_ok, Receive 101, Acquire 2]"

definition demo_deployed :: sched where
  "demo_deployed = the (sched_exec demo_given 2 demo_unit_events (schedule_init demo_given))"

lemma demo_deployed_reach: "sched_reach demo_given 2 demo_deployed"
proof -
  have "sched_exec demo_given 2 demo_unit_events (schedule_init demo_given) \<noteq> None"
    unfolding demo_given by (simp only: Option.is_none_def [symmetric]) code_simp
  then have "sched_exec demo_given 2 demo_unit_events (schedule_init demo_given) = Some demo_deployed"
    by (auto simp: demo_deployed_def)
  from exec_reach [OF sched_reach.start this] show ?thesis .
qed

lemma demo_deployed_facts: "(2, Running) \<in> set (sc_emitted demo_deployed)" "(101, Running) \<in> set (sc_emitted demo_deployed)"
  unfolding demo_deployed_def demo_given by code_simp+

section \<open>Properties\<close>

text \<open>
  C1: the stage barrier, from the rows of a workflow to the scheduler's transitions. In a run that
  changes something, whenever a unit of a component is reported as running, every unit of every
  component of an earlier stage has passed: it succeeded, or it failed and its failure is allowed.
  This holds under any interleaving, across empty stages and through the plan and apply units an
  OpenTofu component is expanded into.
\<close>

theorem stage_barrier:
  assumes "distinct (row_ids stages)" and "fresh_derive derive (set (row_ids stages))"
    and "\<not> isReadOnlyAction action"
    and "units = snap_Nodes (snapshotComponents derive stages action)"
    and "sched_reach (map (sched_node action approved) units) c s"
    and "u \<in> set units" and "(gn_ID u, Running) \<in> set (sc_emitted s)"
    and "v \<in> set units" and "earlier_stage (map bare_stage stages) (gn_ComponentID u) (gn_ComponentID v)"
  shows "sc_results s (gn_ID v) = Some Succeeded \<or>
    sc_results s (gn_ID v) = Some Failed \<and> (\<exists>w \<in> set units. gn_ID w = gn_ID v \<and> gn_ContinueOnFailure w)"
proof -
  have ok: "deploy_ok derive stages action" using assms(1-3) by (simp add: deploy_ok_def)
  from earlier_unit_passed [OF ok, of approved c s u v] assms
  have "depPassed (map (sched_node action approved) units) (sc_results s) (gn_ID v)" by simp
  moreover have "\<exists>w \<in> set units. gn_ID w = gn_ID v \<and> gn_ContinueOnFailure w"
    if cof: "contOnFail (map (sched_node action approved) units) (gn_ID v)"
  proof -
    from contOnFail_in [OF cof] obtain w where "w \<in> set units" "sn_ID (sched_node action approved w) = gn_ID v"
      "sn_ContinueOnFailure (sched_node action approved w)" by auto
    then show ?thesis by (intro bexI [of _ w]) (simp_all add: sched_node_def)
  qed
  ultimately show ?thesis by (auto simp: depPassed_def split: option.splits sched_status.splits)
qed

theorem stage_barrier_witness:
  "sc_results demo_deployed 101 = Some Succeeded \<or> sc_results demo_deployed 101 = Some Failed"
proof -
  let ?units = "snap_Nodes (snapshotComponents demo_derive demo_stages ActionDeploy)"
  have "2 \<in> gn_ID ` {u \<in> set ?units. gn_ComponentID u = 2}" "101 \<in> gn_ID ` {u \<in> set ?units. gn_ComponentID u = 1}"
    by code_simp+
  then obtain u v where u: "u \<in> set ?units" "gn_ID u = 2" "gn_ComponentID u = 2"
    and v: "v \<in> set ?units" "gn_ID v = 101" "gn_ComponentID v = 1" by auto
  have e: "earlier_stage (map bare_stage demo_stages) 2 1"
    unfolding earlier_stage_def
    by (intro exI [of _ 0] exI [of _ 2]) (simp add: demo_stages_def demo_component_def)
  note ok = demo_deploy_ok [unfolded deploy_ok_def]
  from stage_barrier [of demo_stages demo_derive ActionDeploy ?units "\<lambda>_. True" 2 demo_deployed u v]
    ok demo_deployed_reach [unfolded demo_given_def] u v e demo_deployed_facts(1)
  show ?thesis by auto
qed

text \<open>
  C2: what is applied was planned and approved. Whenever the apply unit of an OpenTofu component is
  reported as running, the plan unit of that component has succeeded (a failed plan never passes,
  whatever the component allows), and if the component requires approval the apply unit has it.
\<close>

theorem apply_follows_plan:
  assumes "distinct (row_ids stages)" and "fresh_derive derive (set (row_ids stages))"
    and "\<not> isReadOnlyAction action"
    and "sched_reach (map (sched_node action approved) (snap_Nodes (snapshotComponents derive stages action))) c s"
    and "st \<in> set stages" and "co \<in> set (ws_Components st)" and "co_Type co = TypeTerraform"
    and "(derive (co_ID co), Running) \<in> set (sc_emitted s)"
  shows "sc_results s (co_ID co) = Some Succeeded \<and> (co_RequiresApproval co \<longrightarrow> approved (derive (co_ID co)))"
proof -
  have ok: "deploy_ok derive stages action" using assms(1-3) by (simp add: deploy_ok_def)
  let ?deps = "stageDependencies (map bare_stage stages)"
  let ?n = "(componentNode co (ws_ID st))\<lparr>gn_DependsOn := deps_of ?deps (co_ID co)\<rparr>"
  have "?n \<in> set (stage_nodes ?deps st)" unfolding stage_nodes_def using assms(6) by simp
  then have n: "?n \<in> set (authored_nodes stages)" using assms(5) by auto
  have ty: "gn_Type ?n = TypeTerraform" using assms(7) by (simp add: componentNode_def)
  have f: "gn_ID ?n = co_ID co" "gn_RequiresApproval ?n = co_RequiresApproval co" by (simp_all add: componentNode_def)
  from applied_plan [OF ok assms(4) n ty, unfolded f] assms(8) show ?thesis by simp
qed

theorem apply_follows_plan_witness: "sc_results demo_deployed 1 = Some Succeeded"
proof -
  let ?st = "demo_stages ! 0" and ?co = "demo_component 1 ''net'' TypeTerraform True"
  have m: "?st \<in> set demo_stages" "?co \<in> set (ws_Components ?st)" "co_Type ?co = TypeTerraform" "co_ID ?co = 1"
    by (simp_all add: demo_stages_def demo_component_def)
  note ok = demo_deploy_ok [unfolded deploy_ok_def]
  from apply_follows_plan [of demo_stages demo_derive ActionDeploy "\<lambda>_. True" 2 demo_deployed ?st ?co]
    ok demo_deployed_reach [unfolded demo_given_def] m demo_deployed_facts(2)
  show ?thesis by (simp add: demo_derive_def)
qed



text \<open>
  A plan without changes completes its own apply and nothing else. The ids a settled step hands
  to the scheduler as completed name only the apply unit that depends on that very plan unit, only in
  a deploy or an uninstall, and only when the last verdict marker of the log says the plan has no
  changes and the parsed plan agrees.
\<close>

lemma completes_only_own_apply:
  assumes "distinct (map gn_ID nodes)" and "node \<in> set nodes" and "gn_ID node \<noteq> uuid_Nil"
    and "i \<in> set (noChangeCompletes derive action node logs (by_id nodes))"
  shows "i = derive (gn_ID node) \<and> (action = ActionDeploy \<or> action = ActionUninstall) \<and> is_plan_unit node \<and>
    (\<exists>ap \<in> set nodes. gn_ID ap = i \<and> gn_ID node \<in> set (gn_DependsOn ap) \<and> cfg (gn_Config ap) ''command'' = CommandApply) \<and>
    PlanVerdict logs = (False, True) \<and> \<not> pl_HasChanges (ParsePlan logs)"
proof -
  from assms(4) obtain ap where ap: "by_id nodes (derive (gn_ID node)) = Some ap" "i = gn_ID ap"
    "action = ActionDeploy \<or> action = ActionUninstall" "is_plan_unit node"
    "cfg (gn_Config ap) ''command'' = CommandApply" "upstreamTofuPlanID ap (by_id nodes) = gn_ID node"
    "PlanVerdict logs = (False, True)" "\<not> pl_HasChanges (ParsePlan logs)" by (rule noChangeCompletes_elim)
  from ap(1) by_id_Some [OF assms(1)] have "ap \<in> set nodes" "gn_ID ap = derive (gn_ID node)" by auto
  with ap upstream_plan [OF assms(1) ap(6) assms(3)] show ?thesis by auto
qed

definition demo_no_changes :: string where
  "demo_no_changes = ''No changes. Your infrastructure matches the configuration.'' @ [CHR 0x0A] @
     PlanChangesPrefix @ ''false''"

lemma completes_only_own_apply_example:
  "noChangeCompletes demo_derive ActionDeploy (hd (run_units demo_derive demo_stages ActionDeploy))
     demo_no_changes (by_id (run_units demo_derive demo_stages ActionDeploy)) = [101] \<and>
   PlanVerdict demo_no_changes = (False, True)"
proof -
  let ?units = "run_units demo_derive demo_stages ActionDeploy"
  have c: "noChangeCompletes demo_derive ActionDeploy (hd ?units) demo_no_changes (by_id ?units) = [101]" by code_simp
  moreover have "distinct (map gn_ID ?units)" "length ?units = 3" "gn_ID (hd ?units) \<noteq> uuid_Nil" by code_simp+
  moreover from this(2) have "hd ?units \<in> set ?units" by (intro hd_in_set) auto
  moreover have "101 \<in> set (noChangeCompletes demo_derive ActionDeploy (hd ?units) demo_no_changes (by_id ?units))"
    unfolding c by simp
  ultimately show ?thesis using completes_only_own_apply [of ?units "hd ?units" 101 demo_derive ActionDeploy demo_no_changes]
    by blast
qed




end
