(* ===== verification/Validate_Claims.thy ===== *)
theory Validate_Claims
  imports Validate_Props
begin

text \<open>Properties of the validation a save runs, with a workflow that instantiates them.\<close>


text \<open>
  The ancestors of a component, which the reference check collects with a worklist over the
  desugared edges, are exactly the components of earlier stages, across empty stages.
\<close>

lemma ancestors_are_earlier_stages:
  assumes "distinct (component_ids stages)"
  shows "y \<in> transitiveDeps (stageDependencies stages) x \<longleftrightarrow> earlier_stage stages x y"
  by (simp add: transitiveDeps_trancl stageDependencies_trancl [OF assms])

definition three_stages :: "StageInput list" where
  "three_stages =
     (let c = (\<lambda>i. \<lparr>ci_ID = i, ci_Name = ''c'', ci_Type = TypeHelm, ci_Config = Map.empty,
           ci_ContinueOnFailure = False, ci_RequiresApproval = False, ci_ApprovalPolicy = zero_policy,
           ci_TargetClusterID = None, ci_TargetNamespace = [], ci_ChartCredentialID = None,
           ci_GitHubInstallationID = None\<rparr>)
      in [\<lparr>si_ID = 10, si_Name = ''a'', si_Components = [c 1, c 2]\<rparr>, \<lparr>si_ID = 11, si_Name = ''b'', si_Components = []\<rparr>,
          \<lparr>si_ID = 12, si_Name = ''c'', si_Components = [c 3]\<rparr>, \<lparr>si_ID = 13, si_Name = ''d'', si_Components = [c 4]\<rparr>])"

lemma ancestors_are_earlier_stages_example:
  "2 \<in> transitiveDeps (stageDependencies three_stages) 4 \<and> earlier_stage three_stages 4 2 \<and>
   \<not> earlier_stage three_stages 1 2"
proof -
  have d: "distinct (component_ids three_stages)"
    by (simp add: three_stages_def component_ids_def stage_ids_def Let_def)
  have "2 \<in> transitiveDeps (stageDependencies three_stages) 4"
    "2 \<notin> transitiveDeps (stageDependencies three_stages) 1" by code_simp+
  with ancestors_are_earlier_stages [OF d, of 2 4] ancestors_are_earlier_stages [OF d, of 2 1] show ?thesis by blast
qed

end
