(* ===== verification/Shell.thy ===== *)
theory Shell
  imports GoStrings
begin

text \<open>
  The quoting and cloning helpers that the script renderers of \<open>lib/tofu\<close>, \<open>lib/helm\<close> and
  \<open>lib/manifest\<close> share as identical copies, and the reading of a script by a POSIX shell, as far as
  quoting is concerned.
\<close>

section \<open>Rendering\<close>

definition squote :: char where
  "squote = CHR 0x27"

definition dquote :: char where
  "dquote = CHR 0x22"

definition bslash :: char where
  "bslash = CHR 0x5C"

text \<open>\<open>strings.ReplaceAll(s, "'", `'\''`)\<close>: each single quote becomes four characters.\<close>

fun escape_squotes :: "string \<Rightarrow> string" where
  "escape_squotes [] = []"
| "escape_squotes (c # cs) =
     (if c = squote then [squote, bslash, squote, squote] @ escape_squotes cs else c # escape_squotes cs)"

definition shQuote :: "string \<Rightarrow> string" where
  "shQuote s = [squote] @ escape_squotes s @ [squote]"

definition hasTraversal :: "string \<Rightarrow> bool" where
  "hasTraversal p =
     (''..'' \<in> set (split_on CHR ''/'' (map (\<lambda>c. if c = bslash then CHR ''/'' else c) p)))"

definition isCommitSHA :: "string \<Rightarrow> bool" where
  "isCommitSHA ref \<longleftrightarrow>
     (length ref = 40 \<or> length ref = 64) \<and> list_all (\<lambda>c. c \<in> set ''0123456789abcdefABCDEF'') ref"

definition gitClone :: "string \<Rightarrow> string \<Rightarrow> string \<Rightarrow> string" where
  "gitClone repo ref dir =
     (if ref = [] then ''git clone --depth 1 '' @ shQuote repo @ '' '' @ dir @ [newline]
      else if isCommitSHA ref then
        ''git init -q '' @ dir @ [newline] @
        ''git -C '' @ dir @ '' fetch -q --depth 1 '' @ shQuote repo @ '' '' @ shQuote ref @ [newline] @
        ''git -C '' @ dir @ '' checkout -q --detach FETCH_HEAD'' @ [newline]
      else ''git clone --depth 1 --branch '' @ shQuote ref @ '' '' @ shQuote repo @ '' '' @ dir @ [newline])"

text \<open>A line of a script.\<close>

definition ln :: "string \<Rightarrow> string" where
  "ln s = s @ [newline]"

definition CredsMountPath :: string where
  "CredsMountPath = ''/workspace/creds''"

definition JobsNamespace :: string where
  "JobsNamespace = ''spacefleet-jobs''"

definition GitCredentialHelper :: "string \<Rightarrow> string" where
  "GitCredentialHelper file =
     ''!f() { if [ '' @ [dquote] @ ''$1'' @ [dquote] @ '' = get ]; then git credential-store --file='' @ file @
     '' get; fi; }; f''"

section \<open>The shell's reading\<close>

text \<open>
  The characters a shell interprets: everything outside single quotes that is not escaped by a
  backslash. Double-quoted text counts as interpreted, since expansions happen in it.
\<close>

datatype quoting = Bare | Escaped | Single | Double | DoubleEscaped

fun quote_step :: "quoting \<Rightarrow> char \<Rightarrow> quoting" where
  "quote_step Bare c =
     (if c = squote then Single else if c = dquote then Double else if c = bslash then Escaped else Bare)"
| "quote_step Escaped c = Bare"
| "quote_step Single c = (if c = squote then Bare else Single)"
| "quote_step Double c = (if c = dquote then Bare else if c = bslash then DoubleEscaped else Double)"
| "quote_step DoubleEscaped c = Double"

fun interpreted :: "quoting \<Rightarrow> string \<Rightarrow> string" where
  "interpreted q [] = []"
| "interpreted q (c # cs) =
     (if (q = Bare \<and> c \<noteq> squote \<and> c \<noteq> bslash) \<or> (q = Double \<and> c \<noteq> bslash)
      then c # interpreted (quote_step q c) cs else interpreted (quote_step q c) cs)"

definition quote_state :: "quoting \<Rightarrow> string \<Rightarrow> quoting" where
  "quote_state = foldl quote_step"

lemma quote_state_simps [simp]:
  "quote_state q [] = q"
  "quote_state q (c # cs) = quote_state (quote_step q c) cs"
  "quote_state q (a @ b) = quote_state (quote_state q a) b"
  by (simp_all add: quote_state_def)

lemma interpreted_append: "interpreted q (a @ b) = interpreted q a @ interpreted (quote_state q a) b"
  by (induction a arbitrary: q) auto

lemma quote_chars [simp]:
  "squote \<noteq> dquote" "squote \<noteq> bslash" "dquote \<noteq> bslash" "bslash \<noteq> squote" "bslash \<noteq> dquote" "dquote \<noteq> squote"
  by (simp_all add: squote_def dquote_def bslash_def)

text \<open>Quoted text is never interpreted, whatever it is, and leaves the shell where it was.\<close>

lemma escape_squotes_single [simp]:
  "interpreted Single (escape_squotes s @ [squote]) = []"
  "quote_state Single (escape_squotes s @ [squote]) = Bare"
  by (induction s) auto

lemma shQuote_interpreted [simp]: "interpreted Bare (shQuote s) = []"
  using escape_squotes_single(1) [of s] by (simp add: shQuote_def)

lemma shQuote_state [simp]: "quote_state Bare (shQuote s) = Bare"
  using escape_squotes_single(2) [of s] by (simp add: shQuote_def)

text \<open>
  Splitting a simple command into words, as a shell does it; \<open>None\<close> for anything beyond plain and
  quoted words.
\<close>

definition plain_char :: "char \<Rightarrow> bool" where
  "plain_char c \<longleftrightarrow> is_lower c \<or> is_upper c \<or> is_digit c \<or> c \<in> set ''-_./:=,@+''"

fun sh_words :: "quoting \<Rightarrow> string \<Rightarrow> bool \<Rightarrow> string \<Rightarrow> string list option" where
  "sh_words Bare w started [] = Some (if started then [w] else [])"
| "sh_words q w started [] = None"
| "sh_words Bare w started (c # cs) =
     (if c = CHR '' '' then
        (if started then map_option (Cons w) (sh_words Bare [] False cs) else sh_words Bare [] False cs)
      else if c = squote then sh_words Single w True cs
      else if c = bslash then sh_words Escaped w True cs
      else if plain_char c then sh_words Bare (w @ [c]) True cs
      else None)"
| "sh_words Single w started (c # cs) =
     (if c = squote then sh_words Bare w True cs else sh_words Single (w @ [c]) True cs)"
| "sh_words Escaped w started (c # cs) = sh_words Bare (w @ [c]) True cs"
| "sh_words q w started (c # cs) = None"

abbreviation shell_split :: "string \<Rightarrow> string list option" where
  "shell_split \<equiv> sh_words Bare [] False"

lemma not_space [simp]: "squote \<noteq> CHR '' ''" "bslash \<noteq> CHR '' ''" "dquote \<noteq> CHR '' ''"
  by (simp_all add: squote_def bslash_def dquote_def)

lemma sh_words_escape:
  "sh_words Single w True (escape_squotes s @ squote # rest) = sh_words Bare (w @ s) True rest"
  by (induction s arbitrary: w) auto

lemma sh_words_shQuote [simp]: "sh_words Bare w started (shQuote s @ rest) = sh_words Bare (w @ s) True rest"
  by (simp add: shQuote_def sh_words_escape)

lemma sh_words_quoted_tail:
  "sh_words Bare w True (concat (map (\<lambda>t. '' '' @ shQuote t) ts)) = Some (w # ts)"
proof (induction ts arbitrary: w)
  case (Cons t ts)
  have "sh_words Bare [] False (shQuote t @ concat (map (\<lambda>t. '' '' @ shQuote t) ts)) = Some (t # ts)"
    using Cons.IH [of t] by simp
  then show ?case by simp
qed simp

lemma sh_words_plain:
  "list_all plain_char s \<Longrightarrow> s \<noteq> [] \<or> started \<Longrightarrow> sh_words Bare w started (s @ rest) = sh_words Bare (w @ s) True rest"
proof (induction s arbitrary: w started)
  case (Cons c s)
  then have "c \<noteq> CHR '' ''" "c \<noteq> squote" "c \<noteq> bslash"
    by (auto simp: plain_char_def squote_def bslash_def is_lower_def is_upper_def is_digit_def)
  with Cons show ?case by simp
qed auto

end
