(* ===== verification/TofuStateOp.thy ===== *)
theory TofuStateOp
  imports Shell
begin

text \<open>
  The typed menu of state operations (\<open>lib/tofu/stateop.go\<close>) and the target list of a scoped run
  (\<open>lib/tofu/target.go\<close>).
\<close>

section \<open>State operations\<close>

record StateOp =
  so_Operation :: string
  so_Address :: string
  so_NewAddress :: string
  so_LockID :: string
  so_ImportID :: string

abbreviation "StateOpForceUnlock \<equiv> ''force_unlock''"
abbreviation "StateOpRemove \<equiv> ''rm''"
abbreviation "StateOpMove \<equiv> ''mv''"
abbreviation "StateOpImport \<equiv> ''import''"

datatype stateop_error =
    OperationRequired
  | UnknownOperation
  | FieldRequired string
  | FieldTooLong string
  | FieldWhitespace string
  | FieldNotApplicable string
  | SameAddress

definition whitespace_chars :: "char list" where
  "whitespace_chars = [CHR '' '', CHR 0x09, CHR 0x0D, CHR 0x0A]"

definition check_field :: "string \<Rightarrow> string \<Rightarrow> stateop_error option" where
  "check_field name v =
     (if v = [] then Some (FieldRequired name)
      else if length v > 1024 then Some (FieldTooLong name)
      else if contains_any whitespace_chars v then Some (FieldWhitespace name)
      else None)"

text \<open>The fields an operation requires and those it must not carry.\<close>

definition op_fields :: "StateOp \<Rightarrow> ((string \<times> string) list \<times> (string \<times> string) list) option" where
  "op_fields op =
     (let addr = (''address'', so_Address op); new = (''new_address'', so_NewAddress op);
          lock = (''lock_id'', so_LockID op); imp = (''import_id'', so_ImportID op)
      in if so_Operation op = StateOpForceUnlock then Some ([lock], [addr, new, imp])
         else if so_Operation op = StateOpRemove then Some ([addr], [new, lock, imp])
         else if so_Operation op = StateOpMove then Some ([addr, new], [lock, imp])
         else if so_Operation op = StateOpImport then Some ([addr, imp], [new, lock])
         else None)"

fun check_fields :: "(string \<times> string) list \<Rightarrow> stateop_error option" where
  "check_fields [] = None"
| "check_fields (f # fs) = (case check_field (fst f) (snd f) of None \<Rightarrow> check_fields fs | Some e \<Rightarrow> Some e)"

definition StateOp_Validate :: "StateOp \<Rightarrow> stateop_error option" where
  "StateOp_Validate op =
     (case op_fields op of
        None \<Rightarrow> Some (if so_Operation op = [] then OperationRequired else UnknownOperation)
      | Some (required, unused) \<Rightarrow>
          (case check_fields required of
             Some e \<Rightarrow> Some e
           | None \<Rightarrow>
               (case find (\<lambda>f. snd f \<noteq> []) unused of
                  Some f \<Rightarrow> Some (FieldNotApplicable (fst f))
                | None \<Rightarrow>
                    if so_Operation op = StateOpMove \<and> so_Address op = so_NewAddress op then Some SameAddress
                    else None)))"

definition StateOp_Label :: "StateOp \<Rightarrow> string" where
  "StateOp_Label op =
     (if so_Operation op = StateOpForceUnlock then ''force-unlock''
      else if so_Operation op = StateOpRemove then ''state rm''
      else if so_Operation op = StateOpMove then ''state mv''
      else if so_Operation op = StateOpImport then ''import''
      else so_Operation op)"

fun ImportFlags :: "string list \<Rightarrow> string list" where
  "ImportFlags [] = []"
| "ImportFlags [f] = (if prefix ''-var='' f \<or> prefix ''-var-file='' f then [f] else [])"
| "ImportFlags (f # g # fs) =
     (if prefix ''-var='' f \<or> prefix ''-var-file='' f then f # ImportFlags (g # fs)
      else if f = ''-var'' \<or> f = ''-var-file'' then f # g # ImportFlags fs
      else ImportFlags (g # fs))"

definition StateOp_argv :: "StateOp \<Rightarrow> string list \<Rightarrow> string list" where
  "StateOp_argv op importFlags =
     (if so_Operation op = StateOpForceUnlock then [''tofu'', ''force-unlock'', ''-force'', so_LockID op]
      else if so_Operation op = StateOpRemove then [''tofu'', ''state'', ''rm'', so_Address op]
      else if so_Operation op = StateOpMove then [''tofu'', ''state'', ''mv'', so_Address op, so_NewAddress op]
      else if so_Operation op = StateOpImport then
        [''tofu'', ''import'', ''-input=false'', ''-no-color''] @ importFlags @ [so_Address op, so_ImportID op]
      else [])"

definition needsQuote :: "string \<Rightarrow> bool" where
  "needsQuote s \<longleftrightarrow>
     s = [] \<or>
     \<not> list_all (\<lambda>r. is_lower r \<or> is_upper r \<or> is_digit r \<or> r \<in> set (''-_./:=,[]'' @ [dquote] @ ''@+~'')) s"

definition StateOp_Command :: "StateOp \<Rightarrow> string list \<Rightarrow> string" where
  "StateOp_Command op planFlags =
     str_join '' '' (map (\<lambda>t. if needsQuote t then shQuote t else t) (StateOp_argv op (ImportFlags planFlags)))"

section \<open>Targets\<close>

datatype target_error = TooManyTargets | EmptyTarget | TargetTooLong | NotAnAddress | DuplicateTarget

text \<open>
  The address pattern: dot-separated segments, each an identifier with an optional index, an integer or
  a double-quoted key without quotes and backslashes.
\<close>

definition seg_char :: "char \<Rightarrow> bool" where
  "seg_char c \<longleftrightarrow> is_lower c \<or> is_upper c \<or> is_digit c \<or> c = CHR ''_'' \<or> c = CHR ''-''"

definition seg_start :: "char \<Rightarrow> bool" where
  "seg_start c \<longleftrightarrow> is_lower c \<or> is_upper c \<or> c = CHR ''_''"

text \<open>After \<open>[\<close>: the index and the closing bracket; \<open>None\<close> when they are not there.\<close>

definition index_rest :: "string \<Rightarrow> string option" where
  "index_rest s =
     (case s of
        [] \<Rightarrow> None
      | c # cs \<Rightarrow>
          if c = dquote then
            (case dropWhile (\<lambda>d. d \<noteq> dquote \<and> d \<noteq> bslash) cs of
               q # b # r \<Rightarrow> if q = dquote \<and> b = CHR '']'' then Some r else None
             | _ \<Rightarrow> None)
          else if is_digit c then
            (case dropWhile is_digit s of b # r \<Rightarrow> if b = CHR '']'' then Some r else None | [] \<Rightarrow> None)
          else None)"

lemma index_rest_shorter: "index_rest s = Some r \<Longrightarrow> length r < length s"
proof -
  assume i: "index_rest s = Some r"
  then obtain c cs where s: "s = c # cs" by (cases s) (auto simp: index_rest_def)
  have "length (dropWhile (\<lambda>d. d \<noteq> dquote \<and> d \<noteq> bslash) cs) \<le> length cs"
    "length (dropWhile is_digit s) \<le> length s" by (rule length_dropWhile_le)+
  with i s show ?thesis by (auto simp: index_rest_def split: list.splits if_splits)
qed

text \<open>The rest after one segment: identifier characters, then an index when a bracket follows.\<close>

definition segment_rest :: "string \<Rightarrow> string option" where
  "segment_rest s =
     (case s of
        [] \<Rightarrow> None
      | c # cs \<Rightarrow>
          if \<not> seg_start c then None
          else case dropWhile seg_char cs of
            [] \<Rightarrow> Some []
          | b # r \<Rightarrow> if b = CHR ''['' then index_rest r else Some (b # r))"

lemma segment_rest_shorter: "segment_rest s = Some r \<Longrightarrow> length r < length s"
proof -
  assume i: "segment_rest s = Some r"
  then obtain c cs where s: "s = c # cs" by (cases s) (auto simp: segment_rest_def)
  define d where "d = dropWhile seg_char cs"
  have "length d \<le> length cs" unfolding d_def by (rule length_dropWhile_le)
  moreover from i have "r = [] \<or> r = d \<or> (\<exists>b d'. d = b # d' \<and> index_rest d' = Some r)"
    unfolding s segment_rest_def list.case d_def [symmetric] by (cases d) (auto split: if_splits)
  ultimately show ?thesis unfolding s by (auto dest: index_rest_shorter)
qed

function targetAddress_match :: "string \<Rightarrow> bool" where
  "targetAddress_match s =
     (case segment_rest s of
        None \<Rightarrow> False
      | Some r \<Rightarrow>
          (case r of
             [] \<Rightarrow> True
           | d # ds \<Rightarrow> d = CHR ''.'' \<and> targetAddress_match ds))"
  by pat_completeness auto
termination
  by (relation "measure length") (auto dest: segment_rest_shorter)

declare targetAddress_match.simps [simp del]

fun target_faults :: "string set \<Rightarrow> string list \<Rightarrow> target_error option" where
  "target_faults seen [] = None"
| "target_faults seen (t # ts) =
     (if t = [] then Some EmptyTarget
      else if length t > 1024 then Some TargetTooLong
      else if \<not> targetAddress_match t \<or> CHR ''.'' \<notin> set t then Some NotAnAddress
      else if t \<in> seen then Some DuplicateTarget
      else target_faults (insert t seen) ts)"

definition ValidateTargets :: "string list \<Rightarrow> target_error option" where
  "ValidateTargets targets = (if length targets > 50 then Some TooManyTargets else target_faults {} targets)"

definition TargetFlags :: "string list \<Rightarrow> string list" where
  "TargetFlags targets = map (\<lambda>t. ''-target='' @ t) targets"

end
