(* ===== verification/HelmScript.thy ===== *)
theory HelmScript
  imports Shell Workflow
begin

text \<open>
  The script of a helm step (\<open>lib/helm/rollout.go\<close>: \<open>Script\<close>, \<open>writeForceRestart\<close>, \<open>ociRegistryHost\<close>,
  \<open>WaitTimeout\<close>) and of a manifest step (\<open>lib/manifest/apply.go\<close>), and the log markers they print
  (\<open>ParseRevisions\<close>, \<open>ParseDiff\<close>). Durations are whole minutes.
\<close>

section \<open>Rollouts\<close>

record Rollout =
  ro_Action :: string
  ro_ChartSource :: string
  ro_Config :: config
  ro_ReleaseName :: string
  ro_TargetNamespace :: string
  ro_WaitTimeout :: nat
  ro_ValuesSources :: "config list"
  ro_HasCredential :: bool
  ro_HasGitToken :: bool
  ro_RenderGitContext :: bool
  ro_Force :: bool
  ro_CreateNamespace :: bool

definition WaitTimeout :: "string \<Rightarrow> nat" where
  "WaitTimeout method = (if method \<in> {''eks'', ''gke'', ''aks''} then 10 else 30)"

text \<open>\<open>Duration.String\<close> of a positive number of minutes.\<close>

definition minutes_string :: "nat \<Rightarrow> string" where
  "minutes_string m =
     (if m < 60 then [] else show_nat (m div 60) @ ''h'') @ show_nat (m mod 60) @ ''m0s''"

definition ociRegistryHost :: "string \<Rightarrow> string" where
  "ociRegistryHost repoURL =
     takeWhile (\<lambda>c. c \<noteq> CHR ''/'') (if prefix ''oci://'' repoURL then drop 6 repoURL else repoURL)"

definition dq :: "string \<Rightarrow> string" where
  "dq s = [dquote] @ s @ [dquote]"

definition sq :: "string \<Rightarrow> string" where
  "sq s = [squote] @ s @ [squote]"

definition kubeconfig_path :: string where
  "kubeconfig_path = CredsMountPath @ ''/kubeconfig''"

section \<open>Values sources\<close>

text \<open>
  One values source: the lines it adds and either the file it layers or \<open>None\<close> when the script ends
  here (a path that leaves the clone).
\<close>

definition source_dir :: "nat \<Rightarrow> string" where
  "source_dir i = ''/values/'' @ show_nat i"

definition skip_source :: "nat \<Rightarrow> string" where
  "skip_source i =
     ln (''echo '' @ sq (''warning: skipping values source '' @ show_nat i @ '': missing repo_url'') @ '' >&2'')"

definition source_clone :: "nat \<Rightarrow> config \<Rightarrow> string" where
  "source_clone i src =
     gitClone (cfg src ''repo_url'') (cfg src ''git_ref'') (shQuote (source_dir i)) @
     ln (''echo '' @ dq ((''SPACEFLEET_VALUES_REVISION_'' @ show_nat i @ ''=$(git -C '') @
         shQuote (source_dir i) @ '' rev-parse HEAD)''))"

definition values_source :: "nat \<Rightarrow> config \<Rightarrow> string \<times> string list option" where
  "values_source i src =
     (let p = cfg src ''path'' in
      if cfg src ''repo_url'' = [] then (skip_source i, Some [])
      else if p = [] then (source_clone i src, Some [])
      else if hasTraversal p then
        (source_clone i src @
         ln (''echo '' @ sq (''invalid values path (path traversal not allowed): '' @ p) @ '' >&2'') @
         ln ''exit 1'', None)
      else (source_clone i src, Some [source_dir i @ ''/'' @ p]))"

fun values_sources :: "nat \<Rightarrow> config list \<Rightarrow> string list \<Rightarrow> string \<times> string list option" where
  "values_sources i [] files = ([], Some files)"
| "values_sources i (src # srcs) files =
     (case values_source i src of
        (out, None) \<Rightarrow> (out, None)
      | (out, Some fs) \<Rightarrow>
          (case values_sources (Suc i) srcs (files @ fs) of (out', r) \<Rightarrow> (out @ out', r)))"

definition addValueFlags :: "string list \<Rightarrow> string \<Rightarrow> string" where
  "addValueFlags valuesFiles values =
     concat (map (\<lambda>vf. '' -f '' @ shQuote vf) valuesFiles) @
     ln ('' -f '' @ shQuote values @ '' --kubeconfig '' @ shQuote kubeconfig_path)"

section \<open>The helm line\<close>

definition version_flag :: "Rollout \<Rightarrow> string" where
  "version_flag r =
     (let v = cfg (ro_Config r) ''version'' in if v = [] then [] else '' --version '' @ shQuote v)"

definition diff_line :: "Rollout \<Rightarrow> string list \<Rightarrow> string \<Rightarrow> string \<Rightarrow> string" where
  "diff_line r files values chartRef =
     ln ''echo SPACEFLEET_DIFF_BEGIN'' @ ln ''set +e'' @
     ''helm diff upgrade '' @ shQuote (ro_ReleaseName r) @ '' '' @ shQuote chartRef @
     '' --install --three-way-merge --detailed-exitcode --no-color -C 5'' @ version_flag r @
     '' -n '' @ shQuote (ro_TargetNamespace r) @ addValueFlags files values @
     ln ''diff_rc=$?'' @ ln ''set -e'' @ ln ''echo SPACEFLEET_DIFF_END'' @
     ln (''if [ '' @ dq ''$diff_rc'' @ '' -eq 1 ]; then echo '' @ sq ''helm diff failed'' @ '' >&2; exit 1; fi'') @
     ln (''if [ '' @ dq ''$diff_rc'' @ '' -eq 2 ]; then echo '' @ sq ''SPACEFLEET_DIFF_CHANGES=true'' @
         ''; else echo '' @ sq ''SPACEFLEET_DIFF_CHANGES=false'' @ ''; fi'') @
     ln ''exit 0''"

definition upgrade_line :: "Rollout \<Rightarrow> string list \<Rightarrow> string \<Rightarrow> string \<Rightarrow> string" where
  "upgrade_line r files values chartRef =
     ''helm upgrade --install '' @ shQuote (ro_ReleaseName r) @ '' '' @ shQuote chartRef @ version_flag r @
     '' -n '' @ shQuote (ro_TargetNamespace r) @
     (if ro_CreateNamespace r then '' --create-namespace'' else []) @
     '' --wait --timeout '' @ shQuote (minutes_string (ro_WaitTimeout r)) @ addValueFlags files values"

definition install_line :: "Rollout \<Rightarrow> string list \<Rightarrow> string \<Rightarrow> string \<Rightarrow> string" where
  "install_line r files values chartRef =
     (if ro_Action r = ActionPreview then diff_line r files values chartRef
      else upgrade_line r files values chartRef)"

section \<open>Chart sources\<close>

definition user_file :: string where
  "user_file = CredsMountPath @ ''/registry-username''"

definition pass_file :: string where
  "pass_file = CredsMountPath @ ''/registry-password''"

definition http_chart :: "Rollout \<Rightarrow> string list \<Rightarrow> string \<Rightarrow> string" where
  "http_chart r files values =
     (if ro_HasCredential r then
        ln (''helm repo add r '' @ shQuote (cfg (ro_Config r) ''repo_url'') @
            '' --username '' @ dq (''$(cat '' @ shQuote user_file @ '')'') @
            '' --password '' @ dq (''$(cat '' @ shQuote pass_file @ '')''))
      else ln (''helm repo add r '' @ shQuote (cfg (ro_Config r) ''repo_url''))) @
     ln ''helm repo update r'' @
     install_line r files values (''r/'' @ cfg (ro_Config r) ''chart'')"

definition oci_chart :: "Rollout \<Rightarrow> string list \<Rightarrow> string \<Rightarrow> string" where
  "oci_chart r files values =
     (if ro_HasCredential r then
        ln (''helm registry login '' @ shQuote (ociRegistryHost (cfg (ro_Config r) ''repo_url'')) @
            '' --username '' @ dq (''$(cat '' @ shQuote user_file @ '')'') @
            '' --password-stdin < '' @ shQuote pass_file)
      else []) @
     install_line r files values (cfg (ro_Config r) ''repo_url'')"

definition git_context :: "string \<Rightarrow> string" where
  "git_context values =
     ln ''SF_SHA=$(git -C /src rev-parse HEAD)'' @
     ln ''SF_SHA_SHORT=$(git -C /src rev-parse --short=7 HEAD)'' @
     ln (''sed -e '' @ dq ''s/__SPACEFLEET_GIT_SHA__/$SF_SHA/g'' @ '' -e '' @
         dq ''s/__SPACEFLEET_GIT_SHA_SHORT__/$SF_SHA_SHORT/g'' @ '' '' @ shQuote values @
         '' > /tmp/values.rendered.yaml'')"

text \<open>The git source; \<open>False\<close> when the script ends inside it.\<close>

definition git_chart :: "Rollout \<Rightarrow> string list \<Rightarrow> string \<Rightarrow> string \<times> bool" where
  "git_chart r files values =
     (let p = cfg (ro_Config r) ''git_path'';
          values' = (if ro_RenderGitContext r then ''/tmp/values.rendered.yaml'' else values);
          start = gitClone (cfg (ro_Config r) ''repo_url'') (cfg (ro_Config r) ''git_ref'') ''/src'' @
            ln (''echo '' @ dq ''SPACEFLEET_CHART_REVISION=$(git -C /src rev-parse HEAD)'') @
            (if ro_RenderGitContext r then git_context values else [])
      in if p \<noteq> [] \<and> hasTraversal p then
           (start @ ln (''echo '' @ sq (''invalid git_path (path traversal not allowed): '' @ p) @ '' >&2'') @
            ln ''exit 1'', False)
         else
           (start @ ln (''cd '' @ shQuote (if p = [] then ''/src'' else ''/src/'' @ p)) @
            ln ''helm dependency build'' @ install_line r files values' ''.'', True))"

definition chart_part :: "Rollout \<Rightarrow> string list \<Rightarrow> string \<Rightarrow> string \<times> bool" where
  "chart_part r files values =
     (if ro_ChartSource r = SourceHTTPRepo then (http_chart r files values, True)
      else if ro_ChartSource r = SourceOCI then (oci_chart r files values, True)
      else if ro_ChartSource r = SourceGit then git_chart r files values
      else (ln (''echo '' @ sq (''unknown chart source: '' @ ro_ChartSource r) @ '' >&2'') @ ln ''exit 1'', True))"

section \<open>The forced restart\<close>

definition writeForceRestart :: "Rollout \<Rightarrow> string" where
  "writeForceRestart r =
     (let ns = shQuote (ro_TargetNamespace r); kc = shQuote kubeconfig_path;
          sel = ''app.kubernetes.io/instance='' @ ro_ReleaseName r
      in ln (''echo '' @ sq (''forcing rollout restart of workloads for release '' @ ro_ReleaseName r)) @
         ln (''force_targets=$(kubectl get deployment,statefulset,daemonset -n '' @ ns @ '' -l '' @ shQuote sel @
             '' -o name --kubeconfig '' @ kc @ '')'') @
         ln (''if [ -n '' @ dq ''$force_targets'' @ '' ]; then'') @
         ln (''  for t in $force_targets; do kubectl rollout restart '' @ dq ''$t'' @ '' -n '' @ ns @
             '' --kubeconfig '' @ kc @ ''; done'') @
         ln (''  for t in $force_targets; do kubectl rollout status '' @ dq ''$t'' @ '' -n '' @ ns @
             '' --timeout '' @ shQuote (minutes_string (ro_WaitTimeout r)) @ '' --kubeconfig '' @ kc @ ''; done'') @
         ln ''else'' @
         ln (''  echo '' @ sq (''force: no workloads matched '' @ sel @ ''; nothing to restart'') @ '' >&2'') @
         ln ''fi'')"

section \<open>The script\<close>

definition script_head :: string where
  "script_head = ln ''#!/bin/sh'' @ ln ''set -e''"

definition git_helper_line :: string where
  "git_helper_line =
     ln (''git config --global credential.helper '' @
         shQuote (GitCredentialHelper (CredsMountPath @ ''/git-credentials'')))"

definition uninstall_line :: "Rollout \<Rightarrow> string" where
  "uninstall_line r =
     ln (''helm uninstall '' @ shQuote (ro_ReleaseName r) @ '' -n '' @ shQuote (ro_TargetNamespace r) @
         '' --wait --timeout '' @ shQuote (minutes_string (ro_WaitTimeout r)) @
         '' --ignore-not-found --kubeconfig '' @ shQuote kubeconfig_path)"

definition helm_setup :: "Rollout \<Rightarrow> string" where
  "helm_setup r =
     script_head @
     (if ro_Action r = ActionPreview then
        ln (''helm plugin list 2>/dev/null | grep -q '' @ sq ''^diff'' @
            '' || helm plugin install https://github.com/databus23/helm-diff --version '' @ shQuote ''v3.9.13'')
      else []) @
     (if ro_HasGitToken r then git_helper_line else [])"

definition helm_Script :: "Rollout \<Rightarrow> string" where
  "helm_Script r =
     (if ro_Action r = ActionUninstall then script_head @ uninstall_line r
      else case values_sources 0 (ro_ValuesSources r) [] of
        (out, None) \<Rightarrow> helm_setup r @ out
      | (out, Some files) \<Rightarrow>
          (case chart_part r files (CredsMountPath @ ''/values.yaml'') of
             (chart, goes_on) \<Rightarrow>
               helm_setup r @ out @ chart @
               (if goes_on \<and> ro_Force r \<and> ro_Action r \<noteq> ActionPreview then writeForceRestart r else [])))"

section \<open>The script of a manifest step\<close>

record ManifestApply =
  ma_Action :: string
  ma_RepoURL :: string
  ma_GitRef :: string
  ma_Path :: string
  ma_HasGitToken :: bool

definition manifest_preview :: "string \<Rightarrow> string" where
  "manifest_preview target =
     ln ''echo SPACEFLEET_DIFF_BEGIN'' @ ln ''set +e'' @
     ln (''kubectl diff -f '' @ shQuote target @ '' --kubeconfig '' @ shQuote kubeconfig_path) @
     ln ''diff_rc=$?'' @ ln ''set -e'' @ ln ''echo SPACEFLEET_DIFF_END'' @
     ln (''if [ '' @ dq ''$diff_rc'' @ '' -gt 1 ]; then echo '' @ sq ''kubectl diff failed'' @ '' >&2; exit 1; fi'') @
     ln (''if [ '' @ dq ''$diff_rc'' @ '' -eq 1 ]; then echo '' @ sq ''SPACEFLEET_DIFF_CHANGES=true'' @
         ''; else echo '' @ sq ''SPACEFLEET_DIFF_CHANGES=false'' @ ''; fi'') @
     ln ''exit 0''"

definition manifest_Script :: "ManifestApply \<Rightarrow> string" where
  "manifest_Script a =
     script_head @
     (if hasTraversal (ma_Path a) then
        ln (''echo '' @ sq (''invalid path (path traversal not allowed): '' @ ma_Path a) @ '' >&2'') @ ln ''exit 1''
      else
        (if ma_HasGitToken a then git_helper_line else []) @
        gitClone (ma_RepoURL a) (ma_GitRef a) ''/src'' @
        ln (''echo '' @ dq ''SPACEFLEET_CHART_REVISION=$(git -C /src rev-parse HEAD)'') @
        (let target = ''/src/'' @ ma_Path a in
         if ma_Action a = ActionPreview then manifest_preview target
         else if ma_Action a = ActionUninstall then
           ln (''kubectl delete -f '' @ shQuote target @ '' --ignore-not-found --kubeconfig '' @ shQuote kubeconfig_path)
         else ln (''kubectl apply -f '' @ shQuote target @ '' --kubeconfig '' @ shQuote kubeconfig_path)))"

section \<open>Markers in the logs\<close>

definition cut_prefix :: "string \<Rightarrow> string \<Rightarrow> string option" where
  "cut_prefix s p = (if prefix p s then Some (drop (length p) s) else None)"

text \<open>
  \<open>strconv.Atoi\<close> as far as it succeeds: an optional sign and decimal digits, within 64 bits.
\<close>

definition atoi :: "string \<Rightarrow> int option" where
  "atoi s =
     (let ds = (if s \<noteq> [] \<and> hd s \<in> {CHR ''-'', CHR ''+''} then tl s else s);
          n = foldl (\<lambda>acc c. acc * 10 + (of_char c - 48)) (0 :: int) ds;
          v = (if s \<noteq> [] \<and> hd s = CHR ''-'' then - n else n)
      in if ds \<noteq> [] \<and> list_all is_digit ds \<and> - (2 ^ 63) \<le> v \<and> v < 2 ^ 63 then Some v else None)"

record Revisions =
  rev_Chart :: string
  rev_Values :: "int \<rightharpoonup> string"

definition revision_line :: "Revisions \<Rightarrow> string \<Rightarrow> Revisions" where
  "revision_line rv raw =
     (let line = trim_space raw in
      case cut_prefix line ''SPACEFLEET_CHART_REVISION='' of
        Some v \<Rightarrow> rv\<lparr>rev_Chart := trim_space v\<rparr>
      | None \<Rightarrow>
          (case cut_prefix line ''SPACEFLEET_VALUES_REVISION_'' of
             None \<Rightarrow> rv
           | Some rest \<Rightarrow>
               (case str_cut rest ''='' of (idx, sha, found) \<Rightarrow>
                  if \<not> found then rv
                  else case atoi idx of
                    None \<Rightarrow> rv
                  | Some i \<Rightarrow> rv\<lparr>rev_Values := (rev_Values rv)(i \<mapsto> trim_space sha)\<rparr>)))"

definition ParseRevisions :: "string \<Rightarrow> Revisions" where
  "ParseRevisions logs =
     foldl revision_line \<lparr>rev_Chart = [], rev_Values = Map.empty\<rparr> (split_lines logs)"

record Diff =
  df_Body :: string
  df_HasChanges :: bool

text \<open>The scan: the last begin and end markers and the last verdict.\<close>

definition diff_line_scan :: "nat option \<times> nat option \<times> bool \<Rightarrow> nat \<times> string \<Rightarrow> nat option \<times> nat option \<times> bool" where
  "diff_line_scan st il =
     (case (st, il) of ((b, e, ch), (i, raw)) \<Rightarrow>
        let t = trim_space raw;
            b' = (if t = ''SPACEFLEET_DIFF_BEGIN'' then Some i else b);
            e' = (if t = ''SPACEFLEET_DIFF_END'' then Some i else e)
        in (b', e', case cut_prefix t ''SPACEFLEET_DIFF_CHANGES='' of
                      Some v \<Rightarrow> trim_space v = ''true'' | None \<Rightarrow> ch))"

definition ParseDiff :: "string \<Rightarrow> Diff" where
  "ParseDiff logs =
     (let lines = split_lines logs in
      case foldl diff_line_scan (None, None, False) (zip [0..<length lines] lines) of
        (Some b, Some e, ch) \<Rightarrow>
          \<lparr>df_Body = (if b < e then str_join [newline] (drop (Suc b) (take e lines)) else []), df_HasChanges = ch\<rparr>
      | (_, _, ch) \<Rightarrow> \<lparr>df_Body = [], df_HasChanges = ch\<rparr>)"

end
