(* ===== verification/TofuScript.thy ===== *)
theory TofuScript
  imports TofuStateOp HelmScript Json TofuPlan
begin

text \<open>
  The script of an OpenTofu step (\<open>lib/tofu/script.go\<close>). \<open>is_print\<close> is \<open>strconv.IsPrint\<close> beyond ASCII,
  which \<open>%q\<close> consults.
\<close>

record TofuApply =
  ta_Command :: string
  ta_Action :: string
  ta_RepoURL :: string
  ta_GitRef :: string
  ta_Path :: string
  ta_Backend :: string
  ta_BackendConfig :: "(string \<times> string) list"
  ta_StateAddress :: string
  ta_Namespace :: string
  ta_HasGitToken :: bool
  ta_HasCloudAuth :: bool
  ta_HasClusterAuth :: bool
  ta_PlanArtifactSecret :: string
  ta_InitFlags :: "string list"
  ta_PlanFlags :: "string list"
  ta_ApplyFlags :: "string list"
  ta_StateOp :: "StateOp option"
  ta_Workspace :: string
  ta_TFVars :: string
  ta_PluginCacheDir :: string

section \<open>Pieces\<close>

definition appendFlags :: "string list \<Rightarrow> string" where
  "appendFlags flags = concat (map (\<lambda>f. if f = [] then [] else '' '' @ shQuote f) flags)"

definition kubectlInstall :: string where
  "kubectlInstall = ln ''apk add --no-cache kubectl''"

definition applyToolsInstall :: string where
  "applyToolsInstall = ln ''apk add --no-cache kubectl jq''"

definition storePlanfile :: "TofuApply \<Rightarrow> string" where
  "storePlanfile a =
     kubectlInstall @
     ln (''kubectl create secret generic '' @ shQuote (ta_PlanArtifactSecret a) @ '' --namespace '' @
         shQuote (ta_Namespace a) @ '' --from-file=tfplan=tfplan --dry-run=client -o yaml | kubectl apply --namespace '' @
         shQuote (ta_Namespace a) @ '' -f -'')"

definition restorePlanfile :: "TofuApply \<Rightarrow> string" where
  "restorePlanfile a =
     applyToolsInstall @
     ln (''kubectl get secret '' @ shQuote (ta_PlanArtifactSecret a) @ '' --namespace '' @ shQuote (ta_Namespace a) @
         '' -o '' @ shQuote ''jsonpath={.data.tfplan}'' @ '' | base64 -d > tfplan'')"

definition resourcesFilter :: string where
  "resourcesFilter =
     ''[.values.root_module | recurse(.child_modules[]?) | .resources[]? | {address, mode, type, name, provider: .provider_name, id: ((.values // {}).id // null)}]''"

definition captureOutputs :: "TofuApply \<Rightarrow> bool \<Rightarrow> string" where
  "captureOutputs a keepPlanfile =
     ln ''tofu output -json > sf-outputs.json || : > sf-outputs.json'' @
     ln (''tofu show -json | jq -c '' @ shQuote resourcesFilter @ '' > sf-resources.json || : > sf-resources.json'') @
     ln (''kubectl create secret generic '' @ shQuote (ta_PlanArtifactSecret a) @ '' --namespace '' @
         shQuote (ta_Namespace a) @ (if keepPlanfile then '' --from-file=tfplan=tfplan'' else []) @
         '' --from-file=outputs=sf-outputs.json --from-file=resources=sf-resources.json --dry-run=client -o yaml | kubectl apply --namespace '' @
         shQuote (ta_Namespace a) @ '' -f - || echo '' @ sq ''warning: failed to store outputs'' @ '' >&2'')"

definition storeOutputs :: "TofuApply \<Rightarrow> string" where
  "storeOutputs a = captureOutputs a False"

definition planVerdict :: "TofuApply \<Rightarrow> string" where
  "planVerdict a =
     ln (''if [ '' @ dq ''$plan_rc'' @ '' -eq 0 ]; then'') @
     ln (''apk add --no-cache jq || echo '' @ sq ''warning: failed to install jq'' @ '' >&2'') @
     captureOutputs a True @
     ln (''echo '' @ sq (PlanChangesPrefix @ ''false'')) @
     ln ''else'' @
     ln (''echo '' @ sq (PlanChangesPrefix @ ''true'')) @
     ln ''fi''"

section \<open>Files written by heredoc\<close>

text \<open>\<open>json.Compact\<close>: white space outside strings is dropped.\<close>

fun compact_scan :: "bool \<Rightarrow> bool \<Rightarrow> string \<Rightarrow> string" where
  "compact_scan inStr esc [] = []"
| "compact_scan inStr esc (c # cs) =
     (if inStr then
        c # (if esc then compact_scan True False cs
             else if c = backslash then compact_scan True True cs
             else compact_scan (c \<noteq> quote_char) False cs)
      else if json_ws c then compact_scan False False cs
      else c # compact_scan (c = quote_char) False cs)"

definition json_compact :: "string \<Rightarrow> string option" where
  "json_compact s = (if json_parse s = None then None else Some (compact_scan False False s))"

definition heredoc :: "string \<Rightarrow> string \<Rightarrow> string" where
  "heredoc file body = ln (''cat > '' @ file @ '' <<'' @ sq ''EOF'') @ body @ ln ''EOF''"

definition tfvarsFile :: "string \<Rightarrow> string" where
  "tfvarsFile raw =
     heredoc ''spacefleet.auto.tfvars.json'' (ln (case json_compact raw of Some b \<Rightarrow> b | None \<Rightarrow> raw))"

text \<open>The keys of a map in the order \<open>sort.Strings\<close> gives them (byte order).\<close>

fun bytes_le :: "string \<Rightarrow> string \<Rightarrow> bool" where
  "bytes_le [] _ = True"
| "bytes_le (x # xs) [] = False"
| "bytes_le (x # xs) (y # ys) =
     (if x = y then bytes_le xs ys else (of_char x :: nat) < of_char y)"

fun insert_sorted :: "string \<Rightarrow> string list \<Rightarrow> string list" where
  "insert_sorted k [] = [k]"
| "insert_sorted k (x # xs) = (if bytes_le k x then k # x # xs else x # insert_sorted k xs)"

definition sorted_keys :: "(string \<times> 'a) list \<Rightarrow> string list" where
  "sorted_keys c = foldr insert_sorted (remdups (map fst c)) []"

definition http_backend_body :: "(nat \<Rightarrow> bool) \<Rightarrow> string \<Rightarrow> string" where
  "http_backend_body is_print addr =
     ln ''terraform {'' @ ln (''  backend '' @ dq ''http'' @ '' {'') @
     ln (''    address        = '' @ quote_go is_print addr) @
     ln (''    lock_address   = '' @ quote_go is_print (addr @ ''/lock'')) @
     ln (''    unlock_address = '' @ quote_go is_print (addr @ ''/lock'')) @
     ln (''    lock_method    = '' @ quote_go is_print ''POST'') @
     ln (''    unlock_method  = '' @ quote_go is_print ''DELETE'') @
     ln ''  }'' @ ln ''}''"

definition setting_line :: "(nat \<Rightarrow> bool) \<Rightarrow> (string \<times> string) list \<Rightarrow> string \<Rightarrow> string" where
  "setting_line is_print c k =
     ln (''    '' @ k @ '' = '' @ quote_go is_print (case map_of c k of Some v \<Rightarrow> v | None \<Rightarrow> []))"

definition cloud_backend_body :: "(nat \<Rightarrow> bool) \<Rightarrow> string \<Rightarrow> (string \<times> string) list \<Rightarrow> string" where
  "cloud_backend_body is_print backend c =
     ln ''terraform {'' @ ln (''  backend '' @ quote_go is_print backend @ '' {'') @
     concat (map (setting_line is_print c) (sorted_keys c)) @
     ln ''  }'' @ ln ''}''"

definition backendOverride :: "(nat \<Rightarrow> bool) \<Rightarrow> TofuApply \<Rightarrow> string" where
  "backendOverride is_print a =
     heredoc ''backend_override.tf''
       (if ta_Backend a = BackendSpacefleet then http_backend_body is_print (ta_StateAddress a)
        else cloud_backend_body is_print (ta_Backend a) (ta_BackendConfig a))"

section \<open>The commands\<close>

definition tofu_preview :: "TofuApply \<Rightarrow> bool" where
  "tofu_preview a \<longleftrightarrow> ta_Action a = ActionPreview \<or> ta_Action a = ActionDrift"

definition state_op_part :: "TofuApply \<Rightarrow> string" where
  "state_op_part a =
     (case ta_StateOp a of
        None \<Rightarrow> ln (''echo '' @ sq ''no valid state operation to run'' @ '' >&2'') @ ln ''exit 1''
      | Some op \<Rightarrow>
          if StateOp_Validate op \<noteq> None then
            ln (''echo '' @ sq ''no valid state operation to run'' @ '' >&2'') @ ln ''exit 1''
          else if ta_PlanArtifactSecret a = [] then
            ln (''echo '' @ sq ''no handover secret for the state operation'' @ '' >&2'') @ ln ''exit 1''
          else
            applyToolsInstall @
            (case StateOp_argv op (ImportFlags (ta_PlanFlags a)) of
               [] \<Rightarrow> ln []
             | t # ts \<Rightarrow> ln (t @ concat (map (\<lambda>x. '' '' @ shQuote x) ts))) @
            storeOutputs a)"

definition apply_part :: "TofuApply \<Rightarrow> string" where
  "apply_part a =
     (if ta_PlanArtifactSecret a = [] then
        ln (''echo '' @ sq ''no reviewed planfile to apply (no upstream plan node)'' @ '' >&2'') @ ln ''exit 1''
      else
        restorePlanfile a @
        ln (''tofu apply -input=false -no-color'' @ appendFlags (ta_ApplyFlags a) @ '' tfplan'') @
        storeOutputs a)"

definition preview_part :: "TofuApply \<Rightarrow> string" where
  "preview_part a =
     ln ((if ta_Action a = ActionDrift then ''tofu plan -input=false -refresh-only -no-color''
          else if ta_Action a = ActionUninstall then ''tofu plan -input=false -destroy -no-color''
          else ''tofu plan -input=false -no-color'') @ appendFlags (ta_PlanFlags a))"

definition plan_part :: "TofuApply \<Rightarrow> string" where
  "plan_part a =
     (let handover = ta_PlanArtifactSecret a \<noteq> [];
          cmd = (if ta_Action a = ActionUninstall then ''tofu plan -input=false -destroy -out=tfplan -no-color''
                 else ''tofu plan -input=false -out=tfplan -no-color'')
      in if \<not> handover then ln (cmd @ appendFlags (ta_PlanFlags a))
         else
           ln ''plan_rc=0'' @
           ln (cmd @ '' -detailed-exitcode'' @ appendFlags (ta_PlanFlags a) @ '' || plan_rc=$?'') @
           ln (''if [ '' @ dq ''$plan_rc'' @ '' -ne 0 ] && [ '' @ dq ''$plan_rc'' @ '' -ne 2 ]; then exit '' @
               dq ''$plan_rc'' @ ''; fi'') @
           storePlanfile a @ planVerdict a)"

definition command_part :: "TofuApply \<Rightarrow> string" where
  "command_part a =
     (if ta_Command a = CommandStateOp then state_op_part a
      else if ta_Command a = CommandApply \<and> \<not> tofu_preview a then apply_part a
      else if tofu_preview a then preview_part a
      else plan_part a)"

section \<open>The script\<close>

definition tofu_clone :: "TofuApply \<Rightarrow> string" where
  "tofu_clone a =
     (if ta_HasGitToken a then git_helper_line else []) @
     gitClone (ta_RepoURL a) (ta_GitRef a) ''/src'' @
     ln (''echo '' @ dq ''SPACEFLEET_CHART_REVISION=$(git -C /src rev-parse HEAD)'') @
     ln (''cd '' @ shQuote (if ta_Path a = [] then ''/src'' else ''/src/'' @ ta_Path a))"

definition tofu_env :: "TofuApply \<Rightarrow> string" where
  "tofu_env a =
     (let tfvars = trim_space (ta_TFVars a) in if tfvars = [] then [] else tfvarsFile tfvars) @
     (if ta_HasCloudAuth a then ln (''. '' @ CredsMountPath @ ''/cloud.env'') else []) @
     (if ta_HasClusterAuth a then ln (''export KUBE_CONFIG_PATH='' @ shQuote kubeconfig_path) else []) @
     (if ta_PluginCacheDir a = [] then [] else ln (''export TF_PLUGIN_CACHE_DIR='' @ shQuote (ta_PluginCacheDir a)))"

definition tofu_init :: "(nat \<Rightarrow> bool) \<Rightarrow> TofuApply \<Rightarrow> string" where
  "tofu_init is_print a =
     backendOverride is_print a @
     ln (''tofu init -input=false -no-color'' @ appendFlags (ta_InitFlags a)) @
     (if ta_Workspace a \<noteq> [] \<and> ta_Backend a \<noteq> BackendSpacefleet
      then ln (''tofu workspace select -or-create=true '' @ shQuote (ta_Workspace a)) else [])"

definition tofu_Script :: "(nat \<Rightarrow> bool) \<Rightarrow> TofuApply \<Rightarrow> string" where
  "tofu_Script is_print a =
     script_head @
     (if hasTraversal (ta_Path a) then
        ln (''echo '' @ sq (''invalid path (path traversal not allowed): '' @ ta_Path a) @ '' >&2'') @ ln ''exit 1''
      else
        tofu_clone a @ tofu_env a @
        (if ta_Backend a = BackendSpacefleet \<and> ta_StateAddress a = [] then
           ln (''echo '' @ sq ''no managed state address for the spacefleet backend'' @ '' >&2'') @ ln ''exit 1''
         else tofu_init is_print a @ command_part a))"

end
