(* ===== verification/Script_Props.thy ===== *)
theory Script_Props
  imports HelmScript
begin

text \<open>
  Quoting in the helm and manifest scripts: the text a shell interprets depends on the choices of the
  run only, never on the strings a user supplies, as long as no path leaves its clone and no restart
  is forced; the two messages that print a user string without quoting it are the exceptions.
\<close>

section \<open>Text without quoting characters\<close>

definition unquoting :: "string \<Rightarrow> bool" where
  "unquoting s \<longleftrightarrow> list_all (\<lambda>c. c \<noteq> squote \<and> c \<noteq> dquote \<and> c \<noteq> bslash) s"

lemma unquoting_interpreted:
  "unquoting s \<Longrightarrow> q = Bare \<or> q = Double \<Longrightarrow> interpreted q s = s"
  "unquoting s \<Longrightarrow> q = Bare \<or> q = Double \<or> q = Single \<Longrightarrow> quote_state q s = q"
  "unquoting s \<Longrightarrow> interpreted Single s = []"
  by (induction s) (auto simp: unquoting_def)

lemma unquoting_escape: "unquoting s \<Longrightarrow> escape_squotes s = s"
  by (induction s) (auto simp: unquoting_def)

lemma unquoting_append [simp]: "unquoting (a @ b) \<longleftrightarrow> unquoting a \<and> unquoting b"
  by (auto simp: unquoting_def)

lemma show_nat_unquoting [simp]: "unquoting (show_nat n)"
proof (induction n rule: show_nat.induct)
  case (1 n)
  have digit: "unquoting [digit_char d]" if "d < 10" for d
  proof -
    from that have "d \<in> set [0..<10]" by simp
    moreover have "list_all (\<lambda>d. unquoting [digit_char d]) [0..<10]" by code_simp
    ultimately show ?thesis by (simp add: list_all_iff)
  qed
  show ?case
  proof (cases "n < 10")
    case True
    with digit [of n] show ?thesis by (simp add: show_nat.simps [of n])
  next
    case False
    with 1 digit [of "n mod 10"] show ?thesis by (simp add: show_nat.simps [of n])
  qed
qed

text \<open>A piece of a script that leaves the shell outside quotes, with what is interpreted of it.\<close>

definition piece :: "string \<Rightarrow> string \<Rightarrow> bool" where
  "piece s t \<longleftrightarrow> interpreted Bare s = t \<and> quote_state Bare s = Bare"

lemma piece_Nil: "piece [] []"
  by (simp add: piece_def)

lemma piece_append: "piece a t \<Longrightarrow> piece b u \<Longrightarrow> piece (a @ b) (t @ u)"
  by (simp add: piece_def interpreted_append)

lemma piece_shQuote: "piece (shQuote s) []"
  by (simp add: piece_def)

lemma piece_unquoting: "unquoting s \<Longrightarrow> piece s s"
  by (simp add: piece_def unquoting_interpreted)

lemma piece_sq: "unquoting s \<Longrightarrow> piece (sq s) []"
  by (simp add: sq_def piece_def interpreted_append unquoting_interpreted)

lemma piece_dq: "unquoting s \<Longrightarrow> piece (dq s) (dq s)"
  by (simp add: dq_def piece_def interpreted_append unquoting_interpreted)

lemma piece_dq_quoted:
  assumes "unquoting a" and "unquoting s" and "unquoting b"
  shows "piece (dq (a @ shQuote s @ b)) (dq (a @ sq s @ b))"
  using assms
  by (simp add: dq_def sq_def piece_def interpreted_append unquoting_interpreted shQuote_def unquoting_escape)

lemma piece_ln: "piece s t \<Longrightarrow> piece (ln s) (ln t)"
  by (simp add: piece_def ln_def interpreted_append newline_def squote_def dquote_def bslash_def)

text \<open>Two scripts agree when the shell interprets the same text of both.\<close>

definition agree :: "string \<Rightarrow> string \<Rightarrow> bool" where
  "agree s s' \<longleftrightarrow> (\<exists>t. piece s t \<and> piece s' t)"

lemma agree_interpreted: "agree s s' \<Longrightarrow> interpreted Bare s = interpreted Bare s'"
  by (auto simp: agree_def piece_def)

lemma agree_append [intro]: "agree a a' \<Longrightarrow> agree b b' \<Longrightarrow> agree (a @ b) (a' @ b')"
  unfolding agree_def by (meson piece_append)

lemma agree_shQuote [intro!]: "agree (shQuote s) (shQuote s')"
  unfolding agree_def by (meson piece_shQuote)

lemma agree_unquoting: "unquoting s \<Longrightarrow> agree s s"
  unfolding agree_def by (meson piece_unquoting)

lemma agree_sq: "unquoting s \<Longrightarrow> agree (sq s) (sq s)"
  unfolding agree_def by (meson piece_sq)

lemma agree_dq: "unquoting s \<Longrightarrow> agree (dq s) (dq s)"
  unfolding agree_def by (meson piece_dq)

lemma agree_dq_quoted:
  "unquoting a \<Longrightarrow> unquoting s \<Longrightarrow> unquoting b \<Longrightarrow> agree (dq (a @ shQuote s @ b)) (dq (a @ shQuote s @ b))"
  unfolding agree_def by (meson piece_dq_quoted)

lemma agree_ln [intro!]: "agree s s' \<Longrightarrow> agree (ln s) (ln s')"
  unfolding agree_def by (meson piece_ln)

lemma agree_concat: "list_all2 agree xs ys \<Longrightarrow> agree (concat xs) (concat ys)"
  by (induction rule: list_all2_induct) (auto simp: agree_def intro: piece_Nil piece_append)

text \<open>The constant texts of the scripts hold no quoting characters.\<close>

lemma unquoting_Cons: "unquoting (c # cs) \<longleftrightarrow> c \<noteq> squote \<and> c \<noteq> dquote \<and> c \<noteq> bslash \<and> unquoting cs"
  by (simp add: unquoting_def)

lemma unquoting_Nil [simp]: "unquoting []"
  by (simp add: unquoting_def)

lemmas const_simps = unquoting_Cons squote_def dquote_def bslash_def newline_def

section \<open>Helm\<close>

definition ref_class :: "string \<Rightarrow> nat" where
  "ref_class ref = (if ref = [] then 0 else if isCommitSHA ref then 1 else 2)"

lemma agree_const: "unquoting s \<Longrightarrow> agree b b' \<Longrightarrow> agree (s @ b) (s @ b')"
  by (intro agree_append agree_unquoting)

lemma agree_gitClone:
  assumes "ref_class ref = ref_class ref'" and "agree dir dir"
  shows "agree (gitClone repo ref dir) (gitClone repo' ref' dir)"
proof -
  have nl: "agree [newline] [newline]" by (rule agree_unquoting) (simp add: const_simps)
  consider "ref = []" "ref' = []" | "ref \<noteq> []" "ref' \<noteq> []" "isCommitSHA ref" "isCommitSHA ref'"
    | "ref \<noteq> []" "ref' \<noteq> []" "\<not> isCommitSHA ref" "\<not> isCommitSHA ref'"
    using assms(1) by (auto simp: ref_class_def split: if_splits)
  then show ?thesis
    by cases (simp_all only: gitClone_def if_True if_False refl,
      (intro agree_append agree_shQuote agree_unquoting assms(2) nl; simp add: const_simps)+)
qed

lemmas agree_rules = agree_append agree_shQuote agree_ln

text \<open>The inputs that may shape a helm script; every other string of the rollout is user data.\<close>

definition same_source :: "config \<Rightarrow> config \<Rightarrow> bool" where
  "same_source s s' \<longleftrightarrow>
     (cfg s ''repo_url'' = [] \<longleftrightarrow> cfg s' ''repo_url'' = []) \<and> (cfg s ''path'' = [] \<longleftrightarrow> cfg s' ''path'' = []) \<and>
     ref_class (cfg s ''git_ref'') = ref_class (cfg s' ''git_ref'') \<and>
     \<not> hasTraversal (cfg s ''path'') \<and> \<not> hasTraversal (cfg s' ''path'')"

definition same_config :: "config \<Rightarrow> config \<Rightarrow> bool" where
  "same_config c c' \<longleftrightarrow>
     (cfg c ''version'' = [] \<longleftrightarrow> cfg c' ''version'' = []) \<and>
     ref_class (cfg c ''git_ref'') = ref_class (cfg c' ''git_ref'') \<and>
     \<not> hasTraversal (cfg c ''git_path'') \<and> \<not> hasTraversal (cfg c' ''git_path'')"

definition same_control :: "Rollout \<Rightarrow> Rollout \<Rightarrow> bool" where
  "same_control r r' \<longleftrightarrow>
     ro_Action r = ro_Action r' \<and> ro_ChartSource r = ro_ChartSource r' \<and>
     ro_ChartSource r \<in> {SourceHTTPRepo, SourceOCI, SourceGit} \<and>
     ro_HasCredential r = ro_HasCredential r' \<and> ro_HasGitToken r = ro_HasGitToken r' \<and>
     ro_RenderGitContext r = ro_RenderGitContext r' \<and> ro_CreateNamespace r = ro_CreateNamespace r' \<and>
     \<not> ro_Force r \<and> \<not> ro_Force r' \<and> same_config (ro_Config r) (ro_Config r') \<and>
     list_all2 same_source (ro_ValuesSources r) (ro_ValuesSources r')"

lemma agree_if: "(b \<Longrightarrow> agree s s') \<Longrightarrow> (\<not> b \<Longrightarrow> agree t t') \<Longrightarrow> agree (if b then s else t) (if b then s' else t')"
  by simp

lemma agree_skip_source: "agree (skip_source i) (skip_source i)"
  unfolding skip_source_def
  by (intro agree_rules agree_sq agree_unquoting; simp add: const_simps)

lemma agree_source_clone:
  assumes "ref_class (cfg s ''git_ref'') = ref_class (cfg s' ''git_ref'')"
  shows "agree (source_clone i s) (source_clone i s')"
  unfolding source_clone_def
  by (intro agree_append agree_ln agree_gitClone [OF assms] agree_shQuote agree_dq_quoted agree_unquoting;
      simp add: source_dir_def const_simps)

lemma agree_values_source:
  assumes "same_source s s'"
  shows "\<exists>out out' fs fs'. values_source i s = (out, Some fs) \<and> values_source i s' = (out', Some fs') \<and>
    agree out out' \<and> length fs = length fs'"
  using assms agree_skip_source [of i] agree_source_clone [of s s' i]
  unfolding same_source_def values_source_def Let_def by auto

lemma agree_values_sources:
  assumes "list_all2 same_source ss ss'" and "length fs = length fs'"
  shows "\<exists>out out' gs gs'. values_sources i ss fs = (out, Some gs) \<and> values_sources i ss' fs' = (out', Some gs') \<and>
    agree out out' \<and> length gs = length gs'"
  using assms
proof (induction ss ss' arbitrary: i fs fs' rule: list_all2_induct)
  case Nil
  then show ?case by (simp add: agree_unquoting)
next
  case (Cons s ss s' ss')
  from agree_values_source [OF Cons.hyps(1), of i] obtain out out' gs gs' where v:
    "values_source i s = (out, Some gs)" "values_source i s' = (out', Some gs')"
    "agree out out'" "length gs = length gs'" by blast
  from Cons.IH [of "fs @ gs" "fs' @ gs'" "Suc i"] Cons.prems v(4) obtain o2 o2' hs hs' where w:
    "values_sources (Suc i) ss (fs @ gs) = (o2, Some hs)" "values_sources (Suc i) ss' (fs' @ gs') = (o2', Some hs')"
    "agree o2 o2'" "length hs = length hs'" by auto
  with v show ?case by (simp add: agree_append)
qed

lemma agree_addValueFlags:
  assumes "length fs = length fs'"
  shows "agree (addValueFlags fs v) (addValueFlags fs' v')"
proof -
  have "agree ('' -f '' @ shQuote a) ('' -f '' @ shQuote b)" for a b
    by (intro agree_append agree_shQuote agree_unquoting; simp add: const_simps)
  with assms have "list_all2 agree (map (\<lambda>vf. '' -f '' @ shQuote vf) fs) (map (\<lambda>vf. '' -f '' @ shQuote vf) fs')"
    by (simp add: list_all2_conv_all_nth)
  then show ?thesis
    unfolding addValueFlags_def
    by (intro agree_append agree_ln agree_shQuote agree_concat agree_unquoting; simp add: const_simps)
qed

lemma agree_version_flag:
  assumes "same_config (ro_Config r) (ro_Config r')"
  shows "agree (version_flag r) (version_flag r')"
proof -
  have "agree ('' --version '' @ shQuote a) ('' --version '' @ shQuote b)" for a b
    by (intro agree_append agree_shQuote agree_unquoting; simp add: const_simps)
  with assms show ?thesis by (simp add: version_flag_def same_config_def Let_def agree_unquoting del: append.append_Cons)
qed

lemma agree_install_line:
  assumes "same_control r r'" and "length fs = length fs'"
  shows "agree (install_line r fs v c) (install_line r' fs' v' c')"
proof -
  note flags = agree_addValueFlags [OF assms(2)]
  have ver: "agree (version_flag r) (version_flag r')"
    using assms(1) by (intro agree_version_flag) (simp add: same_control_def)
  have "agree (diff_line r fs v c) (diff_line r' fs' v' c')"
    unfolding diff_line_def
    by (intro agree_append agree_ln agree_shQuote flags ver agree_sq agree_dq agree_unquoting; simp add: const_simps)
  moreover have "agree (upgrade_line r fs v c) (upgrade_line r' fs' v' c')"
    using assms(1) unfolding upgrade_line_def same_control_def
    by (intro agree_append agree_shQuote flags ver agree_unquoting agree_if; simp add: const_simps agree_unquoting)
  ultimately show ?thesis using assms(1) by (simp add: install_line_def same_control_def)
qed

lemma agree_cat: "agree (dq (''$(cat '' @ shQuote user_file @ '')'')) (dq (''$(cat '' @ shQuote user_file @ '')''))"
  "agree (dq (''$(cat '' @ shQuote pass_file @ '')'')) (dq (''$(cat '' @ shQuote pass_file @ '')''))"
  by (rule agree_dq_quoted; simp add: user_file_def pass_file_def CredsMountPath_def const_simps)+

lemma agree_http_chart:
  assumes "same_control r r'" and "length fs = length fs'"
  shows "agree (http_chart r fs v) (http_chart r' fs' v')"
proof -
  note inst = agree_install_line [OF assms]
  have "ro_HasCredential r' = ro_HasCredential r" using assms(1) by (simp add: same_control_def)
  then show ?thesis
    unfolding http_chart_def
    by (simp only:) (intro agree_append agree_ln agree_shQuote agree_if agree_cat inst agree_unquoting; simp add: const_simps)
qed

lemma agree_oci_chart:
  assumes "same_control r r'" and "length fs = length fs'"
  shows "agree (oci_chart r fs v) (oci_chart r' fs' v')"
proof -
  note inst = agree_install_line [OF assms]
  have "ro_HasCredential r' = ro_HasCredential r" using assms(1) by (simp add: same_control_def)
  then show ?thesis
    unfolding oci_chart_def
    by (simp only:) (intro agree_append agree_ln agree_shQuote agree_if agree_cat inst agree_unquoting; simp add: const_simps)
qed

lemma agree_git_chart:
  assumes "same_control r r'" and "length fs = length fs'"
  shows "agree (fst (git_chart r fs v)) (fst (git_chart r' fs' v')) \<and> snd (git_chart r fs v) \<and> snd (git_chart r' fs' v')"
proof -
  note inst = agree_install_line [OF assms]
  from assms(1) have rgc: "ro_RenderGitContext r' = ro_RenderGitContext r"
    and ref: "ref_class (cfg (ro_Config r) ''git_ref'') = ref_class (cfg (ro_Config r') ''git_ref'')"
    and tr: "\<not> hasTraversal (cfg (ro_Config r) ''git_path'')" "\<not> hasTraversal (cfg (ro_Config r') ''git_path'')"
    by (auto simp: same_control_def same_config_def)
  have ctx: "agree (git_context a) (git_context b)" for a b
    unfolding git_context_def
    by (intro agree_append agree_ln agree_shQuote agree_dq agree_unquoting; simp add: const_simps)
  have src: "agree ''/src'' ''/src''" by (rule agree_unquoting) (simp add: const_simps)
  show ?thesis
    unfolding git_chart_def Let_def using tr
    by (simp only: rgc simp_thms if_False fst_conv snd_conv)
      (intro agree_append agree_ln agree_shQuote agree_if agree_gitClone [OF ref src] agree_dq ctx inst agree_unquoting;
       simp add: const_simps)
qed

lemma agree_chart_part:
  assumes "same_control r r'" and "length fs = length fs'"
  shows "agree (fst (chart_part r fs v)) (fst (chart_part r' fs' v'))"
  using agree_http_chart [OF assms] agree_oci_chart [OF assms] agree_git_chart [OF assms] assms(1)
  by (auto simp: chart_part_def same_control_def)

lemma agree_git_helper: "agree git_helper_line git_helper_line"
  unfolding git_helper_line_def
  by (intro agree_append agree_ln agree_shQuote agree_unquoting; simp add: const_simps)

lemma agree_script_head: "agree script_head script_head"
  unfolding script_head_def by (intro agree_append agree_ln agree_unquoting; simp add: const_simps)

lemma agree_helm_setup: "same_control r r' \<Longrightarrow> agree (helm_setup r) (helm_setup r')"
  unfolding helm_setup_def same_control_def
  by (simp only:)
    (intro agree_append agree_ln agree_shQuote agree_if agree_sq agree_script_head agree_git_helper agree_unquoting;
     simp add: const_simps)

lemma agree_uninstall_line: "agree (uninstall_line r) (uninstall_line r')"
  unfolding uninstall_line_def
  by (intro agree_append agree_ln agree_shQuote agree_unquoting; simp add: const_simps)

lemma agree_helm_Script:
  assumes "same_control r r'"
  shows "agree (helm_Script r) (helm_Script r')"
proof -
  from assms have act: "ro_Action r' = ro_Action r" and force: "\<not> ro_Force r" "\<not> ro_Force r'"
    and srcs: "list_all2 same_source (ro_ValuesSources r) (ro_ValuesSources r')"
    by (auto simp: same_control_def)
  obtain out out' fs fs' where v:
    "values_sources 0 (ro_ValuesSources r) [] = (out, Some fs)"
    "values_sources 0 (ro_ValuesSources r') [] = (out', Some fs')" "agree out out'" "length fs = length fs'"
    using agree_values_sources [OF srcs, of "[]" "[]" 0] by auto
  let ?v = "CredsMountPath @ ''/values.yaml''"
  obtain c g c' g' where c: "chart_part r fs ?v = (c, g)" "chart_part r' fs' ?v = (c', g')" by force
  with agree_chart_part [OF assms v(4), of ?v ?v] have "agree c c'" by simp
  then have "agree (helm_setup r @ out @ c) (helm_setup r' @ out' @ c')"
    by (intro agree_append agree_helm_setup assms v(3))
  moreover have "agree (script_head @ uninstall_line r) (script_head @ uninstall_line r')"
    by (intro agree_append agree_script_head agree_uninstall_line)
  ultimately show ?thesis
    by (simp add: helm_Script_def act v c force del: append.append_Cons)
qed

section \<open>Manifest\<close>

definition same_manifest :: "ManifestApply \<Rightarrow> ManifestApply \<Rightarrow> bool" where
  "same_manifest a a' \<longleftrightarrow>
     ma_Action a = ma_Action a' \<and> ma_HasGitToken a = ma_HasGitToken a' \<and>
     ref_class (ma_GitRef a) = ref_class (ma_GitRef a') \<and>
     \<not> hasTraversal (ma_Path a) \<and> \<not> hasTraversal (ma_Path a')"

lemma agree_manifest_preview: "agree (manifest_preview t) (manifest_preview t')"
  unfolding manifest_preview_def
  by (intro agree_append agree_ln agree_shQuote agree_sq agree_dq agree_unquoting; simp add: const_simps)

lemma agree_manifest_Script:
  assumes "same_manifest a a'"
  shows "agree (manifest_Script a) (manifest_Script a')"
proof -
  from assms have s: "ma_Action a' = ma_Action a" "ma_HasGitToken a' = ma_HasGitToken a"
    "\<not> hasTraversal (ma_Path a)" "\<not> hasTraversal (ma_Path a')"
    and ref: "ref_class (ma_GitRef a) = ref_class (ma_GitRef a')" by (auto simp: same_manifest_def)
  have src: "agree ''/src'' ''/src''" by (rule agree_unquoting) (simp add: const_simps)
  show ?thesis
    unfolding manifest_Script_def Let_def
    by (simp only: s if_False)
      (intro agree_append agree_ln agree_shQuote agree_if agree_script_head agree_git_helper agree_gitClone [OF ref src]
         agree_dq agree_manifest_preview agree_unquoting; simp add: const_simps)
qed

end
