(* ===== verification/Tofu_Props.thy ===== *)
theory Tofu_Props
  imports TofuScript Script_Props
begin

text \<open>
  What the readers of an OpenTofu step's logs guarantee, and what its script hands to the shell.
\<close>

section \<open>Joined lines\<close>

lemma str_join_append:
  "xs \<noteq> [] \<Longrightarrow> ys \<noteq> [] \<Longrightarrow> str_join sep (xs @ ys) = str_join sep xs @ sep @ str_join sep ys"
proof (induction sep xs rule: str_join.induct)
  case (2 sep x)
  then show ?case by (cases ys) auto
qed auto

lemma str_join_take: "prefix (str_join sep (take n xs)) (str_join sep xs)"
proof (cases "take n xs = [] \<or> drop n xs = []")
  case True
  then show ?thesis by auto
next
  case False
  with str_join_append [of "take n xs" "drop n xs" sep] show ?thesis
    by (metis append_take_drop_id prefixI)
qed

lemma str_join_drop: "suffix (str_join sep (drop n xs)) (str_join sep xs)"
proof (cases "take n xs = [] \<or> drop n xs = []")
  case True
  then show ?thesis by auto
next
  case False
  with str_join_append [of "take n xs" "drop n xs" sep] show ?thesis
    by (metis append.assoc append_take_drop_id suffixI)
qed

lemma trim_right_prefix: "prefix (trim_right_set cs s) s"
proof -
  have "s = rev (dropWhile (\<lambda>c. c \<in> set cs) (rev s)) @ rev (takeWhile (\<lambda>c. c \<in> set cs) (rev s))"
    by (metis rev_append rev_rev_ident takeWhile_dropWhile_id)
  then show ?thesis unfolding trim_right_set_def by (metis prefixI)
qed

lemma block_text_sublist: "sublist (block_text (slice a b (split_lines logs))) logs"
proof -
  have "sublist (block_text (slice a b (split_lines logs))) (str_join [newline] (slice a b (split_lines logs)))"
    unfolding block_text_def by (rule prefix_imp_sublist [OF trim_right_prefix])
  moreover have "sublist (str_join [newline] (slice a b (split_lines logs))) (str_join [newline] (take b (split_lines logs)))"
    unfolding slice_def by (rule suffix_imp_sublist [OF str_join_drop])
  moreover have "sublist (str_join [newline] (take b (split_lines logs))) (str_join [newline] (split_lines logs))"
    by (rule prefix_imp_sublist [OF str_join_take])
  moreover have "str_join [newline] (split_lines logs) = logs" by (simp add: split_lines_def)
  ultimately show ?thesis by (metis sublist_order.order_trans)
qed

section \<open>The parsed plan\<close>

definition replaced :: "ResourceChange list \<Rightarrow> nat" where
  "replaced rs = length (filter (\<lambda>r. rc_Action r = ''replace'') rs)"

definition plan_consistent :: "string \<Rightarrow> Plan \<Rightarrow> bool" where
  "plan_consistent logs p \<longleftrightarrow>
     pl_Replace p = replaced (pl_Resources p) \<and>
     (pl_Resources p \<noteq> [] \<or> pl_OutputsChanged p \<longrightarrow> pl_HasChanges p) \<and>
     (pl_HasChanges p \<longrightarrow> pl_Found p) \<and>
     (pl_HasDrift p \<longleftrightarrow> pl_Drift p \<noteq> []) \<and>
     (\<not> pl_Found p \<longrightarrow> pl_Body p = [] \<and> pl_Add p = 0 \<and> pl_Change p = 0 \<and> pl_Destroy p = 0) \<and>
     sublist (pl_Body p) logs"

definition block_replaced :: "open_block \<Rightarrow> nat" where
  "block_replaced cur = (case cur of None \<Rightarrow> 0 | Some (r, ls) \<Rightarrow> if rc_Action r = ''replace'' then 1 else 0)"

lemma replaced_flush [simp]: "replaced (flush_block cur rs) = replaced rs + block_replaced cur"
  by (auto simp: flush_block_def block_replaced_def replaced_def split: option.splits)

lemma block_replaced_simps [simp]:
  "block_replaced None = 0"
  "block_replaced (extend_block cur line) = block_replaced cur"
  "block_replaced (open_heading classify a p line) = (if fst (classify p) = ''replace'' then 1 else 0)"
  by (auto simp: block_replaced_def extend_block_def open_heading_def split: option.splits prod.splits)

definition walk_inv :: "Plan \<Rightarrow> walk \<Rightarrow> bool" where
  "walk_inv p0 w \<longleftrightarrow>
     pl_Replace (wk_plan w) = replaced (pl_Resources (wk_plan w)) + block_replaced (wk_cur w) \<and>
     (wk_inActions w \<or> wk_cur w \<noteq> None \<or> pl_Resources (wk_plan w) \<noteq> [] \<or> pl_OutputsChanged (wk_plan w) \<longrightarrow>
        pl_HasChanges (wk_plan w)) \<and>
     pl_Found (wk_plan w) \<and> pl_Drift (wk_plan w) = pl_Drift p0 \<and> pl_HasDrift (wk_plan w) = pl_HasDrift p0"

lemma flush_block_Nil [simp]: "flush_block cur rs = [] \<longleftrightarrow> rs = [] \<and> cur = None"
  by (auto simp: flush_block_def split: option.splits)

lemma walk_inv_flush: "walk_inv p0 w \<Longrightarrow> walk_inv p0 (flush_walk w)"
  by (auto simp: walk_inv_def flush_walk_def)

lemma open_block_simps [simp]:
  "extend_block cur line = None \<longleftrightarrow> cur = None"
  "open_heading classify addr phrase line \<noteq> None"
  by (simp_all add: extend_block_def open_heading_def split: prod.split)

lemma walk_inv_line:
  assumes "walk_inv p0 w"
  shows "walk_inv p0 (walk_line w line)"
proof -
  have flushed: "wk_cur (flush_walk w) = None" "wk_inActions (flush_walk w) = wk_inActions w"
    by (simp_all add: flush_walk_def)
  note inv = walk_inv_flush [OF assms]
  consider a c d where "planTotals (trim_space line) = Some (a, c, d)"
    | "planTotals (trim_space line) = None" "trim_space line = ''Changes to Outputs:''"
    | "planTotals (trim_space line) = None" "trim_space line \<noteq> ''Changes to Outputs:''"
    by (metis option.exhaust prod_cases3)
  then show ?thesis
  proof cases
    case 1
    with inv flushed show ?thesis by (simp add: walk_line_def walk_inv_def Let_def)
  next
    case 2
    with inv flushed show ?thesis by (simp add: walk_line_def walk_inv_def Let_def)
  next
    case 3
    show ?thesis
    proof (cases "wk_inActions w \<and> resourceHeading line \<noteq> None")
      case True
      then obtain addr phrase where "resourceHeading line = Some (addr, phrase)" by auto
      with True 3 inv flushed show ?thesis by (simp add: walk_line_def walk_inv_def Let_def)
    next
      case False
      then consider "\<not> wk_inActions w" | "wk_inActions w" "resourceHeading line = None" by blast
      then show ?thesis
        by cases (use 3 assms in \<open>simp_all add: walk_line_def walk_inv_def Let_def\<close>)
    qed
  qed
qed

lemma walk_inv_fold: "walk_inv p0 w \<Longrightarrow> walk_inv p0 (foldl walk_line w body)"
  by (induction body arbitrary: w) (auto intro: walk_inv_line)

lemma with_drift_simps:
  "pl_Replace (with_drift ls) = 0" "pl_Resources (with_drift ls) = []" "pl_OutputsChanged (with_drift ls) = False"
  "pl_HasChanges (with_drift ls) = False" "pl_Found (with_drift ls) = False" "pl_Body (with_drift ls) = []"
  "pl_Add (with_drift ls) = 0" "pl_Change (with_drift ls) = 0" "pl_Destroy (with_drift ls) = 0"
  "pl_HasDrift (with_drift ls) \<longleftrightarrow> pl_Drift (with_drift ls) \<noteq> []"
  by (simp_all add: with_drift_def empty_plan_def Let_def)

lemma ParsePlan_consistent: "plan_consistent logs (ParsePlan logs)"
proof -
  let ?ls = "split_lines logs"
  let ?from = "case drift_bounds ?ls of None \<Rightarrow> 0 | Some (s, e) \<Rightarrow> e"
  show ?thesis
  proof (cases "plan_start ?from ?ls")
    case None
    then show ?thesis
      by (auto simp: ParsePlan_def Let_def plan_consistent_def with_drift_simps replaced_def block_text_sublist
          split: option.splits)
  next
    case (Some start)
    define body where "body = slice start (plan_end start ?ls) ?ls"
    define p1 where "p1 = (with_drift ?ls)\<lparr>pl_Found := True,
      pl_HasChanges := actions_heading (?ls ! start) \<or> (pl_RefreshOnly (with_drift ?ls) \<and> pl_HasDrift (with_drift ?ls))\<rparr>"
    define w where "w = flush_walk (foldl walk_line \<lparr>wk_inActions = pl_HasChanges p1, wk_cur = None, wk_plan = p1\<rparr> body)"
    have "walk_inv (with_drift ?ls) \<lparr>wk_inActions = pl_HasChanges p1, wk_cur = None, wk_plan = p1\<rparr>"
      by (simp add: walk_inv_def p1_def with_drift_simps replaced_def)
    then have inv: "walk_inv (with_drift ?ls) w"
      unfolding w_def by (intro walk_inv_flush walk_inv_fold)
    have "wk_cur w = None" by (simp add: w_def flush_walk_def)
    moreover have "ParsePlan logs = (wk_plan w)\<lparr>pl_Body := block_text body\<rparr>"
      unfolding ParsePlan_def w_def p1_def body_def using Some by (simp add: Let_def)
    moreover have "sublist (block_text body) logs" unfolding body_def by (rule block_text_sublist)
    ultimately show ?thesis
      using inv with_drift_simps(10) [of ?ls] by (auto simp: plan_consistent_def walk_inv_def)
  qed
qed

section \<open>The verdict\<close>

definition marker_line :: "string \<Rightarrow> bool" where
  "marker_line line \<longleftrightarrow> trim_right_set [CHR 0x0D] line \<in> {PlanChangesPrefix @ ''true'', PlanChangesPrefix @ ''false''}"

lemma verdict_no_marker: "list_all (\<lambda>l. \<not> marker_line l) ls \<Longrightarrow> foldl verdict_line acc ls = acc"
  by (induction ls arbitrary: acc) (auto simp: verdict_line_def marker_line_def Let_def)

lemma split_on_append: "split_on c (a @ c # b) = split_on c a @ split_on c b"
proof (induction c a rule: split_on.induct)
  case (2 c x xs)
  obtain l ls where "split_on c xs = l # ls" by (cases "split_on c xs") auto
  with 2 show ?case by auto
qed simp

lemma split_lines_append: "split_lines (a @ newline # b) = split_lines a @ split_lines b"
  by (simp add: split_lines_def split_on_append)

definition verdict_text :: "bool \<Rightarrow> string" where
  "verdict_text v = PlanChangesPrefix @ (if v then ''true'' else ''false'')"

lemma split_on_fresh: "c \<notin> set s \<Longrightarrow> split_on c s = [s]"
  by (induction c s rule: split_on.induct) auto

lemma verdict_text_line: "split_lines (verdict_text v) = [verdict_text v]"
proof -
  have "newline \<notin> set (verdict_text v)" by (cases v) (simp_all add: verdict_text_def PlanChangesPrefix_def newline_def)
  then show ?thesis unfolding split_lines_def by (rule split_on_fresh)
qed

lemma verdict_text_step: "verdict_line acc (verdict_text v) = (v, True)"
proof -
  have "trim_right_set [CHR 0x0D] (verdict_text v) = verdict_text v"
    by (cases v) (simp_all add: trim_right_set_def verdict_text_def PlanChangesPrefix_def)
  then show ?thesis by (cases v) (simp_all add: verdict_line_def verdict_text_def)
qed

lemma PlanVerdict_last:
  assumes "list_all (\<lambda>l. \<not> marker_line l) (split_lines rest)"
  shows "PlanVerdict (logs @ newline # verdict_text v @ newline # rest) = (v, True)"
proof -
  have "split_lines (logs @ newline # verdict_text v @ newline # rest)
      = split_lines logs @ [verdict_text v] @ split_lines rest"
    by (simp only: split_lines_append verdict_text_line)
  then show ?thesis
    by (simp add: PlanVerdict_def verdict_text_step verdict_no_marker [OF assms])
qed

section \<open>State operations\<close>

definition op_field_ok :: "string \<Rightarrow> bool" where
  "op_field_ok v \<longleftrightarrow> v \<noteq> [] \<and> length v \<le> 1024 \<and> \<not> contains_any whitespace_chars v"

lemma check_field_None [simp]: "check_field name v = None \<longleftrightarrow> op_field_ok v"
  by (auto simp: check_field_def op_field_ok_def)

lemma check_fields_None [simp]: "check_fields fs = None \<longleftrightarrow> (\<forall>f\<in>set fs. op_field_ok (snd f))"
  by (induction fs) (auto simp: check_field_def op_field_ok_def split: if_splits)

lemma find_None [simp]: "find P xs = None \<longleftrightarrow> (\<forall>x\<in>set xs. \<not> P x)"
  by (auto simp: find_None_iff)

text \<open>The operands of a valid operation, in the order of its command.\<close>

definition op_operands :: "StateOp \<Rightarrow> string list" where
  "op_operands op =
     (if so_Operation op = StateOpForceUnlock then [so_LockID op]
      else if so_Operation op = StateOpRemove then [so_Address op]
      else if so_Operation op = StateOpMove then [so_Address op, so_NewAddress op]
      else [so_Address op, so_ImportID op])"

lemma StateOp_valid:
  assumes "StateOp_Validate op = None"
  shows "(\<exists>verb. StateOp_argv op flags = ''tofu'' # verb @ op_operands op) \<and> (\<forall>v\<in>set (op_operands op). op_field_ok v)"
proof -
  from assms obtain req un where f: "op_fields op = Some (req, un)" "\<forall>f\<in>set req. op_field_ok (snd f)"
    by (auto simp: StateOp_Validate_def split: option.splits)
  then consider "so_Operation op = StateOpForceUnlock" | "so_Operation op = StateOpRemove"
    | "so_Operation op = StateOpMove" | "so_Operation op = StateOpImport"
    by (auto simp: op_fields_def Let_def split: if_splits)
  then show ?thesis
    using f by cases (auto simp: op_fields_def StateOp_argv_def op_operands_def Let_def)
qed

lemma argv_line_splits:
  "shell_split (''tofu'' @ concat (map (\<lambda>x. '' '' @ shQuote x) ts)) = Some (''tofu'' # ts)"
proof -
  have "list_all plain_char ''tofu''" by code_simp
  then have "shell_split (''tofu'' @ rest) = sh_words Bare ([] @ ''tofu'') True rest" for rest
    by (rule sh_words_plain) simp
  then show ?thesis by (simp only: append_Nil sh_words_quoted_tail)
qed

section \<open>Targets\<close>

lemma targetAddress_start:
  assumes "targetAddress_match t"
  shows "\<exists>c cs. t = c # cs \<and> seg_start c"
proof -
  from assms have "segment_rest t \<noteq> None" by (subst (asm) targetAddress_match.simps) (auto split: option.splits)
  then show ?thesis by (auto simp: segment_rest_def split: list.splits if_splits)
qed

lemma target_faults_None:
  "target_faults seen ts = None \<longleftrightarrow>
     distinct ts \<and> seen \<inter> set ts = {} \<and>
     (\<forall>t\<in>set ts. length t \<le> 1024 \<and> targetAddress_match t \<and> CHR ''.'' \<in> set t)"
proof (induction seen ts rule: target_faults.induct)
  case (2 seen t ts)
  have "t \<noteq> []" if "targetAddress_match t" using targetAddress_start [OF that] by auto
  with 2 show ?case by auto
qed simp

section \<open>The backend file\<close>

text \<open>A text without line breaks is one line.\<close>

definition one_line :: "string \<Rightarrow> bool" where
  "one_line s \<longleftrightarrow> newline \<notin> set s"

lemma one_line_simps [simp]:
  "one_line []" "one_line (c # cs) \<longleftrightarrow> c \<noteq> newline \<and> one_line cs" "one_line (a @ b) \<longleftrightarrow> one_line a \<and> one_line b"
  by (auto simp: one_line_def)

lemma char_not_newline [simp]:
  assumes "11 \<le> n" and "n < 256"
  shows "char_of (n :: nat) \<noteq> newline" and "newline \<noteq> char_of (n :: nat)"
proof -
  show "char_of n \<noteq> newline"
  proof
    assume e: "char_of n = newline"
    have "n = of_char (char_of n :: char)" using assms(2) by simp
    also have "\<dots> = 10" unfolding e by (simp add: newline_def)
    finally show False using assms(1) by simp
  qed
  then show "newline \<noteq> char_of n" by simp
qed

lemma encode_rune_one_line:
  assumes "11 \<le> r" and "r < 0x110000"
  shows "one_line (encode_rune r)"
proof -
  have "r div 64 < 32" if "r < 0x800" using that by simp
  moreover have "r div 4096 < 16" if "r < 0x10000" using that by simp
  moreover have "r div 262144 < 5" using assms(2) by simp
  moreover have "r div 64 mod 64 < 64" "r mod 64 < 64" "r div 4096 mod 64 < 64" by simp_all
  ultimately show ?thesis
    using assms(1) by (auto simp: encode_rune_def byte_list_def)
qed

lemma decode_rune_bound: "fst (decode_rune s) < 0x110000"
proof -
  have c: "byte_at s k < 256" for k by (simp add: byte_at_def)
  show ?thesis
    using c [of 0] c [of 1] c [of 2] c [of 3]
    by (auto simp: decode_rune_def Let_def is_cont_def rune_error_def)
qed

lemma hex_digits_one_line: "one_line (hex_digits k n)"
proof -
  have "hex_char d \<noteq> newline" if "d < 16" for d
    using that by (auto simp: hex_char_def)
  then show ?thesis by (induction k arbitrary: n) auto
qed

lemma quote_rune_one_line:
  assumes "r < 0x110000"
  shows "one_line (quote_rune p r)"
proof -
  have c: "char_of (92 :: nat) \<noteq> newline" "char_of (34 :: nat) \<noteq> newline" by simp_all
  have l: "CHR ''a'' \<noteq> newline" "CHR ''b'' \<noteq> newline" "CHR ''f'' \<noteq> newline" "CHR ''n'' \<noteq> newline"
    "CHR ''r'' \<noteq> newline" "CHR ''t'' \<noteq> newline" "CHR ''v'' \<noteq> newline" "CHR ''x'' \<noteq> newline"
    "CHR ''u'' \<noteq> newline" "CHR ''U'' \<noteq> newline" by (simp_all add: newline_def)
  show ?thesis
    using assms c l by (auto simp: quote_rune_def Let_def hex_digits_one_line intro!: encode_rune_one_line)
qed

lemma quote_body_one_line: "one_line (quote_body p s)"
proof (induction p s rule: quote_body.induct)
  case (1 p s)
  have "char_of (92 :: nat) \<noteq> newline" "CHR ''x'' \<noteq> newline" by simp_all (simp add: newline_def)
  with 1 show ?case
    by (simp add: quote_body.simps [of p s] hex_digits_one_line quote_rune_one_line decode_rune_bound)
qed

lemma quote_go_one_line [simp]: "one_line (quote_go p s)"
  by (simp add: quote_go_def quote_body_one_line)

lemma split_lines_ln: "one_line s \<Longrightarrow> split_lines (ln s @ rest) = s # split_lines rest"
  by (simp add: ln_def split_lines_append) (simp add: split_lines_def one_line_def split_on_fresh)

lemma split_lines_concat:
  "\<forall>k\<in>set ks. one_line (f k) \<Longrightarrow>
     split_lines (concat (map (\<lambda>k. ln (f k)) ks) @ rest) = map f ks @ split_lines rest"
  by (induction ks) (simp_all add: split_lines_ln)

lemma insert_sorted_set: "set (insert_sorted k xs) = insert k (set xs)"
  by (induction xs) auto

lemma sorted_keys_set: "set (sorted_keys c) = fst ` set c"
proof -
  have "set (foldr insert_sorted ks []) = set ks" for ks by (induction ks) (auto simp: insert_sorted_set)
  then show ?thesis by (simp add: sorted_keys_def)
qed

end
