(* ===== verification/Script_Claims.thy ===== *)
theory Script_Claims
  imports Tofu_Props
begin

text \<open>The properties of the rendered scripts and of the log readers, with demonstrations.\<close>

section \<open>Helm and manifest scripts\<close>








text \<open>
  The message about a rejected path prints the path itself inside single quotes without escaping it:
  any command can be put there and the shell interprets it, before anything else of the step runs.
\<close>

definition injected_path :: "string \<Rightarrow> string" where
  "injected_path cmd = ''../'' @ [squote] @ cmd @ [squote]"

lemma injected_path_traversal: "hasTraversal (injected_path cmd)"
proof -
  have "split_on CHR ''/'' (''../'' @ r) = ''..'' # split_on CHR ''/'' r" for r by simp
  then show ?thesis by (simp add: hasTraversal_def injected_path_def bslash_def)
qed

lemma quoted_skip: "unquoting x \<Longrightarrow> interpreted Bare ([squote] @ x @ [squote] @ t) = interpreted Bare t"
  by (simp add: interpreted_append unquoting_interpreted)

lemma bare_keep: "unquoting x \<Longrightarrow> interpreted Bare (x @ t) = x @ interpreted Bare t"
  by (simp add: interpreted_append unquoting_interpreted)

lemma rejected_path_is_interpreted:
  assumes "ma_Path a = injected_path cmd" and "unquoting cmd"
  shows "sublist cmd (interpreted Bare (manifest_Script a))"
proof -
  define m where "m = ''invalid path (path traversal not allowed): ''"
  have m: "unquoting (m @ ''../'')" by (simp add: m_def const_simps)
  define rest where "rest = [squote] @ [squote] @ '' >&2'' @ [newline] @ ln ''exit 1''"
  have quoted: "interpreted Bare ([squote] @ (m @ ''../'') @ [squote] @ cmd @ t) = cmd @ interpreted Bare t" for t
    by (simp only: quoted_skip [OF m] bare_keep [OF assms(2)])
  have "manifest_Script a = script_head @ ''echo '' @ [squote] @ (m @ ''../'') @ [squote] @ cmd @ rest"
    unfolding manifest_Script_def assms(1) if_P [OF injected_path_traversal]
    by (simp only: injected_path_def sq_def ln_def m_def rest_def append_assoc)
  moreover have "quote_state Bare script_head = Bare"
    using agree_script_head by (auto simp: agree_def piece_def)
  moreover have "interpreted Bare (''echo '' @ t) = ''echo '' @ interpreted Bare t" for t
    by (rule bare_keep) (simp add: const_simps)
  ultimately have "interpreted Bare (manifest_Script a) =
      (interpreted Bare script_head @ ''echo '') @ cmd @ interpreted Bare rest"
    by (simp only: interpreted_append [of Bare script_head] quoted [unfolded append_assoc] append_assoc)
  then show ?thesis unfolding sublist_def by blast
qed

section \<open>OpenTofu scripts\<close>

text \<open>
  C30: the generated backend file is contained in its heredoc: when no setting's key holds a line break,
  the lines between the header and the terminator never spell the terminator, whatever the values are.
\<close>
theorem backend_file_contained:
  assumes "\<forall>kv\<in>set (ta_BackendConfig a). one_line (fst kv)"
  shows "\<exists>body. split_lines (backendOverride is_print a) =
      (''cat > backend_override.tf <<'' @ sq ''EOF'') # body @ [''EOF'', []] \<and> ''EOF'' \<notin> set body"
proof -
  have hd: "one_line (''cat > '' @ ''backend_override.tf'' @ '' <<'' @ sq ''EOF'')"
    by (simp add: sq_def squote_def newline_def)
  have tail: "split_lines (ln ''EOF'') = [''EOF'', []]"
    using split_lines_ln [of "''EOF''" "[]"] by (simp add: newline_def split_lines_def)
  let ?f = "\<lambda>k. ''    '' @ k @ '' = '' @ quote_go is_print (case map_of (ta_BackendConfig a) k of Some v \<Rightarrow> v | None \<Rightarrow> [])"
  have settings: "\<forall>k\<in>set (sorted_keys (ta_BackendConfig a)). one_line (?f k)"
    using assms by (auto simp: sorted_keys_set newline_def)
  have line: "setting_line is_print (ta_BackendConfig a) = (\<lambda>k. ln (?f k))"
    by (simp add: setting_line_def fun_eq_iff)
  show ?thesis
  proof (cases "ta_Backend a = BackendSpacefleet")
    case True
    then have "split_lines (backendOverride is_print a) =
        (''cat > backend_override.tf <<'' @ sq ''EOF'') #
        [''terraform {'', ''  backend '' @ dq ''http'' @ '' {'',
         ''    address        = '' @ quote_go is_print (ta_StateAddress a),
         ''    lock_address   = '' @ quote_go is_print (ta_StateAddress a @ ''/lock''),
         ''    unlock_address = '' @ quote_go is_print (ta_StateAddress a @ ''/lock''),
         ''    lock_method    = '' @ quote_go is_print ''POST'',
         ''    unlock_method  = '' @ quote_go is_print ''DELETE'', ''  }'', ''}''] @ [''EOF'', []]"
      using hd tail
      by (simp add: backendOverride_def heredoc_def http_backend_body_def split_lines_ln dq_def dquote_def newline_def
          del: append.append_Cons)
    then show ?thesis by (intro exI conjI, assumption) simp
  next
    case False
    have "split_lines (backendOverride is_print a) =
        (''cat > backend_override.tf <<'' @ sq ''EOF'') #
        ([''terraform {'', ''  backend '' @ quote_go is_print (ta_Backend a) @ '' {''] @
         map ?f (sorted_keys (ta_BackendConfig a)) @ [''  }'', ''}'']) @ [''EOF'', []]"
      using hd tail False
      by (simp add: backendOverride_def heredoc_def cloud_backend_body_def split_lines_ln line
          split_lines_concat [OF settings] newline_def del: append.append_Cons)
    then show ?thesis by (intro exI conjI, assumption) auto
  qed
qed

definition demo_apply :: "(string \<times> string) list \<Rightarrow> TofuApply" where
  "demo_apply backend_config =
     \<lparr>ta_Command = CommandStateOp, ta_Action = ActionStateOp, ta_RepoURL = ''https://example.com/i.git'', ta_GitRef = [],
      ta_Path = ''infra'', ta_Backend = BackendS3, ta_BackendConfig = backend_config, ta_StateAddress = [],
      ta_Namespace = JobsNamespace, ta_HasGitToken = False, ta_HasCloudAuth = True, ta_HasClusterAuth = False,
      ta_PlanArtifactSecret = ''tfplan-1'', ta_InitFlags = [], ta_PlanFlags = [''-var'', ''a=b c''], ta_ApplyFlags = [],
      ta_StateOp = Some \<lparr>so_Operation = StateOpImport, so_Address = ''aws_s3_bucket.logs'', so_NewAddress = [],
        so_LockID = [], so_ImportID = ''it'' @ [squote] @ ''s''\<rparr>,
      ta_Workspace = [], ta_TFVars = [], ta_PluginCacheDir = []\<rparr>"

definition demo_op :: StateOp where
  "demo_op =
     \<lparr>so_Operation = StateOpImport, so_Address = ''aws_s3_bucket.logs'', so_NewAddress = [], so_LockID = [],
      so_ImportID = ''it'' @ [squote] @ ''s''\<rparr>"

theorem backend_file_contained_witness:
  "\<exists>body. split_lines (backendOverride (\<lambda>_. True) (demo_apply [(''bucket'', ''a'' @ [newline] @ ''EOF'')])) =
      (''cat > backend_override.tf <<'' @ sq ''EOF'') # body @ [''EOF'', []] \<and> ''EOF'' \<notin> set body"
  by (rule backend_file_contained) code_simp

text \<open>
  The keys of the settings are printed as they are: one with a line break can end the heredoc early,
  and what follows is read by the shell.
\<close>

lemma backend_key_escapes:
  assumes "ta_Backend a \<noteq> BackendSpacefleet" and "(x @ [newline] @ ''EOF'' @ [newline] @ y, v) \<in> set (ta_BackendConfig a)"
  shows "\<exists>before after. backendOverride is_print a = before @ [newline] @ ''EOF'' @ [newline] @ y @ after \<and>
    suffix (ln ''EOF'') after"
proof -
  let ?k = "x @ [newline] @ ''EOF'' @ [newline] @ y"
  from assms(2) have "?k \<in> set (sorted_keys (ta_BackendConfig a))" by (force simp: sorted_keys_set)
  then obtain ks1 ks2 where ks: "sorted_keys (ta_BackendConfig a) = ks1 @ ?k # ks2" by (meson split_list)
  let ?c = "ta_BackendConfig a"
  have "backendOverride is_print a =
      (ln (''cat > '' @ ''backend_override.tf'' @ '' <<'' @ sq ''EOF'') @
       ln ''terraform {'' @ ln (''  backend '' @ quote_go is_print (ta_Backend a) @ '' {'') @
       concat (map (setting_line is_print ?c) ks1) @ ''    '' @ x) @ [newline] @ ''EOF'' @ [newline] @ y @
      (ln ('' = '' @ quote_go is_print (case map_of ?c ?k of Some v \<Rightarrow> v | None \<Rightarrow> [])) @
       concat (map (setting_line is_print ?c) ks2) @ ln ''  }'' @ ln ''}'' @ ln ''EOF'')"
    using assms(1)
    by (simp only: backendOverride_def heredoc_def cloud_backend_body_def ks if_False map_append list.map concat_append
        concat.simps setting_line_def [of is_print ?c ?k] append_assoc ln_def)
  moreover have "suffix s (t @ u @ w @ z @ s)" for s t u w z :: string
    unfolding suffix_def by (metis append.assoc)
  ultimately show ?thesis by blast
qed

text \<open>
  C22: a state operation runs exactly its command: for a valid operation the step's script is the
  tools, one command line and the capture of the outputs; a shell splits that line into the
  operation's argument vector, which ends with the operands, each a non-empty token of bounded length
  without white space.
\<close>
theorem state_op_runs_its_command:
  assumes "ta_StateOp a = Some op" and "StateOp_Validate op = None" and "ta_PlanArtifactSecret a \<noteq> []"
  shows "\<exists>line verb. state_op_part a = applyToolsInstall @ ln line @ storeOutputs a \<and>
    shell_split line = Some (StateOp_argv op (ImportFlags (ta_PlanFlags a))) \<and>
    StateOp_argv op (ImportFlags (ta_PlanFlags a)) = ''tofu'' # verb @ op_operands op \<and>
    (\<forall>v\<in>set (op_operands op). op_field_ok v)"
proof -
  let ?argv = "StateOp_argv op (ImportFlags (ta_PlanFlags a))"
  from StateOp_valid [OF assms(2), of "ImportFlags (ta_PlanFlags a)"] obtain verb where
    verb: "?argv = ''tofu'' # verb @ op_operands op" and ok: "\<forall>v\<in>set (op_operands op). op_field_ok v" by blast
  let ?line = "''tofu'' @ concat (map (\<lambda>x. '' '' @ shQuote x) (verb @ op_operands op))"
  have "state_op_part a = applyToolsInstall @ ln ?line @ storeOutputs a"
    using assms verb by (simp add: state_op_part_def)
  moreover have "shell_split ?line = Some ?argv" unfolding verb by (rule argv_line_splits)
  ultimately show ?thesis using verb ok by (intro exI conjI)
qed

theorem state_op_runs_its_command_witness:
  "\<exists>line verb. state_op_part (demo_apply []) = applyToolsInstall @ ln line @ storeOutputs (demo_apply []) \<and>
    shell_split line = Some (StateOp_argv demo_op (ImportFlags (ta_PlanFlags (demo_apply [])))) \<and>
    StateOp_argv demo_op (ImportFlags (ta_PlanFlags (demo_apply []))) = ''tofu'' # verb @ op_operands demo_op \<and>
    (\<forall>v\<in>set (op_operands demo_op). op_field_ok v)"
  by (rule state_op_runs_its_command) code_simp+

text \<open>An operand may begin with a dash, which OpenTofu reads as an option.\<close>

lemma state_op_accepts_option:
  "StateOp_Validate \<lparr>so_Operation = StateOpRemove, so_Address = ''-state=other.tfstate'', so_NewAddress = [],
     so_LockID = [], so_ImportID = []\<rparr> = None"
  by code_simp

text \<open>The shape of one target: short, a dotted address, beginning with a letter or an underscore.\<close>

definition target_ok :: "string \<Rightarrow> bool" where
  "target_ok t \<longleftrightarrow> length t \<le> 1024 \<and> targetAddress_match t \<and> CHR ''.'' \<in> set t \<and> seg_start (hd t)"

text \<open>
  A target list is accepted exactly when it is a list of at most 50 distinct resource addresses, and
  an address starts with a letter or an underscore, so that each flag is one \<open>-target\<close> option.
\<close>

lemma ValidateTargets_iff:
  "ValidateTargets ts = None \<longleftrightarrow> length ts \<le> 50 \<and> distinct ts \<and> list_all target_ok ts"
proof -
  have "seg_start (hd t)" if "targetAddress_match t" for t using targetAddress_start [OF that] by auto
  then show ?thesis
    unfolding ValidateTargets_def list_all_iff target_ok_def by (auto simp: not_less target_faults_None)
qed

section \<open>Logs\<close>

text \<open>
  The last verdict marker of a plan step's log decides, whatever was printed before it.
\<close>
lemma PlanVerdict_last_marker:
  assumes "list_all (\<lambda>l. \<not> marker_line l) (split_lines rest)"
  shows "PlanVerdict (logs @ [newline] @ verdict_text v @ [newline] @ rest) = (v, True)"
  using PlanVerdict_last [OF assms, of logs v] by simp

lemma PlanVerdict_last_marker_example:
  "PlanVerdict ((verdict_text True @ [newline] @ '' x'') @ [newline] @ verdict_text False @ [newline] @ ''bye'') =
   (False, True)"
  by (rule PlanVerdict_last_marker) code_simp

text \<open>
  A parsed plan is consistent: its replacements are counted, it has changes whenever it lists a
  resource or an output change, nothing is reported for a log without a plan, and its body is a
  contiguous part of the log.
\<close>
lemma ParsePlan_is_consistent: "plan_consistent logs (ParsePlan logs)"
  by (rule ParsePlan_consistent)

end
