(* ===== verification/Secrets.thy ===== *)
theory Secrets
  imports GoStrings
begin

text \<open>
  Envelope encryption of stored credentials (\<open>lib/secrets/secrets.go\<close>) and the contract its clients
  rely on. The cipher is \<open>cipher.AEAD\<close> of the Go standard library: a pair of functions of nonce and
  text in which opening what was sealed under the same nonce gives the text back.
\<close>

section \<open>The cipher\<close>

typedef aead = "{so :: (string \<Rightarrow> string \<Rightarrow> string) \<times> (string \<Rightarrow> string \<Rightarrow> string option).
    \<forall>n p. snd so n (fst so n p) = Some p}"
  by (rule exI [of _ "(\<lambda>n p. p, \<lambda>n c. Some c)"]) simp

setup_lifting type_definition_aead

lift_definition aead_seal :: "aead \<Rightarrow> string \<Rightarrow> string \<Rightarrow> string" is fst .

lift_definition aead_open :: "aead \<Rightarrow> string \<Rightarrow> string \<Rightarrow> string option" is snd .

lemma aead_open_seal [simp]: "aead_open g n (aead_seal g n p) = Some p"
  by transfer auto

text \<open>\<open>NonceSize\<close> of GCM.\<close>

definition nonce_size :: nat where
  "nonce_size = 12"

section \<open>The sealer\<close>

datatype seal_error = ErrDisabled | CiphertextTooShort | OpenFailed

type_synonym Sealer = "aead option"

definition Enabled :: "Sealer \<Rightarrow> bool" where
  "Enabled s \<longleftrightarrow> s \<noteq> None"

text \<open>\<open>nonce\<close> is what \<open>rand.Reader\<close> gave; the result is the nonce followed by the ciphertext.\<close>

definition Seal :: "Sealer \<Rightarrow> string \<Rightarrow> string \<Rightarrow> seal_error + string" where
  "Seal s nonce plaintext =
     (case s of None \<Rightarrow> Inl ErrDisabled | Some gcm \<Rightarrow> Inr (nonce @ aead_seal gcm nonce plaintext))"

definition Open :: "Sealer \<Rightarrow> string \<Rightarrow> seal_error + string" where
  "Open s ciphertext =
     (case s of
        None \<Rightarrow> Inl ErrDisabled
      | Some gcm \<Rightarrow>
          if length ciphertext < nonce_size then Inl CiphertextTooShort
          else case aead_open gcm (take nonce_size ciphertext) (drop nonce_size ciphertext) of
                 None \<Rightarrow> Inl OpenFailed
               | Some plaintext \<Rightarrow> Inr plaintext)"

section \<open>The contract\<close>

text \<open>What a store of sealed values needs: what was sealed is never empty and opens to itself.\<close>

locale sealer_contract =
  fixes seal :: "string \<Rightarrow> string \<Rightarrow> seal_error + string"
    and unseal :: "string \<Rightarrow> seal_error + string"
  assumes open_seal: "length nonce = nonce_size \<Longrightarrow> seal nonce v = Inr c \<Longrightarrow> unseal c = Inr v"
    and seal_nonempty: "length nonce = nonce_size \<Longrightarrow> seal nonce v = Inr c \<Longrightarrow> c \<noteq> []"

interpretation sealer: sealer_contract "Seal s" "Open s" for s
proof
  fix nonce v c
  assume n: "length nonce = nonce_size" and c: "Seal s nonce v = Inr c"
  from c obtain gcm where g: "s = Some gcm" "c = nonce @ aead_seal gcm nonce v"
    by (auto simp: Seal_def split: option.splits)
  with n show "Open s c = Inr v" by (simp add: Open_def)
  from g n show "c \<noteq> []" by (auto simp: nonce_size_def)
qed

text \<open>A cipher for examples.\<close>

lift_definition demo_aead :: aead is "(\<lambda>n p. rev p, \<lambda>n c. Some (rev c))"
  by simp

lemma demo_aead_simps [simp]: "aead_seal demo_aead n p = rev p" "aead_open demo_aead n c = Some (rev c)"
  by (transfer, simp)+

end
