(* ===== verification/Deploy.thy ===== *)
theory Deploy
  imports TofuScript Validate "HOL-Library.AList"
begin

text \<open>
  The resolution every step needs (\<open>lib/deploy/resolver.go\<close>): connections, kubeconfig, variables,
  chart credential, git token, cloud credential, lock table. The resolver's collaborators are the
  function-valued fields of its record, as in the code; an absent one (\<open>nil\<close>) is \<open>None\<close>. A map and
  the nil map read the same, so environments are maps.
\<close>

section \<open>Errors and inputs\<close>

text \<open>
  What ends the planning of a step; \<open>External\<close> carries the text of an error a collaborator returned
  (a database, a cluster, a cloud).
\<close>

datatype plan_error =
    External string
  | TargetNotPortable
  | ChartCredentialsUnconfigured
  | GitTokensUnconfigured
  | CloudCredentialsUnconfigured
  | UnknownRunAction string
  | UnsupportedType string
  | UnsupportedTofuVersion string
  | BadConfigValue string
  | FieldSyntax string parse_error
  | UndefinedVariable string string
  | GitRefUnavailable string
  | GitSourceNeeded string
  | GitShaOnlyInValues string
  | UnknownRunKeyRef string
  | OutputsUnavailable string
  | OutputLookup string plan_error
  | NoRecordedOutput string string
  | AmbiguousName string
  | NotInRun string
  | NoRecordedOutputs string
  | OutputsUnreadable string
  | BadRenderedNamespace string
  | ManagedStateUnconfigured

type_synonym env = "(string \<times> string) list"

record Connection =
  cn_Method :: string
  cn_Endpoint :: string
  cn_Config :: config
  cn_Credentials :: string

abbreviation MethodInCluster :: string where "MethodInCluster \<equiv> ''in_cluster''"

record RunInputs =
  ri_OrgID :: uuid
  ri_ApplicationID :: uuid
  ri_ComponentID :: uuid
  ri_RunnerClusterID :: uuid
  ri_TargetClusterID :: uuid
  ri_Values :: string
  ri_ChartCredentialID :: uuid
  ri_GitHubInstallationID :: uuid
  ri_CloudCredentialID :: uuid
  ri_DynamoDBLockTable :: string
  ri_DynamoDBLockRegion :: string
  ri_PullsChart :: bool
  ri_ExposeTFVars :: bool

record Resolved =
  rs_RunnerConn :: Connection
  rs_TargetMethod :: string
  rs_Files :: env
  rs_HasCredential :: bool
  rs_HasGitToken :: bool
  rs_HasCloudAuth :: bool
  rs_Env :: env
  rs_SecretEnv :: env

text \<open>A decrypted cloud credential (\<open>cloudcredentials.Resolved\<close>).\<close>

record CloudCredential =
  cc_Provider :: string
  cc_Config :: config
  cc_Secrets :: config

record Resolver =
  rv_Conn :: "uuid \<Rightarrow> uuid \<Rightarrow> plan_error + Connection"
  rv_Kubeconfig :: "Connection \<Rightarrow> bool \<Rightarrow> plan_error + string"
  rv_Creds :: "(uuid \<Rightarrow> uuid \<Rightarrow> plan_error + string \<times> string) option"
  rv_GitTokens :: "(uuid \<Rightarrow> uuid \<Rightarrow> plan_error + string) option"
  rv_CloudCreds :: "(uuid \<Rightarrow> uuid \<Rightarrow> plan_error + CloudCredential) option"
  rv_AssumeRole :: "CloudCredential \<Rightarrow> plan_error + string \<times> string \<times> string"
  rv_Vars :: "(uuid \<Rightarrow> uuid \<Rightarrow> uuid \<Rightarrow> plan_error + env \<times> env) option"
  rv_EnsureLockTable :: "env \<Rightarrow> string \<Rightarrow> string \<Rightarrow> plan_error option"

section \<open>Variables as module inputs\<close>

definition tfVarPrefix :: string where
  "tfVarPrefix = ''TF_VAR_''"

text \<open>A name that carries the prefix, or whose prefixed form is in either map, gets no copy.\<close>

definition withTFVars :: "env \<Rightarrow> env \<Rightarrow> env" where
  "withTFVars env other =
     env @ map (\<lambda>(k, v). (tfVarPrefix @ k, v))
       (filter (\<lambda>(k, v). \<not> prefix tfVarPrefix k \<and> map_of env (tfVarPrefix @ k) = None \<and>
          map_of other (tfVarPrefix @ k) = None) env)"

section \<open>The credential file\<close>

text \<open>
  \<open>awsCredentials\<close> and \<open>AWSEnv\<close> of \<open>lib/cloudauth\<close>: the keys as stored, or those a role assumed over
  STS gives (\<open>assume\<close>).
\<close>

definition awsCredentials ::
  "(CloudCredential \<Rightarrow> plan_error + string \<times> string \<times> string) \<Rightarrow> CloudCredential \<Rightarrow>
     plan_error + string \<times> string \<times> string \<times> string" where
  "awsCredentials assume cc =
     (if cc_Provider cc \<noteq> ''aws'' then Inl (External ''cloudauth: not an aws credential'')
      else
        let accessKey = cfg (cc_Secrets cc) ''access_key_id'';
            secretKey = cfg (cc_Secrets cc) ''secret_access_key'';
            sessionToken = cfg (cc_Secrets cc) ''session_token'';
            region = cfg (cc_Config cc) ''region''
        in if accessKey = [] \<or> secretKey = []
           then Inl (External ''cloudauth: aws credential is missing access_key_id or secret_access_key'')
           else if cfg (cc_Config cc) ''role_arn'' = [] then Inr (accessKey, secretKey, sessionToken, region)
           else try_bind (assume cc) (\<lambda>(a, s, t). Inr (a, s, t, region)))"

definition AWSEnv ::
  "(CloudCredential \<Rightarrow> plan_error + string \<times> string \<times> string) \<Rightarrow> CloudCredential \<Rightarrow>
     plan_error + env \<times> string" where
  "AWSEnv assume cc =
     try_bind (awsCredentials assume cc) (\<lambda>(accessKey, secretKey, sessionToken, region).
       Inr ([(''AWS_ACCESS_KEY_ID'', accessKey), (''AWS_SECRET_ACCESS_KEY'', secretKey)] @
            (if sessionToken \<noteq> [] then [(''AWS_SESSION_TOKEN'', sessionToken)] else []), region))"

text \<open>The secret environment of a credential, for the mounted file, and its plain one.\<close>

definition cloud_Env ::
  "(CloudCredential \<Rightarrow> plan_error + string \<times> string \<times> string) \<Rightarrow> CloudCredential \<Rightarrow>
     plan_error + env \<times> env" where
  "cloud_Env assume cc =
     (if cc_Provider cc = ''aws'' then
        try_bind (AWSEnv assume cc) (\<lambda>(secret, region).
          Inr (secret, if region \<noteq> [] then [(''AWS_REGION'', region)] else []))
      else if cc_Provider cc = ''gcp'' then
        (let key = cfg (cc_Secrets cc) ''service_account_key''; project = cfg (cc_Config cc) ''project'' in
         if key = [] then Inl (External ''cloudauth: gcp credential is missing its service account key'')
         else Inr ([(''GOOGLE_CREDENTIALS'', key)],
           if project \<noteq> [] then [(''GOOGLE_PROJECT'', project), (''CLOUDSDK_CORE_PROJECT'', project)] else []))
      else if cc_Provider cc = ''azure'' then
        (let clientID = cfg (cc_Config cc) ''client_id''; tenantID = cfg (cc_Config cc) ''tenant_id'';
             clientSecret = cfg (cc_Secrets cc) ''client_secret''; sub = cfg (cc_Config cc) ''subscription_id'' in
         if clientID = [] \<or> tenantID = [] \<or> clientSecret = []
         then Inl (External ''cloudauth: azure credential is missing tenant_id, client_id, or client_secret'')
         else Inr ([(''ARM_CLIENT_SECRET'', clientSecret)],
           [(''ARM_CLIENT_ID'', clientID), (''ARM_TENANT_ID'', tenantID)] @
           (if sub \<noteq> [] then [(''ARM_SUBSCRIPTION_ID'', sub)] else [])))
      else Inl (External ''cloudauth: provider is not supported for OpenTofu authentication''))"

definition export_line :: "env \<Rightarrow> string \<Rightarrow> string" where
  "export_line env k =
     ln (''export '' @ k @ ''='' @ shQuote (case map_of env k of Some v \<Rightarrow> v | None \<Rightarrow> []))"

definition renderEnvFile :: "env \<Rightarrow> string" where
  "renderEnvFile env = concat (map (export_line env) (sorted_keys env))"

section \<open>Resolution\<close>

text \<open>The kubeconfig of the target, when there is one.\<close>

definition resolve_target :: "Resolver \<Rightarrow> RunInputs \<Rightarrow> Resolved \<Rightarrow> plan_error + Resolved" where
  "resolve_target r inp out =
     (if ri_TargetClusterID inp = uuid_Nil then Inr out
      else try_bind (rv_Conn r (ri_OrgID inp) (ri_TargetClusterID inp)) (\<lambda>target.
        let sameCluster = (ri_RunnerClusterID inp = ri_TargetClusterID inp) in
        if cn_Method target = MethodInCluster \<and> \<not> sameCluster then Inl TargetNotPortable
        else try_bind (rv_Kubeconfig r target sameCluster) (\<lambda>kubeconfig.
          Inr (out\<lparr>rs_TargetMethod := cn_Method target,
                   rs_Files := AList.update ''kubeconfig'' kubeconfig (rs_Files out)\<rparr>))))"

definition resolve_vars :: "Resolver \<Rightarrow> RunInputs \<Rightarrow> Resolved \<Rightarrow> plan_error + Resolved" where
  "resolve_vars r inp out =
     (case rv_Vars r of
        None \<Rightarrow> Inr out
      | Some vars \<Rightarrow>
          if ri_ApplicationID inp = uuid_Nil then Inr out
          else try_bind (vars (ri_OrgID inp) (ri_ApplicationID inp) (ri_ComponentID inp)) (\<lambda>(plain, secret).
            if ri_ExposeTFVars inp
            then Inr (out\<lparr>rs_Env := withTFVars plain secret, rs_SecretEnv := withTFVars secret plain\<rparr>)
            else Inr (out\<lparr>rs_Env := plain, rs_SecretEnv := secret\<rparr>)))"

definition resolve_chart :: "Resolver \<Rightarrow> RunInputs \<Rightarrow> Resolved \<Rightarrow> plan_error + Resolved" where
  "resolve_chart r inp out =
     (if ri_ChartCredentialID inp = uuid_Nil \<or> \<not> ri_PullsChart inp then Inr out
      else case rv_Creds r of
        None \<Rightarrow> Inl ChartCredentialsUnconfigured
      | Some creds \<Rightarrow>
          try_bind (creds (ri_OrgID inp) (ri_ChartCredentialID inp)) (\<lambda>(user, pass).
            Inr (out\<lparr>rs_Files := AList.update ''registry-password'' pass (AList.update ''registry-username'' user (rs_Files out)),
                     rs_HasCredential := True\<rparr>)))"

definition resolve_git :: "Resolver \<Rightarrow> RunInputs \<Rightarrow> Resolved \<Rightarrow> plan_error + Resolved" where
  "resolve_git r inp out =
     (if ri_GitHubInstallationID inp = uuid_Nil \<or> \<not> ri_PullsChart inp then Inr out
      else case rv_GitTokens r of
        None \<Rightarrow> Inl GitTokensUnconfigured
      | Some tokens \<Rightarrow>
          try_bind (tokens (ri_OrgID inp) (ri_GitHubInstallationID inp)) (\<lambda>token.
            Inr (out\<lparr>rs_Files := AList.update ''git-credentials''
                       (''https://x-access-token:'' @ token @ ''@github.com'') (rs_Files out),
                     rs_HasGitToken := True\<rparr>)))"

definition with_cloud :: "Resolver \<Rightarrow> RunInputs \<Rightarrow> Resolved \<Rightarrow> CloudCredential \<Rightarrow> env \<times> env \<Rightarrow> plan_error + Resolved" where
  "with_cloud r inp out cc envs =
     (case envs of (secretEnv, plainEnv) \<Rightarrow>
        let out' = out\<lparr>rs_Files := AList.update ''cloud.env'' (renderEnvFile secretEnv) (rs_Files out),
                       rs_Env := AList.updates (map fst plainEnv) (map snd plainEnv) (rs_Env out), rs_HasCloudAuth := True\<rparr>
        in if ri_DynamoDBLockTable inp \<noteq> [] \<and> cc_Provider cc = ''aws'' then
             (case rv_EnsureLockTable r secretEnv (ri_DynamoDBLockRegion inp) (ri_DynamoDBLockTable inp) of
                Some e \<Rightarrow> Inl e | None \<Rightarrow> Inr out')
           else Inr out')"

definition resolve_cloud :: "Resolver \<Rightarrow> RunInputs \<Rightarrow> Resolved \<Rightarrow> plan_error + Resolved" where
  "resolve_cloud r inp out =
     (if ri_CloudCredentialID inp = uuid_Nil then Inr out
      else case rv_CloudCreds r of
        None \<Rightarrow> Inl CloudCredentialsUnconfigured
      | Some creds \<Rightarrow>
          try_bind (creds (ri_OrgID inp) (ri_CloudCredentialID inp)) (\<lambda>cc.
          try_bind (cloud_Env (rv_AssumeRole r) cc) (with_cloud r inp out cc)))"

text \<open>A name of the plain environment wins over a secret one.\<close>

definition resolve_disjoint :: "Resolved \<Rightarrow> Resolved" where
  "resolve_disjoint out = out\<lparr>rs_SecretEnv := filter (\<lambda>kv. map_of (rs_Env out) (fst kv) = None) (rs_SecretEnv out)\<rparr>"

definition Resolve :: "Resolver \<Rightarrow> RunInputs \<Rightarrow> plan_error + Resolved" where
  "Resolve r inp =
     try_bind (rv_Conn r (ri_OrgID inp) (ri_RunnerClusterID inp)) (\<lambda>runner.
     try_bind (resolve_target r inp
       \<lparr>rs_RunnerConn = runner, rs_TargetMethod = [], rs_Files = [(''values.yaml'', ri_Values inp)],
        rs_HasCredential = False, rs_HasGitToken = False, rs_HasCloudAuth = False,
        rs_Env = [], rs_SecretEnv = []\<rparr>) (\<lambda>out.
     try_bind (resolve_vars r inp out) (\<lambda>out.
     try_bind (resolve_chart r inp out) (\<lambda>out.
     try_bind (resolve_git r inp out) (\<lambda>out.
     try_bind (resolve_cloud r inp out) (\<lambda>out.
     Inr (resolve_disjoint out)))))))"

end
