(* ===== verification/Variables.thy ===== *)
theory Variables
  imports Secrets Deploy
begin

text \<open>
  Workflow variables at the group, application and component level (\<open>lib/variables/service.go\<close>): the
  rows, the operations on them, and the merged environment of a run. Tables are lists in order of
  creation; the unique indexes (the primary key among them) and foreign keys of the migrations are
  checked where a row is written.
\<close>

section \<open>Tables\<close>

record Variable =
  va_ID :: uuid
  va_OrganizationID :: uuid
  va_ApplicationID :: uuid
  va_ComponentID :: "uuid option"
  va_Name :: string
  va_Sensitive :: bool
  va_Value :: string
  va_EncryptedValue :: "string option"

record GroupVariable =
  gv_ID :: uuid
  gv_OrganizationID :: uuid
  gv_GroupID :: uuid
  gv_Name :: string
  gv_Sensitive :: bool
  gv_Value :: string
  gv_EncryptedValue :: "string option"

text \<open>Applications as id, organization, group; components as id, organization, application; groups.\<close>

record vars_db =
  db_Apps :: "(uuid \<times> uuid \<times> uuid) list"
  db_Components :: "(uuid \<times> uuid \<times> uuid) list"
  db_Groups :: "(uuid \<times> uuid) list"
  db_Variables :: "Variable list"
  db_GroupVariables :: "GroupVariable list"

datatype var_error =
    BadVariableName string
  | EmptySensitiveValue
  | ComponentNotFound
  | GroupNotFound
  | DuplicateVariable string
  | VariableNotFound
  | ForeignKey
  | SealFailed seal_error

record CreateParams =
  cp_Name :: string
  cp_Sensitive :: bool
  cp_Value :: string

record UpdateParams =
  up_Name :: "string option"
  up_Value :: "string option"

section \<open>Scopes\<close>

definition in_scope :: "uuid \<Rightarrow> uuid \<Rightarrow> uuid option \<Rightarrow> Variable \<Rightarrow> bool" where
  "in_scope org app component v \<longleftrightarrow>
     va_OrganizationID v = org \<and> va_ApplicationID v = app \<and> va_ComponentID v = component"

definition in_group_scope :: "uuid \<Rightarrow> uuid \<Rightarrow> GroupVariable \<Rightarrow> bool" where
  "in_group_scope org grp v \<longleftrightarrow> gv_OrganizationID v = org \<and> gv_GroupID v = grp"

definition List_variables :: "vars_db \<Rightarrow> uuid \<Rightarrow> uuid \<Rightarrow> uuid option \<Rightarrow> Variable list" where
  "List_variables db org app component = filter (in_scope org app component) (db_Variables db)"

definition ListGroup :: "vars_db \<Rightarrow> uuid \<Rightarrow> uuid \<Rightarrow> GroupVariable list" where
  "ListGroup db org grp = filter (in_group_scope org grp) (db_GroupVariables db)"

definition get_variable :: "vars_db \<Rightarrow> uuid \<Rightarrow> uuid \<Rightarrow> uuid option \<Rightarrow> uuid \<Rightarrow> Variable option" where
  "get_variable db org app component i = find (\<lambda>v. in_scope org app component v \<and> va_ID v = i) (db_Variables db)"

definition getGroup :: "vars_db \<Rightarrow> uuid \<Rightarrow> uuid \<Rightarrow> uuid \<Rightarrow> GroupVariable option" where
  "getGroup db org grp i = find (\<lambda>v. in_group_scope org grp v \<and> gv_ID v = i) (db_GroupVariables db)"

text \<open>
  The unique indexes: an application's own variables by application and name, a component's by
  component and name, a group's by group and name.
\<close>

definition same_slot :: "Variable \<Rightarrow> Variable \<Rightarrow> bool" where
  "same_slot v w \<longleftrightarrow> va_Name v = va_Name w \<and>
     (case (va_ComponentID v, va_ComponentID w) of
        (None, None) \<Rightarrow> va_ApplicationID v = va_ApplicationID w
      | (Some a, Some b) \<Rightarrow> a = b
      | _ \<Rightarrow> False)"

definition same_group_slot :: "GroupVariable \<Rightarrow> GroupVariable \<Rightarrow> bool" where
  "same_group_slot v w \<longleftrightarrow> gv_Name v = gv_Name w \<and> gv_GroupID v = gv_GroupID w"

section \<open>Operations\<close>

text \<open>The stored forms of a value: sealed when sensitive, plain otherwise.\<close>

definition stored_value :: "Sealer \<Rightarrow> string \<Rightarrow> bool \<Rightarrow> string \<Rightarrow> var_error + string \<times> string option" where
  "stored_value s nonce sensitive v =
     (if sensitive then (case Seal s nonce v of Inl e \<Rightarrow> Inl (SealFailed e) | Inr c \<Rightarrow> Inr ([], Some c))
      else Inr (v, None))"

definition insert_variable :: "vars_db \<Rightarrow> Variable \<Rightarrow> var_error + Variable \<times> vars_db" where
  "insert_variable db v =
     (if list_ex (\<lambda>u. va_ID u = va_ID v \<or> same_slot v u) (db_Variables db) then Inl (DuplicateVariable (va_Name v))
      else if va_ApplicationID v \<notin> fst ` set (db_Apps db) then Inl ForeignKey
      else Inr (v, db\<lparr>db_Variables := db_Variables db @ [v]\<rparr>))"

definition Create_variable ::
  "Sealer \<Rightarrow> string \<Rightarrow> uuid \<Rightarrow> vars_db \<Rightarrow> uuid \<Rightarrow> uuid \<Rightarrow> uuid option \<Rightarrow> CreateParams \<Rightarrow>
     var_error + Variable \<times> vars_db" where
  "Create_variable s nonce i db org app component p =
     (if \<not> ident_match (cp_Name p) then Inl (BadVariableName (cp_Name p))
      else if cp_Sensitive p \<and> cp_Value p = [] then Inl EmptySensitiveValue
      else if (case component of None \<Rightarrow> False | Some c \<Rightarrow> (c, org, app) \<notin> set (db_Components db)) then Inl ComponentNotFound
      else try_bind (stored_value s nonce (cp_Sensitive p) (cp_Value p)) (\<lambda>(value, encrypted).
        insert_variable db
          \<lparr>va_ID = i, va_OrganizationID = org, va_ApplicationID = app, va_ComponentID = component,
           va_Name = cp_Name p, va_Sensitive = cp_Sensitive p, va_Value = value, va_EncryptedValue = encrypted\<rparr>))"

text \<open>A change of value keeps the other column as it is.\<close>

definition change_value ::
  "Sealer \<Rightarrow> string \<Rightarrow> bool \<Rightarrow> string \<times> string option \<Rightarrow> string option \<Rightarrow> var_error + string \<times> string option" where
  "change_value s nonce sensitive old new =
     (case new of
        None \<Rightarrow> Inr old
      | Some v \<Rightarrow>
          if sensitive then
            (if v = [] then Inl EmptySensitiveValue
             else case Seal s nonce v of Inl e \<Rightarrow> Inl (SealFailed e) | Inr c \<Rightarrow> Inr (fst old, Some c))
          else Inr (v, snd old))"

definition change_name :: "string \<Rightarrow> string option \<Rightarrow> var_error + string" where
  "change_name old new =
     (case new of
        None \<Rightarrow> Inr old
      | Some n \<Rightarrow> if ident_match n then Inr n else Inl (BadVariableName n))"

definition Update_variable ::
  "Sealer \<Rightarrow> string \<Rightarrow> vars_db \<Rightarrow> uuid \<Rightarrow> uuid \<Rightarrow> uuid option \<Rightarrow> uuid \<Rightarrow> UpdateParams \<Rightarrow>
     var_error + Variable \<times> vars_db" where
  "Update_variable s nonce db org app component i p =
     (case get_variable db org app component i of
        None \<Rightarrow> Inl VariableNotFound
      | Some v \<Rightarrow>
          try_bind (change_name (va_Name v) (up_Name p)) (\<lambda>name.
          try_bind (change_value s nonce (va_Sensitive v) (va_Value v, va_EncryptedValue v) (up_Value p)) (\<lambda>(value, encrypted).
            let w = v\<lparr>va_Name := name, va_Value := value, va_EncryptedValue := encrypted\<rparr> in
            if list_ex (\<lambda>u. va_ID u \<noteq> i \<and> same_slot w u) (db_Variables db) then Inl (DuplicateVariable name)
            else Inr (w, db\<lparr>db_Variables := map (\<lambda>u. if va_ID u = i then w else u) (db_Variables db)\<rparr>))))"

definition Delete_variable ::
  "vars_db \<Rightarrow> uuid \<Rightarrow> uuid \<Rightarrow> uuid option \<Rightarrow> uuid \<Rightarrow> var_error + vars_db" where
  "Delete_variable db org app component i =
     (case get_variable db org app component i of
        None \<Rightarrow> Inl VariableNotFound
      | Some v \<Rightarrow> Inr (db\<lparr>db_Variables := filter (\<lambda>u. va_ID u \<noteq> i) (db_Variables db)\<rparr>))"

definition CreateGroup ::
  "Sealer \<Rightarrow> string \<Rightarrow> uuid \<Rightarrow> vars_db \<Rightarrow> uuid \<Rightarrow> uuid \<Rightarrow> CreateParams \<Rightarrow>
     var_error + GroupVariable \<times> vars_db" where
  "CreateGroup s nonce i db org grp p =
     (if \<not> ident_match (cp_Name p) then Inl (BadVariableName (cp_Name p))
      else if cp_Sensitive p \<and> cp_Value p = [] then Inl EmptySensitiveValue
      else if (grp, org) \<notin> set (db_Groups db) then Inl GroupNotFound
      else try_bind (stored_value s nonce (cp_Sensitive p) (cp_Value p)) (\<lambda>(value, encrypted).
        let v = \<lparr>gv_ID = i, gv_OrganizationID = org, gv_GroupID = grp, gv_Name = cp_Name p,
                 gv_Sensitive = cp_Sensitive p, gv_Value = value, gv_EncryptedValue = encrypted\<rparr> in
        if list_ex (\<lambda>u. gv_ID u = gv_ID v \<or> same_group_slot v u) (db_GroupVariables db) then Inl (DuplicateVariable (cp_Name p))
        else Inr (v, db\<lparr>db_GroupVariables := db_GroupVariables db @ [v]\<rparr>)))"

definition UpdateGroup ::
  "Sealer \<Rightarrow> string \<Rightarrow> vars_db \<Rightarrow> uuid \<Rightarrow> uuid \<Rightarrow> uuid \<Rightarrow> UpdateParams \<Rightarrow>
     var_error + GroupVariable \<times> vars_db" where
  "UpdateGroup s nonce db org grp i p =
     (case getGroup db org grp i of
        None \<Rightarrow> Inl VariableNotFound
      | Some v \<Rightarrow>
          try_bind (change_name (gv_Name v) (up_Name p)) (\<lambda>name.
          try_bind (change_value s nonce (gv_Sensitive v) (gv_Value v, gv_EncryptedValue v) (up_Value p)) (\<lambda>(value, encrypted).
            let w = v\<lparr>gv_Name := name, gv_Value := value, gv_EncryptedValue := encrypted\<rparr> in
            if list_ex (\<lambda>u. gv_ID u \<noteq> i \<and> same_group_slot w u) (db_GroupVariables db) then Inl (DuplicateVariable name)
            else Inr (w, db\<lparr>db_GroupVariables := map (\<lambda>u. if gv_ID u = i then w else u) (db_GroupVariables db)\<rparr>))))"

definition DeleteGroup :: "vars_db \<Rightarrow> uuid \<Rightarrow> uuid \<Rightarrow> uuid \<Rightarrow> var_error + vars_db" where
  "DeleteGroup db org grp i =
     (case getGroup db org grp i of
        None \<Rightarrow> Inl VariableNotFound
      | Some v \<Rightarrow> Inr (db\<lparr>db_GroupVariables := filter (\<lambda>u. gv_ID u \<noteq> i) (db_GroupVariables db)\<rparr>))"

section \<open>The environment of a run\<close>

definition open_value :: "Sealer \<Rightarrow> string option \<Rightarrow> var_error + string" where
  "open_value s encrypted =
     (case encrypted of
        None \<Rightarrow> Inr []
      | Some c \<Rightarrow> if c = [] then Inr []
                  else (case Open s c of Inl e \<Rightarrow> Inl (SealFailed e) | Inr v \<Rightarrow> Inr v))"

definition resolveValue :: "Sealer \<Rightarrow> bool \<Rightarrow> string \<Rightarrow> string option \<Rightarrow> var_error + string" where
  "resolveValue s sensitive value encrypted = (if sensitive then open_value s encrypted else Inr value)"

text \<open>The closure \<open>set\<close>: into one map, out of the other.\<close>

definition env_set :: "string \<Rightarrow> string \<Rightarrow> bool \<Rightarrow> env \<times> env \<Rightarrow> env \<times> env" where
  "env_set name value sensitive ps =
     (case ps of (plain, secret) \<Rightarrow>
        if sensitive then (AList.delete name plain, AList.update name value secret)
        else (AList.update name value plain, AList.delete name secret))"

text \<open>The loops over the rows of one level; a level is a list of names with their columns.\<close>

type_synonym level = "(string \<times> bool \<times> string \<times> string option) list"

fun apply_level :: "Sealer \<Rightarrow> level \<Rightarrow> env \<times> env \<Rightarrow> var_error + env \<times> env" where
  "apply_level s [] ps = Inr ps"
| "apply_level s ((name, sensitive, value, encrypted) # rows) ps =
     try_bind (resolveValue s sensitive value encrypted) (\<lambda>v. apply_level s rows (env_set name v sensitive ps))"

definition variable_level :: "Variable list \<Rightarrow> level" where
  "variable_level vs = map (\<lambda>v. (va_Name v, va_Sensitive v, va_Value v, va_EncryptedValue v)) vs"

definition group_level :: "GroupVariable list \<Rightarrow> level" where
  "group_level vs = map (\<lambda>v. (gv_Name v, gv_Sensitive v, gv_Value v, gv_EncryptedValue v)) vs"

definition appGroupID :: "vars_db \<Rightarrow> uuid \<Rightarrow> uuid \<Rightarrow> uuid" where
  "appGroupID db org app =
     (case find (\<lambda>(a, o', g). a = app \<and> o' = org) (db_Apps db) of None \<Rightarrow> uuid_Nil | Some (a, o', g) \<Rightarrow> g)"

definition env_rows :: "vars_db \<Rightarrow> uuid \<Rightarrow> uuid \<Rightarrow> uuid \<Rightarrow> Variable list" where
  "env_rows db org app component =
     filter (\<lambda>v. va_OrganizationID v = org \<and> va_ApplicationID v = app \<and>
       (va_ComponentID v = None \<or> va_ComponentID v = Some component)) (db_Variables db)"

definition ResolveEnv :: "Sealer \<Rightarrow> vars_db \<Rightarrow> uuid \<Rightarrow> uuid \<Rightarrow> uuid \<Rightarrow> var_error + env \<times> env" where
  "ResolveEnv s db org app component =
     (let g = appGroupID db org app in
      try_bind (if g = uuid_Nil then Inr ([], []) else apply_level s (group_level (ListGroup db org g)) ([], [])) (\<lambda>ps.
      let rows = env_rows db org app component in
      try_bind (apply_level s (variable_level (filter (\<lambda>v. va_ComponentID v = None) rows)) ps) (\<lambda>ps.
      apply_level s (variable_level (filter (\<lambda>v. va_ComponentID v \<noteq> None) rows)) ps)))"

end
