(* ===== verification/Variables_Props.thy ===== *)
theory Variables_Props
  imports Variables
begin

text \<open>
  What the variable operations keep and what the merged environment is: the invariant of the two
  tables under any sequence of operations, and the environment against a reference that looks a name
  up level by level.
\<close>

section \<open>The invariant\<close>

definition row_ok :: "string \<Rightarrow> bool \<Rightarrow> string \<Rightarrow> string option \<Rightarrow> bool" where
  "row_ok name sensitive value encrypted \<longleftrightarrow>
     ident_match name \<and> (if sensitive then value = [] \<and> encrypted \<noteq> None else encrypted = None)"

definition variable_ok :: "Variable \<Rightarrow> bool" where
  "variable_ok v \<longleftrightarrow> row_ok (va_Name v) (va_Sensitive v) (va_Value v) (va_EncryptedValue v)"

definition group_variable_ok :: "GroupVariable \<Rightarrow> bool" where
  "group_variable_ok v \<longleftrightarrow> row_ok (gv_Name v) (gv_Sensitive v) (gv_Value v) (gv_EncryptedValue v)"

text \<open>A table: ids are distinct, rows are in order, no two rows take the same slot.\<close>

definition rows_wf :: "('r \<Rightarrow> uuid) \<Rightarrow> ('r \<Rightarrow> bool) \<Rightarrow> ('r \<Rightarrow> 'r \<Rightarrow> bool) \<Rightarrow> 'r list \<Rightarrow> bool" where
  "rows_wf ident ok slot vs \<longleftrightarrow> distinct (map ident vs) \<and> (\<forall>v \<in> set vs. ok v) \<and>
     (\<forall>v \<in> set vs. \<forall>w \<in> set vs. slot v w \<longrightarrow> ident v = ident w)"

abbreviation variables_wf :: "Variable list \<Rightarrow> bool" where
  "variables_wf \<equiv> rows_wf va_ID variable_ok same_slot"

abbreviation group_variables_wf :: "GroupVariable list \<Rightarrow> bool" where
  "group_variables_wf \<equiv> rows_wf gv_ID group_variable_ok same_group_slot"

text \<open>Every stored value opens under the sealer.\<close>

definition all_open :: "Sealer \<Rightarrow> vars_db \<Rightarrow> bool" where
  "all_open s db \<longleftrightarrow>
     (\<forall>v \<in> set (db_Variables db). \<exists>x. resolveValue s (va_Sensitive v) (va_Value v) (va_EncryptedValue v) = Inr x) \<and>
     (\<forall>v \<in> set (db_GroupVariables db). \<exists>x. resolveValue s (gv_Sensitive v) (gv_Value v) (gv_EncryptedValue v) = Inr x)"

definition vars_wf :: "Sealer \<Rightarrow> vars_db \<Rightarrow> bool" where
  "vars_wf s db \<longleftrightarrow> variables_wf (db_Variables db) \<and> group_variables_wf (db_GroupVariables db) \<and> all_open s db"

lemma same_slot_sym: "same_slot v w \<Longrightarrow> same_slot w v"
  by (auto simp: same_slot_def split: option.splits)

lemma same_group_slot_sym: "same_group_slot v w \<Longrightarrow> same_group_slot w v"
  by (auto simp: same_group_slot_def)

subsection \<open>Writing a row\<close>

lemma rows_wf_append:
  assumes "rows_wf ident ok slot vs" and "ok v"
    and "\<not> list_ex (\<lambda>u. ident u = ident v \<or> slot v u) vs"
    and "\<And>v w. slot v w \<Longrightarrow> slot w v"
  shows "rows_wf ident ok slot (vs @ [v])"
proof -
  have new: "ident u \<noteq> ident v" "ident v \<noteq> ident u" "\<not> slot v u" "\<not> slot u v" if "u \<in> set vs" for u
    using assms(3,4) that by (auto simp: list_ex_iff)
  then show ?thesis using assms(1,2) unfolding rows_wf_def by auto
qed

lemma rows_wf_replace:
  assumes "rows_wf ident ok slot vs" and "ok w" and "ident w = i"
    and "\<not> list_ex (\<lambda>u. ident u \<noteq> i \<and> slot w u) vs"
    and "\<And>v w. slot v w \<Longrightarrow> slot w v"
  shows "rows_wf ident ok slot (map (\<lambda>u. if ident u = i then w else u) vs)"
proof -
  let ?vs = "map (\<lambda>u. if ident u = i then w else u) vs"
  have "map ident ?vs = map ident vs"
    using assms(3) by (induction vs) auto
  then have "distinct (map ident ?vs)"
    using assms(1) by (simp add: rows_wf_def del: map_map)
  moreover have "\<forall>v \<in> set ?vs. ok v"
    using assms(1,2) by (auto simp: rows_wf_def)
  moreover have "\<forall>v \<in> set ?vs. \<forall>u \<in> set ?vs. slot v u \<longrightarrow> ident v = ident u"
  proof (intro ballI impI)
    fix v u
    assume v: "v \<in> set ?vs" and u: "u \<in> set ?vs" and sl: "slot v u"
    have old: "x = w \<or> x \<in> set vs \<and> ident x \<noteq> i" if "x \<in> set ?vs" for x
      using that by (auto split: if_splits)
    have new: "\<not> slot w x" "\<not> slot x w" if "x \<in> set vs \<and> ident x \<noteq> i" for x
      using assms(4,5) that by (auto simp: list_ex_iff)
    have kept: "\<forall>x \<in> set vs. \<forall>y \<in> set vs. slot x y \<longrightarrow> ident x = ident y"
      using assms(1) by (simp add: rows_wf_def)
    from old [OF v] show "ident v = ident u"
    proof
      assume "v = w"
      then have "\<not> (u \<in> set vs \<and> ident u \<noteq> i)" using new(1) [of u] sl by metis
      with old [OF u] \<open>v = w\<close> show ?thesis by simp
    next
      assume v': "v \<in> set vs \<and> ident v \<noteq> i"
      then have "u \<noteq> w" using new(2) [of v] sl by metis
      with old [OF u] have "u \<in> set vs" by simp
      with v' sl kept show ?thesis by simp
    qed
  qed
  ultimately show ?thesis unfolding rows_wf_def by blast
qed

lemma rows_wf_filter: "rows_wf ident ok slot vs \<Longrightarrow> rows_wf ident ok slot (filter P vs)"
  by (auto simp: rows_wf_def distinct_map inj_on_def)

subsection \<open>What is stored\<close>

lemma stored_value_row:
  assumes "stored_value s nonce sensitive v = Inr (value, encrypted)" and "ident_match name"
  shows "row_ok name sensitive value encrypted"
  using assms by (auto simp: stored_value_def row_ok_def split: if_splits sum.splits)

lemma stored_value_opens:
  assumes "stored_value s nonce sensitive v = Inr (value, encrypted)" and "length nonce = nonce_size"
  shows "resolveValue s sensitive value encrypted = Inr v"
  using assms by (auto simp: stored_value_def resolveValue_def open_value_def sealer.open_seal
      dest: sealer.seal_nonempty split: if_splits sum.splits)

lemma change_value_row:
  assumes "change_value s nonce sensitive (v0, e0) new = Inr (value, encrypted)"
    and "row_ok name0 sensitive v0 e0" and "ident_match name"
  shows "row_ok name sensitive value encrypted"
  using assms by (auto simp: change_value_def row_ok_def split: if_splits sum.splits option.splits)

lemma change_value_opens:
  assumes "change_value s nonce sensitive (v0, e0) new = Inr (value, encrypted)"
    and "length nonce = nonce_size" and "resolveValue s sensitive v0 e0 = Inr x"
  shows "resolveValue s sensitive value encrypted = Inr (case new of None \<Rightarrow> x | Some v \<Rightarrow> v)"
  using assms by (auto simp: change_value_def resolveValue_def open_value_def sealer.open_seal
      dest: sealer.seal_nonempty split: if_splits sum.splits option.splits)

lemma change_name_ident:
  assumes "change_name old new = Inr name" and "ident_match old"
  shows "ident_match name"
  using assms by (auto simp: change_name_def split: option.splits if_splits)

subsection \<open>Every operation keeps the invariant\<close>

text \<open>The operations as events; a failed one leaves the tables as they are.\<close>

datatype var_op =
    CreateOp string uuid uuid uuid "uuid option" CreateParams
  | UpdateOp string uuid uuid "uuid option" uuid UpdateParams
  | DeleteOp uuid uuid "uuid option" uuid
  | CreateGroupOp string uuid uuid uuid CreateParams
  | UpdateGroupOp string uuid uuid uuid UpdateParams
  | DeleteGroupOp uuid uuid uuid

fun var_run :: "Sealer \<Rightarrow> var_op \<Rightarrow> vars_db \<Rightarrow> var_error + vars_db" where
  "var_run s (CreateOp nonce i org app c p) db = try_bind (Create_variable s nonce i db org app c p) (Inr \<circ> snd)"
| "var_run s (UpdateOp nonce org app c i p) db = try_bind (Update_variable s nonce db org app c i p) (Inr \<circ> snd)"
| "var_run s (DeleteOp org app c i) db = Delete_variable db org app c i"
| "var_run s (CreateGroupOp nonce i org grp p) db = try_bind (CreateGroup s nonce i db org grp p) (Inr \<circ> snd)"
| "var_run s (UpdateGroupOp nonce org grp i p) db = try_bind (UpdateGroup s nonce db org grp i p) (Inr \<circ> snd)"
| "var_run s (DeleteGroupOp org grp i) db = DeleteGroup db org grp i"

definition var_step :: "Sealer \<Rightarrow> var_op \<Rightarrow> vars_db \<Rightarrow> vars_db" where
  "var_step s e db = (case var_run s e db of Inl _ \<Rightarrow> db | Inr db' \<Rightarrow> db')"

fun op_org :: "var_op \<Rightarrow> uuid" where
  "op_org (CreateOp nonce i org app c p) = org"
| "op_org (UpdateOp nonce org app c i p) = org"
| "op_org (DeleteOp org app c i) = org"
| "op_org (CreateGroupOp nonce i org grp p) = org"
| "op_org (UpdateGroupOp nonce org grp i p) = org"
| "op_org (DeleteGroupOp org grp i) = org"

text \<open>The nonces come from the random source, at the cipher's length.\<close>

fun op_nonce_ok :: "var_op \<Rightarrow> bool" where
  "op_nonce_ok (CreateOp nonce i org app c p) = (length nonce = nonce_size)"
| "op_nonce_ok (UpdateOp nonce org app c i p) = (length nonce = nonce_size)"
| "op_nonce_ok (CreateGroupOp nonce i org grp p) = (length nonce = nonce_size)"
| "op_nonce_ok (UpdateGroupOp nonce org grp i p) = (length nonce = nonce_size)"
| "op_nonce_ok _ = True"

text \<open>What a successful creation and update did.\<close>

lemma Create_variable_Inr:
  assumes "Create_variable s nonce i db org app c p = Inr (v, db')"
  shows "ident_match (cp_Name p)"
    and "stored_value s nonce (cp_Sensitive p) (cp_Value p) = Inr (va_Value v, va_EncryptedValue v)"
    and "va_ID v = i \<and> va_OrganizationID v = org \<and> va_ApplicationID v = app \<and> va_ComponentID v = c \<and>
      va_Name v = cp_Name p \<and> va_Sensitive v = cp_Sensitive p"
    and "\<not> list_ex (\<lambda>u. va_ID u = va_ID v \<or> same_slot v u) (db_Variables db)"
    and "db' = db\<lparr>db_Variables := db_Variables db @ [v]\<rparr>"
  using assms
  by (auto simp: Create_variable_def insert_variable_def try_bind_Inr split: if_splits)

lemma CreateGroup_Inr:
  assumes "CreateGroup s nonce i db org grp p = Inr (v, db')"
  shows "ident_match (cp_Name p)"
    and "stored_value s nonce (cp_Sensitive p) (cp_Value p) = Inr (gv_Value v, gv_EncryptedValue v)"
    and "gv_ID v = i \<and> gv_OrganizationID v = org \<and> gv_GroupID v = grp \<and>
      gv_Name v = cp_Name p \<and> gv_Sensitive v = cp_Sensitive p"
    and "\<not> list_ex (\<lambda>u. gv_ID u = gv_ID v \<or> same_group_slot v u) (db_GroupVariables db)"
    and "db' = db\<lparr>db_GroupVariables := db_GroupVariables db @ [v]\<rparr>"
  using assms
  by (auto simp: CreateGroup_def try_bind_Inr Let_def split: if_splits)

text \<open>An update replaces the row it found.\<close>

lemma Update_variable_Inr:
  assumes "Update_variable s nonce db org app c i p = Inr (w, db')"
  obtains v where "get_variable db org app c i = Some v"
    and "change_name (va_Name v) (up_Name p) = Inr (va_Name w)"
    and "change_value s nonce (va_Sensitive v) (va_Value v, va_EncryptedValue v) (up_Value p) =
      Inr (va_Value w, va_EncryptedValue w)"
    and "w = v\<lparr>va_Name := va_Name w, va_Value := va_Value w, va_EncryptedValue := va_EncryptedValue w\<rparr>"
    and "\<not> list_ex (\<lambda>u. va_ID u \<noteq> i \<and> same_slot w u) (db_Variables db)"
    and "db' = db\<lparr>db_Variables := map (\<lambda>u. if va_ID u = i then w else u) (db_Variables db)\<rparr>"
  using assms
  by (auto simp: Update_variable_def try_bind_Inr Let_def split: if_splits option.splits)

lemma UpdateGroup_Inr:
  assumes "UpdateGroup s nonce db org grp i p = Inr (w, db')"
  obtains v where "getGroup db org grp i = Some v"
    and "change_name (gv_Name v) (up_Name p) = Inr (gv_Name w)"
    and "change_value s nonce (gv_Sensitive v) (gv_Value v, gv_EncryptedValue v) (up_Value p) =
      Inr (gv_Value w, gv_EncryptedValue w)"
    and "w = v\<lparr>gv_Name := gv_Name w, gv_Value := gv_Value w, gv_EncryptedValue := gv_EncryptedValue w\<rparr>"
    and "\<not> list_ex (\<lambda>u. gv_ID u \<noteq> i \<and> same_group_slot w u) (db_GroupVariables db)"
    and "db' = db\<lparr>db_GroupVariables := map (\<lambda>u. if gv_ID u = i then w else u) (db_GroupVariables db)\<rparr>"
  using assms
  by (auto simp: UpdateGroup_def try_bind_Inr Let_def split: if_splits option.splits)

lemma get_variable_Some:
  assumes "get_variable db org app c i = Some v"
  shows "v \<in> set (db_Variables db)" and "in_scope org app c v" and "va_ID v = i"
  using assms by (auto simp: get_variable_def dest: find_SomeD)

lemma getGroup_Some:
  assumes "getGroup db org grp i = Some v"
  shows "v \<in> set (db_GroupVariables db)" and "in_group_scope org grp v" and "gv_ID v = i"
  using assms by (auto simp: getGroup_def dest: find_SomeD)

text \<open>The row a creation or an update writes is in order and opens.\<close>

lemma created_row_ok:
  assumes "Create_variable s nonce i db org app c p = Inr (v, db')" and "length nonce = nonce_size"
  shows "variable_ok v" and "resolveValue s (va_Sensitive v) (va_Value v) (va_EncryptedValue v) = Inr (cp_Value p)"
  using Create_variable_Inr [OF assms(1)] stored_value_row stored_value_opens assms(2)
  by (auto simp: variable_ok_def)

lemma created_group_row_ok:
  assumes "CreateGroup s nonce i db org grp p = Inr (v, db')" and "length nonce = nonce_size"
  shows "group_variable_ok v" and "resolveValue s (gv_Sensitive v) (gv_Value v) (gv_EncryptedValue v) = Inr (cp_Value p)"
  using CreateGroup_Inr [OF assms(1)] stored_value_row stored_value_opens assms(2)
  by (auto simp: group_variable_ok_def)

lemma updated_row_ok:
  assumes "Update_variable s nonce db org app c i p = Inr (w, db')" and "length nonce = nonce_size"
    and wf: "vars_wf s db"
  shows "variable_ok w" and "va_ID w = i"
    and "\<exists>x. resolveValue s (va_Sensitive w) (va_Value w) (va_EncryptedValue w) = Inr x"
proof -
  obtain v where v: "get_variable db org app c i = Some v"
    "change_name (va_Name v) (up_Name p) = Inr (va_Name w)"
    "change_value s nonce (va_Sensitive v) (va_Value v, va_EncryptedValue v) (up_Value p) =
      Inr (va_Value w, va_EncryptedValue w)"
    and w: "w = v\<lparr>va_Name := va_Name w, va_Value := va_Value w, va_EncryptedValue := va_EncryptedValue w\<rparr>"
    by (rule Update_variable_Inr [OF assms(1)])
  note in_db = get_variable_Some [OF v(1)]
  have same: "va_ID w = va_ID v" "va_Sensitive w = va_Sensitive v"
    by (subst w, simp)+
  obtain x where x: "resolveValue s (va_Sensitive v) (va_Value v) (va_EncryptedValue v) = Inr x"
    using wf in_db(1) by (auto simp: vars_wf_def all_open_def)
  have row: "row_ok (va_Name v) (va_Sensitive v) (va_Value v) (va_EncryptedValue v)"
    using wf in_db(1) by (auto simp: vars_wf_def rows_wf_def variable_ok_def)
  then have "ident_match (va_Name w)"
    using change_name_ident [OF v(2)] by (simp add: row_ok_def)
  then show "variable_ok w"
    using change_value_row [OF v(3) row] same by (simp add: variable_ok_def)
  show "va_ID w = i" using same in_db by simp
  show "\<exists>x. resolveValue s (va_Sensitive w) (va_Value w) (va_EncryptedValue w) = Inr x"
    using change_value_opens [OF v(3) assms(2) x] same by auto
qed

lemma updated_group_row_ok:
  assumes "UpdateGroup s nonce db org grp i p = Inr (w, db')" and "length nonce = nonce_size"
    and wf: "vars_wf s db"
  shows "group_variable_ok w" and "gv_ID w = i"
    and "\<exists>x. resolveValue s (gv_Sensitive w) (gv_Value w) (gv_EncryptedValue w) = Inr x"
proof -
  obtain v where v: "getGroup db org grp i = Some v"
    "change_name (gv_Name v) (up_Name p) = Inr (gv_Name w)"
    "change_value s nonce (gv_Sensitive v) (gv_Value v, gv_EncryptedValue v) (up_Value p) =
      Inr (gv_Value w, gv_EncryptedValue w)"
    and w: "w = v\<lparr>gv_Name := gv_Name w, gv_Value := gv_Value w, gv_EncryptedValue := gv_EncryptedValue w\<rparr>"
    by (rule UpdateGroup_Inr [OF assms(1)])
  note in_db = getGroup_Some [OF v(1)]
  have same: "gv_ID w = gv_ID v" "gv_Sensitive w = gv_Sensitive v"
    by (subst w, simp)+
  obtain x where x: "resolveValue s (gv_Sensitive v) (gv_Value v) (gv_EncryptedValue v) = Inr x"
    using wf in_db(1) by (auto simp: vars_wf_def all_open_def)
  have row: "row_ok (gv_Name v) (gv_Sensitive v) (gv_Value v) (gv_EncryptedValue v)"
    using wf in_db(1) by (auto simp: vars_wf_def rows_wf_def group_variable_ok_def)
  then have "ident_match (gv_Name w)"
    using change_name_ident [OF v(2)] by (simp add: row_ok_def)
  then show "group_variable_ok w"
    using change_value_row [OF v(3) row] same by (simp add: group_variable_ok_def)
  show "gv_ID w = i" using same in_db by simp
  show "\<exists>x. resolveValue s (gv_Sensitive w) (gv_Value w) (gv_EncryptedValue w) = Inr x"
    using change_value_opens [OF v(3) assms(2) x] same by auto
qed

lemma var_run_wf:
  assumes wf: "vars_wf s db" and "op_nonce_ok e" and "var_run s e db = Inr db'"
  shows "vars_wf s db'"
proof (cases e)
  case (CreateOp nonce i org app c p)
  with assms obtain v where v: "Create_variable s nonce i db org app c p = Inr (v, db')" "length nonce = nonce_size"
    by (auto simp: try_bind_Inr)
  show ?thesis
    using wf Create_variable_Inr [OF v(1)] created_row_ok [OF v] rows_wf_append [of va_ID variable_ok same_slot, OF _ _ _ same_slot_sym]
    by (auto simp: vars_wf_def all_open_def)
next
  case (UpdateOp nonce org app c i p)
  with assms obtain w where w: "Update_variable s nonce db org app c i p = Inr (w, db')" "length nonce = nonce_size"
    by (auto simp: try_bind_Inr)
  note up = updated_row_ok [OF w wf]
  from Update_variable_Inr [OF w(1)] have
    "\<not> list_ex (\<lambda>u. va_ID u \<noteq> i \<and> same_slot w u) (db_Variables db)"
    and db': "db' = db\<lparr>db_Variables := map (\<lambda>u. if va_ID u = i then w else u) (db_Variables db)\<rparr>"
    by blast+
  with wf up have "variables_wf (db_Variables db')"
    using rows_wf_replace [of va_ID variable_ok same_slot _ w i, OF _ _ _ _ same_slot_sym] by (simp add: vars_wf_def)
  with wf up(3) show ?thesis by (auto simp: vars_wf_def all_open_def db')
next
  case (DeleteOp org app c i)
  with assms show ?thesis
    by (auto simp: Delete_variable_def vars_wf_def all_open_def intro: rows_wf_filter split: option.splits)
next
  case (CreateGroupOp nonce i org grp p)
  with assms obtain v where v: "CreateGroup s nonce i db org grp p = Inr (v, db')" "length nonce = nonce_size"
    by (auto simp: try_bind_Inr)
  show ?thesis
    using wf CreateGroup_Inr [OF v(1)] created_group_row_ok [OF v] rows_wf_append [of gv_ID group_variable_ok same_group_slot, OF _ _ _ same_group_slot_sym]
    by (auto simp: vars_wf_def all_open_def)
next
  case (UpdateGroupOp nonce org grp i p)
  with assms obtain w where w: "UpdateGroup s nonce db org grp i p = Inr (w, db')" "length nonce = nonce_size"
    by (auto simp: try_bind_Inr)
  note up = updated_group_row_ok [OF w wf]
  from UpdateGroup_Inr [OF w(1)] have
    "\<not> list_ex (\<lambda>u. gv_ID u \<noteq> i \<and> same_group_slot w u) (db_GroupVariables db)"
    and db': "db' = db\<lparr>db_GroupVariables := map (\<lambda>u. if gv_ID u = i then w else u) (db_GroupVariables db)\<rparr>"
    by blast+
  with wf up have "group_variables_wf (db_GroupVariables db')"
    using rows_wf_replace [of gv_ID group_variable_ok same_group_slot _ w i, OF _ _ _ _ same_group_slot_sym] by (simp add: vars_wf_def)
  with wf up(3) show ?thesis by (auto simp: vars_wf_def all_open_def db')
next
  case (DeleteGroupOp org grp i)
  with assms show ?thesis
    by (auto simp: DeleteGroup_def vars_wf_def all_open_def intro: rows_wf_filter split: option.splits)
qed

interpretation vars: invariant_machine
  "\<lambda>e db. if op_nonce_ok e then Some (var_step s e db) else None" "vars_wf s" for s
  by unfold_locales (auto simp: var_step_def split: if_splits sum.splits intro: var_run_wf)

text \<open>A run of operations.\<close>

definition var_steps :: "Sealer \<Rightarrow> var_op list \<Rightarrow> vars_db \<Rightarrow> vars_db" where
  "var_steps s es db = fold (var_step s) es db"

lemma var_steps_machine:
  assumes "\<forall>e \<in> set es. op_nonce_ok e"
  shows "fold (\<lambda>e so. Option.bind so (\<lambda>db. if op_nonce_ok e then Some (var_step s e db) else None)) es (Some db) =
    Some (var_steps s es db)"
  using assms by (induction es arbitrary: db) (auto simp: var_steps_def)

lemma var_steps_wf:
  assumes "\<forall>e \<in> set es. op_nonce_ok e" and "vars_wf s db"
  shows "vars_wf s (var_steps s es db)"
  by (rule vars.run_inv [OF var_steps_machine [OF assms(1)] assms(2)])

section \<open>The merged environment\<close>

lemma AList_map_of_simps [simp]:
  "map_of (AList.delete k m) = (map_of m)(k := None)"
  "map_of (AList.update k v m) = (map_of m)(k \<mapsto> v)"
  by (simp_all add: delete_conv' update_conv')

text \<open>What a pair of environments says of a name: its sensitivity and value.\<close>

definition env_at :: "env \<times> env \<Rightarrow> string \<Rightarrow> (bool \<times> string) option" where
  "env_at ps n =
     (case map_of (snd ps) n of
        Some v \<Rightarrow> Some (True, v)
      | None \<Rightarrow> (case map_of (fst ps) n of Some v \<Rightarrow> Some (False, v) | None \<Rightarrow> None))"

definition envs_disjoint :: "env \<times> env \<Rightarrow> bool" where
  "envs_disjoint ps \<longleftrightarrow> dom (map_of (fst ps)) \<inter> dom (map_of (snd ps)) = {}"

lemma env_set_at [simp]: "env_at (env_set n v b ps) m = (if m = n then Some (b, v) else env_at ps m)"
  by (cases ps) (auto simp: env_at_def env_set_def split: option.splits)

lemma env_set_disjoint: "envs_disjoint ps \<Longrightarrow> envs_disjoint (env_set n v b ps)"
  by (cases ps) (auto simp: envs_disjoint_def env_set_def split: if_splits)

text \<open>The last row of a name in a level decides it; a level without the name leaves it as it was.\<close>

definition level_at :: "Sealer \<Rightarrow> level \<Rightarrow> string \<Rightarrow> (bool \<times> string) option" where
  "level_at s l n =
     map_option (\<lambda>(b, v, e). (b, case resolveValue s b v e of Inl _ \<Rightarrow> [] | Inr x \<Rightarrow> x)) (map_of (rev l) n)"

lemma apply_level_at:
  assumes "apply_level s l ps = Inr qs"
  shows "env_at qs n = (case level_at s l n of Some r \<Rightarrow> Some r | None \<Rightarrow> env_at ps n)"
  using assms
proof (induction l arbitrary: ps)
  case Nil
  then show ?case by (simp add: level_at_def)
next
  case (Cons row l)
  obtain name b v e where row: "row = (name, b, v, e)" by (cases row)
  with Cons.prems obtain x where x: "resolveValue s b v e = Inr x"
    and l: "apply_level s l (env_set name x b ps) = Inr qs" by (auto simp: try_bind_Inr)
  show ?case
    using Cons.IH [OF l] x by (auto simp: level_at_def row map_add_def split: option.splits)
qed

lemma apply_level_disjoint:
  assumes "apply_level s l ps = Inr qs" and "envs_disjoint ps"
  shows "envs_disjoint qs"
  using assms by (induction s l ps rule: apply_level.induct) (auto simp: try_bind_Inr env_set_disjoint)

lemma apply_level_total:
  assumes "\<forall>(n, b, v, e) \<in> set l. \<exists>x. resolveValue s b v e = Inr x"
  shows "\<exists>qs. apply_level s l ps = Inr qs"
  using assms by (induction s l ps rule: apply_level.induct) (auto simp: try_bind_def)

end
