(* ===== verification/Variables_Claims.thy ===== *)
theory Variables_Claims
  imports Variables_Props
begin

text \<open>The properties of the variables component, with their witnesses.\<close>

section \<open>The reference\<close>

text \<open>The row that decides a name for a component: its own, else the application's, else the group's.\<close>

definition winning_row ::
  "vars_db \<Rightarrow> uuid \<Rightarrow> uuid \<Rightarrow> uuid \<Rightarrow> string \<Rightarrow> (bool \<times> string \<times> string option) option" where
  "winning_row db org app component n =
     (case map_of (variable_level (List_variables db org app (Some component))) n of
        Some r \<Rightarrow> Some r
      | None \<Rightarrow>
          (case map_of (variable_level (List_variables db org app None)) n of
             Some r \<Rightarrow> Some r
           | None \<Rightarrow>
               if appGroupID db org app = uuid_Nil then None
               else map_of (group_level (ListGroup db org (appGroupID db org app))) n))"

definition opened :: "Sealer \<Rightarrow> bool \<times> string \<times> string option \<Rightarrow> bool \<times> string" where
  "opened s r = (case r of (b, v, e) \<Rightarrow> (b, case resolveValue s b v e of Inl _ \<Rightarrow> [] | Inr x \<Rightarrow> x))"

lemma level_at_map_of:
  assumes "distinct (map fst l)"
  shows "level_at s l n = map_option (opened s) (map_of l n)"
proof -
  have "map_of (rev l) = map_of l"
    using assms by (metis distinct_rev map_of_eqI map_of_inject_set rev_map set_rev)
  then show ?thesis by (cases "map_of l n") (auto simp: level_at_def opened_def)
qed

lemma variable_level_distinct:
  assumes "variables_wf (db_Variables db)"
  shows "distinct (map fst (variable_level (List_variables db org app c)))"
proof -
  have "inj_on va_Name (set (List_variables db org app c))"
  proof (rule inj_onI)
    fix v w
    assume vw: "v \<in> set (List_variables db org app c)" "w \<in> set (List_variables db org app c)" and "va_Name v = va_Name w"
    then have "same_slot v w"
      by (auto simp: List_variables_def in_scope_def same_slot_def split: option.splits)
    with assms vw have "va_ID v = va_ID w" by (auto simp: rows_wf_def List_variables_def)
    with assms vw show "v = w" by (auto simp: rows_wf_def List_variables_def distinct_map dest: inj_onD)
  qed
  moreover have "distinct (List_variables db org app c)"
    using assms by (auto simp: rows_wf_def List_variables_def distinct_map)
  ultimately show ?thesis by (auto simp: variable_level_def distinct_map comp_def inj_on_def)
qed

lemma group_level_distinct:
  assumes "group_variables_wf (db_GroupVariables db)"
  shows "distinct (map fst (group_level (ListGroup db org grp)))"
proof -
  have "inj_on gv_Name (set (ListGroup db org grp))"
  proof (rule inj_onI)
    fix v w
    assume vw: "v \<in> set (ListGroup db org grp)" "w \<in> set (ListGroup db org grp)" and "gv_Name v = gv_Name w"
    then have "same_group_slot v w"
      by (auto simp: ListGroup_def in_group_scope_def same_group_slot_def)
    with assms vw have "gv_ID v = gv_ID w" by (auto simp: rows_wf_def ListGroup_def)
    with assms vw show "v = w" by (auto simp: rows_wf_def ListGroup_def distinct_map dest: inj_onD)
  qed
  moreover have "distinct (ListGroup db org grp)"
    using assms by (auto simp: rows_wf_def ListGroup_def distinct_map)
  ultimately show ?thesis by (auto simp: group_level_def distinct_map comp_def inj_on_def)
qed

text \<open>The two halves of the rows a run reads are the listings of the two scopes.\<close>

lemma env_rows_app:
  "filter (\<lambda>v. va_ComponentID v = None) (env_rows db org app c) = List_variables db org app None"
  by (auto simp: env_rows_def List_variables_def in_scope_def intro: filter_cong)

lemma env_rows_component:
  "filter (\<lambda>v. va_ComponentID v \<noteq> None) (env_rows db org app c) = List_variables db org app (Some c)"
  by (auto simp: env_rows_def List_variables_def in_scope_def intro: filter_cong)

lemma variable_level_opens:
  assumes "all_open s db"
  shows "\<forall>(n, b, v, e) \<in> set (variable_level (List_variables db org app c)). \<exists>x. resolveValue s b v e = Inr x"
  using assms by (auto simp: all_open_def variable_level_def List_variables_def)

lemma group_level_opens:
  assumes "all_open s db"
  shows "\<forall>(n, b, v, e) \<in> set (group_level (ListGroup db org grp)). \<exists>x. resolveValue s b v e = Inr x"
  using assms by (auto simp: all_open_def group_level_def ListGroup_def)

lemma envs_start [simp]: "envs_disjoint ([], [])" "env_at ([], []) n = None"
  by (simp_all add: envs_disjoint_def env_at_def)

lemma ResolveEnv_wf:
  assumes "vars_wf s db"
  obtains ps where "ResolveEnv s db org app c = Inr ps" and "envs_disjoint ps"
    and "\<And>n. env_at ps n = map_option (opened s) (winning_row db org app c n)"
proof -
  let ?g = "appGroupID db org app"
  let ?gl = "group_level (ListGroup db org ?g)"
  let ?al = "variable_level (List_variables db org app None)"
  let ?cl = "variable_level (List_variables db org app (Some c))"
  have wf: "variables_wf (db_Variables db)" "group_variables_wf (db_GroupVariables db)" "all_open s db"
    using assms by (simp_all add: vars_wf_def)
  obtain ps1 where p1: "(if ?g = uuid_Nil then Inr ([], []) else apply_level s ?gl ([], [])) = Inr ps1"
    using apply_level_total [OF group_level_opens [OF wf(3)]] by (cases "?g = uuid_Nil") (simp, metis)
  obtain ps2 where p2: "apply_level s ?al ps1 = Inr ps2"
    using apply_level_total [OF variable_level_opens [OF wf(3)]] by blast
  obtain ps3 where p3: "apply_level s ?cl ps2 = Inr ps3"
    using apply_level_total [OF variable_level_opens [OF wf(3)]] by blast
  have res: "ResolveEnv s db org app c = Inr ps3"
    unfolding ResolveEnv_def Let_def env_rows_app env_rows_component p1 by (simp add: p2 p3)
  have "envs_disjoint ps1" using p1 apply_level_disjoint by (auto split: if_splits)
  then have dis: "envs_disjoint ps3" using p2 p3 apply_level_disjoint by blast
  have at1: "env_at ps1 n = (if ?g = uuid_Nil then None else map_option (opened s) (map_of ?gl n))" for n
    using p1 apply_level_at [of s ?gl "([], [])" ps1 n] level_at_map_of [OF group_level_distinct [OF wf(2)]]
    by (auto split: if_splits option.splits)
  have at3: "env_at ps3 n = map_option (opened s) (winning_row db org app c n)" for n
    unfolding winning_row_def apply_level_at [OF p3] apply_level_at [OF p2] at1
      level_at_map_of [OF variable_level_distinct [OF wf(1)]]
    by (auto split: option.splits)
  show ?thesis by (rule that [OF res dis at3])
qed

section \<open>Other organizations\<close>

text \<open>What an organization can see of the tables.\<close>

definition org_rows :: "uuid \<Rightarrow> vars_db \<Rightarrow> Variable list \<times> GroupVariable list" where
  "org_rows org db =
     (filter (\<lambda>v. va_OrganizationID v = org) (db_Variables db),
      filter (\<lambda>v. gv_OrganizationID v = org) (db_GroupVariables db))"

lemma ListGroup_org_rows: "ListGroup db org grp = filter (in_group_scope org grp) (snd (org_rows org db))"
  by (auto simp: ListGroup_def org_rows_def in_group_scope_def intro: filter_cong)

lemma List_variables_org_rows:
  "List_variables db org app c = filter (in_scope org app c) (fst (org_rows org db))"
  by (auto simp: List_variables_def org_rows_def in_scope_def intro: filter_cong)

lemma ResolveEnv_org_rows:
  assumes "org_rows org db = org_rows org db'" and "db_Apps db = db_Apps db'"
  shows "ResolveEnv s db org app c = ResolveEnv s db' org app c"
proof -
  have "appGroupID db org app = appGroupID db' org app"
    using assms(2) by (simp add: appGroupID_def)
  then show ?thesis
    unfolding ResolveEnv_def Let_def env_rows_app env_rows_component
      ListGroup_org_rows List_variables_org_rows assms(1) by simp
qed

lemma filter_replace_other:
  assumes "distinct (map ident vs)" and "v \<in> set vs" and "ident v = i" and "\<not> P v" and "\<not> P w"
  shows "filter P (map (\<lambda>u. if ident u = i then w else u) vs) = filter P vs"
proof -
  have "\<not> P u" if "u \<in> set vs" "ident u = i" for u
    using assms that by (auto simp: distinct_map dest: inj_onD)
  then show ?thesis using assms(5) by (induction vs) auto
qed

lemma filter_remove_other:
  assumes "distinct (map ident vs)" and "v \<in> set vs" and "ident v = i" and "\<not> P v"
  shows "filter P (filter (\<lambda>u. ident u \<noteq> i) vs) = filter P vs"
proof -
  have "\<not> P u" if "u \<in> set vs" "ident u = i" for u
    using assms that by (auto simp: distinct_map dest: inj_onD)
  then show ?thesis by (induction vs) auto
qed

lemma var_run_other_org:
  assumes "var_run s e db = Inr db'" and "op_org e \<noteq> org" and "vars_wf s db"
  shows "org_rows org db' = org_rows org db \<and> db_Apps db' = db_Apps db"
proof -
  have ids: "distinct (map va_ID (db_Variables db))" "distinct (map gv_ID (db_GroupVariables db))"
    using assms(3) by (simp_all add: vars_wf_def rows_wf_def)
  show ?thesis
  proof (cases e)
    case (CreateOp nonce i org' app c p)
    with assms obtain v where v: "Create_variable s nonce i db org' app c p = Inr (v, db')"
      by (auto simp: try_bind_Inr)
    show ?thesis
      using Create_variable_Inr(3,5) [OF v] assms(2) CreateOp by (auto simp: org_rows_def)
  next
    case (UpdateOp nonce org' app c i p)
    with assms obtain w where w: "Update_variable s nonce db org' app c i p = Inr (w, db')"
      by (auto simp: try_bind_Inr)
    then obtain v where v: "get_variable db org' app c i = Some v"
      and wv: "w = v\<lparr>va_Name := va_Name w, va_Value := va_Value w, va_EncryptedValue := va_EncryptedValue w\<rparr>"
      and db': "db' = db\<lparr>db_Variables := map (\<lambda>u. if va_ID u = i then w else u) (db_Variables db)\<rparr>"
      by (rule Update_variable_Inr)
    have w': "va_OrganizationID w = va_OrganizationID v" by (subst wv) simp
    note g = get_variable_Some [OF v]
    show ?thesis
      using filter_replace_other [OF ids(1) g(1,3), of "\<lambda>v. va_OrganizationID v = org" w] g(2) w' assms(2) UpdateOp
      by (simp add: org_rows_def db' in_scope_def)
  next
    case (DeleteOp org' app c i)
    with assms obtain v where v: "get_variable db org' app c i = Some v"
      and db': "db' = db\<lparr>db_Variables := filter (\<lambda>u. va_ID u \<noteq> i) (db_Variables db)\<rparr>"
      by (auto simp: Delete_variable_def split: option.splits)
    note g = get_variable_Some [OF v]
    show ?thesis
      using filter_remove_other [OF ids(1) g(1,3), of "\<lambda>v. va_OrganizationID v = org"] g(2) assms(2) DeleteOp
      by (simp add: org_rows_def db' in_scope_def)
  next
    case (CreateGroupOp nonce i org' grp p)
    with assms obtain v where v: "CreateGroup s nonce i db org' grp p = Inr (v, db')"
      by (auto simp: try_bind_Inr)
    show ?thesis
      using CreateGroup_Inr(3,5) [OF v] assms(2) CreateGroupOp by (auto simp: org_rows_def)
  next
    case (UpdateGroupOp nonce org' grp i p)
    with assms obtain w where w: "UpdateGroup s nonce db org' grp i p = Inr (w, db')"
      by (auto simp: try_bind_Inr)
    then obtain v where v: "getGroup db org' grp i = Some v"
      and wv: "w = v\<lparr>gv_Name := gv_Name w, gv_Value := gv_Value w, gv_EncryptedValue := gv_EncryptedValue w\<rparr>"
      and db': "db' = db\<lparr>db_GroupVariables := map (\<lambda>u. if gv_ID u = i then w else u) (db_GroupVariables db)\<rparr>"
      by (rule UpdateGroup_Inr)
    have w': "gv_OrganizationID w = gv_OrganizationID v" by (subst wv) simp
    note g = getGroup_Some [OF v]
    show ?thesis
      using filter_replace_other [OF ids(2) g(1,3), of "\<lambda>v. gv_OrganizationID v = org" w] g(2) w' assms(2) UpdateGroupOp
      by (simp add: org_rows_def db' in_group_scope_def)
  next
    case (DeleteGroupOp org' grp i)
    with assms obtain v where v: "getGroup db org' grp i = Some v"
      and db': "db' = db\<lparr>db_GroupVariables := filter (\<lambda>u. gv_ID u \<noteq> i) (db_GroupVariables db)\<rparr>"
      by (auto simp: DeleteGroup_def split: option.splits)
    note g = getGroup_Some [OF v]
    show ?thesis
      using filter_remove_other [OF ids(2) g(1,3), of "\<lambda>v. gv_OrganizationID v = org"] g(2) assms(2) DeleteGroupOp
      by (simp add: org_rows_def db' in_group_scope_def)
  qed
qed

lemma var_steps_other_org:
  assumes "\<forall>e \<in> set es. op_nonce_ok e \<and> op_org e \<noteq> org" and "vars_wf s db"
  shows "org_rows org (var_steps s es db) = org_rows org db \<and> db_Apps (var_steps s es db) = db_Apps db"
  using assms
proof (induction es arbitrary: db)
  case Nil
  then show ?case by (simp add: var_steps_def)
next
  case (Cons e es)
  have one: "org_rows org (var_step s e db) = org_rows org db \<and> db_Apps (var_step s e db) = db_Apps db"
    using Cons.prems var_run_other_org by (auto simp: var_step_def split: sum.splits)
  have "vars_wf s (var_step s e db)"
    using Cons.prems var_run_wf by (auto simp: var_step_def split: sum.splits)
  with Cons.IH [of "var_step s e db"] Cons.prems one show ?case by (simp add: var_steps_def)
qed

section \<open>An example\<close>

definition demo_sealer :: Sealer where
  "demo_sealer = Some demo_aead"

definition demo_nonce :: string where
  "demo_nonce = ''nonce-nonce-''"

definition demo_tables :: vars_db where
  "demo_tables =
     \<lparr>db_Apps = [(2, 1, 5), (12, 11, 0)], db_Components = [(3, 1, 2)], db_Groups = [(5, 1)],
      db_Variables = [], db_GroupVariables = []\<rparr>"

definition demo_var_ops :: "var_op list" where
  "demo_var_ops =
     [CreateGroupOp demo_nonce 20 1 5 \<lparr>cp_Name = ''REGION'', cp_Sensitive = False, cp_Value = ''eu''\<rparr>,
      CreateOp demo_nonce 21 1 2 None \<lparr>cp_Name = ''TOKEN'', cp_Sensitive = False, cp_Value = ''none''\<rparr>,
      CreateOp demo_nonce 22 1 2 (Some 3) \<lparr>cp_Name = ''TOKEN'', cp_Sensitive = True, cp_Value = ''s3cret''\<rparr>]"

lemma demo_tables_wf: "vars_wf demo_sealer demo_tables"
  by (simp add: vars_wf_def rows_wf_def all_open_def demo_tables_def)

lemma demo_var_ops_nonces: "\<forall>e \<in> set demo_var_ops. op_nonce_ok e"
  by (simp add: demo_var_ops_def demo_nonce_def nonce_size_def)

lemma demo_ident: "ident_match ''TOKEN''" "ident_match ''REGION''"
  by code_simp+

lemmas demo_run_simps = demo_ident demo_tables_def demo_sealer_def Create_variable_def CreateGroup_def
  insert_variable_def stored_value_def Seal_def

definition demo_vars :: vars_db where
  "demo_vars = var_steps demo_sealer demo_var_ops demo_tables"

definition demo_group_rows :: "GroupVariable list" where
  "demo_group_rows =
     [\<lparr>gv_ID = 20, gv_OrganizationID = 1, gv_GroupID = 5, gv_Name = ''REGION'', gv_Sensitive = False,
       gv_Value = ''eu'', gv_EncryptedValue = None\<rparr>]"

definition demo_rows :: "Variable list" where
  "demo_rows =
     [\<lparr>va_ID = 21, va_OrganizationID = 1, va_ApplicationID = 2, va_ComponentID = None, va_Name = ''TOKEN'',
       va_Sensitive = False, va_Value = ''none'', va_EncryptedValue = None\<rparr>,
      \<lparr>va_ID = 22, va_OrganizationID = 1, va_ApplicationID = 2, va_ComponentID = Some 3, va_Name = ''TOKEN'',
       va_Sensitive = True, va_Value = [], va_EncryptedValue = Some (demo_nonce @ ''terc3s'')\<rparr>]"

lemma demo_vars_eq: "demo_vars = demo_tables\<lparr>db_GroupVariables := demo_group_rows, db_Variables := demo_rows\<rparr>"
  by (simp add: demo_vars_def demo_var_ops_def var_steps_def var_step_def demo_run_simps
      demo_group_rows_def demo_rows_def same_slot_def Let_def del: ident_match.simps)

lemma demo_vars_wf: "vars_wf demo_sealer demo_vars"
  unfolding demo_vars_def by (rule var_steps_wf [OF demo_var_ops_nonces demo_tables_wf])

section \<open>Properties\<close>

text \<open>
  C34: for tables in order, the environment of a run always resolves; its plain and secret maps are
  disjoint, and every name has the value and the sensitivity of its row at the most specific level:
  the component's, else the application's, else the group's; a name no level has is absent.
\<close>

theorem env_precedence:
  assumes "vars_wf s db"
  shows "\<exists>plain secret. ResolveEnv s db org app component = Inr (plain, secret) \<and>
    dom (map_of plain) \<inter> dom (map_of secret) = {} \<and>
    (\<forall>n. env_at (plain, secret) n = map_option (opened s) (winning_row db org app component n))"
  by (rule ResolveEnv_wf [OF assms, of org app component]) (metis envs_disjoint_def prod.collapse)

theorem env_precedence_witness:
  "\<exists>plain secret. ResolveEnv demo_sealer demo_vars 1 2 3 = Inr (plain, secret) \<and>
    env_at (plain, secret) ''TOKEN'' = Some (True, ''s3cret'') \<and>
    env_at (plain, secret) ''REGION'' = Some (False, ''eu'')"
proof -
  have "map_option (opened demo_sealer) (winning_row demo_vars 1 2 3 ''TOKEN'') = Some (True, ''s3cret'')"
    "map_option (opened demo_sealer) (winning_row demo_vars 1 2 3 ''REGION'') = Some (False, ''eu'')"
    by (simp_all add: demo_vars_eq demo_group_rows_def demo_rows_def demo_tables_def demo_sealer_def
        winning_row_def List_variables_def ListGroup_def in_scope_def in_group_scope_def appGroupID_def
        variable_level_def group_level_def opened_def resolveValue_def open_value_def Open_def
        demo_nonce_def nonce_size_def)
  then show ?thesis using env_precedence [OF demo_vars_wf, of 1 2 3] by metis
qed

text \<open>
  C35: any sequence of operations, whichever fail, keeps the tables in order: ids and slots (name
  within application, component or group) are unique, names are identifiers, a sensitive value is
  stored sealed and never in the plain column, and every sealed value opens.
\<close>

theorem variable_tables_invariant:
  assumes "\<forall>e \<in> set es. op_nonce_ok e" and "vars_wf s db"
  shows "vars_wf s (var_steps s es db)"
  by (rule var_steps_wf [OF assms])

theorem variable_tables_invariant_witness: "vars_wf demo_sealer (var_steps demo_sealer demo_var_ops demo_tables)"
  by (rule variable_tables_invariant [OF demo_var_ops_nonces demo_tables_wf])

text \<open>
  What a component's variable was created with is what its next run gets: the value comes back
  unsealed, in the secret map when the variable is sensitive and in the plain one when it is not.
\<close>

lemma created_variable_reaches_run:
  assumes wf: "vars_wf s db" and "length nonce = nonce_size"
    and created: "Create_variable s nonce i db org app (Some component) p = Inr (v, db')"
  shows "\<exists>ps. ResolveEnv s db' org app component = Inr ps \<and>
    env_at ps (cp_Name p) = Some (cp_Sensitive p, cp_Value p)"
proof -
  have "var_run s (CreateOp nonce i org app (Some component) p) db = Inr db'"
    using created by simp
  then have wf': "vars_wf s db'"
    using var_run_wf [OF wf, of "CreateOp nonce i org app (Some component) p" db'] assms(2) by simp
  note v = Create_variable_Inr [OF created]
  have "v \<in> set (List_variables db' org app (Some component))"
    using v(3,5) by (simp add: List_variables_def in_scope_def)
  then have "(cp_Name p, cp_Sensitive p, va_Value v, va_EncryptedValue v) \<in>
    set (variable_level (List_variables db' org app (Some component)))"
    using v(3) by (force simp: variable_level_def)
  then have "winning_row db' org app component (cp_Name p) = Some (cp_Sensitive p, va_Value v, va_EncryptedValue v)"
    using wf' variable_level_distinct by (simp add: winning_row_def vars_wf_def)
  moreover have "opened s (cp_Sensitive p, va_Value v, va_EncryptedValue v) = (cp_Sensitive p, cp_Value p)"
    using created_row_ok(2) [OF created assms(2)] v(3) by (simp add: opened_def)
  ultimately show ?thesis
    by - (rule ResolveEnv_wf [OF wf', of org app component], auto)
qed

lemma created_variable_reaches_run_example:
  "\<exists>v db' ps. Create_variable demo_sealer demo_nonce 30 demo_tables 1 2 (Some 3)
      \<lparr>cp_Name = ''TOKEN'', cp_Sensitive = True, cp_Value = ''s3cret''\<rparr> = Inr (v, db') \<and>
    ResolveEnv demo_sealer db' 1 2 3 = Inr ps \<and> env_at ps ''TOKEN'' = Some (True, ''s3cret'')"
proof -
  let ?p = "\<lparr>cp_Name = ''TOKEN'', cp_Sensitive = True, cp_Value = ''s3cret''\<rparr>"
  obtain v db' where c: "Create_variable demo_sealer demo_nonce 30 demo_tables 1 2 (Some 3) ?p = Inr (v, db')"
    by (simp add: demo_run_simps del: ident_match.simps)
  have "length demo_nonce = nonce_size" by (simp add: demo_nonce_def nonce_size_def)
  from created_variable_reaches_run [OF demo_tables_wf this c] c show ?thesis by auto
qed

text \<open>
  C36: whatever operations other organizations run, with whatever ids, an organization's listings and
  the environments of its runs stay the same.
\<close>

theorem variables_org_isolation:
  assumes "\<forall>e \<in> set es. op_nonce_ok e \<and> op_org e \<noteq> org" and "vars_wf s db"
  shows "List_variables (var_steps s es db) org app c = List_variables db org app c \<and>
    ListGroup (var_steps s es db) org grp = ListGroup db org grp \<and>
    ResolveEnv s (var_steps s es db) org app component = ResolveEnv s db org app component"
proof -
  have same: "org_rows org (var_steps s es db) = org_rows org db" "db_Apps (var_steps s es db) = db_Apps db"
    using var_steps_other_org [OF assms] by simp_all
  show ?thesis
    unfolding ResolveEnv_org_rows [OF same] List_variables_org_rows ListGroup_org_rows same(1) by simp
qed

definition demo_foreign_ops :: "var_op list" where
  "demo_foreign_ops =
     [UpdateOp demo_nonce 11 2 (Some 3) 22 \<lparr>up_Name = None, up_Value = Some ''other''\<rparr>,
      DeleteGroupOp 11 5 20,
      CreateOp demo_nonce 40 11 12 None \<lparr>cp_Name = ''TOKEN'', cp_Sensitive = False, cp_Value = ''mine''\<rparr>]"

theorem variables_org_isolation_witness:
  "ResolveEnv demo_sealer (var_steps demo_sealer demo_foreign_ops demo_vars) 1 2 3 = ResolveEnv demo_sealer demo_vars 1 2 3"
proof -
  have "\<forall>e \<in> set demo_foreign_ops. op_nonce_ok e \<and> op_org e \<noteq> 1"
    by (simp add: demo_foreign_ops_def demo_nonce_def nonce_size_def)
  from variables_org_isolation [OF this demo_vars_wf] show ?thesis by blast
qed

end
