(* ===== verification/Base64.thy ===== *)
theory Base64
  imports Json
begin

text \<open>
  \<open>base64.RawURLEncoding\<close> of the Go standard library, which the state tokens use: sextets in the
  URL-safe alphabet, no padding; the decoder skips line breaks and ignores left-over bits.
\<close>

definition b64_alphabet :: string where
  "b64_alphabet = ''ABCDEFGHIJKLMNOPQRSTUVWXYZabcdefghijklmnopqrstuvwxyz0123456789-_''"

definition b64_char :: "nat \<Rightarrow> char" where
  "b64_char n = b64_alphabet ! n"

definition b64_val :: "char \<Rightarrow> nat option" where
  "b64_val c = find (\<lambda>n. b64_char n = c) [0..<64]"

abbreviation byte :: "char \<Rightarrow> nat" where
  "byte \<equiv> of_char"

fun b64_sextets :: "string \<Rightarrow> nat list" where
  "b64_sextets [] = []"
| "b64_sextets [a] = [byte a div 4, (byte a mod 4) * 16]"
| "b64_sextets [a, b] = [byte a div 4, (byte a mod 4) * 16 + byte b div 16, (byte b mod 16) * 4]"
| "b64_sextets (a # b # c # r) =
     byte a div 4 # ((byte a mod 4) * 16 + byte b div 16) # ((byte b mod 16) * 4 + byte c div 64) #
     byte c mod 64 # b64_sextets r"

definition b64_encode :: "string \<Rightarrow> string" where
  "b64_encode s = map b64_char (b64_sextets s)"

fun b64_bytes :: "nat list \<Rightarrow> string option" where
  "b64_bytes [] = Some []"
| "b64_bytes [v] = None"
| "b64_bytes [v, w] = Some [char_of (v * 4 + w div 16)]"
| "b64_bytes [v, w, x] = Some [char_of (v * 4 + w div 16), char_of ((w mod 16) * 16 + x div 4)]"
| "b64_bytes (v # w # x # y # r) =
     map_option (\<lambda>s. char_of (v * 4 + w div 16) # char_of ((w mod 16) * 16 + x div 4) #
       char_of ((x mod 4) * 64 + y) # s) (b64_bytes r)"

definition b64_decode :: "string \<Rightarrow> string option" where
  "b64_decode s =
     Option.bind (collect b64_val (filter (\<lambda>c. c \<noteq> CHR 0x0A \<and> c \<noteq> CHR 0x0D) s)) b64_bytes"

section \<open>Round trip\<close>

lemma b64_alphabet_vals: "list_all (\<lambda>n. b64_val (b64_char n) = Some n) [0..<64]"
  by code_simp

lemma b64_val_char: "n < 64 \<Longrightarrow> b64_val (b64_char n) = Some n"
  using b64_alphabet_vals by (simp add: list_all_iff)

lemma b64_alphabet_chars:
  "list_all (\<lambda>n. b64_char n \<notin> {CHR 0x0A, CHR 0x0D, CHR ''.''}) [0..<64]"
  by code_simp

lemma b64_char_plain: "n < 64 \<Longrightarrow> b64_char n \<noteq> CHR 0x0A \<and> b64_char n \<noteq> CHR 0x0D \<and> b64_char n \<noteq> CHR ''.''"
  using b64_alphabet_chars by (simp add: list_all_iff)

lemma digit_div_mod:
  fixes x y k :: nat
  assumes "y < k"
  shows "(x * k + y) div k = x" and "(x * k + y) mod k = y"
  using assms by simp_all

lemma byte_high: "byte c div 16 < 16" "byte c div 64 < 4"
  by (simp_all add: less_mult_imp_div_less)

lemma sextet_bounds:
  fixes x :: nat
  shows "byte a div 4 < 64" "x mod 4 * 16 < 64" "x mod 16 * 4 < 64" "x mod 64 < 64"
    and "x mod 4 * 16 + byte b div 16 < 64" "x mod 16 * 4 + byte b div 64 < 64"
proof -
  have "x mod 4 \<le> 3" "x mod 16 \<le> 15" by (simp_all flip: less_Suc_eq_le)
  then show "x mod 4 * 16 + byte b div 16 < 64" "x mod 16 * 4 + byte b div 64 < 64"
    using byte_high [of b] by linarith+
qed (simp_all add: less_mult_imp_div_less)

lemma b64_sextets_less: "v \<in> set (b64_sextets s) \<Longrightarrow> v < 64"
  by (induction s rule: b64_sextets.induct) (auto simp: sextet_bounds)

lemmas sextet_arith = digit_div_mod [OF byte_high(1)] digit_div_mod [OF byte_high(2)]

lemma byte_pieces:
  "char_of (byte a div 4 * 4 + byte a mod 4) = a"
  "char_of (byte a div 16 * 16 + byte a mod 16) = a"
  "char_of (byte a div 64 * 64 + byte a mod 64) = a"
  by simp_all

lemma b64_bytes_sextets: "b64_bytes (b64_sextets s) = Some s"
  by (induction s rule: b64_sextets.induct) (simp_all only: b64_sextets.simps b64_bytes.simps sextet_arith
      byte_pieces option.map mult_0_right digit_div_mod(1) [of 0, OF zero_less_numeral, simplified], auto simp: byte_pieces)

lemma collect_b64: "(\<And>v. v \<in> set vs \<Longrightarrow> v < 64) \<Longrightarrow> collect b64_val (map b64_char vs) = Some vs"
  by (induction vs) (simp_all add: b64_val_char)

lemma b64_decode_encode: "b64_decode (b64_encode s) = Some s"
proof -
  have "filter (\<lambda>c. c \<noteq> CHR 0x0A \<and> c \<noteq> CHR 0x0D) (b64_encode s) = b64_encode s"
    using b64_sextets_less b64_char_plain by (auto simp: b64_encode_def filter_id_conv)
  then show ?thesis
    using collect_b64 [of "b64_sextets s"] b64_sextets_less
    by (simp add: b64_decode_def b64_encode_def b64_bytes_sextets)
qed

lemma b64_encode_no_dot: "CHR ''.'' \<notin> set (b64_encode s)"
  using b64_sextets_less b64_char_plain by (force simp: b64_encode_def)

lemma b64_encode_Nil [simp]: "b64_encode s = [] \<longleftrightarrow> s = []"
  by (cases s rule: b64_sextets.cases) (simp_all add: b64_encode_def)

end
