(* ===== verification/StateToken.thy ===== *)
theory StateToken
  imports Base64 Prelude
begin

text \<open>
  The state tokens of \<open>lib/tofustate/token.go\<close>: claims as JSON, in URL-safe base64, with a MAC over
  that text. \<open>uuid_string\<close> and \<open>parse_uuid\<close> are the library's text forms of a UUID; a signer is its keyed
  HMAC. Times are Unix seconds.
\<close>

section \<open>Claims\<close>

abbreviation ScopeRead :: string where "ScopeRead \<equiv> ''read''"
abbreviation ScopeWrite :: string where "ScopeWrite \<equiv> ''write''"

record Claims =
  cl_OrgID :: uuid
  cl_ApplicationID :: uuid
  cl_ComponentID :: uuid
  cl_Workspace :: string
  cl_WorkflowRunID :: uuid
  cl_ComponentRunID :: uuid
  cl_Scope :: string
  cl_Expiry :: int

definition zero_claims :: Claims where
  "zero_claims =
     \<lparr>cl_OrgID = 0, cl_ApplicationID = 0, cl_ComponentID = 0, cl_Workspace = [], cl_WorkflowRunID = 0,
      cl_ComponentRunID = 0, cl_Scope = [], cl_Expiry = 0\<rparr>"

definition CanWrite :: "Claims \<Rightarrow> bool" where
  "CanWrite c \<longleftrightarrow> cl_Scope c = ScopeWrite"

definition scope_known :: "Claims \<Rightarrow> bool" where
  "scope_known c \<longleftrightarrow> cl_Scope c = ScopeRead \<or> cl_Scope c = ScopeWrite"

section \<open>Claims as JSON\<close>

text \<open>\<open>json.Marshal\<close> of a string: HTML characters and line separators are escaped too.\<close>

definition json_rune :: "string \<Rightarrow> string" where
  "json_rune s =
     (case decode_rune s of (r, w) \<Rightarrow>
        if r = 34 \<or> r = 92 then [backslash, char_of r]
        else if r = 8 then backslash # ''b'' else if r = 12 then backslash # ''f''
        else if r = 10 then backslash # ''n'' else if r = 13 then backslash # ''r''
        else if r = 9 then backslash # ''t''
        else if r < 32 \<or> r = 60 \<or> r = 62 \<or> r = 38 \<or> r = 0x2028 \<or> r = 0x2029 \<or> (r = rune_error \<and> w = 1)
          then backslash # ''u'' @ hex_digits 4 r
        else take w s)"

function json_str_body :: "string \<Rightarrow> string" where
  "json_str_body s = (if s = [] then [] else json_rune s @ json_str_body (drop (snd (decode_rune s)) s))"
  by pat_completeness auto
termination
proof (relation "measure length")
  fix s :: string assume "s \<noteq> []"
  with decode_rune_width [of s] show "(drop (snd (decode_rune s)) s, s) \<in> measure length"
    by (cases s) auto
qed simp

declare json_str_body.simps [simp del]

definition json_string :: "string \<Rightarrow> string" where
  "json_string s = [quote_char] @ json_str_body s @ [quote_char]"

definition show_int :: "int \<Rightarrow> string" where
  "show_int i = (if i < 0 then ''-'' @ show_nat (nat (- i)) else show_nat (nat i))"

definition json_field :: "string \<Rightarrow> string \<Rightarrow> string" where
  "json_field key value = json_string key @ '':'' @ value"

definition marshal_claims :: "(uuid \<Rightarrow> string) \<Rightarrow> Claims \<Rightarrow> string" where
  "marshal_claims uuid_string c =
     ''{'' @ json_field ''org'' (json_string (uuid_string (cl_OrgID c))) @
     '','' @ json_field ''app'' (json_string (uuid_string (cl_ApplicationID c))) @
     '','' @ json_field ''cmp'' (json_string (uuid_string (cl_ComponentID c))) @
     '','' @ json_field ''ws'' (json_string (cl_Workspace c)) @
     '','' @ json_field ''run'' (json_string (uuid_string (cl_WorkflowRunID c))) @
     '','' @ json_field ''cr'' (json_string (uuid_string (cl_ComponentRunID c))) @
     '','' @ json_field ''scope'' (json_string (cl_Scope c)) @
     '','' @ json_field ''exp'' (show_int (cl_Expiry c)) @ ''}''"

text \<open>
  \<open>json.Unmarshal\<close>: keys match the field names up to case (with the two letters beyond ASCII that fold
  to ASCII ones), members are stored in order, \<open>null\<close> leaves a field as it is.
\<close>

function fold_name :: "string \<Rightarrow> string" where
  "fold_name s =
     (if s = [] then []
      else if prefix [CHR 0xC5, CHR 0xBF] s then ''s'' @ fold_name (drop 2 s)
      else if prefix [CHR 0xE2, CHR 0x84, CHR 0xAA] s then ''k'' @ fold_name (drop 3 s)
      else lower_char (hd s) # fold_name (tl s))"
  by pat_completeness auto
termination by (relation "measure length") auto

declare fold_name.simps [simp del]

definition json_int64 :: "json \<Rightarrow> int option" where
  "json_int64 v =
     (case v of
        JNum t \<Rightarrow>
          (let neg = prefix ''-'' t; ds = (if neg then tl t else t);
               n = (if neg then - digits_value ds 0 else digits_value ds 0)
           in if list_all is_digit ds \<and> - (2 ^ 63) \<le> n \<and> n < 2 ^ 63 then Some n else None)
      | _ \<Rightarrow> None)"

definition json_uuid :: "(string \<Rightarrow> uuid option) \<Rightarrow> json \<Rightarrow> uuid option" where
  "json_uuid parse_uuid v = (case v of JStr s \<Rightarrow> parse_uuid s | _ \<Rightarrow> None)"

definition claims_member :: "(string \<Rightarrow> uuid option) \<Rightarrow> string \<times> json \<Rightarrow> Claims \<Rightarrow> Claims option" where
  "claims_member parse_uuid kv c =
     (case kv of (key, v) \<Rightarrow>
        let k = fold_name key; u = json_uuid parse_uuid v in
        if v = JNull then Some c
        else if k = ''org'' then map_option (\<lambda>i. c\<lparr>cl_OrgID := i\<rparr>) u
        else if k = ''app'' then map_option (\<lambda>i. c\<lparr>cl_ApplicationID := i\<rparr>) u
        else if k = ''cmp'' then map_option (\<lambda>i. c\<lparr>cl_ComponentID := i\<rparr>) u
        else if k = ''ws'' then map_option (\<lambda>s. c\<lparr>cl_Workspace := s\<rparr>) (decode_string v)
        else if k = ''run'' then map_option (\<lambda>i. c\<lparr>cl_WorkflowRunID := i\<rparr>) u
        else if k = ''cr'' then map_option (\<lambda>i. c\<lparr>cl_ComponentRunID := i\<rparr>) u
        else if k = ''scope'' then map_option (\<lambda>s. c\<lparr>cl_Scope := s\<rparr>) (decode_string v)
        else if k = ''exp'' then map_option (\<lambda>i. c\<lparr>cl_Expiry := i\<rparr>) (json_int64 v)
        else Some c)"

fun claims_members :: "(string \<Rightarrow> uuid option) \<Rightarrow> (string \<times> json) list \<Rightarrow> Claims \<Rightarrow> Claims option" where
  "claims_members parse_uuid [] c = Some c"
| "claims_members parse_uuid (kv # kvs) c =
     Option.bind (claims_member parse_uuid kv c) (claims_members parse_uuid kvs)"

definition unmarshal_claims :: "(string \<Rightarrow> uuid option) \<Rightarrow> string \<Rightarrow> Claims option" where
  "unmarshal_claims parse_uuid s =
     (case json_parse s of
        Some JNull \<Rightarrow> Some zero_claims
      | Some (JObj kvs) \<Rightarrow> claims_members parse_uuid kvs zero_claims
      | _ \<Rightarrow> None)"

section \<open>Signing and verifying\<close>

type_synonym Signer = "string \<Rightarrow> string"

definition mac :: "Signer \<Rightarrow> string \<Rightarrow> string" where
  "mac s body = b64_encode (s body)"

datatype token_error = UnknownScope string | ErrInvalidToken

definition Sign :: "Signer \<Rightarrow> (uuid \<Rightarrow> string) \<Rightarrow> Claims \<Rightarrow> token_error + string" where
  "Sign s uuid_string c =
     (if \<not> scope_known c then Inl (UnknownScope (cl_Scope c))
      else let body = b64_encode (marshal_claims uuid_string c) in Inr (body @ ''.'' @ mac s body))"

definition Verify :: "Signer \<Rightarrow> (string \<Rightarrow> uuid option) \<Rightarrow> string \<Rightarrow> int \<Rightarrow> token_error + Claims" where
  "Verify s parse_uuid token now =
     (case str_cut token ''.'' of (body, m, ok) \<Rightarrow>
        if \<not> ok \<or> body = [] \<or> m = [] then Inl ErrInvalidToken
        else if m \<noteq> mac s body then Inl ErrInvalidToken
        else case Option.bind (b64_decode body) (unmarshal_claims parse_uuid) of
               None \<Rightarrow> Inl ErrInvalidToken
             | Some c \<Rightarrow>
                 if \<not> scope_known c then Inl ErrInvalidToken
                 else if cl_Expiry c \<le> now then Inl ErrInvalidToken
                 else Inr c)"

section \<open>Addresses\<close>

text \<open>
  \<open>WorkspaceName\<close> and \<open>Address\<close> of \<open>lib/tofustate/service.go\<close>; \<open>path_escape\<close> is \<open>url.PathEscape\<close> of the
  standard library.
\<close>

definition DefaultWorkspace :: string where
  "DefaultWorkspace = ''default''"

definition WorkspaceName :: "string \<Rightarrow> string" where
  "WorkspaceName ws = (if ws = [] then DefaultWorkspace else ws)"

definition path_char :: "char \<Rightarrow> bool" where
  "path_char c \<longleftrightarrow> is_lower c \<or> is_upper c \<or> is_digit c \<or> c \<in> set ''-_.~$&+:=@''"

definition upper_hex :: "nat \<Rightarrow> char" where
  "upper_hex d = ''0123456789ABCDEF'' ! d"

definition path_escape :: "string \<Rightarrow> string" where
  "path_escape s =
     concat (map (\<lambda>c. if path_char c then [c] else [CHR ''%'', upper_hex (byte c div 16), upper_hex (byte c mod 16)]) s)"

definition Address :: "(uuid \<Rightarrow> string) \<Rightarrow> string \<Rightarrow> uuid \<Rightarrow> string \<Rightarrow> string" where
  "Address uuid_string base i ws =
     trim_right_set ''/'' base @ ''/api/tofu/state/'' @ uuid_string i @ ''/'' @ path_escape (WorkspaceName ws)"

end
