(* ===== verification/Outputs.thy ===== *)
theory Outputs
  imports StateToken TofuScript
begin

text \<open>
  The recorded outputs and resources of an OpenTofu step (\<open>lib/workflows/worker.go\<close>:
  \<open>normalizeTofuOutputs\<close>, \<open>normalizeTofuResources\<close>, \<open>encodeValuesRevision\<close>) and the rendering of one
  output (\<open>interpolation.go\<close>: \<open>renderOutputValue\<close>). A \<open>json.RawMessage\<close> is the text of the value; the nil
  one is \<open>None\<close>.
\<close>

section \<open>Raw members and elements\<close>

text \<open>On text that \<open>json_parse\<close> accepts: the members of its object, the elements of its array.\<close>

definition raw_prefix :: "string \<Rightarrow> string \<Rightarrow> string" where
  "raw_prefix s rest = (let w = skip_ws s in take (length w - length rest) w)"

function raw_members :: "string \<Rightarrow> (string \<times> string) list \<Rightarrow> (string \<times> string) list option" where
  "raw_members s acc =
     (case skip_ws s of
        [] \<Rightarrow> None
      | q # qs \<Rightarrow>
          (case str_body qs [] of
             None \<Rightarrow> None
           | Some (k, r1) \<Rightarrow>
               (case skip_ws r1 of
                  [] \<Rightarrow> None
                | colon # vs \<Rightarrow>
                    (case parse_value 0 vs of
                       None \<Rightarrow> None
                     | Some (v, r2) \<Rightarrow>
                         (case skip_ws r2 of
                            [] \<Rightarrow> None
                          | c # cs \<Rightarrow>
                              if c = CHR '','' \<and> length cs < length s
                              then raw_members cs (acc @ [(k, raw_prefix vs r2)])
                              else Some (acc @ [(k, raw_prefix vs r2)]))))))"
  by pat_completeness auto
termination by (relation "measure (\<lambda>(s, acc). length s)") auto

declare raw_members.simps [simp del]

function raw_elems :: "string \<Rightarrow> string list \<Rightarrow> string list option" where
  "raw_elems s acc =
     (case parse_value 0 s of
        None \<Rightarrow> None
      | Some (v, r) \<Rightarrow>
          (case skip_ws r of
             [] \<Rightarrow> None
           | c # cs \<Rightarrow>
               if c = CHR '','' \<and> length cs < length s then raw_elems cs (acc @ [raw_prefix s r])
               else Some (acc @ [raw_prefix s r])))"
  by pat_completeness auto
termination by (relation "measure (\<lambda>(s, acc). length s)") auto

declare raw_elems.simps [simp del]

definition raw_object :: "string \<Rightarrow> (string \<times> string) list option" where
  "raw_object s =
     (case json_parse s of
        Some JNull \<Rightarrow> Some []
      | Some (JObj []) \<Rightarrow> Some []
      | Some (JObj _) \<Rightarrow> raw_members (tl (skip_ws s)) []
      | _ \<Rightarrow> None)"

definition raw_array :: "string \<Rightarrow> string list option" where
  "raw_array s =
     (case json_parse s of
        Some JNull \<Rightarrow> Some []
      | Some (JArr []) \<Rightarrow> Some []
      | Some (JArr _) \<Rightarrow> raw_elems (tl (skip_ws s)) []
      | _ \<Rightarrow> None)"

section \<open>Decoding the records\<close>

record tofuOutput =
  to_Value :: "string option"
  to_Type :: "string option"
  to_Sensitive :: bool

record tofuResource =
  tr_Address :: string
  tr_Mode :: string
  tr_Type :: string
  tr_Name :: string
  tr_Provider :: string
  tr_ID :: "string option"

definition zero_output :: tofuOutput where
  "zero_output = \<lparr>to_Value = None, to_Type = None, to_Sensitive = False\<rparr>"

definition zero_resource :: tofuResource where
  "zero_resource =
     \<lparr>tr_Address = [], tr_Mode = [], tr_Type = [], tr_Name = [], tr_Provider = [], tr_ID = None\<rparr>"

definition output_member :: "string \<times> string \<Rightarrow> tofuOutput \<Rightarrow> tofuOutput option" where
  "output_member kv out =
     (case kv of (key, raw) \<Rightarrow>
        let k = fold_name key in
        if k = ''value'' then Some (out\<lparr>to_Value := Some raw\<rparr>)
        else if k = ''type'' then Some (out\<lparr>to_Type := Some raw\<rparr>)
        else if k = ''sensitive'' then
          (case json_parse raw of
             Some (JBool b) \<Rightarrow> Some (out\<lparr>to_Sensitive := b\<rparr>)
           | Some JNull \<Rightarrow> Some out
           | _ \<Rightarrow> None)
        else Some out)"

text \<open>A string field: \<open>null\<close> leaves it.\<close>

definition string_member :: "string \<Rightarrow> string \<Rightarrow> string option" where
  "string_member raw old =
     (case json_parse raw of Some (JStr s) \<Rightarrow> Some s | Some JNull \<Rightarrow> Some old | _ \<Rightarrow> None)"

definition resource_member :: "string \<times> string \<Rightarrow> tofuResource \<Rightarrow> tofuResource option" where
  "resource_member kv r =
     (case kv of (key, raw) \<Rightarrow>
        let k = fold_name key in
        if k = ''address'' then map_option (\<lambda>s. r\<lparr>tr_Address := s\<rparr>) (string_member raw (tr_Address r))
        else if k = ''mode'' then map_option (\<lambda>s. r\<lparr>tr_Mode := s\<rparr>) (string_member raw (tr_Mode r))
        else if k = ''type'' then map_option (\<lambda>s. r\<lparr>tr_Type := s\<rparr>) (string_member raw (tr_Type r))
        else if k = ''name'' then map_option (\<lambda>s. r\<lparr>tr_Name := s\<rparr>) (string_member raw (tr_Name r))
        else if k = ''provider'' then map_option (\<lambda>s. r\<lparr>tr_Provider := s\<rparr>) (string_member raw (tr_Provider r))
        else if k = ''id'' then Some (r\<lparr>tr_ID := Some raw\<rparr>)
        else Some r)"

fun members_into :: "('m \<Rightarrow> 'r \<Rightarrow> 'r option) \<Rightarrow> 'm list \<Rightarrow> 'r \<Rightarrow> 'r option" where
  "members_into f [] r = Some r"
| "members_into f (kv # kvs) r = Option.bind (f kv r) (members_into f kvs)"

definition decode_output :: "string \<Rightarrow> tofuOutput option" where
  "decode_output raw = Option.bind (raw_object raw) (\<lambda>kvs. members_into output_member kvs zero_output)"

definition decode_resource :: "string \<Rightarrow> tofuResource option" where
  "decode_resource raw = Option.bind (raw_object raw) (\<lambda>kvs. members_into resource_member kvs zero_resource)"

text \<open>\<open>map[string]tofuOutput\<close> with the last binding of a key first, and \<open>[]tofuResource\<close>.\<close>

definition decode_outputs :: "string \<Rightarrow> (string \<times> tofuOutput) list option" where
  "decode_outputs s =
     Option.bind (raw_object s) (\<lambda>kvs.
       map_option rev (collect (\<lambda>(k, raw). map_option (Pair k) (decode_output raw)) kvs))"

definition decode_resources :: "string \<Rightarrow> tofuResource list option" where
  "decode_resources s = Option.bind (raw_array s) (collect decode_resource)"

section \<open>Writing them back\<close>

text \<open>The compaction of a raw message inside \<open>json.Marshal\<close> also escapes HTML characters.\<close>

function html_escape :: "string \<Rightarrow> string" where
  "html_escape s =
     (if s = [] then []
      else if hd s \<in> {CHR ''<'', CHR ''>'', CHR ''&''}
        then backslash # ''u'' @ hex_digits 4 (byte (hd s)) @ html_escape (tl s)
      else if prefix [CHR 0xE2, CHR 0x80, CHR 0xA8] s \<or> prefix [CHR 0xE2, CHR 0x80, CHR 0xA9] s
        then backslash # ''u'' @ hex_digits 4 (fst (decode_rune s)) @ html_escape (drop 3 s)
      else hd s # html_escape (tl s))"
  by pat_completeness auto
termination by (relation "measure length") auto

declare html_escape.simps [simp del]

definition marshal_raw :: "string option \<Rightarrow> string" where
  "marshal_raw raw = (case raw of None \<Rightarrow> ''null'' | Some s \<Rightarrow> html_escape (compact_scan False False s))"

definition marshal_bool :: "bool \<Rightarrow> string" where
  "marshal_bool b = (if b then ''true'' else ''false'')"

definition marshal_output :: "tofuOutput \<Rightarrow> string" where
  "marshal_output out =
     ''{'' @ json_field ''value'' (marshal_raw (to_Value out)) @ '','' @
     json_field ''type'' (marshal_raw (to_Type out)) @ '','' @
     json_field ''sensitive'' (marshal_bool (to_Sensitive out)) @ ''}''"

definition marshal_resource :: "tofuResource \<Rightarrow> string" where
  "marshal_resource r =
     ''{'' @ json_field ''address'' (json_string (tr_Address r)) @ '','' @
     json_field ''mode'' (json_string (tr_Mode r)) @ '','' @
     json_field ''type'' (json_string (tr_Type r)) @ '','' @
     json_field ''name'' (json_string (tr_Name r)) @ '','' @
     json_field ''provider'' (json_string (tr_Provider r)) @ '','' @
     json_field ''id'' (marshal_raw (tr_ID r)) @ ''}''"

definition marshal_outputs :: "(string \<times> tofuOutput) list \<Rightarrow> string" where
  "marshal_outputs outs =
     ''{'' @ str_join '','' (map (\<lambda>k. json_field k (marshal_output (the (map_of outs k)))) (sorted_keys outs)) @ ''}''"

definition emptyTofuOutputs :: string where
  "emptyTofuOutputs = ''{}''"

definition emptyTofuResources :: string where
  "emptyTofuResources = ''[]''"

definition normalizeTofuOutputs :: "string \<Rightarrow> string option" where
  "normalizeTofuOutputs raw =
     (if trim_space raw = [] then Some []
      else case decode_outputs raw of
        None \<Rightarrow> None
      | Some outs \<Rightarrow> if outs = [] then Some emptyTofuOutputs else Some (marshal_outputs outs))"

definition normalizeTofuResources :: "string \<Rightarrow> string option" where
  "normalizeTofuResources raw =
     (if trim_space raw = [] then Some []
      else case decode_resources raw of
        None \<Rightarrow> None
      | Some records \<Rightarrow>
          let kept = filter (\<lambda>r. tr_Address r \<noteq> []) records in
          if kept = [] then Some emptyTofuResources
          else Some (''['' @ str_join '','' (map marshal_resource kept) @ '']''))"

text \<open>The index-to-revision map of a helm step's logs; keys are written as strings, in string order.\<close>

definition encodeValuesRevision :: "(int \<times> string) list \<Rightarrow> string" where
  "encodeValuesRevision values =
     (if values = [] then []
      else
        let kvs = map (\<lambda>(i, s). (show_int i, s)) values in
        ''{'' @ str_join '','' (map (\<lambda>k. json_field k (json_string (the (map_of kvs k)))) (sorted_keys kvs)) @ ''}'')"

section \<open>Rendering an output\<close>

definition renderOutputValue :: "string option \<Rightarrow> string" where
  "renderOutputValue v =
     (let raw = (case v of None \<Rightarrow> [] | Some s \<Rightarrow> s) in
      case json_parse raw of
        Some (JStr s) \<Rightarrow> s
      | Some JNull \<Rightarrow> []
      | Some _ \<Rightarrow> compact_scan False False raw
      | None \<Rightarrow> raw)"

end
