(* ===== verification/Render.thy ===== *)
theory Render
  imports Deploy Outputs Snapshot
begin

text \<open>
  The plan-time rendering of a helm step's references (\<open>lib/workflows/interpolation.go\<close>:
  \<open>helmRenderer\<close>, \<open>outputsLookup\<close>, \<open>tofuApplyUnitID\<close>, \<open>mergeVars\<close>). The values of the run's execution units
  come in some order, the iteration order of the code's map.
\<close>

section \<open>Outputs of an upstream component\<close>

definition apply_candidate :: "(uuid \<Rightarrow> uuid) \<Rightarrow> string \<Rightarrow> GraphNode \<Rightarrow> uuid option" where
  "apply_candidate derive name n =
     (if gn_Type n \<noteq> TypeTerraform then None
      else if cfg (gn_Config n) ''command'' = CommandApply then
        (if trim_suffix (gn_Name n) tofuApplyNameSuffix \<noteq> name then None else Some (gn_ID n))
      else if cfg (gn_Config n) ''command'' = CommandPlan then
        (if trim_suffix (gn_Name n) tofuPlanNameSuffix \<noteq> name then None else Some (derive (gn_ID n)))
      else None)"

fun unit_scan :: "(uuid \<Rightarrow> uuid) \<Rightarrow> string \<Rightarrow> GraphNode list \<Rightarrow> uuid option \<Rightarrow> plan_error + uuid" where
  "unit_scan derive name [] found = (case found of None \<Rightarrow> Inl (NotInRun name) | Some i \<Rightarrow> Inr i)"
| "unit_scan derive name (n # ns) found =
     (case apply_candidate derive name n of
        None \<Rightarrow> unit_scan derive name ns found
      | Some candidate \<Rightarrow>
          if found \<noteq> None \<and> found \<noteq> Some candidate then Inl (AmbiguousName name)
          else unit_scan derive name ns (Some candidate))"

definition tofuApplyUnitID :: "(uuid \<Rightarrow> uuid) \<Rightarrow> string \<Rightarrow> GraphNode list \<Rightarrow> plan_error + uuid" where
  "tofuApplyUnitID derive name units = unit_scan derive name units None"

text \<open>
  \<open>by_name\<close> is \<open>componentByName\<close> (\<open>Inr None\<close> is not found), \<open>recorded\<close> is \<open>resolveOutputs\<close> for the
  organization and run.
\<close>

definition unit_or_named ::
  "(uuid \<Rightarrow> uuid) \<Rightarrow> (string \<Rightarrow> plan_error + uuid option) option \<Rightarrow> string \<Rightarrow> GraphNode list \<Rightarrow> plan_error + uuid" where
  "unit_or_named derive by_name name units =
     (case tofuApplyUnitID derive name units of
        Inl (NotInRun m) \<Rightarrow>
          (case by_name of
             None \<Rightarrow> Inl (NotInRun m)
           | Some look \<Rightarrow>
               (case look name of
                  Inl e \<Rightarrow> Inl e
                | Inr None \<Rightarrow> Inl (NotInRun m)
                | Inr (Some i) \<Rightarrow> Inr (derive i)))
      | r \<Rightarrow> r)"

definition outputsLookup ::
  "(uuid \<Rightarrow> uuid) \<Rightarrow> (string \<Rightarrow> plan_error + uuid option) option \<Rightarrow> (uuid \<Rightarrow> plan_error + string) \<Rightarrow>
     GraphNode list \<Rightarrow> string \<Rightarrow> plan_error + (string \<times> tofuOutput) list" where
  "outputsLookup derive by_name recorded units name =
     try_bind (unit_or_named derive by_name name units) (\<lambda>applyID.
     try_bind (recorded applyID) (\<lambda>raw.
       if raw = [] then Inl (NoRecordedOutputs name)
       else case decode_outputs raw of
              None \<Rightarrow> Inl (OutputsUnreadable name)
            | Some outs \<Rightarrow> Inr outs))"

section \<open>The renderer\<close>

definition GitSHASentinel :: string where
  "GitSHASentinel = ''__SPACEFLEET_GIT_SHA__''"

definition GitSHAShortSentinel :: string where
  "GitSHAShortSentinel = ''__SPACEFLEET_GIT_SHA_SHORT__''"

definition mergeVars :: "env \<Rightarrow> env \<Rightarrow> env" where
  "mergeVars plain secret = secret @ plain"

record helmRenderer =
  hr_Node :: GraphNode
  hr_Action :: string
  hr_RunID :: string
  hr_Vars :: env
  hr_Outputs :: "(string \<Rightarrow> plan_error + (string \<times> tofuOutput) list) option"

definition lookup_var :: "helmRenderer \<Rightarrow> Ref \<Rightarrow> plan_error + string" where
  "lookup_var r ref =
     (case map_of (hr_Vars r) (Var ref) of
        None \<Rightarrow> Inl (UndefinedVariable (Raw ref) (Var ref))
      | Some v \<Rightarrow> Inr v)"

definition lookup_run :: "helmRenderer \<Rightarrow> bool \<Rightarrow> Ref \<Rightarrow> plan_error + string" where
  "lookup_run r inValues ref =
     (let gitSource = cfg (gn_Config (hr_Node r)) ''chart_source'' = SourceGit;
          v = cfg (gn_Config (hr_Node r)) ''git_ref'' in
      if RunKey ref = ''id'' then Inr (hr_RunID r)
      else if RunKey ref = ''action'' then Inr (hr_Action r)
      else if RunKey ref = ''git_ref'' then
        (if \<not> gitSource \<or> v = [] then Inl (GitRefUnavailable (Raw ref)) else Inr v)
      else if RunKey ref = ''git_sha'' \<or> RunKey ref = ''git_sha_short'' then
        (if \<not> gitSource then Inl (GitSourceNeeded (Raw ref))
         else if \<not> inValues then Inl (GitShaOnlyInValues (Raw ref))
         else if RunKey ref = ''git_sha'' then Inr GitSHASentinel
         else Inr GitSHAShortSentinel)
      else Inl (UnknownRunKeyRef (Raw ref)))"

definition lookup_output :: "helmRenderer \<Rightarrow> Ref \<Rightarrow> plan_error + string" where
  "lookup_output r ref =
     (case hr_Outputs r of
        None \<Rightarrow> Inl (OutputsUnavailable (Raw ref))
      | Some outputs \<Rightarrow>
          (case outputs (Component ref) of
             Inl e \<Rightarrow> Inl (OutputLookup (Raw ref) e)
           | Inr outs \<Rightarrow>
               (case map_of outs (Output ref) of
                  None \<Rightarrow> Inl (NoRecordedOutput (Raw ref) (Output ref))
                | Some out \<Rightarrow> Inr (renderOutputValue (to_Value out)))))"

definition helm_lookup :: "helmRenderer \<Rightarrow> bool \<Rightarrow> Ref \<Rightarrow> plan_error + string" where
  "helm_lookup r inValues ref =
     (case Namespace ref of
        NamespaceVars \<Rightarrow> lookup_var r ref
      | NamespaceRun \<Rightarrow> lookup_run r inValues ref
      | NamespaceComponents \<Rightarrow> lookup_output r ref)"

text \<open>The rendered field and its references.\<close>

definition helm_render :: "helmRenderer \<Rightarrow> string \<Rightarrow> string \<Rightarrow> bool \<Rightarrow> plan_error + string \<times> Ref list" where
  "helm_render r field inp inValues =
     (case Parse inp of
        Inl e \<Rightarrow> Inl (FieldSyntax field e)
      | Inr tpl \<Rightarrow> try_bind (Render tpl (helm_lookup r inValues)) (\<lambda>out. Inr (out, Refs tpl)))"

text \<open>\<open>gitContext\<close> after a field rendered: some reference went to a sentinel.\<close>

definition sets_git_context :: "Ref list \<Rightarrow> bool" where
  "sets_git_context refs \<longleftrightarrow>
     list_ex (\<lambda>ref. Namespace ref = NamespaceRun \<and> RunKey ref \<in> {''git_sha'', ''git_sha_short''}) refs"

end
