(* ===== verification/Planner.thy ===== *)
theory Planner
  imports Render
begin

text \<open>
  From one execution unit to the run request of its step (\<open>lib/workflows/planner.go\<close>). The worker's
  collaborators are the function-valued fields of a record, as in the code; a \<open>platform\<close> holds what
  comes from libraries: UUID text, the derived apply id, rune tables, and the \<open>%v\<close> form of a number.
\<close>

section \<open>Rows, requests, collaborators\<close>

record Application =
  ap_ID :: uuid
  ap_OrganizationID :: uuid
  ap_Name :: string
  ap_RunnerClusterID :: uuid

record RunSpec =
  sp_Name :: string
  sp_Image :: string
  sp_Script :: string
  sp_Files :: env
  sp_Env :: env
  sp_SecretEnv :: env
  sp_ServiceAccountName :: string
  sp_PluginCacheClaim :: string

record RunRequest =
  rq_Conn :: Connection
  rq_Namespace :: string
  rq_ExistingRun :: string
  rq_Spec :: RunSpec

text \<open>\<open>pf_UUIDValue\<close> is the first result of \<open>uuid.Parse\<close>, whether or not it reports an error.\<close>

record platform =
  pf_UUIDString :: "uuid \<Rightarrow> string"
  pf_UUIDValue :: "string \<Rightarrow> uuid"
  pf_Derive :: "uuid \<Rightarrow> uuid"
  pf_Lower :: "nat \<Rightarrow> nat"
  pf_IsPrint :: "nat \<Rightarrow> bool"
  pf_ShowNumber :: "string \<Rightarrow> string"

record ManagedState =
  ms_Signer :: "Signer option"
  ms_RunnerURL :: string
  ms_InClusterURL :: string

record Worker =
  wk_Resolver :: Resolver
  wk_ManagedState :: ManagedState
  wk_PluginCache :: "(uuid \<Rightarrow> plan_error + string) option"
  wk_EnsureHandover :: "Connection \<Rightarrow> string \<Rightarrow> string \<Rightarrow> (string \<times> string) list \<Rightarrow> plan_error option"
  wk_ComponentByName :: "(uuid \<Rightarrow> uuid \<Rightarrow> string \<Rightarrow> plan_error + uuid option) option"
  wk_ResolveOutputs :: "uuid \<Rightarrow> uuid \<Rightarrow> uuid \<Rightarrow> plan_error + string"

section \<open>Names\<close>

definition deref :: "uuid option \<Rightarrow> uuid" where
  "deref p = (case p of None \<Rightarrow> uuid_Nil | Some i \<Rightarrow> i)"

definition label_rune :: "nat \<Rightarrow> char" where
  "label_rune r = (if 97 \<le> r \<and> r \<le> 122 \<or> 48 \<le> r \<and> r \<le> 57 then char_of r else CHR ''-'')"

definition sanitizeLabel :: "(nat \<Rightarrow> nat) \<Rightarrow> string \<Rightarrow> string" where
  "sanitizeLabel low s =
     (let out = trim_set ''-'' (map label_rune (runes (to_lower low (trim_space s)))) in
      if out = [] then ''release'' else out)"

definition tofuPlanArtifactSecret :: "platform \<Rightarrow> uuid \<Rightarrow> uuid \<Rightarrow> string" where
  "tofuPlanArtifactSecret pf runID planID =
     sanitizeLabel (pf_Lower pf) (''tfplan-'' @ pf_UUIDString pf runID @ ''-'' @ pf_UUIDString pf planID)"

definition tofuRunPrefix :: "platform \<Rightarrow> GraphNode \<Rightarrow> string" where
  "tofuRunPrefix pf node = ''tofu-'' @ sanitizeLabel (pf_Lower pf) (gn_Name node)"

definition manifestRunPrefix :: "platform \<Rightarrow> GraphNode \<Rightarrow> string" where
  "manifestRunPrefix pf node = ''manifest-'' @ sanitizeLabel (pf_Lower pf) (gn_Name node)"

definition componentRunPrefix :: "platform \<Rightarrow> GraphNode \<Rightarrow> string" where
  "componentRunPrefix pf node = ''helm-'' @ sanitizeLabel (pf_Lower pf) (gn_Name node)"

definition componentReleaseName :: "string \<Rightarrow> GraphNode \<Rightarrow> string" where
  "componentReleaseName appName node =
     (let rn = cfg (gn_Config node) ''release_name'' in if rn \<noteq> [] then rn else appName @ ''-'' @ gn_Name node)"

section \<open>Actions\<close>

definition helmActionFor :: "string \<Rightarrow> plan_error + string" where
  "helmActionFor action =
     (if action \<in> {ActionDeploy, ActionUninstall, ActionPreview} then Inr action else Inl (UnknownRunAction action))"

definition manifestActionFor :: "string \<Rightarrow> plan_error + string" where
  "manifestActionFor action =
     (if action \<in> {ActionDeploy, ActionUninstall, ActionPreview} then Inr action else Inl (UnknownRunAction action))"

definition tofuActionFor :: "string \<Rightarrow> plan_error + string" where
  "tofuActionFor action =
     (if action \<in> {ActionDeploy, ActionUninstall, ActionPreview, ActionDrift, ActionStateOp} then Inr action
      else Inl (UnknownRunAction action))"

section \<open>Configuration\<close>

text \<open>\<open>%v\<close> of a decoded JSON value; a map prints its keys in order.\<close>

fun sprint_value :: "(string \<Rightarrow> string) \<Rightarrow> json \<Rightarrow> string" where
  "sprint_value num (JStr s) = s"
| "sprint_value num (JNum t) = num t"
| "sprint_value num (JBool b) = (if b then ''true'' else ''false'')"
| "sprint_value num JNull = ''<nil>''"
| "sprint_value num (JArr vs) = ''['' @ str_join '' '' (map (sprint_value num) vs) @ '']''"
| "sprint_value num (JObj kvs) =
     (let kts = rev (map (\<lambda>(k, v). (k, sprint_value num v)) kvs) in
      ''map['' @ str_join '' '' (map (\<lambda>k. k @ '':'' @ the (map_of kts k)) (sorted_keys kts)) @ '']'')"

definition decodeBackendConfig :: "(string \<Rightarrow> string) \<Rightarrow> string \<Rightarrow> plan_error + (string \<times> string) list" where
  "decodeBackendConfig num encoded =
     (if encoded = [] then Inr []
      else case decode_any_map encoded of
             None \<Rightarrow> Inl (BadConfigValue ''backend_config'')
           | Some raw \<Rightarrow> Inr (map (\<lambda>(k, v). (k, sprint_value num v)) raw))"

definition decodeFlags :: "string \<Rightarrow> string \<Rightarrow> plan_error + string list" where
  "decodeFlags encoded key =
     (if encoded = [] then Inr []
      else case decode_string_list encoded of None \<Rightarrow> Inl (BadConfigValue key) | Some flags \<Rightarrow> Inr flags)"

definition withNativeLocking :: "(string \<times> string) list \<Rightarrow> string \<Rightarrow> Version \<Rightarrow> (string \<times> string) list" where
  "withNativeLocking c backend v =
     (if \<not> NativeS3Lock v \<or> backend \<noteq> BackendS3 then c
      else if map_of c ''use_lockfile'' \<noteq> None then c
      else (''use_lockfile'', ''true'') # c)"

definition setting :: "(string \<times> string) list \<Rightarrow> string \<Rightarrow> string" where
  "setting c k = (case map_of c k of None \<Rightarrow> [] | Some v \<Rightarrow> v)"

definition s3LockTable :: "string \<Rightarrow> (string \<times> string) list \<Rightarrow> string" where
  "s3LockTable backend c = (if backend \<noteq> BackendS3 then [] else setting c ''dynamodb_table'')"

definition helmChartConfig :: "config \<Rightarrow> config" where
  "helmChartConfig c = c |` {''repo_url'', ''chart'', ''version'', ''git_ref'', ''git_path''}"

definition plan_values_sources :: "GraphNode \<Rightarrow> plan_error + config list" where
  "plan_values_sources node =
     (case decodeValuesSources (cfg (gn_Config node) ''values_sources'') of
        None \<Rightarrow> Inl (BadConfigValue ''values_sources'')
      | Some srcs \<Rightarrow> Inr (map map_of srcs))"

section \<open>Managed state\<close>

text \<open>Times in seconds: the watch timeout of a step and the margin of its token.\<close>

definition workflowWatchTimeout :: int where
  "workflowWatchTimeout = 90 * 60"

definition stateTokenMargin :: int where
  "stateTokenMargin = 10 * 60"

definition state_claims :: "Application \<Rightarrow> GraphNode \<Rightarrow> string \<Rightarrow> uuid \<Rightarrow> uuid \<Rightarrow> uuid \<Rightarrow> int \<Rightarrow> Claims" where
  "state_claims app node action componentID runID componentRunID now =
     \<lparr>cl_OrgID = ap_OrganizationID app, cl_ApplicationID = ap_ID app, cl_ComponentID = componentID,
      cl_Workspace = DefaultWorkspace, cl_WorkflowRunID = runID, cl_ComponentRunID = componentRunID,
      cl_Scope = (if recordsTofuState action node then ScopeWrite else ScopeRead),
      cl_Expiry = now + workflowWatchTimeout + stateTokenMargin\<rparr>"

definition managedStateAccess ::
  "platform \<Rightarrow> ManagedState \<Rightarrow> Application \<Rightarrow> GraphNode \<Rightarrow> string \<Rightarrow> uuid \<Rightarrow> uuid \<Rightarrow> uuid \<Rightarrow> string \<Rightarrow> int \<Rightarrow>
     plan_error + string \<times> string" where
  "managedStateAccess pf m app node action componentID runID componentRunID runner now =
     (case ms_Signer m of
        None \<Rightarrow> Inl ManagedStateUnconfigured
      | Some signer \<Rightarrow>
          if ms_RunnerURL m = [] then Inl ManagedStateUnconfigured
          else
            let base = (if runner = MethodInCluster \<and> ms_InClusterURL m \<noteq> [] then ms_InClusterURL m else ms_RunnerURL m)
            in case Sign signer (pf_UUIDString pf) (state_claims app node action componentID runID componentRunID now) of
                 Inl e \<Rightarrow> Inl (External ''mint state token'')
               | Inr token \<Rightarrow> Inr (Address (pf_UUIDString pf) base componentID DefaultWorkspace, token))"

section \<open>Manifest steps\<close>

definition DefaultImage :: string where
  "DefaultImage = ''alpine/k8s:1.31.1''"

definition plain_spec :: "string \<Rightarrow> string \<Rightarrow> Resolved \<Rightarrow> RunSpec" where
  "plain_spec name script resolved =
     \<lparr>sp_Name = name, sp_Image = DefaultImage, sp_Script = script, sp_Files = rs_Files resolved,
      sp_Env = rs_Env resolved, sp_SecretEnv = rs_SecretEnv resolved, sp_ServiceAccountName = [],
      sp_PluginCacheClaim = []\<rparr>"

definition run_request :: "Resolved \<Rightarrow> string \<Rightarrow> RunSpec \<Rightarrow> RunRequest" where
  "run_request resolved existingRun spec =
     \<lparr>rq_Conn = rs_RunnerConn resolved, rq_Namespace = JobsNamespace, rq_ExistingRun = existingRun, rq_Spec = spec\<rparr>"

definition base_inputs :: "Application \<Rightarrow> GraphNode \<Rightarrow> RunInputs" where
  "base_inputs app node =
     \<lparr>ri_OrgID = ap_OrganizationID app, ri_ApplicationID = ap_ID app, ri_ComponentID = gn_ComponentID node,
      ri_RunnerClusterID = ap_RunnerClusterID app, ri_TargetClusterID = uuid_Nil, ri_Values = [],
      ri_ChartCredentialID = uuid_Nil, ri_GitHubInstallationID = deref (gn_GitHubInstallationID node),
      ri_CloudCredentialID = uuid_Nil, ri_DynamoDBLockTable = [], ri_DynamoDBLockRegion = [],
      ri_PullsChart = False, ri_ExposeTFVars = False\<rparr>"

definition manifest_inputs :: "Application \<Rightarrow> GraphNode \<Rightarrow> RunInputs" where
  "manifest_inputs app node =
     (base_inputs app node)
       \<lparr>ri_TargetClusterID := deref (gn_TargetClusterID node),
        ri_PullsChart := (case gn_GitHubInstallationID node of None \<Rightarrow> False | Some i \<Rightarrow> i \<noteq> uuid_Nil)\<rparr>"

definition planManifest ::
  "platform \<Rightarrow> Worker \<Rightarrow> Application \<Rightarrow> GraphNode \<Rightarrow> string \<Rightarrow> string \<Rightarrow> plan_error + RunRequest" where
  "planManifest pf w app node action existingRun =
     try_bind (manifestActionFor action) (\<lambda>manifestAction.
     try_bind (Resolve (wk_Resolver w) (manifest_inputs app node)) (\<lambda>resolved.
       let script = manifest_Script
             \<lparr>ma_Action = manifestAction, ma_RepoURL = cfg (gn_Config node) ''repo_url'',
              ma_GitRef = cfg (gn_Config node) ''git_ref'', ma_Path = cfg (gn_Config node) ''path'',
              ma_HasGitToken = rs_HasGitToken resolved\<rparr>
       in Inr (run_request resolved existingRun (plain_spec (manifestRunPrefix pf node) script resolved))))"

section \<open>OpenTofu steps\<close>

definition tofu_secret :: "platform \<Rightarrow> GraphNode \<Rightarrow> string \<Rightarrow> uuid \<Rightarrow> (uuid \<rightharpoonup> GraphNode) \<Rightarrow> string" where
  "tofu_secret pf node action runID byID =
     (let planID = tofuHandoverPlanID node byID in
      if \<not> isReadOnlyAction action \<and> planID \<noteq> uuid_Nil then tofuPlanArtifactSecret pf runID planID else [])"

definition tofu_backend :: "platform \<Rightarrow> GraphNode \<Rightarrow> Version \<Rightarrow> plan_error + (string \<times> string) list" where
  "tofu_backend pf node version =
     try_bind (decodeBackendConfig (pf_ShowNumber pf) (cfg (gn_Config node) ''backend_config''))
       (\<lambda>c. Inr (withNativeLocking c (cfg (gn_Config node) ''backend'') version))"

definition tofu_flags :: "GraphNode \<Rightarrow> plan_error + string list \<times> string list \<times> string list" where
  "tofu_flags node =
     (let c = gn_Config node in
      try_bind (decodeFlags (cfg c ''init_flags'') ''init_flags'') (\<lambda>i.
      try_bind (decodeFlags (cfg c ''plan_flags'') ''plan_flags'') (\<lambda>p.
      try_bind (decodeFlags (cfg c ''apply_flags'') ''apply_flags'') (\<lambda>a.
      Inr (i, p, a)))))"

definition auth_cluster :: "platform \<Rightarrow> GraphNode \<Rightarrow> uuid" where
  "auth_cluster pf node = pf_UUIDValue pf (cfg (gn_Config node) ''auth_cluster_id'')"

definition tofu_inputs :: "platform \<Rightarrow> Application \<Rightarrow> GraphNode \<Rightarrow> (string \<times> string) list \<Rightarrow> RunInputs" where
  "tofu_inputs pf app node backendConfig =
     (base_inputs app node)
       \<lparr>ri_TargetClusterID := auth_cluster pf node,
        ri_CloudCredentialID := pf_UUIDValue pf (cfg (gn_Config node) ''cloud_credential_id''),
        ri_DynamoDBLockTable := s3LockTable (cfg (gn_Config node) ''backend'') backendConfig,
        ri_DynamoDBLockRegion := setting backendConfig ''region'',
        ri_PullsChart := True, ri_ExposeTFVars := True\<rparr>"

definition stateEnvUsername :: string where
  "stateEnvUsername = ''TF_HTTP_USERNAME''"

definition stateEnvPassword :: string where
  "stateEnvPassword = ''TF_HTTP_PASSWORD''"

text \<open>The state address and the environments with this step's token, on the managed backend.\<close>

definition with_state_env :: "string \<Rightarrow> Resolved \<Rightarrow> Resolved" where
  "with_state_env token r =
     r\<lparr>rs_Env := AList.update stateEnvUsername ''spacefleet'' (AList.delete stateEnvPassword (rs_Env r)),
       rs_SecretEnv := AList.update stateEnvPassword token (AList.delete stateEnvUsername (rs_SecretEnv r))\<rparr>"

definition tofu_state ::
  "platform \<Rightarrow> Worker \<Rightarrow> Application \<Rightarrow> GraphNode \<Rightarrow> string \<Rightarrow> uuid \<Rightarrow> uuid \<Rightarrow> (uuid \<rightharpoonup> GraphNode) \<Rightarrow> int \<Rightarrow>
     Resolved \<Rightarrow> plan_error + string \<times> Resolved" where
  "tofu_state pf w app node action runID componentRunID byID now resolved =
     (if cfg (gn_Config node) ''backend'' \<noteq> BackendSpacefleet then Inr ([], resolved)
      else
        let authored = (if gn_ComponentID node = uuid_Nil then tofuHandoverPlanID node byID else gn_ComponentID node)
        in try_bind (managedStateAccess pf (wk_ManagedState w) app node action authored runID componentRunID
             (cn_Method (rs_RunnerConn resolved)) now) (\<lambda>(addr, token).
           Inr (addr, with_state_env token resolved)))"

definition ensure_handover ::
  "platform \<Rightarrow> Worker \<Rightarrow> Application \<Rightarrow> uuid \<Rightarrow> Resolved \<Rightarrow> string \<Rightarrow> plan_error + unit" where
  "ensure_handover pf w app runID resolved secret =
     (if secret = [] then Inr ()
      else case wk_EnsureHandover w (rs_RunnerConn resolved) JobsNamespace secret
             [(''spacefleet.io/org-id'', pf_UUIDString pf (ap_OrganizationID app)),
              (''spacefleet.io/job-id'', pf_UUIDString pf runID)] of
             Some e \<Rightarrow> Inl e
           | None \<Rightarrow> Inr ())"

definition PluginCacheMountPath :: string where
  "PluginCacheMountPath = ''/plugins''"

text \<open>The claim of the runner's plugin cache and the directory it is mounted at.\<close>

definition plugin_cache :: "Worker \<Rightarrow> Application \<Rightarrow> plan_error + string \<times> string" where
  "plugin_cache w app =
     (case wk_PluginCache w of
        None \<Rightarrow> Inr ([], [])
      | Some look \<Rightarrow>
          try_bind (look (ap_RunnerClusterID app)) (\<lambda>claim.
            Inr (if claim \<noteq> [] then (claim, PluginCacheMountPath) else ([], []))))"

definition tofu_apply ::
  "platform \<Rightarrow> GraphNode \<Rightarrow> string \<Rightarrow> (string \<times> string) list \<Rightarrow> string list \<times> string list \<times> string list \<Rightarrow>
     string \<Rightarrow> string \<Rightarrow> string \<Rightarrow> StateOp option \<Rightarrow> Resolved \<Rightarrow> TofuApply" where
  "tofu_apply pf node action backendConfig flags secret stateAddress pluginDir stateOp resolved =
     (let c = gn_Config node in
      \<lparr>ta_Command = cfg c ''command'', ta_Action = action, ta_RepoURL = cfg c ''repo_url'',
       ta_GitRef = cfg c ''git_ref'', ta_Path = cfg c ''path'', ta_Backend = cfg c ''backend'',
       ta_BackendConfig = backendConfig, ta_StateAddress = stateAddress, ta_Namespace = JobsNamespace,
       ta_HasGitToken = rs_HasGitToken resolved, ta_HasCloudAuth = rs_HasCloudAuth resolved,
       ta_HasClusterAuth = (auth_cluster pf node \<noteq> uuid_Nil), ta_PlanArtifactSecret = secret,
       ta_InitFlags = fst flags, ta_PlanFlags = fst (snd flags), ta_ApplyFlags = snd (snd flags),
       ta_StateOp = stateOp, ta_Workspace = cfg c ''workspace'', ta_TFVars = cfg c ''tfvars'',
       ta_PluginCacheDir = pluginDir\<rparr>)"

definition planTofu ::
  "platform \<Rightarrow> Worker \<Rightarrow> Application \<Rightarrow> GraphNode \<Rightarrow> string \<Rightarrow> string \<Rightarrow> uuid \<Rightarrow> uuid \<Rightarrow>
     (uuid \<rightharpoonup> GraphNode) \<Rightarrow> StateOp option \<Rightarrow> int \<Rightarrow> plan_error + RunRequest" where
  "planTofu pf w app node action existingRun runID componentRunID byID stateOp now =
     try_bind (tofuActionFor action) (\<lambda>tofuAction.
     let secret = tofu_secret pf node action runID byID in
     case ResolveVersion (cfg (gn_Config node) ''tofu_version'') of
       None \<Rightarrow> Inl (UnsupportedTofuVersion (cfg (gn_Config node) ''tofu_version''))
     | Some version \<Rightarrow>
         try_bind (tofu_backend pf node version) (\<lambda>backendConfig.
         try_bind (tofu_flags node) (\<lambda>flags.
         try_bind (Resolve (wk_Resolver w) (tofu_inputs pf app node backendConfig)) (\<lambda>resolved.
         try_bind (tofu_state pf w app node action runID componentRunID byID now resolved) (\<lambda>(stateAddress, resolved).
         try_bind (ensure_handover pf w app runID resolved secret) (\<lambda>_.
         try_bind (plugin_cache w app) (\<lambda>(claim, dir).
           let script = tofu_Script (pf_IsPrint pf)
                 (tofu_apply pf node tofuAction backendConfig flags secret stateAddress dir stateOp resolved)
           in Inr (run_request resolved existingRun
                \<lparr>sp_Name = tofuRunPrefix pf node, sp_Image = Image version, sp_Script = script,
                 sp_Files = rs_Files resolved, sp_Env = rs_Env resolved, sp_SecretEnv = rs_SecretEnv resolved,
                 sp_ServiceAccountName = secret, sp_PluginCacheClaim = claim\<rparr>))))))))"

section \<open>Helm steps\<close>

definition helm_inputs :: "Application \<Rightarrow> GraphNode \<Rightarrow> bool \<Rightarrow> RunInputs" where
  "helm_inputs app node pullsChart =
     (base_inputs app node)
       \<lparr>ri_TargetClusterID := deref (gn_TargetClusterID node), ri_Values := cfg (gn_Config node) ''values'',
        ri_ChartCredentialID := deref (gn_ChartCredentialID node), ri_PullsChart := pullsChart\<rparr>"

definition helm_renderer ::
  "platform \<Rightarrow> Worker \<Rightarrow> Application \<Rightarrow> GraphNode \<Rightarrow> string \<Rightarrow> uuid \<Rightarrow> GraphNode list \<Rightarrow> Resolved \<Rightarrow> helmRenderer" where
  "helm_renderer pf w app node action runID units resolved =
     \<lparr>hr_Node = node, hr_Action = action, hr_RunID = pf_UUIDString pf runID,
      hr_Vars = mergeVars (rs_Env resolved) (rs_SecretEnv resolved),
      hr_Outputs = Some (outputsLookup (pf_Derive pf)
        (case wk_ComponentByName w of
           None \<Rightarrow> None
         | Some f \<Rightarrow> Some (f (ap_OrganizationID app) (ap_ID app)))
        (wk_ResolveOutputs w (ap_OrganizationID app) runID) units)\<rparr>"

text \<open>The three rendered fields: values, namespace, release name, and whether a git reference was among them.\<close>

definition render_fields ::
  "Application \<Rightarrow> GraphNode \<Rightarrow> helmRenderer \<Rightarrow> plan_error + string \<times> string \<times> string \<times> bool" where
  "render_fields app node r =
     try_bind (helm_render r ''values'' (cfg (gn_Config node) ''values'') True) (\<lambda>(values, vrefs).
     try_bind (helm_render r ''target_namespace'' (gn_TargetNamespace node) False) (\<lambda>(ns, nrefs).
       if nrefs \<noteq> [] \<and> \<not> validDNSLabel ns then Inl (BadRenderedNamespace ns)
       else try_bind (helm_render r ''release_name'' (componentReleaseName (ap_Name app) node) False) (\<lambda>(release, rrefs).
         Inr (values, ns, release, sets_git_context (vrefs @ nrefs @ rrefs)))))"

definition helm_rollout ::
  "GraphNode \<Rightarrow> string \<Rightarrow> bool \<Rightarrow> config list \<Rightarrow> Resolved \<Rightarrow> string \<times> string \<times> string \<times> bool \<Rightarrow> Rollout" where
  "helm_rollout node action force sources resolved rendered =
     (case rendered of (values, ns, release, gitContext) \<Rightarrow>
      \<lparr>ro_Action = action, ro_ChartSource = cfg (gn_Config node) ''chart_source'',
       ro_Config = helmChartConfig (gn_Config node), ro_ReleaseName = release, ro_TargetNamespace = ns,
       ro_WaitTimeout = WaitTimeout (rs_TargetMethod resolved), ro_ValuesSources = sources,
       ro_HasCredential = rs_HasCredential resolved, ro_HasGitToken = rs_HasGitToken resolved,
       ro_RenderGitContext = gitContext, ro_Force = (force \<and> action = ActionDeploy),
       ro_CreateNamespace = (cfg (gn_Config node) ''create_namespace'' \<noteq> ''false'')\<rparr>)"

definition planHelm ::
  "platform \<Rightarrow> Worker \<Rightarrow> Application \<Rightarrow> GraphNode \<Rightarrow> string \<Rightarrow> bool \<Rightarrow> string \<Rightarrow> uuid \<Rightarrow> GraphNode list \<Rightarrow>
     plan_error + RunRequest" where
  "planHelm pf w app node action force existingRun runID units =
     try_bind (helmActionFor action) (\<lambda>helmAction.
     try_bind (plan_values_sources node) (\<lambda>sources.
     try_bind (Resolve (wk_Resolver w) (helm_inputs app node (helmAction \<noteq> ActionUninstall))) (\<lambda>resolved.
     try_bind (render_fields app node (helm_renderer pf w app node action runID units resolved)) (\<lambda>rendered.
       let resolved' = resolved\<lparr>rs_Files := AList.update ''values.yaml'' (fst rendered) (rs_Files resolved)\<rparr>;
           script = helm_Script (helm_rollout node helmAction force sources resolved' rendered)
       in Inr (run_request resolved' existingRun (plain_spec (componentRunPrefix pf node) script resolved'))))))"

section \<open>One component\<close>

definition planComponent ::
  "platform \<Rightarrow> Worker \<Rightarrow> Application \<Rightarrow> GraphNode \<Rightarrow> string \<Rightarrow> bool \<Rightarrow> string \<Rightarrow> uuid \<Rightarrow> uuid \<Rightarrow>
     GraphNode list \<Rightarrow> StateOp option \<Rightarrow> int \<Rightarrow> plan_error + RunRequest" where
  "planComponent pf w app node action force existingRun runID componentRunID units stateOp now =
     (if gn_Type node = TypeHelm then planHelm pf w app node action force existingRun runID units
      else if gn_Type node = TypeManifest then planManifest pf w app node action existingRun
      else if gn_Type node = TypeTerraform
        then planTofu pf w app node action existingRun runID componentRunID (by_id units) stateOp now
      else Inl (UnsupportedType (gn_Type node)))"

end
