(* ===== verification/StateToken_Props.thy ===== *)
theory StateToken_Props
  imports StateToken
begin

text \<open>
  Signing and verifying are inverse on claims whose texts are plain, and a verified token is one the
  signer's MAC vouches for.
\<close>

section \<open>Plain strings as JSON\<close>

definition json_plain :: "string \<Rightarrow> bool" where
  "json_plain s \<longleftrightarrow>
     list_all (\<lambda>c. 32 \<le> byte c \<and> byte c < 127 \<and> byte c \<notin> {34, 92, 60, 62, 38}) s"

lemma quote_byte: "c = quote_char \<longleftrightarrow> byte c = 34" "c = backslash \<longleftrightarrow> byte c = 92"
  by (auto simp: quote_char_def backslash_def) (metis char_of_char)+

lemma decode_plain: "byte c < 128 \<Longrightarrow> decode_rune (c # cs) = (byte c, 1)"
  by (simp add: decode_rune_def byte_at_def Let_def)

lemma encode_plain: "byte c < 128 \<Longrightarrow> encode_rune (byte c) = [c]"
  by (simp add: encode_rune_def byte_list_def)

lemma json_plain_simps [simp]:
  "json_plain []"
  "json_plain (c # cs) \<longleftrightarrow> (32 \<le> byte c \<and> byte c < 127 \<and> byte c \<notin> {34, 92, 60, 62, 38}) \<and> json_plain cs"
  by (simp_all add: json_plain_def)

lemma json_str_body_plain: "json_plain s \<Longrightarrow> json_str_body s = s"
proof (induction s)
  case Nil
  then show ?case by (simp add: json_str_body.simps)
next
  case (Cons c cs)
  then have "decode_rune (c # cs) = (byte c, 1)" by (intro decode_plain) simp
  with Cons show ?case by (simp add: json_str_body.simps [of "c # cs"] json_rune_def rune_error_def)
qed

lemma str_body_plain: "json_plain s \<Longrightarrow> str_body (s @ quote_char # r) acc = Some (acc @ s, r)"
proof (induction s arbitrary: acc)
  case Nil
  then show ?case by (simp add: str_body.simps)
next
  case (Cons c cs)
  have "decode_rune (c # cs @ quote_char # r) = (byte c, 1)"
    using Cons.prems by (intro decode_plain) simp
  moreover have "encode_rune (byte c) = [c]"
    using Cons.prems by (intro encode_plain) simp
  moreover have "c \<noteq> quote_char" "c \<noteq> backslash" "\<not> byte c < 32"
    using Cons.prems by (auto simp: quote_byte)
  ultimately show ?case
    using Cons by (simp add: str_body.simps [of "c # cs @ quote_char # r"])
qed

lemma skip_ws_Cons_id: "\<not> json_ws c \<Longrightarrow> skip_ws (c # cs) = c # cs"
  by (simp add: skip_ws_def)

lemma quote_not_ws: "\<not> json_ws quote_char"
  by (simp add: json_ws_def quote_char_def)

lemma json_string_plain: "json_plain s \<Longrightarrow> json_string s @ r = quote_char # s @ quote_char # r"
  by (simp add: json_string_def json_str_body_plain)

lemma parse_json_string: "json_plain s \<Longrightarrow> parse_value d (json_string s @ r) = Some (JStr s, r)"
  by (simp add: json_string_plain parse_value.simps skip_ws_Cons_id quote_not_ws str_body_plain)

section \<open>Integers as JSON\<close>

lemma digit_char_digit: "n < 10 \<Longrightarrow> is_digit (digit_char n)"
  by (simp add: is_digit_def digit_char_def)

lemma byte_digit_char: "n < 10 \<Longrightarrow> byte (digit_char n) = 48 + n"
  by (simp add: digit_char_def)

lemma show_nat_digits: "list_all is_digit (show_nat n)"
proof (induction n rule: show_nat.induct)
  case (1 n)
  then show ?case by (subst show_nat.simps) (simp add: digit_char_digit)
qed

lemma show_nat_Nil: "show_nat n \<noteq> []"
  by (subst show_nat.simps) simp

lemma digit_char_zero: "digit_char 0 = CHR ''0''"
  by code_simp

lemma show_nat_zero: "hd (show_nat n) = CHR ''0'' \<longleftrightarrow> n = 0"
proof (induction n rule: show_nat.induct)
  case (1 n)
  have zero: "digit_char n = CHR ''0'' \<longleftrightarrow> n = 0" if "n < 10"
  proof
    assume "digit_char n = CHR ''0''"
    then have "byte (digit_char n) = 48" by simp
    with that show "n = 0" by (simp add: byte_digit_char)
  qed (simp add: digit_char_zero)
  show ?case
  proof (cases "n < 10")
    case True
    then show ?thesis by (subst show_nat.simps) (simp add: zero)
  next
    case False
    then have "hd (show_nat n) = hd (show_nat (n div 10))"
      by (subst show_nat.simps) (simp add: show_nat_Nil)
    with 1 False show ?thesis by simp
  qed
qed

lemma show_nat_single: "hd (show_nat n) = CHR ''0'' \<Longrightarrow> show_nat n = ''0''"
  by (simp only: show_nat_zero) (simp add: show_nat.simps [of 0] digit_char_zero)

lemma digits_value_append: "digits_value (a @ b) acc = digits_value b (digits_value a acc)"
  by (induction a arbitrary: acc) auto

lemma int_digit_char: "n < 10 \<Longrightarrow> (of_char (digit_char n) :: int) = 48 + int n"
  using byte_digit_char [of n] by (metis of_nat_add of_nat_numeral of_nat_of_char)

lemma digits_value_show: "digits_value (show_nat n) 0 = int n"
proof (induction n rule: show_nat.induct)
  case (1 n)
  show ?case
  proof (cases "n < 10")
    case True
    then show ?thesis by (subst show_nat.simps) (simp add: int_digit_char)
  next
    case False
    with 1 have "digits_value (show_nat n) 0 = int (n div 10) * 10 + int (n mod 10)"
      by (subst show_nat.simps) (simp add: digits_value_append int_digit_char)
    then show ?thesis using div_mult_mod_eq [of n 10] by linarith
  qed
qed

definition ends_number :: "string \<Rightarrow> bool" where
  "ends_number r \<longleftrightarrow> r \<noteq> [] \<and> hd r \<in> {CHR '','', CHR ''}''}"

lemma num_int_show:
  assumes "ends_number r"
  shows "num_int (show_nat n @ r) = Some (show_nat n, r)"
proof -
  obtain d ds where d: "show_nat n = d # ds" by (cases "show_nat n") (auto simp: show_nat_Nil)
  have td: "take_digits (show_nat n @ r) = (show_nat n, r)"
    using show_nat_digits [of n] assms
    by (cases r) (auto simp: take_digits_def list_all_iff takeWhile_append dropWhile_append ends_number_def is_digit_def)
  show ?thesis
  proof (cases "d = CHR ''0''")
    case True
    then have "ds = []" using show_nat_single [of n] d by simp
    with True d show ?thesis by (simp add: num_int_def)
  next
    case False
    with td d show ?thesis by (simp add: num_int_def)
  qed
qed

lemma num_body_int:
  assumes "ends_number r"
  shows "num_body (show_int i @ r) = Some (show_int i, r)"
proof -
  obtain c cs where r: "r = c # cs" "c \<in> {CHR '','', CHR ''}''}"
    using assms by (cases r) (auto simp: ends_number_def)
  have rest: "num_frac r = Some ([], r)" "num_exp r = Some ([], r)"
    using r by (auto simp: num_frac_def num_exp_def)
  have "hd (show_nat n @ r) \<noteq> CHR ''-''" for n
    using show_nat_digits [of n] show_nat_Nil [of n] by (cases "show_nat n") (auto simp: is_digit_def)
  then show ?thesis
    using num_int_show [OF assms] rest show_nat_Nil
    by (simp add: num_body_def show_int_def Let_def)
qed

lemma show_int_head: "\<exists>c cs. show_int i = c # cs \<and> (c = CHR ''-'' \<or> is_digit c)"
  using show_nat_digits [of "nat i"] show_nat_Nil [of "nat i"]
  by (cases "show_nat (nat i)") (auto simp: show_int_def)

lemma parse_json_int:
  assumes "ends_number r"
  shows "parse_value d (show_int i @ r) = Some (JNum (show_int i), r)"
proof -
  obtain c cs where c: "show_int i = c # cs" "c = CHR ''-'' \<or> is_digit c"
    using show_int_head by blast
  then have "\<not> json_ws c" "c \<noteq> quote_char" "c \<noteq> CHR ''[''" "c \<noteq> CHR ''{''"
    "\<not> prefix ''null'' (c # cs @ r)" "\<not> prefix ''true'' (c # cs @ r)" "\<not> prefix ''false'' (c # cs @ r)"
    by (auto simp: json_ws_def is_digit_def quote_byte)
  then show ?thesis
    using num_body_int [OF assms, of i] c(1)
    by (simp add: parse_value.simps skip_ws_Cons_id literal_value_def)
qed

lemma json_int64_show:
  assumes "- (2 ^ 63) \<le> i" and "i < 2 ^ 63"
  shows "json_int64 (JNum (show_int i)) = Some i"
proof -
  have "\<not> prefix ''-'' (show_nat n)" for n
    using show_nat_digits [of n] by (cases "show_nat n") (auto simp: is_digit_def)
  with assms show ?thesis
    by (auto simp: json_int64_def show_int_def Let_def digits_value_show show_nat_digits)
qed

section \<open>Objects\<close>

lemma json_field_plain:
  "json_plain k \<Longrightarrow> json_field k v @ r = quote_char # k @ quote_char # CHR '':'' # v @ r"
  by (simp add: json_field_def json_string_def json_str_body_plain)

lemma parse_member:
  assumes "json_plain k" and "c \<in> {CHR '','', CHR ''}''}" and "parse_value d (v @ c # r) = Some (x, c # r)"
  shows "parse_members d (json_field k v @ c # r) acc =
    (if c = CHR ''}'' then Some (JObj (acc @ [(k, x)]), r) else parse_members d r (acc @ [(k, x)]))"
proof -
  have "\<not> json_ws (CHR '':'')" "\<not> json_ws c" using assms(2) by (auto simp: json_ws_def)
  then show ?thesis
    using assms
    by (auto simp: json_field_plain parse_members.simps [of d "quote_char # k @ quote_char # CHR '':'' # v @ c # r"]
        skip_ws_Cons_id quote_not_ws str_body_plain)
qed

lemmas parse_member_comma = parse_member [where c = "CHR '',''", simplified]
lemmas parse_member_brace = parse_member [where c = "CHR ''}''", simplified]

text \<open>What the claims need: the UUID text form reads back, and every text is plain.\<close>

definition uuid_codec :: "(uuid \<Rightarrow> string) \<Rightarrow> (string \<Rightarrow> uuid option) \<Rightarrow> bool" where
  "uuid_codec uuid_string parse_uuid \<longleftrightarrow>
     (\<forall>i. parse_uuid (uuid_string i) = Some i \<and> json_plain (uuid_string i))"

definition claims_plain :: "Claims \<Rightarrow> bool" where
  "claims_plain c \<longleftrightarrow>
     json_plain (cl_Workspace c) \<and> - (2 ^ 63) \<le> cl_Expiry c \<and> cl_Expiry c < 2 ^ 63"

definition claims_object :: "(uuid \<Rightarrow> string) \<Rightarrow> Claims \<Rightarrow> (string \<times> json) list" where
  "claims_object us c =
     [(''org'', JStr (us (cl_OrgID c))), (''app'', JStr (us (cl_ApplicationID c))),
      (''cmp'', JStr (us (cl_ComponentID c))), (''ws'', JStr (cl_Workspace c)),
      (''run'', JStr (us (cl_WorkflowRunID c))), (''cr'', JStr (us (cl_ComponentRunID c))),
      (''scope'', JStr (cl_Scope c)), (''exp'', JNum (show_int (cl_Expiry c)))]"

lemma key_plain:
  "json_plain ''org''" "json_plain ''app''" "json_plain ''cmp''" "json_plain ''ws''" "json_plain ''run''"
  "json_plain ''cr''" "json_plain ''scope''" "json_plain ''exp''" "json_plain ''read''" "json_plain ''write''"
  by code_simp+

lemma key_fold:
  "fold_name ''org'' = ''org''" "fold_name ''app'' = ''app''" "fold_name ''cmp'' = ''cmp''"
  "fold_name ''ws'' = ''ws''" "fold_name ''run'' = ''run''" "fold_name ''cr'' = ''cr''"
  "fold_name ''scope'' = ''scope''" "fold_name ''exp'' = ''exp''"
  by code_simp+

lemma marshal_claims_parses:
  assumes "\<And>i. json_plain (us i)" and "json_plain (cl_Workspace c)" and "json_plain (cl_Scope c)"
  shows "json_parse (marshal_claims us c) = Some (JObj (claims_object us c))"
proof -
  let ?int = "show_int (cl_Expiry c)"
  have num: "parse_value 1 (?int @ ''}'') = Some (JNum ?int, ''}'')"
    by (rule parse_json_int) (simp add: ends_number_def)
  have "parse_members 1 (tl (marshal_claims us c)) [] = Some (JObj (claims_object us c), [])"
    using assms num
    by (simp add: marshal_claims_def parse_member_comma parse_member_brace key_plain parse_json_string claims_object_def)
  moreover have "marshal_claims us c = CHR ''{'' # tl (marshal_claims us c)"
    by (simp add: marshal_claims_def)
  moreover have "\<exists>r. tl (marshal_claims us c) = quote_char # r"
    by (simp add: marshal_claims_def json_field_plain key_plain)
  moreover have "\<not> json_ws (CHR ''{'')" by code_simp
  moreover have "quote_char \<noteq> CHR ''}''" "quote_char \<noteq> CHR ''{''" by code_simp+
  ultimately have "parse_value 0 (marshal_claims us c) = Some (JObj (claims_object us c), [])"
    by (auto simp: parse_value.simps [of 0] skip_ws_Cons_id quote_not_ws max_nesting_def)
  then show ?thesis by (simp add: json_parse_def skip_ws_def)
qed

lemma unmarshal_marshal_claims:
  assumes "uuid_codec us pu" and "claims_plain c" and "scope_known c"
  shows "unmarshal_claims pu (marshal_claims us c) = Some c"
proof -
  have pu: "pu (us i) = Some i" for i using assms(1) by (simp add: uuid_codec_def)
  have "json_parse (marshal_claims us c) = Some (JObj (claims_object us c))"
    using assms key_plain by (intro marshal_claims_parses) (auto simp: uuid_codec_def claims_plain_def scope_known_def)
  moreover have "claims_members pu (claims_object us c) zero_claims = Some c"
    using assms(2) by (simp add: claims_object_def claims_member_def key_fold json_uuid_def pu Let_def zero_claims_def
        json_int64_show claims_plain_def)
  ultimately show ?thesis by (simp add: unmarshal_claims_def)
qed

section \<open>Tokens\<close>

lemma str_cut_first:
  assumes "CHR ''.'' \<notin> set a"
  shows "str_cut (a @ ''.'' @ b) ''.'' = (a, b, True)"
proof -
  have "str_index ''.'' (a @ ''.'' @ b) = Some (length a)"
    using assms by (induction a) auto
  then show ?thesis by (simp add: str_cut_def)
qed

lemma Verify_Sign:
  assumes "uuid_codec us pu" and "claims_plain c" and "Sign s us c = Inr tok" and "\<And>body. s body \<noteq> []"
  shows "Verify s pu tok now = (if now < cl_Expiry c then Inr c else Inl ErrInvalidToken)"
proof -
  let ?body = "b64_encode (marshal_claims us c)"
  have known: "scope_known c" and tok: "tok = ?body @ ''.'' @ mac s ?body"
    using assms(3) by (simp_all add: Sign_def Let_def split: if_splits)
  have "str_cut tok ''.'' = (?body, mac s ?body, True)"
    unfolding tok by (rule str_cut_first [OF b64_encode_no_dot])
  moreover have "marshal_claims us c \<noteq> []" by (simp add: marshal_claims_def)
  moreover have "mac s ?body \<noteq> []" using assms(4) by (simp add: mac_def)
  ultimately show ?thesis
    using unmarshal_marshal_claims [OF assms(1,2) known] known
    by (simp add: Verify_def b64_decode_encode)
qed

lemma Verify_Inr:
  assumes "Verify s pu tok now = Inr c"
  obtains body where "tok = body @ ''.'' @ mac s body" and "Option.bind (b64_decode body) (unmarshal_claims pu) = Some c"
    and "scope_known c" and "now < cl_Expiry c"
proof -
  obtain body m where cut: "str_cut tok ''.'' = (body, m, True)" and m: "m = mac s body"
    and c: "Option.bind (b64_decode body) (unmarshal_claims pu) = Some c" "scope_known c" "now < cl_Expiry c"
    using assms by (auto simp: Verify_def split: prod.splits if_splits option.splits)
  from cut obtain k where k: "str_index ''.'' tok = Some k" "body = take k tok" "m = drop (k + length ''.'') tok"
    by (auto simp: str_cut_def split: option.splits)
  from str_index_split [OF k(1)] have "tok = body @ ''.'' @ m" by (simp only: k)
  with m c show ?thesis by (intro that) simp_all
qed

end
