(* ===== verification/Planner_Props.thy ===== *)
theory Planner_Props
  imports Planner StateToken_Props Validate_Props
begin

text \<open>
  Facts on the planner: which unit an outputs reference reads, the names it derives, and when a step
  plans at all.
\<close>

section \<open>The unit of an outputs reference\<close>

text \<open>The candidates of the snapshot, whatever the order of the map.\<close>

definition unit_candidates :: "(uuid \<Rightarrow> uuid) \<Rightarrow> string \<Rightarrow> GraphNode set \<Rightarrow> uuid set" where
  "unit_candidates derive name ns = {i. \<exists>n \<in> ns. apply_candidate derive name n = Some i}"

lemma unit_scan_result:
  "unit_scan derive name ns found =
     (let c = set_option found \<union> unit_candidates derive name (set ns) in
      if c = {} then Inl (NotInRun name)
      else if \<exists>i. c = {i} then Inr (the_elem c)
      else Inl (AmbiguousName name))"
proof (induction ns arbitrary: found)
  case Nil
  then show ?case by (auto simp: unit_candidates_def Let_def split: option.splits)
next
  case (Cons n ns)
  show ?case
  proof (cases "apply_candidate derive name n")
    case None
    then have "unit_candidates derive name (set (n # ns)) = unit_candidates derive name (set ns)"
      by (auto simp: unit_candidates_def)
    with None Cons show ?thesis by simp
  next
    case (Some i)
    then have c: "unit_candidates derive name (set (n # ns)) = insert i (unit_candidates derive name (set ns))"
      by (auto simp: unit_candidates_def)
    show ?thesis
    proof (cases "found = None \<or> found = Some i")
      case True
      then have "set_option found \<union> insert i (unit_candidates derive name (set ns)) =
        set_option (Some i) \<union> unit_candidates derive name (set ns)" by auto
      with True Some Cons [of "Some i"] c show ?thesis by auto
    next
      case False
      then obtain j where "found = Some j" "j \<noteq> i" by auto
      with Some c show ?thesis by (auto simp: Let_def)
    qed
  qed
qed

section \<open>Labels\<close>

definition dashed_char :: "char \<Rightarrow> bool" where
  "dashed_char c \<longleftrightarrow> c = CHR ''-'' \<or> label_char c"

lemma label_rune_char: "dashed_char (label_rune r)"
proof (cases "97 \<le> r \<and> r \<le> 122 \<or> 48 \<le> r \<and> r \<le> 57")
  case True
  then have "byte (char_of r) = r" by auto
  with True show ?thesis by (auto simp: label_rune_def dashed_char_def label_char_def is_lower_def is_digit_def)
next
  case False
  then show ?thesis by (simp only: label_rune_def if_False dashed_char_def) simp
qed

lemma trim_set_parts:
  assumes "trim_set cs s \<noteq> []"
  shows "hd (trim_set cs s) \<notin> set cs" and "last (trim_set cs s) \<notin> set cs"
    and "set (trim_set cs s) \<subseteq> set s"
proof -
  let ?P = "\<lambda>c. c \<in> set cs"
  let ?m = "dropWhile ?P s"
  have t: "trim_set cs s = rev (dropWhile ?P (rev ?m))"
    by (simp add: trim_set_def trim_right_set_def)
  have ne: "dropWhile ?P (rev ?m) \<noteq> []" using assms t by simp
  then show "last (trim_set cs s) \<notin> set cs"
    using hd_dropWhile [of ?P "rev ?m"] by (simp add: t last_rev)
  have "?m \<noteq> []" using ne by (metis dropWhile.simps(1) rev.simps(1))
  then have m: "hd ?m \<notin> set cs" using hd_dropWhile [of ?P s] by blast
  have "rev ?m = takeWhile ?P (rev ?m) @ dropWhile ?P (rev ?m)" by simp
  then have "?m = trim_set cs s @ rev (takeWhile ?P (rev ?m))"
    unfolding t by (metis rev_append rev_swap)
  then have "hd ?m = hd (trim_set cs s)" using assms by (metis hd_append2)
  with m show "hd (trim_set cs s) \<notin> set cs" by simp
  show "set (trim_set cs s) \<subseteq> set s"
    by (metis set_dropWhileD set_rev subsetI t)
qed

lemma dns_label_intro:
  assumes "s \<noteq> []" and "list_all dashed_char s" and "hd s \<noteq> CHR ''-''" and "last s \<noteq> CHR ''-''"
  shows "dns_label_match s"
proof -
  have "dashed_char (hd s)" "dashed_char (last s)"
    using assms(1,2) by (simp_all add: list_all_iff)
  with assms show ?thesis by (simp add: dns_label_match_def dashed_char_def [abs_def])
qed

lemma sanitizeLabel_label: "dns_label_match (sanitizeLabel low s)"
proof -
  let ?r = "map label_rune (runes (to_lower low (trim_space s)))"
  show ?thesis
  proof (cases "trim_set ''-'' ?r = []")
    case True
    have "dns_label_match ''release''" by code_simp
    with True show ?thesis by (simp add: sanitizeLabel_def)
  next
    case False
    have "list_all dashed_char (trim_set ''-'' ?r)"
      using trim_set_parts(3) [OF False] label_rune_char by (force simp: list_all_iff)
    then have "dns_label_match (trim_set ''-'' ?r)"
      using False trim_set_parts(1,2) [OF False] by (intro dns_label_intro) simp_all
    with False show ?thesis by (simp add: sanitizeLabel_def)
  qed
qed

text \<open>Text that is already a label stays as it is.\<close>

lemma runes_ascii: "list_all (\<lambda>c. byte c < 128) s \<Longrightarrow> runes s = map byte s"
  by (induction s) (simp_all add: runes_ascii_Cons)

lemma dashed_char_fixed:
  assumes "dashed_char c"
  shows "byte c < 128" and "label_rune (byte c) = c" and "lower_char c = c"
  using assms
  by (auto simp: dashed_char_def label_char_def is_lower_def is_digit_def is_upper_def label_rune_def lower_char_def)

lemma trim_set_id:
  assumes "s \<noteq> []" and "hd s \<notin> set cs" and "last s \<notin> set cs"
  shows "trim_set cs s = s"
proof -
  have "dropWhile (\<lambda>c. c \<in> set cs) s = s"
    using assms(1,2) by (cases s) auto
  moreover have "dropWhile (\<lambda>c. c \<in> set cs) (rev s) = rev s"
    using assms(1,3) by (cases s rule: rev_cases) auto
  ultimately show ?thesis by (simp add: trim_set_def trim_right_set_def)
qed

lemma space_runes_outside:
  "list_all (\<lambda>r. r \<noteq> [] \<and> \<not> dashed_char (hd r) \<and> \<not> dashed_char (last r)) space_runes"
  by code_simp

lemma trim_space_id:
  assumes "s \<noteq> []" and "dashed_char (hd s)" and "dashed_char (last s)"
  shows "trim_space s = s"
proof -
  have "\<not> prefix r s \<and> \<not> suffix r s" if "r \<in> set space_runes" for r
  proof -
    have r: "r \<noteq> []" "\<not> dashed_char (hd r)" "\<not> dashed_char (last r)"
      using space_runes_outside that by (simp_all add: list_all_iff)
    with assms show ?thesis by (auto elim!: prefixE suffixE)
  qed
  then have "find (\<lambda>r. prefix r s) space_runes = None" "find (\<lambda>r. suffix r s) space_runes = None"
    by (auto simp: find_None_iff)
  then show ?thesis
    by (simp add: trim_space_def trim_left.simps [of s] trim_right.simps [of s])
qed

lemma sanitizeLabel_id:
  assumes "s \<noteq> []" and "list_all dashed_char s" and "hd s \<noteq> CHR ''-''" and "last s \<noteq> CHR ''-''"
  shows "sanitizeLabel low s = s"
proof -
  have hl: "dashed_char (hd s)" "dashed_char (last s)"
    using assms(1,2) by (simp_all add: list_all_iff)
  have "is_ascii s" "map lower_char s = s" "map label_rune (runes s) = s"
    using assms(2) dashed_char_fixed by (auto simp: is_ascii_def list_all_iff runes_ascii map_idI)
  then show ?thesis
    using assms trim_space_id [OF assms(1) hl] trim_set_id [OF assms(1), of "''-''"]
    by (simp add: sanitizeLabel_def to_lower_def)
qed

text \<open>The text form of a UUID: 36 characters of a label, no two alike.\<close>

definition uuid_text :: "(uuid \<Rightarrow> string) \<Rightarrow> bool" where
  "uuid_text us \<longleftrightarrow> inj us \<and>
     (\<forall>i. length (us i) = 36 \<and> list_all dashed_char (us i) \<and> hd (us i) \<noteq> CHR ''-'' \<and> last (us i) \<noteq> CHR ''-'')"

lemma tofuPlanArtifactSecret_text:
  assumes "uuid_text (pf_UUIDString pf)"
  shows "tofuPlanArtifactSecret pf runID planID = ''tfplan-'' @ pf_UUIDString pf runID @ ''-'' @ pf_UUIDString pf planID"
proof -
  have u: "list_all dashed_char (pf_UUIDString pf i)" "last (pf_UUIDString pf i) \<noteq> CHR ''-''"
    "pf_UUIDString pf i \<noteq> []" for i
    using assms by (auto simp: uuid_text_def) (metis list.size(3) zero_neq_numeral)
  have "list_all dashed_char ''tfplan-''" by code_simp
  then show ?thesis
    unfolding tofuPlanArtifactSecret_def using u by (intro sanitizeLabel_id) (auto simp: dashed_char_def)
qed

lemma tofuPlanArtifactSecret_inj:
  assumes "uuid_text (pf_UUIDString pf)"
    and "tofuPlanArtifactSecret pf r p = tofuPlanArtifactSecret pf r' p'"
  shows "r = r' \<and> p = p'"
proof -
  have "length (pf_UUIDString pf i) = 36" for i using assms(1) by (simp add: uuid_text_def)
  then have "pf_UUIDString pf r = pf_UUIDString pf r'" "pf_UUIDString pf p = pf_UUIDString pf p'"
    using assms(2) by (simp_all add: tofuPlanArtifactSecret_text [OF assms(1)])
  with assms(1) show ?thesis by (simp add: uuid_text_def inj_eq)
qed

section \<open>Planning a saved component\<close>

text \<open>The errors that blame the component's own configuration.\<close>

fun config_error :: "plan_error \<Rightarrow> bool" where
  "config_error (UnsupportedType t) = True"
| "config_error (UnsupportedTofuVersion v) = True"
| "config_error (BadConfigValue k) = True"
| "config_error (FieldSyntax f e) = True"
| "config_error (GitRefUnavailable r) = True"
| "config_error (GitSourceNeeded r) = True"
| "config_error (GitShaOnlyInValues r) = True"
| "config_error (UnknownRunKeyRef r) = True"
| "config_error (OutputsUnavailable r) = True"
| "config_error _ = False"

definition env_only :: "plan_error + 'a \<Rightarrow> bool" where
  "env_only r \<longleftrightarrow> (\<forall>e. r = Inl e \<longrightarrow> \<not> config_error e)"

lemma env_only_simps [simp]: "env_only (Inr x)" "env_only (Inl e) \<longleftrightarrow> \<not> config_error e"
  by (simp_all add: env_only_def)

lemma env_only_bind:
  assumes "env_only a" and "\<And>x. a = Inr x \<Longrightarrow> env_only (f x)"
  shows "env_only (try_bind a f)"
  using assms by (cases a) simp_all

definition resolver_env :: "Resolver \<Rightarrow> bool" where
  "resolver_env r \<longleftrightarrow>
     (\<forall>a b. env_only (rv_Conn r a b)) \<and> (\<forall>c b. env_only (rv_Kubeconfig r c b)) \<and>
     (\<forall>f a b. rv_Creds r = Some f \<longrightarrow> env_only (f a b)) \<and>
     (\<forall>f a b. rv_GitTokens r = Some f \<longrightarrow> env_only (f a b)) \<and>
     (\<forall>f a b. rv_CloudCreds r = Some f \<longrightarrow> env_only (f a b)) \<and>
     (\<forall>c. env_only (rv_AssumeRole r c)) \<and>
     (\<forall>f a b c. rv_Vars r = Some f \<longrightarrow> env_only (f a b c)) \<and>
     (\<forall>e region t x. rv_EnsureLockTable r e region t = Some x \<longrightarrow> \<not> config_error x)"

definition worker_env :: "Worker \<Rightarrow> bool" where
  "worker_env w \<longleftrightarrow> resolver_env (wk_Resolver w) \<and>
     (\<forall>f i. wk_PluginCache w = Some f \<longrightarrow> env_only (f i)) \<and>
     (\<forall>c ns s ls e. wk_EnsureHandover w c ns s ls = Some e \<longrightarrow> \<not> config_error e)"

lemma cloud_Env_env: "resolver_env r \<Longrightarrow> env_only (cloud_Env (rv_AssumeRole r) cc)"
  by (auto simp: cloud_Env_def AWSEnv_def awsCredentials_def Let_def resolver_env_def intro!: env_only_bind)

lemma Resolve_env: "resolver_env r \<Longrightarrow> env_only (Resolve r inp)"
  unfolding Resolve_def
proof (intro env_only_bind)
  assume r: "resolver_env r"
  show "env_only (rv_Conn r (ri_OrgID inp) (ri_RunnerClusterID inp))" using r by (simp add: resolver_env_def)
  show "env_only (resolve_target r inp out)" for out
    using r by (auto simp: resolve_target_def Let_def resolver_env_def intro!: env_only_bind)
  show "env_only (resolve_vars r inp out)" for out
    using r by (auto simp: resolve_vars_def resolver_env_def intro!: env_only_bind split: option.splits)
  show "env_only (resolve_chart r inp out)" for out
    using r by (auto simp: resolve_chart_def resolver_env_def intro!: env_only_bind split: option.splits)
  show "env_only (resolve_git r inp out)" for out
    using r by (auto simp: resolve_git_def resolver_env_def intro!: env_only_bind split: option.splits)
  show "env_only (resolve_cloud r inp out)" for out
    using r cloud_Env_env [OF r]
    by (auto simp: resolve_cloud_def with_cloud_def resolver_env_def Let_def intro!: env_only_bind split: option.splits)
qed simp

text \<open>A unit of a saved component: its type, configuration (but the command) and target are the component's.\<close>

definition unit_of :: "ComponentInput \<Rightarrow> GraphNode \<Rightarrow> bool" where
  "unit_of n node \<longleftrightarrow> gn_Type node = ci_Type n \<and> gn_TargetNamespace node = ci_TargetNamespace n \<and>
     (\<forall>k. k \<noteq> ''command'' \<longrightarrow> gn_Config node k = ci_Config n k) \<and>
     (gn_Type node = TypeHelm \<longrightarrow> gn_Name node = ci_Name n)"

lemma unit_of_cfg: "unit_of n node \<Longrightarrow> k \<noteq> ''command'' \<Longrightarrow> cfg (gn_Config node) k = cfg (ci_Config n) k"
  by (simp add: unit_of_def cfg_def)

subsection \<open>OpenTofu\<close>

lemma validated_tofu:
  assumes "validateTerraformConfig up n = None" and u: "unit_of n node"
  shows "\<exists>v. ResolveVersion (cfg (gn_Config node) ''tofu_version'') = Some v"
    and "\<exists>c. tofu_backend pf node v = Inr c"
    and "\<exists>f. tofu_flags node = Inr f"
proof -
  obtain required settings where s: "backend_settings n = Some settings"
    and faults: "\<forall>x \<in> set (terraform_faults up n settings required). x = None"
    using assms(1) by (auto simp: validateTerraformConfig_def Let_def split: if_splits option.splits)
  note eq = unit_of_cfg [OF u]
  show "\<exists>v. ResolveVersion (cfg (gn_Config node) ''tofu_version'') = Some v"
    using faults by (auto simp: terraform_faults_def version_fault_def eq split: option.splits)
  have "\<exists>c. decodeBackendConfig num (cfg (gn_Config node) ''backend_config'') = Inr c" for num
    using s by (auto simp: backend_settings_def decodeBackendConfig_def eq Let_def split: if_splits)
  then show "\<exists>c. tofu_backend pf node v = Inr c"
    by (auto simp: tofu_backend_def try_bind_Inr)
  have flag: "\<exists>f. decodeFlags (cfg (gn_Config node) k) k = Inr f"
    if "k \<in> {''init_flags'', ''plan_flags'', ''apply_flags''}" for k
  proof -
    have "flags_fault n k = None" using faults that by (auto simp: terraform_faults_def)
    moreover have "cfg (gn_Config node) k = cfg (ci_Config n) k" using that by (intro eq) auto
    ultimately show ?thesis by (auto simp: flags_fault_def decodeFlags_def Let_def split: if_splits)
  qed
  obtain i where i: "decodeFlags (cfg (gn_Config node) ''init_flags'') ''init_flags'' = Inr i"
    using flag [of "''init_flags''"] by auto
  obtain p where p: "decodeFlags (cfg (gn_Config node) ''plan_flags'') ''plan_flags'' = Inr p"
    using flag [of "''plan_flags''"] by auto
  obtain a where "decodeFlags (cfg (gn_Config node) ''apply_flags'') ''apply_flags'' = Inr a"
    using flag [of "''apply_flags''"] by auto
  with i p show "\<exists>f. tofu_flags node = Inr f" by (simp add: tofu_flags_def Let_def)
qed

lemma managedStateAccess_env: "env_only (managedStateAccess pf m app node action c r s runner now)"
  by (auto simp: managedStateAccess_def Let_def split: option.splits sum.splits)

lemma planTofu_env:
  assumes w: "worker_env w" and valid: "validateTerraformConfig up n = None" and u: "unit_of n node"
  shows "env_only (planTofu pf w app node action existing runID crID byID stateOp now)"
proof -
  obtain v where v: "ResolveVersion (cfg (gn_Config node) ''tofu_version'') = Some v"
    using validated_tofu(1) [OF valid u] by blast
  obtain c where c: "tofu_backend pf node v = Inr c" using validated_tofu(2) [OF valid u] by blast
  obtain fl where fl: "tofu_flags node = Inr fl" using validated_tofu(3) [OF valid u] by blast
  have res: "env_only (Resolve (wk_Resolver w) inp)" for inp
    using w by (simp add: worker_env_def Resolve_env)
  have st: "env_only (tofu_state pf w app node action runID crID byID now r)" for r
    by (auto simp: tofu_state_def Let_def managedStateAccess_env intro!: env_only_bind)
  have ens: "env_only (ensure_handover pf w app runID r secret)" for r secret
    using w by (auto simp: ensure_handover_def worker_env_def split: option.splits)
  have pc: "env_only (plugin_cache w app)"
    using w by (auto simp: plugin_cache_def worker_env_def intro!: env_only_bind split: option.splits)
  show ?thesis
    unfolding planTofu_def v option.case Let_def
    by (intro env_only_bind) (auto simp: tofuActionFor_def c fl res ens pc st Let_def intro!: env_only_bind)
qed

subsection \<open>Helm\<close>

lemma Render_Inl: "Render t f = Inl e \<Longrightarrow> \<exists>r \<in> set (Refs t). f r = Inl e"
proof (induction t rule: Refs.induct)
  case (2 l t)
  then show ?case by (cases "Render t f") auto
next
  case (3 r t)
  show ?case
  proof (cases "f r")
    case (Inr v)
    with 3 show ?thesis by (cases "Render t f") auto
  qed (use 3 in auto)
qed simp

lemma Parse_plain:
  assumes "CHR ''$'' \<notin> set s"
  shows "Parse s = Inr (flush_lit s [])"
proof -
  have "escape s = s" using assms by (induction s rule: escape.induct) auto
  then show ?thesis using parse_loop_escape [of s "[]" "[]"] by (simp add: Parse_def)
qed

lemma Refs_flush: "Refs (flush_lit s []) = []"
  by (simp add: flush_lit_def)

text \<open>A field renders, up to its variables and outputs, when its text passed the save's checks.\<close>

lemma lookup_env:
  assumes "validateHelmRef n ref field inValues (cfg (ci_Config n) ''chart_source'' = SourceGit) = None"
    and u: "unit_of n (hr_Node r)" and "hr_Outputs r \<noteq> None"
  shows "env_only (helm_lookup r inValues ref)"
  using assms(1,3) unit_of_cfg [OF u]
  by (auto simp: helm_lookup_def validateHelmRef_def lookup_var_def lookup_run_def lookup_output_def Let_def
      split: namespace.splits option.splits if_splits sum.splits)

lemma field_env:
  assumes "validateHelmField n (field, value, inValues) = None"
    and "unit_of n (hr_Node r)" and "hr_Outputs r \<noteq> None"
  shows "env_only (helm_render r field' value inValues)"
proof -
  obtain tpl where tpl: "Parse value = Inr tpl"
    and refs: "\<forall>ref \<in> set (Refs tpl). validateHelmRef n ref field inValues (cfg (ci_Config n) ''chart_source'' = SourceGit) = None"
    using assms(1) by (auto simp: validateHelmField_def split: sum.splits)
  have "env_only (Render tpl (helm_lookup r inValues))"
    unfolding env_only_def
  proof (intro allI impI)
    fix e
    assume "Render tpl (helm_lookup r inValues) = Inl e"
    from Render_Inl [OF this] obtain ref where ref: "ref \<in> set (Refs tpl)" "helm_lookup r inValues ref = Inl e"
      by (elim bexE)
    have "env_only (helm_lookup r inValues ref)"
      by (rule lookup_env [OF bspec [OF refs ref(1)] assms(2,3)])
    with ref(2) show "\<not> config_error e" by simp
  qed
  then show ?thesis by (auto simp: helm_render_def tpl intro!: env_only_bind)
qed

lemma slug_no_dollar: "slug_Valid s \<Longrightarrow> CHR ''$'' \<notin> set s"
proof
  assume "slug_Valid s" "CHR ''$'' \<in> set s"
  then have "label_char (CHR ''$'')"
    by (auto simp: slug_Valid_def dns_label_match_def list_all_iff)
  moreover have "\<not> label_char (CHR ''$'')" by code_simp
  ultimately show False by simp
qed

lemma release_env:
  assumes "validateHelmField n (''release_name'', cfg (ci_Config n) ''release_name'', False) = None"
    and u: "unit_of n (hr_Node r)" and "hr_Outputs r \<noteq> None" and "gn_Type (hr_Node r) = TypeHelm"
    and slugs: "slug_Valid appName" "slug_Valid (ci_Name n)"
  shows "env_only (helm_render r field (componentReleaseName appName (hr_Node r)) False)"
proof (cases "cfg (ci_Config n) ''release_name'' = []")
  case True
  have "gn_Name (hr_Node r) = ci_Name n" using u assms(4) by (simp add: unit_of_def)
  then have "componentReleaseName appName (hr_Node r) = appName @ ''-'' @ ci_Name n"
    using True unit_of_cfg [OF u] by (simp add: componentReleaseName_def)
  moreover have "CHR ''$'' \<notin> set (appName @ ''-'' @ ci_Name n)"
    using slug_no_dollar [OF slugs(1)] slug_no_dollar [OF slugs(2)] by simp
  ultimately show ?thesis
    by (auto simp: helm_render_def Parse_plain flush_lit_def)
next
  case False
  then have "componentReleaseName appName (hr_Node r) = cfg (ci_Config n) ''release_name''"
    using unit_of_cfg [OF u] by (simp add: componentReleaseName_def)
  then show ?thesis using field_env [OF assms(1) u assms(3)] by simp
qed

lemma planHelm_env:
  assumes w: "worker_env w" and valid: "validateHelmConfig n = None" and u: "unit_of n node"
    and helm: "gn_Type node = TypeHelm" and slugs: "slug_Valid (ap_Name app)" "slug_Valid (ci_Name n)"
  shows "env_only (planHelm pf w app node action force existing runID units)"
proof -
  have vs: "validateValuesSources n = None" and interp: "validateHelmInterpolation n = None"
    using valid by (auto simp: validateHelmConfig_def Let_def split: if_splits option.splits)
  have src: "env_only (plan_values_sources node)"
    using vs unit_of_cfg [OF u]
    by (auto simp: plan_values_sources_def validateValuesSources_def split: option.splits)
  have res: "env_only (Resolve (wk_Resolver w) inp)" for inp
    using w by (simp add: worker_env_def Resolve_env)
  have fields: "validateHelmField n (''values'', cfg (ci_Config n) ''values'', True) = None"
    "validateHelmField n (''release_name'', cfg (ci_Config n) ''release_name'', False) = None"
    "validateHelmField n (''target_namespace'', ci_TargetNamespace n, False) = None"
    using interp [unfolded validateHelmInterpolation_def helmInterpolationFields_def first_fault_None] by simp_all
  have ren: "env_only (render_fields app node (helm_renderer pf w app node action runID units resolved))" for resolved
  proof -
    let ?r = "helm_renderer pf w app node action runID units resolved"
    have r: "hr_Node ?r = node" "hr_Outputs ?r \<noteq> None" by (simp_all add: helm_renderer_def)
    have ns: "gn_TargetNamespace node = ci_TargetNamespace n" using u by (simp add: unit_of_def)
    have "env_only (helm_render ?r ''values'' (cfg (gn_Config node) ''values'') True)"
      "env_only (helm_render ?r ''target_namespace'' (gn_TargetNamespace node) False)"
      using field_env [OF fields(1)] field_env [OF fields(3)] r u ns unit_of_cfg [OF u] by simp_all
    moreover have "env_only (helm_render ?r ''release_name'' (componentReleaseName (ap_Name app) node) False)"
      using release_env [OF fields(2), of ?r] r u helm slugs by simp
    ultimately show ?thesis by (auto simp: render_fields_def intro!: env_only_bind)
  qed
  show ?thesis
    unfolding planHelm_def
    by (intro env_only_bind) (auto simp: helmActionFor_def src res ren Let_def intro!: env_only_bind)
qed

lemma planManifest_env: "worker_env w \<Longrightarrow> env_only (planManifest pf w app node action existing)"
  unfolding planManifest_def
  by (intro env_only_bind) (auto simp: manifestActionFor_def worker_env_def Resolve_env Let_def intro!: env_only_bind)

end
