(* ===== verification/Planner_Secrets.thy ===== *)
theory Planner_Secrets
  imports Planner_Props
begin

text \<open>
  Where secrets go: two workers whose collaborators differ only in secret values plan steps that
  differ only in the contents of the mounted files and of the secret environment.
\<close>

section \<open>Relating results\<close>

abbreviation same_err :: "('a \<Rightarrow> 'b \<Rightarrow> bool) \<Rightarrow> plan_error + 'a \<Rightarrow> plan_error + 'b \<Rightarrow> bool" where
  "same_err \<equiv> rel_sum (=)"

abbreviation anything :: "'a \<Rightarrow> 'b \<Rightarrow> bool" where
  "anything \<equiv> \<lambda>_ _. True"

lemma same_err_bind:
  assumes "same_err R a b" and "\<And>x y. R x y \<Longrightarrow> same_err S (f x) (g y)"
  shows "same_err S (try_bind a f) (try_bind b g)"
  using assms by (cases a; cases b) auto

lemma same_err_refl: "(\<And>x. R x x) \<Longrightarrow> same_err R a a"
  by (cases a) auto

lemma same_err_bind_same:
  assumes "\<And>x. same_err S (f x) (g x)"
  shows "same_err S (try_bind a f) (try_bind a g)"
  using assms by (cases a) auto

section \<open>Collaborators that differ in secrets\<close>

definition same_credential :: "CloudCredential \<Rightarrow> CloudCredential \<Rightarrow> bool" where
  "same_credential c d \<longleftrightarrow> cc_Provider c = cc_Provider d \<and> cc_Config c = cc_Config d \<and>
     (\<forall>k. cfg (cc_Secrets c) k = [] \<longleftrightarrow> cfg (cc_Secrets d) k = [])"

definition same_names :: "env \<Rightarrow> env \<Rightarrow> bool" where
  "same_names e f \<longleftrightarrow> map fst e = map fst f"

definition same_resolver :: "Resolver \<Rightarrow> Resolver \<Rightarrow> bool" where
  "same_resolver r s \<longleftrightarrow>
     rv_Conn r = rv_Conn s \<and>
     (\<forall>c b. same_err anything (rv_Kubeconfig r c b) (rv_Kubeconfig s c b)) \<and>
     rel_option (\<lambda>f g. \<forall>a b. same_err anything (f a b) (g a b)) (rv_Creds r) (rv_Creds s) \<and>
     rel_option (\<lambda>f g. \<forall>a b. same_err anything (f a b) (g a b)) (rv_GitTokens r) (rv_GitTokens s) \<and>
     rel_option (\<lambda>f g. \<forall>a b. same_err same_credential (f a b) (g a b)) (rv_CloudCreds r) (rv_CloudCreds s) \<and>
     (\<forall>c d. same_credential c d \<longrightarrow> same_err anything (rv_AssumeRole r c) (rv_AssumeRole s d)) \<and>
     rel_option (\<lambda>f g. \<forall>a b c. same_err (\<lambda>(p, x) (q, y). p = q \<and> same_names x y) (f a b c) (g a b c))
       (rv_Vars r) (rv_Vars s) \<and>
     (\<forall>e f region t. rv_EnsureLockTable r e region t = rv_EnsureLockTable s f region t)"

definition same_resolved :: "Resolved \<Rightarrow> Resolved \<Rightarrow> bool" where
  "same_resolved a b \<longleftrightarrow>
     rs_RunnerConn a = rs_RunnerConn b \<and> rs_TargetMethod a = rs_TargetMethod b \<and>
     same_names (rs_Files a) (rs_Files b) \<and> rs_HasCredential a = rs_HasCredential b \<and>
     rs_HasGitToken a = rs_HasGitToken b \<and> rs_HasCloudAuth a = rs_HasCloudAuth b \<and>
     rs_Env a = rs_Env b \<and> same_names (rs_SecretEnv a) (rs_SecretEnv b)"

lemma same_names_refl [simp]: "same_names e e"
  by (simp add: same_names_def)

lemma same_names_Cons [simp]:
  "same_names ((k, v) # e) ((k', w) # f) \<longleftrightarrow> k = k' \<and> same_names e f"
  by (simp add: same_names_def)

lemma same_names_induct [consumes 1, case_names Nil Cons]:
  assumes "same_names e f" and "P [] []"
    and "\<And>k v w e f. same_names e f \<Longrightarrow> P e f \<Longrightarrow> P ((k, v) # e) ((k, w) # f)"
  shows "P e f"
  using assms(1)
proof (induction e arbitrary: f)
  case Nil
  with assms(2) show ?case by (simp add: same_names_def)
next
  case (Cons kv e)
  obtain k v where "kv = (k, v)" by (cases kv)
  with Cons.prems obtain w f' where "f = (k, w) # f'" "same_names e f'"
    by (cases f) (auto simp: same_names_def)
  with Cons.IH \<open>kv = (k, v)\<close> assms(3) show ?case by simp
qed

lemma same_names_update: "same_names e f \<Longrightarrow> same_names (AList.update k v e) (AList.update k w f)"
  by (induction rule: same_names_induct) (auto simp: same_names_def)

lemma same_names_delete: "same_names e f \<Longrightarrow> same_names (AList.delete k e) (AList.delete k f)"
  by (induction rule: same_names_induct) (auto simp: same_names_def)

lemma same_names_defined: "same_names e f \<Longrightarrow> map_of e k = None \<longleftrightarrow> map_of f k = None"
  by (induction rule: same_names_induct) auto

lemma same_names_filter:
  "same_names e f \<Longrightarrow> same_names (filter (\<lambda>kv. P (fst kv)) e) (filter (\<lambda>kv. P (fst kv)) f)"
  by (induction rule: same_names_induct) auto

section \<open>Resolution\<close>

lemma withTFVars_names:
  assumes "same_names e f" and "same_names d g"
  shows "same_names (withTFVars e d) (withTFVars f g)"
proof -
  let ?keep = "\<lambda>k. \<not> prefix tfVarPrefix k \<and> map_of e (tfVarPrefix @ k) = None \<and> map_of d (tfVarPrefix @ k) = None"
  have keep: "(\<not> prefix tfVarPrefix k \<and> map_of f (tfVarPrefix @ k) = None \<and> map_of g (tfVarPrefix @ k) = None) = ?keep k" for k
    using same_names_defined [OF assms(1)] same_names_defined [OF assms(2)] by simp
  have "same_names (map (\<lambda>(k, v). (tfVarPrefix @ k, v)) (filter (\<lambda>(k, v). P k) e))
      (map (\<lambda>(k, v). (tfVarPrefix @ k, v)) (filter (\<lambda>(k, v). P k) f))" for P
    using assms(1) by (induction rule: same_names_induct) auto
  from this [of ?keep] assms(1) show ?thesis
    unfolding withTFVars_def keep by (auto simp: same_names_def)
qed

lemma withTFVars_plain:
  assumes "same_names d g"
  shows "withTFVars e d = withTFVars e g"
  using same_names_defined [OF assms] by (simp add: withTFVars_def)

lemma awsCredentials_same:
  assumes c: "same_credential c d" and "same_err anything (f c) (g d)"
  shows "same_err (\<lambda>(_, _, _, x) (_, _, _, y). x = y) (awsCredentials f c) (awsCredentials g d)"
proof -
  have eq: "cc_Provider c = cc_Provider d" "cc_Config c = cc_Config d"
    "cfg (cc_Secrets c) k = [] \<longleftrightarrow> cfg (cc_Secrets d) k = []" for k
    using c by (simp_all add: same_credential_def)
  show ?thesis
    unfolding awsCredentials_def Let_def eq
    by (auto intro!: same_err_bind [OF assms(2)])
qed

lemma AWSEnv_same:
  assumes "same_credential c d" and "same_err anything (f c) (g d)"
  shows "same_err (\<lambda>x y. snd x = snd y) (AWSEnv f c) (AWSEnv g d)"
  unfolding AWSEnv_def by (rule same_err_bind [OF awsCredentials_same [of c d f g, OF assms]]) auto

lemma cloud_Env_same:
  assumes c: "same_credential c d" and "same_err anything (f c) (g d)"
  shows "same_err (\<lambda>x y. snd x = snd y) (cloud_Env f c) (cloud_Env g d)"
proof -
  have eq: "cc_Provider c = cc_Provider d" "cc_Config c = cc_Config d"
    "cfg (cc_Secrets c) k = [] \<longleftrightarrow> cfg (cc_Secrets d) k = []" for k
    using c by (simp_all add: same_credential_def)
  show ?thesis
    unfolding cloud_Env_def Let_def eq
    by (auto intro!: same_err_bind [OF AWSEnv_same [of c d f g, OF assms]])
qed

lemma resolve_target_same:
  assumes "same_resolver r s" and "same_resolved a b"
  shows "same_err same_resolved (resolve_target r inp a) (resolve_target s inp b)"
proof -
  have conn: "rv_Conn r = rv_Conn s" and kube: "same_err anything (rv_Kubeconfig r c x) (rv_Kubeconfig s c x)" for c x
    using assms(1) by (simp_all add: same_resolver_def)
  show ?thesis
    unfolding resolve_target_def conn Let_def
    using assms(2)
    by (auto intro!: same_err_bind_same same_err_bind [OF kube] simp: same_resolved_def same_names_update)
qed

lemma resolve_vars_same:
  assumes "same_resolver r s" and "same_resolved a b"
  shows "same_err same_resolved (resolve_vars r inp a) (resolve_vars s inp b)"
proof (cases "rv_Vars r")
  case None
  moreover from this have "rv_Vars s = None" using assms(1) by (simp add: same_resolver_def)
  ultimately show ?thesis using assms(2) by (simp add: resolve_vars_def)
next
  case (Some f)
  then obtain g where g: "rv_Vars s = Some g"
    and fg: "same_err (\<lambda>(p, x) (q, y). p = q \<and> same_names x y) (f i j k) (g i j k)" for i j k
    using assms(1) by (auto simp: same_resolver_def option_rel_Some1)
  have "same_err same_resolved
      (try_bind (f i j k) (\<lambda>(plain, secret). if ri_ExposeTFVars inp
         then Inr (a\<lparr>rs_Env := withTFVars plain secret, rs_SecretEnv := withTFVars secret plain\<rparr>)
         else Inr (a\<lparr>rs_Env := plain, rs_SecretEnv := secret\<rparr>)))
      (try_bind (g i j k) (\<lambda>(plain, secret). if ri_ExposeTFVars inp
         then Inr (b\<lparr>rs_Env := withTFVars plain secret, rs_SecretEnv := withTFVars secret plain\<rparr>)
         else Inr (b\<lparr>rs_Env := plain, rs_SecretEnv := secret\<rparr>)))" for i j k
    using assms(2)
    by (intro same_err_bind [OF fg]) (auto simp: same_resolved_def withTFVars_names intro: withTFVars_plain)
  then show ?thesis using assms(2) Some g by (simp add: resolve_vars_def)
qed

lemma resolve_chart_same:
  assumes "same_resolver r s" and "same_resolved a b"
  shows "same_err same_resolved (resolve_chart r inp a) (resolve_chart s inp b)"
proof -
  have "rel_option (\<lambda>f g. \<forall>a b. same_err anything (f a b) (g a b)) (rv_Creds r) (rv_Creds s)"
    using assms(1) by (simp add: same_resolver_def)
  then show ?thesis
    using assms(2) unfolding resolve_chart_def
    by (cases rule: option.rel_cases)
      (auto intro!: same_err_bind [where R = anything] simp: same_resolved_def same_names_update)
qed

lemma resolve_git_same:
  assumes "same_resolver r s" and "same_resolved a b"
  shows "same_err same_resolved (resolve_git r inp a) (resolve_git s inp b)"
proof -
  have "rel_option (\<lambda>f g. \<forall>a b. same_err anything (f a b) (g a b)) (rv_GitTokens r) (rv_GitTokens s)"
    using assms(1) by (simp add: same_resolver_def)
  then show ?thesis
    using assms(2) unfolding resolve_git_def
    by (cases rule: option.rel_cases)
      (auto intro!: same_err_bind [where R = anything] simp: same_resolved_def same_names_update)
qed

lemma resolve_cloud_same:
  assumes "same_resolver r s" and "same_resolved a b"
  shows "same_err same_resolved (resolve_cloud r inp a) (resolve_cloud s inp b)"
proof -
  have creds: "rel_option (\<lambda>f g. \<forall>a b. same_err same_credential (f a b) (g a b)) (rv_CloudCreds r) (rv_CloudCreds s)"
    and role: "same_credential c d \<Longrightarrow> same_err anything (rv_AssumeRole r c) (rv_AssumeRole s d)"
    and lock: "rv_EnsureLockTable r e region t = rv_EnsureLockTable s f region t" for c d e f region t
    using assms(1) by (simp_all add: same_resolver_def)
  have one: "same_err same_resolved (with_cloud r inp a c x) (with_cloud s inp b d y)"
    if cd: "same_credential c d" and snd: "snd x = snd y" for c d x y
  proof -
    obtain p q e where xy: "x = (p, e)" "y = (q, e)" using snd by (cases x; cases y) simp
    have "cc_Provider c = cc_Provider d" using cd by (simp add: same_credential_def)
    with assms(2) lock [of p _ _ q] show ?thesis
      by (auto simp: with_cloud_def xy Let_def same_resolved_def same_names_update split: option.splits)
  qed
  have env: "same_err (\<lambda>x y. snd x = snd y) (cloud_Env (rv_AssumeRole r) c) (cloud_Env (rv_AssumeRole s) d)"
    if cd: "same_credential c d" for c d
    by (rule cloud_Env_same [of c d "rv_AssumeRole r" "rv_AssumeRole s", OF cd role [OF cd]])
  from creds show ?thesis
    using assms(2) unfolding resolve_cloud_def
    by (cases rule: option.rel_cases) (auto intro!: same_err_bind [where R = same_credential] same_err_bind [OF env] one)
qed

lemma resolve_disjoint_same:
  "same_resolved a b \<Longrightarrow> same_resolved (resolve_disjoint a) (resolve_disjoint b)"
  using same_names_filter [of "rs_SecretEnv a" "rs_SecretEnv b" "\<lambda>k. map_of (rs_Env b) k = None"]
  by (simp add: resolve_disjoint_def same_resolved_def)

lemma Resolve_same:
  assumes r: "same_resolver r s"
  shows "same_err same_resolved (Resolve r inp) (Resolve s inp)"
proof -
  have "rv_Conn r = rv_Conn s" using r by (simp add: same_resolver_def)
  then show ?thesis
    unfolding Resolve_def
    by (simp only:) (intro same_err_bind_same same_err_bind [OF resolve_target_same [OF r]]
        same_err_bind [OF resolve_vars_same [OF r]] same_err_bind [OF resolve_chart_same [OF r]]
        same_err_bind [OF resolve_git_same [OF r]] same_err_bind [OF resolve_cloud_same [OF r]],
        simp_all add: resolve_disjoint_same, simp add: same_resolved_def)
qed

section \<open>Rendering\<close>

lemma same_names_append: "same_names a b \<Longrightarrow> same_names (a @ c) (b @ c)"
  by (simp add: same_names_def)

lemma helm_lookup_no_vars:
  "Namespace ref \<noteq> NamespaceVars \<Longrightarrow> helm_lookup (r\<lparr>hr_Vars := v\<rparr>) inValues ref = helm_lookup r inValues ref"
  by (cases "Namespace ref") (simp_all add: helm_lookup_def lookup_run_def lookup_output_def Let_def)

lemma helm_lookup_same:
  assumes "same_names (hr_Vars r) v"
  shows "same_err anything (helm_lookup r inValues ref) (helm_lookup (r\<lparr>hr_Vars := v\<rparr>) inValues ref)"
proof (cases "Namespace ref")
  case NamespaceVars
  with same_names_defined [OF assms, of "Var ref"] show ?thesis
    by (auto simp: helm_lookup_def lookup_var_def split: option.splits)
next
  case NamespaceRun
  then show ?thesis by (simp add: helm_lookup_no_vars same_err_refl)
next
  case NamespaceComponents
  then show ?thesis by (simp add: helm_lookup_no_vars same_err_refl)
qed

lemma Render_same:
  assumes "\<And>ref. same_err anything (f ref) (g ref)"
  shows "same_err anything (Render t f) (Render t g)"
proof (induction t rule: Refs.induct)
  case (2 l t)
  then show ?case by (cases "Render t f"; cases "Render t g") auto
next
  case (3 r t)
  then show ?case
    using assms [of r] by (cases "f r"; cases "g r"; cases "Render t f"; cases "Render t g") auto
qed simp

lemma Render_cong: "(\<And>ref. ref \<in> set (Refs t) \<Longrightarrow> f ref = g ref) \<Longrightarrow> Render t f = Render t g"
  by (induction t rule: Refs.induct) (auto split: sum.splits)

definition no_variables :: "string \<Rightarrow> bool" where
  "no_variables text \<longleftrightarrow>
     (case Parse text of Inl _ \<Rightarrow> True | Inr tpl \<Rightarrow> list_all (\<lambda>ref. Namespace ref \<noteq> NamespaceVars) (Refs tpl))"

lemma helm_render_same:
  assumes "same_names (hr_Vars r) v"
  shows "same_err (\<lambda>x y. snd x = snd y) (helm_render r field text b) (helm_render (r\<lparr>hr_Vars := v\<rparr>) field text b)"
  unfolding helm_render_def
  by (cases "Parse text") (auto intro!: same_err_bind [OF Render_same [OF helm_lookup_same [OF assms]]])

lemma helm_render_no_vars:
  assumes "no_variables text"
  shows "helm_render (r\<lparr>hr_Vars := v\<rparr>) field text b = helm_render r field text b"
proof (cases "Parse text")
  case (Inr tpl)
  then have "Render tpl (helm_lookup (r\<lparr>hr_Vars := v\<rparr>) b) = Render tpl (helm_lookup r b)"
    using assms by (intro Render_cong helm_lookup_no_vars) (simp add: no_variables_def list_all_iff)
  with Inr show ?thesis by (simp add: helm_render_def)
qed (simp add: helm_render_def)

section \<open>Requests\<close>

definition same_spec :: "RunSpec \<Rightarrow> RunSpec \<Rightarrow> bool" where
  "same_spec a b \<longleftrightarrow>
     sp_Name a = sp_Name b \<and> sp_Image a = sp_Image b \<and> sp_Script a = sp_Script b \<and> sp_Env a = sp_Env b \<and>
     sp_ServiceAccountName a = sp_ServiceAccountName b \<and> sp_PluginCacheClaim a = sp_PluginCacheClaim b \<and>
     same_names (sp_Files a) (sp_Files b) \<and> same_names (sp_SecretEnv a) (sp_SecretEnv b)"

definition same_request :: "RunRequest \<Rightarrow> RunRequest \<Rightarrow> bool" where
  "same_request a b \<longleftrightarrow>
     rq_Conn a = rq_Conn b \<and> rq_Namespace a = rq_Namespace b \<and> rq_ExistingRun a = rq_ExistingRun b \<and>
     same_spec (rq_Spec a) (rq_Spec b)"

lemma same_request_plain:
  assumes "same_resolved a b"
  shows "same_request (run_request a e (plain_spec n s a)) (run_request b e (plain_spec n s b))"
  using assms by (simp add: same_request_def same_spec_def run_request_def plain_spec_def same_resolved_def)

lemma planManifest_same:
  assumes "same_resolver (wk_Resolver w) s"
  shows "same_err same_request (planManifest pf w app node action existing)
    (planManifest pf (w\<lparr>wk_Resolver := s\<rparr>) app node action existing)"
proof -
  have "rs_HasGitToken a = rs_HasGitToken b" if "same_resolved a b" for a b
    using that by (simp add: same_resolved_def)
  then show ?thesis
    unfolding planManifest_def Let_def
    by (auto intro!: same_err_bind_same same_err_bind [OF Resolve_same [OF assms]] simp: same_request_plain)
qed

lemma with_state_env_same: "same_resolved a b \<Longrightarrow> same_resolved (with_state_env t a) (with_state_env t b)"
  by (simp add: with_state_env_def same_resolved_def same_names_update same_names_delete)

lemma tofu_state_same:
  assumes "same_resolved a b"
  shows "same_err (\<lambda>(x, a) (y, b). x = y \<and> same_resolved a b)
    (tofu_state pf w app node action runID crID byID now a)
    (tofu_state pf (w\<lparr>wk_Resolver := s\<rparr>) app node action runID crID byID now b)"
proof -
  have "rs_RunnerConn a = rs_RunnerConn b" using assms by (simp add: same_resolved_def)
  then show ?thesis
    unfolding tofu_state_def Let_def
    by (auto intro!: same_err_bind_same simp: assms with_state_env_same)
qed

lemma planTofu_same:
  assumes "same_resolver (wk_Resolver w) s"
  shows "same_err same_request (planTofu pf w app node action existing runID crID byID stateOp now)
    (planTofu pf (w\<lparr>wk_Resolver := s\<rparr>) app node action existing runID crID byID stateOp now)"
proof -
  have ens: "ensure_handover pf (w\<lparr>wk_Resolver := s\<rparr>) app runID b secret = ensure_handover pf w app runID a secret"
    and script: "tofu_apply pf node act c fl secret addr dir stateOp a = tofu_apply pf node act c fl secret addr dir stateOp b"
    if "same_resolved a b" for a b act c fl secret addr dir
    using that by (simp_all add: same_resolved_def ensure_handover_def tofu_apply_def)
  have pc: "plugin_cache (w\<lparr>wk_Resolver := s\<rparr>) app = plugin_cache w app"
    by (simp add: plugin_cache_def)
  show ?thesis
  proof (cases "ResolveVersion (cfg (gn_Config node) ''tofu_version'')")
    case None
    then show ?thesis by (simp add: planTofu_def try_bind_def Let_def split: sum.splits)
  next
    case (Some v)
    have final: "same_err same_request
        (try_bind (ensure_handover pf w app runID a secret) (\<lambda>_. try_bind (plugin_cache w app) (h a)))
        (try_bind (ensure_handover pf (w\<lparr>wk_Resolver := s\<rparr>) app runID b secret)
           (\<lambda>_. try_bind (plugin_cache (w\<lparr>wk_Resolver := s\<rparr>) app) (h b)))"
      if "same_resolved a b" and "\<And>x. same_err same_request (h a x) (h b x)" for a b secret h
      unfolding ens [OF that(1)] pc by (intro same_err_bind_same that(2))
    show ?thesis
      unfolding planTofu_def Some option.case Let_def
      by (intro same_err_bind_same, simp, rule same_err_bind [OF Resolve_same [OF assms]],
          rule same_err_bind [OF tofu_state_same], assumption, clarsimp, rule final, assumption,
          auto simp: script same_request_def same_spec_def run_request_def same_resolved_def)
  qed
qed

text \<open>A helm step whose namespace and release name read no variables.\<close>

definition plain_target :: "Application \<Rightarrow> GraphNode \<Rightarrow> bool" where
  "plain_target app node \<longleftrightarrow>
     no_variables (gn_TargetNamespace node) \<and> no_variables (componentReleaseName (ap_Name app) node)"

lemma render_fields_same:
  assumes "same_names (hr_Vars r) v" and "plain_target app node"
  shows "same_err (\<lambda>x y. snd x = snd y) (render_fields app node r) (render_fields app node (r\<lparr>hr_Vars := v\<rparr>))"
proof -
  have ns: "no_variables (gn_TargetNamespace node)" "no_variables (componentReleaseName (ap_Name app) node)"
    using assms(2) by (simp_all add: plain_target_def)
  show ?thesis
    unfolding render_fields_def helm_render_no_vars [OF ns(1)] helm_render_no_vars [OF ns(2)]
    by (rule same_err_bind [OF helm_render_same [OF assms(1)]])
      (auto intro!: same_err_bind_same)
qed

lemma helm_renderer_vars:
  assumes "same_resolved a b"
  shows "helm_renderer pf (w\<lparr>wk_Resolver := s\<rparr>) app node action runID units b =
    (helm_renderer pf w app node action runID units a)\<lparr>hr_Vars := mergeVars (rs_Env b) (rs_SecretEnv b)\<rparr>"
    and "same_names (hr_Vars (helm_renderer pf w app node action runID units a)) (mergeVars (rs_Env b) (rs_SecretEnv b))"
  using assms by (auto simp: helm_renderer_def mergeVars_def same_resolved_def same_names_def)

lemma planHelm_same:
  assumes "same_resolver (wk_Resolver w) s" and "plain_target app node"
  shows "same_err same_request (planHelm pf w app node action force existing runID units)
    (planHelm pf (w\<lparr>wk_Resolver := s\<rparr>) app node action force existing runID units)"
proof -
  have rollout: "helm_rollout node act force srcs a x = helm_rollout node act force srcs b y"
    if "same_resolved a b" "snd x = snd y" for a b act srcs and x y :: "string \<times> string \<times> string \<times> bool"
    using that by (cases x; cases y) (simp add: helm_rollout_def same_resolved_def)
  have files: "same_resolved (a\<lparr>rs_Files := AList.update k x (rs_Files a)\<rparr>) (b\<lparr>rs_Files := AList.update k y (rs_Files b)\<rparr>)"
    if "same_resolved a b" for a b k x y
    using that by (simp add: same_resolved_def same_names_update)
  have fin: "same_err same_request
      (try_bind (render_fields app node (helm_renderer pf w app node action runID units a)) (h a))
      (try_bind (render_fields app node (helm_renderer pf (w\<lparr>wk_Resolver := s\<rparr>) app node action runID units b)) (h b))"
    if ab: "same_resolved a b" and "\<And>x y. snd x = snd y \<Longrightarrow> same_err same_request (h a x) (h b y)" for a b h
    unfolding helm_renderer_vars(1) [OF ab]
    by (rule same_err_bind [OF render_fields_same [OF helm_renderer_vars(2) [OF ab] assms(2)] that(2)])
  show ?thesis
    unfolding planHelm_def Let_def
  proof (intro same_err_bind_same, simp, rule same_err_bind [OF Resolve_same [OF assms(1)]], rule fin, assumption, goal_cases)
    case (1 act srcs a b x y)
    then show ?case
      by (simp only: rel_sum_simps rollout [OF files [OF 1(1), of "''values.yaml''" "fst x" "fst y"] 1(2)])
        (rule same_request_plain [OF files [OF 1(1)]])
  qed
qed

lemma planComponent_same:
  assumes "same_resolver (wk_Resolver w) s" and "gn_Type node = TypeHelm \<Longrightarrow> plain_target app node"
  shows "same_err same_request (planComponent pf w app node action force existing runID crID units stateOp now)
    (planComponent pf (w\<lparr>wk_Resolver := s\<rparr>) app node action force existing runID crID units stateOp now)"
  using assms by (simp add: planComponent_def planHelm_same planManifest_same planTofu_same)

end
