(* ===== verification/Demo.thy ===== *)
theory Demo
  imports StateToken_Props
begin

text \<open>Concrete instances of what the state tokens leave open, for the examples: a UUID text form and a MAC.\<close>

text \<open>UUID text of 36 hexadecimal digits, and its inverse.\<close>

definition hex_value :: "char \<Rightarrow> nat" where
  "hex_value c = (if byte c < 58 then byte c - 48 else byte c - 87)"

definition demo_uuid_string :: "uuid \<Rightarrow> string" where
  "demo_uuid_string i = hex_digits 36 (unat i)"

definition demo_parse_uuid :: "string \<Rightarrow> uuid option" where
  "demo_parse_uuid s = Some (of_nat (foldl (\<lambda>acc c. acc * 16 + hex_value c) 0 s))"

lemma hex_char_byte: "d < 16 \<Longrightarrow> byte (hex_char d) = (if d < 10 then 48 + d else 87 + d)"
  by (simp add: hex_char_def)

lemma hex_char_value: "d < 16 \<Longrightarrow> hex_value (hex_char d) = d"
  by (simp add: hex_value_def hex_char_byte)

lemma hex_char_plain: "d < 16 \<Longrightarrow> json_plain [hex_char d]"
  unfolding json_plain_simps hex_char_byte by auto

lemma hex_digits_value: "foldl (\<lambda>acc c. acc * 16 + hex_value c) 0 (hex_digits k n) = n mod 16 ^ k"
proof (induction k arbitrary: n)
  case (Suc k)
  have "n mod 16 ^ Suc k = n div 16 mod 16 ^ k * 16 + n mod 16"
    by (simp add: mod_mult2_eq)
  with Suc show ?case by (simp add: hex_char_value)
qed simp

lemma hex_digits_chars: "list_all (\<lambda>c. \<exists>d < 16. c = hex_char d) (hex_digits k n)"
proof (induction k arbitrary: n)
  case (Suc k)
  moreover have "\<exists>d < 16. hex_char (n mod 16) = hex_char d" by (intro exI [of _ "n mod 16"]) simp
  ultimately show ?case by simp
qed simp

lemma hex_digits_length [simp]: "length (hex_digits k n) = k"
  by (induction k arbitrary: n) auto

lemma demo_uuid_inverse: "demo_parse_uuid (demo_uuid_string i) = Some i"
proof -
  have "unat i < 2 ^ LENGTH(128)" by (rule unsigned_less)
  then have "unat i mod 16 ^ 36 = unat i" by (intro mod_less) simp
  then show ?thesis by (simp add: demo_parse_uuid_def demo_uuid_string_def hex_digits_value)
qed

lemma demo_uuid_codec: "uuid_codec demo_uuid_string demo_parse_uuid"
proof -
  have "json_plain (hex_digits k n)" for k n
    using hex_digits_chars [of k n] hex_char_plain by (force simp: json_plain_def list_all_iff)
  then have "json_plain (demo_uuid_string i)" for i by (simp add: demo_uuid_string_def)
  then show ?thesis by (simp add: uuid_codec_def demo_uuid_inverse)
qed

definition demo_signer :: Signer where
  "demo_signer body = ''k'' @ rev body"

end
