(* ===== verification/Planner_Claims.thy ===== *)
theory Planner_Claims
  imports Planner_Secrets Demo
begin

text \<open>The properties of the planner and of the state tokens, with their witnesses.\<close>

section \<open>An example\<close>

lemma hex_char_label:
  assumes "d < 16"
  shows "dashed_char (hex_char d)" and "hex_char d \<noteq> CHR ''-''"
proof -
  have label: "label_char (hex_char d)"
    unfolding label_char_def is_lower_def is_digit_def hex_char_byte [OF assms] using assms by auto
  then show "dashed_char (hex_char d)" by (simp add: dashed_char_def)
  have "\<not> label_char (CHR ''-'')" by code_simp
  with label show "hex_char d \<noteq> CHR ''-''" by auto
qed

lemma demo_uuid_text: "uuid_text demo_uuid_string"
proof -
  have "inj demo_uuid_string" by (metis demo_uuid_inverse injI option.inject)
  moreover have "list_all dashed_char (demo_uuid_string i) \<and> hd (demo_uuid_string i) \<noteq> CHR ''-'' \<and>
    last (demo_uuid_string i) \<noteq> CHR ''-''" for i
  proof -
    have ne: "demo_uuid_string i \<noteq> []" by (metis demo_uuid_string_def hex_digits_length list.size(3) zero_neq_numeral)
    have "dashed_char c \<and> c \<noteq> CHR ''-''" if c: "c \<in> set (demo_uuid_string i)" for c
    proof -
      obtain d where "d < 16" "c = hex_char d"
        using c hex_digits_chars [of 36 "unat i"] by (auto simp: demo_uuid_string_def list_all_iff)
      then show ?thesis by (simp add: hex_char_label)
    qed
    from this [OF hd_in_set [OF ne]] this [OF last_in_set [OF ne]] this show ?thesis
      by (simp add: list_all_iff)
  qed
  ultimately show ?thesis by (simp add: uuid_text_def demo_uuid_string_def)
qed

definition demo_platform :: platform where
  "demo_platform =
     \<lparr>pf_UUIDString = demo_uuid_string, pf_UUIDValue = (\<lambda>s. if s = [] then 0 else the (demo_parse_uuid s)),
      pf_Derive = (\<lambda>i. i + 1000), pf_Lower = id, pf_IsPrint = (\<lambda>_. True), pf_ShowNumber = id\<rparr>"

definition demo_conn :: Connection where
  "demo_conn = \<lparr>cn_Method = ''in_cluster'', cn_Endpoint = [], cn_Config = Map.empty, cn_Credentials = []\<rparr>"

text \<open>A resolver whose only variable secret is \<open>token\<close>.\<close>

definition demo_resolver :: "string \<Rightarrow> Resolver" where
  "demo_resolver token =
     \<lparr>rv_Conn = (\<lambda>_ _. Inr demo_conn), rv_Kubeconfig = (\<lambda>_ _. Inr token), rv_Creds = None, rv_GitTokens = None,
      rv_CloudCreds = None, rv_AssumeRole = (\<lambda>_. Inl (External ''sts'')),
      rv_Vars = Some (\<lambda>_ _ _. Inr ([(''REGION'', ''eu'')], [(''TOKEN'', token)])),
      rv_EnsureLockTable = (\<lambda>_ _ _. None)\<rparr>"

definition demo_worker :: "string \<Rightarrow> Worker" where
  "demo_worker token =
     \<lparr>wk_Resolver = demo_resolver token,
      wk_ManagedState = \<lparr>ms_Signer = Some demo_signer, ms_RunnerURL = ''https://sf'', ms_InClusterURL = []\<rparr>,
      wk_PluginCache = None, wk_EnsureHandover = (\<lambda>_ _ _ _. None), wk_ComponentByName = None,
      wk_ResolveOutputs = (\<lambda>_ _ _. Inr [])\<rparr>"

definition demo_app :: Application where
  "demo_app = \<lparr>ap_ID = 2, ap_OrganizationID = 1, ap_Name = ''shop'', ap_RunnerClusterID = 7\<rparr>"

definition demo_unit :: "string \<Rightarrow> string \<Rightarrow> config \<Rightarrow> GraphNode" where
  "demo_unit name t c =
     \<lparr>gn_ID = 20, gn_ComponentID = 20, gn_Name = name, gn_Type = t, gn_Config = c, gn_DependsOn = [],
      gn_ContinueOnFailure = False, gn_RequiresApproval = False, gn_ApprovalPolicy = None,
      gn_TargetClusterID = (if t = TypeTerraform then None else Some 7), gn_TargetNamespace = (if t = TypeHelm then ''web'' else []),
      gn_ChartCredentialID = None, gn_GitHubInstallationID = None, gn_StageID = None\<rparr>"

definition demo_tofu :: GraphNode where
  "demo_tofu = demo_unit ''net'' TypeTerraform
     [''command'' \<mapsto> CommandStateOp, ''backend'' \<mapsto> BackendSpacefleet, ''repo_url'' \<mapsto> ''https://git/r'']"



section \<open>Properties\<close>

text \<open>
  C12: a step on managed state gets a token in its secret environment and only there. Until it
  expires the token verifies as claims for exactly this organization, application, component, run and
  step; afterwards it does not verify; and it may write exactly when the unit changes the state: an
  apply of a deploy or destroy, or a state operation.
\<close>

theorem state_token_scope:
  assumes "uuid_codec (pf_UUIDString pf) pu"
    and "ms_Signer (wk_ManagedState w) = Some sg" and "\<And>body. sg body \<noteq> []"
    and "0 \<le> now" and "now < 2 ^ 62"
    and "cfg (gn_Config node) ''backend'' = BackendSpacefleet"
    and "planTofu pf w app node action existing runID crID byID stateOp now = Inr req"
  shows "\<exists>tok c. map_of (sp_SecretEnv (rq_Spec req)) stateEnvPassword = Some tok \<and>
    map_of (sp_Env (rq_Spec req)) stateEnvPassword = None \<and>
    (\<forall>t. Verify sg pu tok t = (if t < now + 6000 then Inr c else Inl ErrInvalidToken)) \<and>
    cl_OrgID c = ap_OrganizationID app \<and> cl_ApplicationID c = ap_ID app \<and>
    cl_ComponentID c = (if gn_ComponentID node = 0 then tofuHandoverPlanID node byID else gn_ComponentID node) \<and>
    cl_WorkflowRunID c = runID \<and> cl_ComponentRunID c = crID \<and>
    (CanWrite c \<longleftrightarrow> recordsTofuState action node)"
proof -
  let ?authored = "if gn_ComponentID node = 0 then tofuHandoverPlanID node byID else gn_ComponentID node"
  let ?c = "state_claims app node action ?authored runID crID now"
  obtain addr r resolved where st: "tofu_state pf w app node action runID crID byID now resolved = Inr (addr, r)"
    and env: "sp_SecretEnv (rq_Spec req) = rs_SecretEnv r" "sp_Env (rq_Spec req) = rs_Env r"
    using assms(7) by (auto simp: planTofu_def Let_def try_bind_Inr run_request_def split: option.splits)
  then obtain tok where tok: "Sign sg (pf_UUIDString pf) ?c = Inr tok" and r: "r = with_state_env tok resolved"
    using assms(2,6) by (auto simp: tofu_state_def Let_def try_bind_Inr managedStateAccess_def split: if_splits sum.splits)
  have "claims_plain ?c"
    using assms(4,5) by (simp add: claims_plain_def state_claims_def DefaultWorkspace_def workflowWatchTimeout_def
        stateTokenMargin_def)
  then have "Verify sg pu tok t = (if t < cl_Expiry ?c then Inr ?c else Inl ErrInvalidToken)" for t
    by (rule Verify_Sign [OF assms(1) _ tok assms(3)])
  then have "\<forall>t. Verify sg pu tok t = (if t < now + 6000 then Inr ?c else Inl ErrInvalidToken)"
    by (simp add: state_claims_def workflowWatchTimeout_def stateTokenMargin_def)
  moreover have "map_of (rs_SecretEnv r) stateEnvPassword = Some tok" "map_of (rs_Env r) stateEnvPassword = None"
    by (simp_all add: r with_state_env_def update_conv' delete_conv' stateEnvUsername_def stateEnvPassword_def)
  ultimately show ?thesis
    unfolding env by (intro exI [of _ tok] exI [of _ ?c]) (simp add: state_claims_def CanWrite_def)
qed

lemma demo_tofu_plans:
  "\<exists>req. planTofu demo_platform (demo_worker t) demo_app demo_tofu ActionStateOp [] 5 6 Map.empty None 1000 = Inr req"
  by (simp add: planTofu_def tofuActionFor_def demo_tofu_def demo_unit_def ResolveVersion_def DefaultVersion_def Versions_def
      tofu_backend_def decodeBackendConfig_def tofu_flags_def decodeFlags_def Let_def cfg_def withNativeLocking_def
      Resolve_def demo_worker_def demo_resolver_def resolve_target_def tofu_inputs_def base_inputs_def auth_cluster_def
      demo_platform_def resolve_vars_def demo_app_def resolve_chart_def resolve_git_def deref_def resolve_cloud_def
      tofu_state_def managedStateAccess_def Sign_def scope_known_def state_claims_def ensure_handover_def
      plugin_cache_def)

theorem state_token_scope_witness:
  "\<exists>req tok c. planTofu demo_platform (demo_worker ''s'') demo_app demo_tofu ActionStateOp [] 5 6 Map.empty None 1000 = Inr req \<and>
    map_of (sp_SecretEnv (rq_Spec req)) stateEnvPassword = Some tok \<and>
    Verify demo_signer demo_parse_uuid tok 6999 = Inr c \<and> Verify demo_signer demo_parse_uuid tok 7000 = Inl ErrInvalidToken \<and>
    CanWrite c \<and> cl_ComponentID c = 20"
proof -
  obtain req where req: "planTofu demo_platform (demo_worker ''s'') demo_app demo_tofu ActionStateOp [] 5 6 Map.empty None 1000 = Inr req"
    using demo_tofu_plans by blast
  have *: "uuid_codec (pf_UUIDString demo_platform) demo_parse_uuid" "ms_Signer (wk_ManagedState (demo_worker ''s'')) = Some demo_signer"
    "demo_signer body \<noteq> []" "(0::int) \<le> 1000" "(1000::int) < 2 ^ 62"
    "cfg (gn_Config demo_tofu) ''backend'' = BackendSpacefleet" for body
    by (simp_all add: demo_platform_def demo_uuid_codec demo_worker_def demo_signer_def demo_tofu_def demo_unit_def cfg_def)
  have "recordsTofuState ActionStateOp demo_tofu" "gn_ComponentID demo_tofu = 20"
    by (simp_all add: recordsTofuState_def demo_tofu_def demo_unit_def cfg_def)
  with state_token_scope [OF * req] req show ?thesis by fastforce
qed







text \<open>
  Secrets reach only the mounted files and the secret environment. Planned by workers whose
  collaborators differ in nothing but secret values (kubeconfigs, chart and git credentials, cloud
  keys, sensitive variables), a step fails alike or gives requests with the same script, image, names
  and plain environment; a helm step, when its namespace and release name read no variables.
\<close>

lemma secrets_confined:
  assumes "same_resolver (wk_Resolver w) s" and "gn_Type node = TypeHelm \<Longrightarrow> plain_target app node"
  shows "same_err same_request (planComponent pf w app node action force existing runID crID units stateOp now)
    (planComponent pf (w\<lparr>wk_Resolver := s\<rparr>) app node action force existing runID crID units stateOp now)"
  by (rule planComponent_same [OF assms])

lemma secrets_confined_example:
  "\<exists>r s. planComponent demo_platform (demo_worker ''a'') demo_app demo_tofu ActionStateOp False [] 5 6 [] None 1000 = Inr r \<and>
    planComponent demo_platform (demo_worker ''b'') demo_app demo_tofu ActionStateOp False [] 5 6 [] None 1000 = Inr s \<and>
    sp_Script (rq_Spec r) = sp_Script (rq_Spec s) \<and> sp_Env (rq_Spec r) = sp_Env (rq_Spec s)"
proof -
  have plan: "planComponent demo_platform w demo_app demo_tofu ActionStateOp False [] 5 6 [] None 1000 =
      planTofu demo_platform w demo_app demo_tofu ActionStateOp [] 5 6 Map.empty None 1000" for w
    by (simp add: planComponent_def demo_tofu_def demo_unit_def by_id_def)
  have w: "(demo_worker ''a'')\<lparr>wk_Resolver := demo_resolver ''b''\<rparr> = demo_worker ''b''"
    by (simp add: demo_worker_def)
  have "same_resolver (wk_Resolver (demo_worker ''a'')) (demo_resolver ''b'')"
    by (simp add: demo_worker_def demo_resolver_def same_resolver_def)
  moreover have "gn_Type demo_tofu = TypeHelm \<Longrightarrow> plain_target demo_app demo_tofu"
    by (simp add: demo_tofu_def demo_unit_def)
  ultimately have "same_err same_request (planComponent demo_platform (demo_worker ''a'') demo_app demo_tofu ActionStateOp False [] 5 6 [] None 1000)
    (planComponent demo_platform (demo_worker ''b'') demo_app demo_tofu ActionStateOp False [] 5 6 [] None 1000)"
    unfolding w [symmetric] by (rule secrets_confined)
  moreover obtain r s where "planComponent demo_platform (demo_worker ''a'') demo_app demo_tofu ActionStateOp False [] 5 6 [] None 1000 = Inr r"
    "planComponent demo_platform (demo_worker ''b'') demo_app demo_tofu ActionStateOp False [] 5 6 [] None 1000 = Inr s"
    unfolding plan using demo_tofu_plans by metis
  ultimately show ?thesis by (auto simp: same_request_def same_spec_def)
qed

text \<open>
  An outputs reference reads the one apply unit its name has in the snapshot, whatever the order
  the units are visited in; no such unit and more than one are errors.
\<close>

lemma output_unit_unique:
  "tofuApplyUnitID derive name units =
     (let c = unit_candidates derive name (set units) in
      if c = {} then Inl (NotInRun name)
      else if \<exists>i. c = {i} then Inr (the_elem c)
      else Inl (AmbiguousName name))"
  by (simp add: tofuApplyUnitID_def unit_scan_result)

text \<open>
  The Secret a plan hands its planfile over in is named by run and plan alone: the name has the
  characters of a DNS label, is 80 long, and two different run and plan pairs never share one.
\<close>

lemma handover_secret_name:
  assumes "uuid_text (pf_UUIDString pf)"
  shows "dns_label_match (tofuPlanArtifactSecret pf r p) \<and> length (tofuPlanArtifactSecret pf r p) = 80 \<and>
    (tofuPlanArtifactSecret pf r p = tofuPlanArtifactSecret pf r' p' \<longrightarrow> r = r' \<and> p = p')"
proof (intro conjI impI)
  show "dns_label_match (tofuPlanArtifactSecret pf r p)"
    by (simp add: tofuPlanArtifactSecret_def sanitizeLabel_label)
  have "length (pf_UUIDString pf i) = 36" for i using assms by (simp add: uuid_text_def)
  then show "length (tofuPlanArtifactSecret pf r p) = 80"
    by (simp add: tofuPlanArtifactSecret_text [OF assms])
qed (use tofuPlanArtifactSecret_inj [OF assms] in blast)+

lemma handover_secret_name_example:
  "tofuPlanArtifactSecret demo_platform 1 2 \<noteq> tofuPlanArtifactSecret demo_platform 1 3"
proof -
  have "uuid_text (pf_UUIDString demo_platform)" by (simp add: demo_platform_def demo_uuid_text)
  from handover_secret_name [OF this, of 1 2 1 3] show ?thesis by auto
qed

end
