(* ===== verification/StateStore.thy ===== *)
theory StateStore
  imports StateToken Secrets TofuPlan
begin

text \<open>
  Managed OpenTofu state (\<open>lib/tofustate/service.go\<close>): the tables, and every operation of the service.
  The database runs each statement (and the transaction of a write) atomically; between two of them
  other requests run. An operation therefore takes the argument \<open>itf\<close>: \<open>itf k\<close> is what the others did
  to the database before its next statement. A service holds the library functions the code calls:
  gzip both ways, the MD5 sum, the UUID parser.
\<close>

section \<open>Tables\<close>

record StateRow =
  ts_ID :: uuid
  ts_OrganizationID :: uuid
  ts_ApplicationID :: uuid
  ts_ComponentID :: uuid
  ts_Workspace :: string
  ts_CurrentVersion :: int
  ts_Serial :: int
  ts_Lineage :: string
  ts_LockID :: "string option"
  ts_LockInfo :: "LockInfo option"
  ts_LockedAt :: "int option"
  ts_LockedBy :: "uuid option"

record VersionRow =
  tv_StateID :: uuid
  tv_OrganizationID :: uuid
  tv_Version :: int
  tv_Serial :: int
  tv_Lineage :: string
  tv_Sealed :: string
  tv_SizeBytes :: int
  tv_Md5 :: string
  tv_WorkflowRunID :: uuid
  tv_ComponentRunID :: uuid
  tv_CreatedBy :: string

text \<open>A component run with its workflow run, as \<open>Authenticate\<close> queries them; a workflow run with who started it.\<close>

record StepRow =
  sr_OrganizationID :: uuid
  sr_ID :: uuid
  sr_WorkflowRunID :: uuid
  sr_Running :: bool
  sr_RunOrganizationID :: uuid
  sr_RunApplicationID :: uuid

record StateDB =
  sd_States :: "StateRow list"
  sd_Versions :: "VersionRow list"
  sd_Steps :: "StepRow list"
  sd_Runs :: "(uuid \<times> uuid \<times> string) list"

record StateService =
  sv_Sealer :: Sealer
  sv_Signer :: "Signer option"
  sv_Gzip :: "string \<Rightarrow> string"
  sv_Gunzip :: "string \<Rightarrow> string option"
  sv_MD5 :: "string \<Rightarrow> string"
  sv_ParseUUID :: "string \<Rightarrow> uuid option"

datatype state_error =
    StateDisabled
  | Forbidden
  | BadRequest string
  | Conflict string
  | LockedError LockInfo
  | TokenError token_error
  | NotFoundRow
  | SealingError seal_error
  | BadGzip

text \<open>\<open>hex.EncodeToString\<close> of the sum.\<close>

definition md5_digest :: "StateService \<Rightarrow> string \<Rightarrow> string" where
  "md5_digest sv body = concat (map (\<lambda>c. hex_digits 2 (byte c)) (sv_MD5 sv body))"

definition state_Enabled :: "StateService \<Rightarrow> bool" where
  "state_Enabled sv \<longleftrightarrow> sv_Signer sv \<noteq> None \<and> Enabled (sv_Sealer sv)"

section \<open>Authentication\<close>

definition step_live :: "Claims \<Rightarrow> StepRow \<Rightarrow> bool" where
  "step_live c s \<longleftrightarrow>
     sr_OrganizationID s = cl_OrgID c \<and> sr_ID s = cl_ComponentRunID c \<and> sr_WorkflowRunID s = cl_WorkflowRunID c \<and>
     sr_Running s \<and> sr_RunOrganizationID s = cl_OrgID c \<and> sr_RunApplicationID s = cl_ApplicationID c"

definition Authenticate ::
  "StateService \<Rightarrow> StateDB \<Rightarrow> string \<Rightarrow> uuid \<Rightarrow> string \<Rightarrow> int \<Rightarrow> state_error + Claims" where
  "Authenticate sv db token componentID workspace now =
     (case (sv_Signer sv, state_Enabled sv) of
        (Some signer, True) \<Rightarrow>
          (case Verify signer (sv_ParseUUID sv) token now of
             Inl e \<Rightarrow> Inl (TokenError e)
           | Inr c \<Rightarrow>
               if cl_ComponentID c \<noteq> componentID \<or> WorkspaceName (cl_Workspace c) \<noteq> workspace then Inl Forbidden
               else if \<not> list_ex (step_live c) (sd_Steps db) then Inl (TokenError ErrInvalidToken)
               else Inr c)
      | _ \<Rightarrow> Inl StateDisabled)"

section \<open>Rows\<close>

text \<open>At most one row matches: the four columns are a unique index.\<close>

definition state_for :: "Claims \<Rightarrow> StateRow \<Rightarrow> bool" where
  "state_for c r \<longleftrightarrow>
     ts_OrganizationID r = cl_OrgID c \<and> ts_ApplicationID r = cl_ApplicationID c \<and>
     ts_ComponentID r = cl_ComponentID c \<and> ts_Workspace r = WorkspaceName (cl_Workspace c)"

definition findState :: "StateDB \<Rightarrow> Claims \<Rightarrow> StateRow option" where
  "findState db c = find (state_for c) (sd_States db)"

definition get_state :: "StateDB \<Rightarrow> uuid \<Rightarrow> StateRow option" where
  "get_state db i = find (\<lambda>r. ts_ID r = i) (sd_States db)"

definition state_key :: "StateRow \<Rightarrow> uuid \<times> uuid \<times> uuid \<times> string" where
  "state_key r = (ts_OrganizationID r, ts_ApplicationID r, ts_ComponentID r, ts_Workspace r)"

definition insert_state :: "StateDB \<Rightarrow> StateRow \<Rightarrow> StateDB option" where
  "insert_state db r =
     (if list_ex (\<lambda>x. ts_ID x = ts_ID r \<or> state_key x = state_key r) (sd_States db) then None
      else Some (db\<lparr>sd_States := sd_States db @ [r]\<rparr>))"

definition new_state :: "uuid \<Rightarrow> Claims \<Rightarrow> StateRow" where
  "new_state i c =
     \<lparr>ts_ID = i, ts_OrganizationID = cl_OrgID c, ts_ApplicationID = cl_ApplicationID c,
      ts_ComponentID = cl_ComponentID c, ts_Workspace = WorkspaceName (cl_Workspace c), ts_CurrentVersion = 0,
      ts_Serial = 0, ts_Lineage = [], ts_LockID = None, ts_LockInfo = None, ts_LockedAt = None, ts_LockedBy = None\<rparr>"

type_synonym interference = "nat \<Rightarrow> StateDB \<Rightarrow> StateDB"

definition ensureState ::
  "interference \<Rightarrow> StateDB \<Rightarrow> Claims \<Rightarrow> uuid \<Rightarrow> StateDB \<times> (state_error + StateRow)" where
  "ensureState itf db c i =
     (case findState db c of
        Some st \<Rightarrow> (db, Inr st)
      | None \<Rightarrow>
          let db1 = itf 0 db in
          case insert_state db1 (new_state i c) of
            Some db2 \<Rightarrow> (db2, Inr (new_state i c))
          | None \<Rightarrow>
              let db2 = itf 1 db1 in
              case findState db2 c of
                Some st \<Rightarrow> (db2, Inr st)
              | None \<Rightarrow> (db2, Inl NotFoundRow))"

section \<open>Sealed bodies\<close>

definition seal_state :: "StateService \<Rightarrow> string \<Rightarrow> string \<Rightarrow> state_error + string" where
  "seal_state sv nonce body =
     (case Seal (sv_Sealer sv) nonce (sv_Gzip sv body) of Inl e \<Rightarrow> Inl (SealingError e) | Inr s \<Rightarrow> Inr s)"

definition open_state :: "StateService \<Rightarrow> string \<Rightarrow> state_error + string" where
  "open_state sv sealed =
     (case Open (sv_Sealer sv) sealed of
        Inl e \<Rightarrow> Inl (SealingError e)
      | Inr compressed \<Rightarrow> (case sv_Gunzip sv compressed of None \<Rightarrow> Inl BadGzip | Some b \<Rightarrow> Inr b))"

section \<open>Reading\<close>

definition find_version :: "StateDB \<Rightarrow> uuid \<Rightarrow> StateRow \<Rightarrow> VersionRow option" where
  "find_version db org st =
     find (\<lambda>v. tv_OrganizationID v = org \<and> tv_StateID v = ts_ID st \<and> tv_Version v = ts_CurrentVersion st) (sd_Versions db)"

text \<open>\<open>Read\<close>; \<open>Inr None\<close> is the answer that nothing was written yet.\<close>

definition Read_state :: "StateService \<Rightarrow> interference \<Rightarrow> StateDB \<Rightarrow> Claims \<Rightarrow> state_error + string option" where
  "Read_state sv itf db c =
     (if \<not> state_Enabled sv then Inl StateDisabled
      else case findState db c of
        None \<Rightarrow> Inr None
      | Some st \<Rightarrow>
          if ts_CurrentVersion st = 0 then Inr None
          else case find_version (itf 0 db) (cl_OrgID c) st of
                 None \<Rightarrow> Inl NotFoundRow
               | Some v \<Rightarrow> try_bind (open_state sv (tv_Sealed v)) (\<lambda>b. Inr (Some b)))"

text \<open>The member-facing reads: the component's default workspace, no token.\<close>

definition component_state :: "uuid \<Rightarrow> uuid \<Rightarrow> uuid \<Rightarrow> StateRow \<Rightarrow> bool" where
  "component_state org app componentID r \<longleftrightarrow>
     ts_OrganizationID r = org \<and> ts_ApplicationID r = app \<and> ts_ComponentID r = componentID \<and>
     ts_Workspace r = DefaultWorkspace"

definition CurrentVersion ::
  "interference \<Rightarrow> StateDB \<Rightarrow> uuid \<Rightarrow> uuid \<Rightarrow> uuid \<Rightarrow> state_error + VersionRow option" where
  "CurrentVersion itf db org app componentID =
     (case find (component_state org app componentID) (sd_States db) of
        None \<Rightarrow> Inr None
      | Some st \<Rightarrow>
          if ts_CurrentVersion st = 0 then Inr None
          else case find_version (itf 0 db) org st of None \<Rightarrow> Inl NotFoundRow | Some v \<Rightarrow> Inr (Some v))"

definition Download ::
  "StateService \<Rightarrow> interference \<Rightarrow> StateDB \<Rightarrow> uuid \<Rightarrow> uuid \<Rightarrow> uuid \<Rightarrow> state_error + (string \<times> VersionRow) option" where
  "Download sv itf db org app componentID =
     (if \<not> state_Enabled sv then Inl StateDisabled
      else try_bind (CurrentVersion itf db org app componentID) (\<lambda>ov.
        case ov of
          None \<Rightarrow> Inr None
        | Some v \<Rightarrow> try_bind (open_state sv (tv_Sealed v)) (\<lambda>b. Inr (Some (b, v)))))"

section \<open>Locking\<close>

definition holderOf :: "StateRow \<Rightarrow> LockInfo" where
  "holderOf st =
     (case ts_LockInfo st of
        Some i \<Rightarrow> i
      | None \<Rightarrow> empty_lock\<lparr>li_ID := (case ts_LockID st of Some i \<Rightarrow> i | None \<Rightarrow> [])\<rparr>)"

text \<open>The conditional update of \<open>Lock\<close>, and whether it changed the row.\<close>

definition lockable :: "uuid \<Rightarrow> LockInfo \<Rightarrow> uuid \<Rightarrow> StateRow \<Rightarrow> bool" where
  "lockable i info step r \<longleftrightarrow>
     ts_ID r = i \<and> (ts_LockID r = None \<or> ts_LockID r = Some (li_ID info) \<and> ts_LockedBy r = Some step)"

definition lock_row :: "LockInfo \<Rightarrow> uuid \<Rightarrow> int \<Rightarrow> StateRow \<Rightarrow> StateRow" where
  "lock_row info step now r =
     r\<lparr>ts_LockID := Some (li_ID info), ts_LockInfo := Some info, ts_LockedAt := Some now, ts_LockedBy := Some step\<rparr>"

definition update_where :: "(StateRow \<Rightarrow> bool) \<Rightarrow> (StateRow \<Rightarrow> StateRow) \<Rightarrow> StateDB \<Rightarrow> StateDB \<times> nat" where
  "update_where P f db =
     (db\<lparr>sd_States := map (\<lambda>r. if P r then f r else r) (sd_States db)\<rparr>, length (filter P (sd_States db)))"

fun lock_loop ::
  "interference \<Rightarrow> nat \<Rightarrow> nat \<Rightarrow> StateDB \<Rightarrow> uuid \<Rightarrow> uuid \<Rightarrow> LockInfo \<Rightarrow> int \<Rightarrow> StateDB \<times> (state_error + unit)" where
  "lock_loop itf 0 k db i step info now = (db, Inl (Conflict ''the lock is changing hands; try again''))"
| "lock_loop itf (Suc n) k db i step info now =
     (let (db1, hits) = update_where (lockable i info step) (lock_row info step now) db in
      if hits = 1 then (db1, Inr ())
      else
        let db2 = itf k db1 in
        case get_state db2 i of
          None \<Rightarrow> (db2, Inl NotFoundRow)
        | Some cur \<Rightarrow>
            if ts_LockID cur \<noteq> None then (db2, Inl (LockedError (holderOf cur)))
            else lock_loop itf n (Suc (Suc k)) (itf (Suc k) db2) i step info now)"

definition lockAttempts :: nat where
  "lockAttempts = 3"

definition Lock ::
  "StateService \<Rightarrow> interference \<Rightarrow> StateDB \<Rightarrow> Claims \<Rightarrow> LockInfo \<Rightarrow> uuid \<Rightarrow> int \<Rightarrow> StateDB \<times> (state_error + unit)" where
  "Lock sv itf db c info i now =
     (if \<not> state_Enabled sv then (db, Inl StateDisabled)
      else if li_ID info = [] then (db, Inl (BadRequest ''the lock request has no ID''))
      else case ensureState itf db c i of
        (db1, Inl e) \<Rightarrow> (db1, Inl e)
      | (db1, Inr st) \<Rightarrow> lock_loop itf lockAttempts 3 (itf 2 db1) (ts_ID st) (cl_ComponentRunID c) info now)"

definition unlockable :: "uuid \<Rightarrow> string \<Rightarrow> Claims \<Rightarrow> StateRow \<Rightarrow> bool" where
  "unlockable i lockID c r \<longleftrightarrow>
     ts_ID r = i \<and> ts_LockID r = Some lockID \<and> (CanWrite c \<or> ts_LockedBy r = Some (cl_ComponentRunID c))"

definition unlock_row :: "StateRow \<Rightarrow> StateRow" where
  "unlock_row r = r\<lparr>ts_LockID := None, ts_LockInfo := None, ts_LockedAt := None, ts_LockedBy := None\<rparr>"

definition Unlock ::
  "StateService \<Rightarrow> interference \<Rightarrow> StateDB \<Rightarrow> Claims \<Rightarrow> LockInfo \<Rightarrow> StateDB \<times> (state_error + unit)" where
  "Unlock sv itf db c info =
     (if \<not> state_Enabled sv then (db, Inl StateDisabled)
      else if li_ID info = [] then (db, Inl (BadRequest ''the unlock request has no ID''))
      else case findState db c of
        None \<Rightarrow> (db, Inr ())
      | Some st \<Rightarrow>
          let (db1, hits) = update_where (unlockable (ts_ID st) (li_ID info) c) unlock_row (itf 0 db) in
          if hits = 1 then (db1, Inr ())
          else
            let db2 = itf 1 db1 in
            case get_state db2 (ts_ID st) of
              None \<Rightarrow> (db2, Inl NotFoundRow)
            | Some cur \<Rightarrow>
                (db2, case ts_LockID cur of
                        None \<Rightarrow> Inr ()
                      | Some l \<Rightarrow> if l \<noteq> li_ID info then Inl (LockedError (holderOf cur)) else Inl Forbidden))"

section \<open>Writing\<close>

record stateHeader =
  hd_Version :: int
  hd_Serial :: "int option"
  hd_Lineage :: string

definition header_member :: "string \<times> json \<Rightarrow> stateHeader \<Rightarrow> stateHeader option" where
  "header_member kv h =
     (case kv of (key, v) \<Rightarrow>
        let k = fold_name key in
        if k = ''version'' then
          (if v = JNull then Some h else map_option (\<lambda>n. h\<lparr>hd_Version := n\<rparr>) (json_int64 v))
        else if k = ''serial'' then
          (if v = JNull then Some (h\<lparr>hd_Serial := None\<rparr>) else map_option (\<lambda>n. h\<lparr>hd_Serial := Some n\<rparr>) (json_int64 v))
        else if k = ''lineage'' then
          (if v = JNull then Some h else map_option (\<lambda>s. h\<lparr>hd_Lineage := s\<rparr>) (decode_string v))
        else Some h)"

fun header_members :: "(string \<times> json) list \<Rightarrow> stateHeader \<Rightarrow> stateHeader option" where
  "header_members [] h = Some h"
| "header_members (kv # kvs) h = Option.bind (header_member kv h) (header_members kvs)"

definition decode_header :: "string \<Rightarrow> stateHeader option" where
  "decode_header body =
     (let zero = \<lparr>hd_Version = 0, hd_Serial = None, hd_Lineage = []\<rparr> in
      case json_parse body of
        Some JNull \<Rightarrow> Some zero
      | Some (JObj kvs) \<Rightarrow> header_members kvs zero
      | _ \<Rightarrow> None)"

text \<open>The serial and lineage of a body that may be written at all.\<close>

definition write_header :: "string \<Rightarrow> state_error + int \<times> string" where
  "write_header body =
     (case decode_header body of
        None \<Rightarrow> Inl (BadRequest ''the state is not valid JSON'')
      | Some h \<Rightarrow>
          (case hd_Serial h of
             None \<Rightarrow> Inl (BadRequest ''the state has no lineage or serial'')
           | Some serial \<Rightarrow>
               if hd_Lineage h = [] then Inl (BadRequest ''the state has no lineage or serial'')
               else Inr (serial, hd_Lineage h)))"

definition locked_by_request :: "Claims \<Rightarrow> string \<Rightarrow> StateRow \<Rightarrow> bool" where
  "locked_by_request c lockID st \<longleftrightarrow>
     lockID \<noteq> [] \<and> ts_LockID st = Some lockID \<and> ts_LockedBy st = Some (cl_ComponentRunID c)"

text \<open>The guards on existing state: \<open>Inr True\<close> is a retry of the write that is already stored.\<close>

definition write_guard ::
  "StateDB \<Rightarrow> Claims \<Rightarrow> StateRow \<Rightarrow> int \<Rightarrow> string \<Rightarrow> string \<Rightarrow> state_error + bool" where
  "write_guard db c st serial lineage digest =
     (if ts_CurrentVersion st \<le> 0 then Inr False
      else if lineage \<noteq> ts_Lineage st then Inl (Conflict ''lineage'')
      else if serial < ts_Serial st then Inl (Conflict ''older serial'')
      else if serial = ts_Serial st then
        (case find_version db (cl_OrgID c) st of
           None \<Rightarrow> Inl NotFoundRow
         | Some cur \<Rightarrow> if tv_Md5 cur = digest then Inr True else Inl (Conflict ''same serial, different contents''))
      else Inr False)"

definition started_by :: "StateDB \<Rightarrow> Claims \<Rightarrow> string" where
  "started_by db c =
     (case find (\<lambda>(org, i, who). org = cl_OrgID c \<and> i = cl_WorkflowRunID c) (sd_Runs db) of
        Some (_, _, who) \<Rightarrow> who | None \<Rightarrow> [])"

definition movable :: "Claims \<Rightarrow> string \<Rightarrow> StateRow \<Rightarrow> StateRow \<Rightarrow> bool" where
  "movable c lockID st r \<longleftrightarrow>
     ts_ID r = ts_ID st \<and> ts_CurrentVersion r = ts_CurrentVersion st \<and> ts_LockID r = Some lockID \<and>
     ts_LockedBy r = Some (cl_ComponentRunID c)"

text \<open>
  The transaction: the new version (a constraint error when it is there or its state is not), then
  the pointer; rolled back unless the pointer moved.
\<close>

definition write_tx :: "StateDB \<Rightarrow> Claims \<Rightarrow> string \<Rightarrow> StateRow \<Rightarrow> VersionRow \<Rightarrow> StateDB \<times> (state_error + unit)" where
  "write_tx db c lockID st v =
     (if list_ex (\<lambda>x. tv_StateID x = tv_StateID v \<and> tv_Version x = tv_Version v) (sd_Versions db) \<or>
         get_state db (tv_StateID v) = None
      then (db, Inl (Conflict ''a concurrent write stored this version first''))
      else
        let (db1, hits) = update_where (movable c lockID st)
              (\<lambda>r. r\<lparr>ts_CurrentVersion := tv_Version v, ts_Serial := tv_Serial v, ts_Lineage := tv_Lineage v\<rparr>) db
        in if hits = 1 then (db1\<lparr>sd_Versions := sd_Versions db1 @ [v]\<rparr>, Inr ())
           else (db, Inl (Conflict ''the state changed or was unlocked while writing'')))"

definition new_version ::
  "StateService \<Rightarrow> Claims \<Rightarrow> StateRow \<Rightarrow> int \<Rightarrow> string \<Rightarrow> string \<Rightarrow> string \<Rightarrow> string \<Rightarrow> VersionRow" where
  "new_version sv c st serial lineage body sealed who =
     \<lparr>tv_StateID = ts_ID st, tv_OrganizationID = cl_OrgID c, tv_Version = ts_CurrentVersion st + 1, tv_Serial = serial,
      tv_Lineage = lineage, tv_Sealed = sealed, tv_SizeBytes = int (length body), tv_Md5 = md5_digest sv body,
      tv_WorkflowRunID = cl_WorkflowRunID c, tv_ComponentRunID = cl_ComponentRunID c, tv_CreatedBy = who\<rparr>"

definition Write ::
  "StateService \<Rightarrow> interference \<Rightarrow> StateDB \<Rightarrow> Claims \<Rightarrow> string \<Rightarrow> string \<Rightarrow> string \<Rightarrow> StateDB \<times> (state_error + unit)" where
  "Write sv itf db c lockID body nonce =
     (if \<not> state_Enabled sv then (db, Inl StateDisabled)
      else if \<not> CanWrite c then (db, Inl Forbidden)
      else case write_header body of
        Inl e \<Rightarrow> (db, Inl e)
      | Inr (serial, lineage) \<Rightarrow>
          (case findState db c of
             None \<Rightarrow> (db, Inl (Conflict ''the state is not locked by this request''))
           | Some st \<Rightarrow>
               if \<not> locked_by_request c lockID st then (db, Inl (Conflict ''the state is not locked by this request''))
               else
                 let db1 = itf 0 db in
                 case write_guard db1 c st serial lineage (md5_digest sv body) of
                   Inl e \<Rightarrow> (db1, Inl e)
                 | Inr True \<Rightarrow> (db1, Inr ())
                 | Inr False \<Rightarrow>
                     (case seal_state sv nonce body of
                        Inl e \<Rightarrow> (db1, Inl e)
                      | Inr sealed \<Rightarrow>
                          let db2 = itf 1 db1; who = started_by db2 c; db3 = itf 2 db2
                          in write_tx db3 c lockID st (new_version sv c st serial lineage body sealed who))))"

end
