(* ===== verification/StateHTTP.thy ===== *)
theory StateHTTP
  imports StateStore
begin

text \<open>
  The state endpoints (\<open>lib/api/tofustate.go\<close>): the server side of OpenTofu's \<open>http\<close> backend. A handler
  takes the request as \<open>net/http\<close> parsed it and answers with a status, the challenge header, and a body.
  An error body is its code; the texts of the messages are not kept.
\<close>

section \<open>Requests and responses\<close>

datatype state_route = GetState | PostState | LockState | UnlockState

text \<open>A body is what can be read of it: \<open>None\<close> when the connection failed.\<close>

record StateRequest =
  rq_Route :: state_route
  rq_ComponentID :: string
  rq_Workspace :: string
  rq_BasicAuth :: "(string \<times> string) option"
  rq_LockID :: string
  rq_ContentMD5 :: string
  rq_Body :: "string option"

text \<open>What the process draws while it serves a request: the clock, an id for a new row, a nonce.\<close>

record Draws =
  dr_Now :: int
  dr_NewID :: uuid
  dr_Nonce :: string

datatype http_body =
    EmptyBody
  | StateBody string string
  | HolderBody LockInfo
  | ErrorBody string

record HttpResponse =
  rs_Status :: nat
  rs_Challenge :: bool
  rs_Body :: http_body

definition respond :: "nat \<Rightarrow> http_body \<Rightarrow> HttpResponse" where
  "respond status b = \<lparr>rs_Status = status, rs_Challenge = False, rs_Body = b\<rparr>"

definition challenge :: "HttpResponse" where
  "challenge = \<lparr>rs_Status = 401, rs_Challenge = True, rs_Body = ErrorBody ''unauthorized''\<rparr>"

record StateServer =
  ss_Service :: "StateService option"
  ss_MaxBytes :: nat

definition maxLockBody :: nat where
  "maxLockBody = 65536"

section \<open>Standard base64\<close>

text \<open>\<open>base64.StdEncoding\<close>: padded groups of four; the decoder skips line breaks.\<close>

definition std_alphabet :: string where
  "std_alphabet = ''ABCDEFGHIJKLMNOPQRSTUVWXYZabcdefghijklmnopqrstuvwxyz0123456789+/''"

definition std_val :: "char \<Rightarrow> nat option" where
  "std_val c = find (\<lambda>n. std_alphabet ! n = c) [0..<64]"

fun std_pad :: "nat \<Rightarrow> string" where
  "std_pad n = (if n mod 4 = 2 then ''=='' else if n mod 4 = 3 then ''='' else [])"

definition std_encode :: "string \<Rightarrow> string" where
  "std_encode s = (let vs = b64_sextets s in map (\<lambda>v. std_alphabet ! v) vs @ std_pad (length vs))"

fun std_bytes :: "string \<Rightarrow> string option" where
  "std_bytes [] = Some []"
| "std_bytes (a # b # c # d # r) =
     (if r = [] \<and> c = CHR ''='' \<and> d = CHR ''='' then Option.bind (collect std_val [a, b]) b64_bytes
      else if r = [] \<and> d = CHR ''='' then Option.bind (collect std_val [a, b, c]) b64_bytes
      else Option.bind (collect std_val [a, b, c, d]) (\<lambda>vs.
             Option.bind (b64_bytes vs) (\<lambda>x. map_option (\<lambda>y. x @ y) (std_bytes r))))"
| "std_bytes _ = None"

definition std_decode :: "string \<Rightarrow> string option" where
  "std_decode s = std_bytes (filter (\<lambda>c. c \<noteq> CHR 0x0A \<and> c \<noteq> CHR 0x0D) s)"

section \<open>The parts the handlers share\<close>

definition tofuStateError :: "state_route \<Rightarrow> state_error \<Rightarrow> HttpResponse" where
  "tofuStateError route e =
     (case e of
        LockedError holder \<Rightarrow> respond (if route = UnlockState then 409 else 423) (HolderBody holder)
      | TokenError ErrInvalidToken \<Rightarrow> challenge
      | Forbidden \<Rightarrow> respond 403 (ErrorBody ''forbidden'')
      | BadRequest _ \<Rightarrow> respond 400 (ErrorBody ''bad_request'')
      | Conflict _ \<Rightarrow> respond 409 (ErrorBody ''conflict'')
      | StateDisabled \<Rightarrow> respond 503 (ErrorBody ''unavailable'')
      | _ \<Rightarrow> respond 500 (ErrorBody ''internal''))"

definition tofuStateClaims ::
  "StateServer \<Rightarrow> StateDB \<Rightarrow> StateRequest \<Rightarrow> int \<Rightarrow> HttpResponse + StateService \<times> Claims" where
  "tofuStateClaims srv db rq now =
     (case ss_Service srv of
        None \<Rightarrow> Inl (respond 503 (ErrorBody ''unavailable''))
      | Some sv \<Rightarrow>
          if \<not> state_Enabled sv then Inl (respond 503 (ErrorBody ''unavailable''))
          else case sv_ParseUUID sv (rq_ComponentID rq) of
            None \<Rightarrow> Inl (respond 404 (ErrorBody ''not_found''))
          | Some componentID \<Rightarrow>
              (case rq_BasicAuth rq of
                 None \<Rightarrow> Inl challenge
               | Some (_, token) \<Rightarrow>
                   if token = [] then Inl challenge
                   else case Authenticate sv db token componentID (rq_Workspace rq) now of
                          Inl e \<Rightarrow> Inl (tofuStateError (rq_Route rq) e)
                        | Inr c \<Rightarrow> Inr (sv, c)))"

definition lock_member :: "string \<times> json \<Rightarrow> LockInfo \<Rightarrow> LockInfo option" where
  "lock_member kv info =
     (case kv of (key, v) \<Rightarrow>
        let k = fold_name key; s = decode_string v in
        if v = JNull then Some info
        else if k = ''id'' then map_option (\<lambda>x. info\<lparr>li_ID := x\<rparr>) s
        else if k = ''operation'' then map_option (\<lambda>x. info\<lparr>li_Operation := x\<rparr>) s
        else if k = ''info'' then map_option (\<lambda>x. info\<lparr>li_Info := x\<rparr>) s
        else if k = ''who'' then map_option (\<lambda>x. info\<lparr>li_Who := x\<rparr>) s
        else if k = ''version'' then map_option (\<lambda>x. info\<lparr>li_Version := x\<rparr>) s
        else if k = ''created'' then map_option (\<lambda>x. info\<lparr>li_Created := x\<rparr>) s
        else if k = ''path'' then map_option (\<lambda>x. info\<lparr>li_Path := x\<rparr>) s
        else Some info)"

fun lock_members :: "(string \<times> json) list \<Rightarrow> LockInfo \<Rightarrow> LockInfo option" where
  "lock_members [] info = Some info"
| "lock_members (kv # kvs) info = Option.bind (lock_member kv info) (lock_members kvs)"

definition readLockInfo :: "string option \<Rightarrow> HttpResponse + LockInfo" where
  "readLockInfo body =
     (let bad = respond 400 (ErrorBody ''bad_request'') in
      case body of
        None \<Rightarrow> Inl bad
      | Some b \<Rightarrow>
          if length b > maxLockBody then Inl bad
          else case json_parse b of
                 Some JNull \<Rightarrow> Inr empty_lock
               | Some (JObj kvs) \<Rightarrow>
                   (case lock_members kvs empty_lock of None \<Rightarrow> Inl bad | Some info \<Rightarrow> Inr info)
               | _ \<Rightarrow> Inl bad)"

text \<open>An operation's answer: 200, or the status of its error.\<close>

definition finish :: "state_route \<Rightarrow> StateDB \<times> (state_error + unit) \<Rightarrow> StateDB \<times> HttpResponse" where
  "finish route r =
     (fst r, case snd r of Inl e \<Rightarrow> tofuStateError route e | Inr _ \<Rightarrow> respond 200 EmptyBody)"

section \<open>The handlers\<close>

text \<open>
  The statements of a handler follow the one of its authentication, so the operation sees the others
  one statement later.
\<close>

definition later :: "interference \<Rightarrow> interference" where
  "later itf k = itf (Suc k)"

definition GetTofuState :: "StateServer \<Rightarrow> interference \<Rightarrow> StateDB \<Rightarrow> StateRequest \<Rightarrow> Draws \<Rightarrow> StateDB \<times> HttpResponse" where
  "GetTofuState srv itf db rq dr =
     (case tofuStateClaims srv db rq (dr_Now dr) of
        Inl r \<Rightarrow> (db, r)
      | Inr (sv, c) \<Rightarrow>
          let db1 = itf 0 db in
          (db1,
           case Read_state sv (later itf) db1 c of
             Inl e \<Rightarrow> tofuStateError GetState e
           | Inr None \<Rightarrow> respond 204 EmptyBody
           | Inr (Some b) \<Rightarrow> respond 200 (StateBody b (std_encode (sv_MD5 sv b)))))"

definition PostTofuState :: "StateServer \<Rightarrow> interference \<Rightarrow> StateDB \<Rightarrow> StateRequest \<Rightarrow> Draws \<Rightarrow> StateDB \<times> HttpResponse" where
  "PostTofuState srv itf db rq dr =
     (case tofuStateClaims srv db rq (dr_Now dr) of
        Inl r \<Rightarrow> (db, r)
      | Inr (sv, c) \<Rightarrow>
          (case rq_Body rq of
             None \<Rightarrow> (db, respond 400 (ErrorBody ''bad_request''))
           | Some body \<Rightarrow>
               if length body > ss_MaxBytes srv then (db, respond 413 (ErrorBody ''too_large''))
               else if rq_ContentMD5 rq \<noteq> [] \<and> std_decode (rq_ContentMD5 rq) \<noteq> Some (sv_MD5 sv body)
               then (db, respond 400 (ErrorBody ''bad_request''))
               else finish PostState (Write sv (later itf) (itf 0 db) c (rq_LockID rq) body (dr_Nonce dr))))"

definition LockTofuState :: "StateServer \<Rightarrow> interference \<Rightarrow> StateDB \<Rightarrow> StateRequest \<Rightarrow> Draws \<Rightarrow> StateDB \<times> HttpResponse" where
  "LockTofuState srv itf db rq dr =
     (case tofuStateClaims srv db rq (dr_Now dr) of
        Inl r \<Rightarrow> (db, r)
      | Inr (sv, c) \<Rightarrow>
          (case readLockInfo (rq_Body rq) of
             Inl r \<Rightarrow> (db, r)
           | Inr info \<Rightarrow> finish LockState (Lock sv (later itf) (itf 0 db) c info (dr_NewID dr) (dr_Now dr))))"

definition UnlockTofuState :: "StateServer \<Rightarrow> interference \<Rightarrow> StateDB \<Rightarrow> StateRequest \<Rightarrow> Draws \<Rightarrow> StateDB \<times> HttpResponse" where
  "UnlockTofuState srv itf db rq dr =
     (case tofuStateClaims srv db rq (dr_Now dr) of
        Inl r \<Rightarrow> (db, r)
      | Inr (sv, c) \<Rightarrow>
          (case readLockInfo (rq_Body rq) of
             Inl r \<Rightarrow> (db, r)
           | Inr info \<Rightarrow> finish UnlockState (Unlock sv (later itf) (itf 0 db) c info)))"

text \<open>The routes of \<open>lib/server/routes.go\<close>.\<close>

definition serve_state :: "StateServer \<Rightarrow> interference \<Rightarrow> StateDB \<Rightarrow> StateRequest \<Rightarrow> Draws \<Rightarrow> StateDB \<times> HttpResponse" where
  "serve_state srv itf db rq dr =
     (case rq_Route rq of
        GetState \<Rightarrow> GetTofuState srv itf db rq dr
      | PostState \<Rightarrow> PostTofuState srv itf db rq dr
      | LockState \<Rightarrow> LockTofuState srv itf db rq dr
      | UnlockState \<Rightarrow> UnlockTofuState srv itf db rq dr)"

end
