(* ===== verification/Atomic.thy ===== *)
theory Atomic
  imports Prelude
begin

text \<open>
  Systems of atomic steps: a database that many operations change, each by a sequence of statements that
  run atomically, with other operations in between.
\<close>

section \<open>Invariants and what only moves forward\<close>

text \<open>
  A step relation with an invariant and a preorder it moves along; what others do between two steps of
  an operation is again a sequence of steps.
\<close>

locale atomic_steps =
  fixes step :: "'d \<Rightarrow> 'd \<Rightarrow> bool"
    and inv :: "'d \<Rightarrow> bool"
    and rel :: "'d \<Rightarrow> 'd \<Rightarrow> bool"
  assumes step_inv: "step d d' \<Longrightarrow> inv d \<Longrightarrow> inv d'"
    and step_rel: "step d d' \<Longrightarrow> inv d \<Longrightarrow> rel d d'"
    and rel_refl: "rel d d"
    and rel_trans: "rel a b \<Longrightarrow> rel b c \<Longrightarrow> rel a c"
begin

lemma reach: "step\<^sup>*\<^sup>* d d' \<Longrightarrow> inv d \<Longrightarrow> inv d' \<and> rel d d'"
proof (induction rule: rtranclp_induct)
  case base
  then show ?case by (simp add: rel_refl)
next
  case (step b c)
  then show ?case using step_inv step_rel rel_trans by blast
qed

lemma reach_inv: "step\<^sup>*\<^sup>* d d' \<Longrightarrow> inv d \<Longrightarrow> inv d'"
  using reach by blast

lemma reach_rel: "step\<^sup>*\<^sup>* d d' \<Longrightarrow> inv d \<Longrightarrow> rel d d'"
  using reach by blast

end

section \<open>Interleaving\<close>

text \<open>\<open>itf k d\<close> is the database the others made of \<open>d\<close> before an operation's \<open>k\<close>-th statement.\<close>

definition interleaves :: "('d \<Rightarrow> 'd \<Rightarrow> bool) \<Rightarrow> (nat \<Rightarrow> 'd \<Rightarrow> 'd) \<Rightarrow> bool" where
  "interleaves step itf \<longleftrightarrow> (\<forall>k d. step\<^sup>*\<^sup>* d (itf k d))"

lemma interleavesD: "interleaves step itf \<Longrightarrow> step\<^sup>*\<^sup>* d (itf k d)"
  by (simp add: interleaves_def)

lemma interleaves_trans: "interleaves step itf \<Longrightarrow> step\<^sup>*\<^sup>* d d' \<Longrightarrow> step\<^sup>*\<^sup>* d (itf k d')"
  by (meson interleavesD rtranclp_trans)

lemma interleaves_shift: "interleaves step itf \<Longrightarrow> interleaves step (\<lambda>k. itf (f k))"
  by (simp add: interleaves_def)

lemma interleaves_id: "interleaves step (\<lambda>k d. d)"
  by (simp add: interleaves_def)

section \<open>Tables that grow\<close>

text \<open>Every row of the old table is still at its place, moved along \<open>R\<close>.\<close>

definition rows_move :: "('a \<Rightarrow> 'a \<Rightarrow> bool) \<Rightarrow> 'a list \<Rightarrow> 'a list \<Rightarrow> bool" where
  "rows_move R xs ys \<longleftrightarrow> length xs \<le> length ys \<and> list_all2 R xs (take (length xs) ys)"

lemma rows_move_refl: "(\<And>x. R x x) \<Longrightarrow> rows_move R xs xs"
  by (simp add: rows_move_def list_all2_refl)

lemma rows_move_nth: "rows_move R xs ys \<longleftrightarrow> length xs \<le> length ys \<and> (\<forall>i < length xs. R (xs ! i) (ys ! i))"
  by (auto simp: rows_move_def list_all2_conv_all_nth)

lemma rows_move_trans:
  assumes "\<And>x y z. R x y \<Longrightarrow> R y z \<Longrightarrow> R x z" and "rows_move R xs ys" and "rows_move R ys zs"
  shows "rows_move R xs zs"
  using assms by (auto simp: rows_move_nth)

lemma rows_move_map: "(\<And>x. x \<in> set xs \<Longrightarrow> R x (f x)) \<Longrightarrow> rows_move R xs (map f xs)"
  by (simp add: rows_move_nth)

lemma rows_move_append: "(\<And>x. R x x) \<Longrightarrow> rows_move R xs (xs @ ys)"
  by (simp add: rows_move_nth nth_append)

lemma rows_moveD: "rows_move R xs ys \<Longrightarrow> x \<in> set xs \<Longrightarrow> \<exists>y \<in> set ys. R x y"
  unfolding rows_move_nth by (metis in_set_conv_nth less_le_trans nth_mem)

end
