(* ===== verification/StateStore_Props.thy ===== *)
theory StateStore_Props
  imports StateStore StateToken_Props Atomic
begin

text \<open>
  The managed state under interleaving: every operation is a sequence of atomic steps whatever the
  other requests do in between, and every atomic step keeps the history of each state gapless,
  append-only and readable.
\<close>

section \<open>Atomic steps\<close>

text \<open>
  What a writer knows of the row it read: the row is there, and its serial and lineage are those of
  its current version.
\<close>

definition known_row :: "StateDB \<Rightarrow> StateRow \<Rightarrow> bool" where
  "known_row d st \<longleftrightarrow>
     (ts_ID st, state_key st) \<in> set (map (\<lambda>r. (ts_ID r, state_key r)) (sd_States d)) \<and> 0 \<le> ts_CurrentVersion st \<and>
     (0 < ts_CurrentVersion st \<longrightarrow>
       (\<exists>v \<in> set (sd_Versions d). tv_StateID v = ts_ID st \<and> tv_Version v = ts_CurrentVersion st \<and>
          tv_Serial v = ts_Serial st \<and> tv_Lineage v = ts_Lineage st))"

definition extends_row :: "StateRow \<Rightarrow> int \<Rightarrow> string \<Rightarrow> bool" where
  "extends_row st serial lineage \<longleftrightarrow>
     (0 < ts_CurrentVersion st \<longrightarrow> lineage = ts_Lineage st \<and> ts_Serial st < serial)"

inductive db_step :: "StateService \<Rightarrow> StateDB \<Rightarrow> StateDB \<Rightarrow> bool" for sv where
  step_insert: "insert_state d (new_state i c) = Some d' \<Longrightarrow> db_step sv d d'"
| step_lock: "db_step sv d (fst (update_where (lockable i info step) (lock_row info step now) d))"
| step_unlock: "db_step sv d (fst (update_where (unlockable i l c) unlock_row d))"
| step_write:
    "known_row d st \<Longrightarrow> extends_row st serial lineage \<Longrightarrow> ts_OrganizationID st = cl_OrgID c \<Longrightarrow>
     open_state sv sealed = Inr body \<Longrightarrow>
     db_step sv d (fst (write_tx d c l st (new_version sv c st serial lineage body sealed who)))"
| step_runs: "db_step sv d (d\<lparr>sd_Steps := steps, sd_Runs := runs\<rparr>)"

inductive_cases db_stepE: "db_step sv d d'"

section \<open>The invariant\<close>

definition row_versions :: "StateDB \<Rightarrow> uuid \<Rightarrow> VersionRow list" where
  "row_versions d i = filter (\<lambda>v. tv_StateID v = i) (sd_Versions d)"

definition version_ok :: "StateService \<Rightarrow> StateRow \<Rightarrow> VersionRow \<Rightarrow> bool" where
  "version_ok sv r v \<longleftrightarrow>
     tv_Lineage v = ts_Lineage r \<and> tv_OrganizationID v = ts_OrganizationID r \<and>
     (\<exists>b. open_state sv (tv_Sealed v) = Inr b \<and> tv_Md5 v = md5_digest sv b \<and> tv_SizeBytes v = int (length b))"

definition history_ok :: "StateService \<Rightarrow> StateRow \<Rightarrow> VersionRow list \<Rightarrow> bool" where
  "history_ok sv r vs \<longleftrightarrow>
     0 \<le> ts_CurrentVersion r \<and> map tv_Version vs = [1..ts_CurrentVersion r] \<and>
     sorted_wrt (<) (map tv_Serial vs) \<and> (\<forall>v \<in> set vs. version_ok sv r v) \<and>
     (vs \<noteq> [] \<longrightarrow> tv_Serial (last vs) = ts_Serial r)"

definition lock_ok :: "StateRow \<Rightarrow> bool" where
  "lock_ok r \<longleftrightarrow> (ts_LockID r = None \<longleftrightarrow> ts_LockedBy r = None) \<and> (ts_LockID r = None \<longleftrightarrow> ts_LockInfo r = None) \<and>
     (\<forall>i. ts_LockInfo r = Some i \<longrightarrow> ts_LockID r = Some (li_ID i))"

definition store_wf :: "StateService \<Rightarrow> StateDB \<Rightarrow> bool" where
  "store_wf sv d \<longleftrightarrow>
     distinct (map ts_ID (sd_States d)) \<and> distinct (map state_key (sd_States d)) \<and>
     (\<forall>r \<in> set (sd_States d). history_ok sv r (row_versions d (ts_ID r)) \<and> lock_ok r) \<and>
     (\<forall>v \<in> set (sd_Versions d). tv_StateID v \<in> ts_ID ` set (sd_States d))"

text \<open>History only grows, and a row keeps its identity.\<close>

definition evolves :: "StateDB \<Rightarrow> StateDB \<Rightarrow> bool" where
  "evolves d d' \<longleftrightarrow>
     prefix (sd_Versions d) (sd_Versions d') \<and>
     prefix (map (\<lambda>r. (ts_ID r, state_key r)) (sd_States d)) (map (\<lambda>r. (ts_ID r, state_key r)) (sd_States d'))"

lemma evolves_refl: "evolves d d"
  by (simp add: evolves_def)

lemma evolves_trans: "evolves a b \<Longrightarrow> evolves b c \<Longrightarrow> evolves a c"
  unfolding evolves_def by (auto elim: prefix_order.trans)

lemma known_row_evolves: "known_row d st \<Longrightarrow> evolves d d' \<Longrightarrow> known_row d' st"
  unfolding known_row_def evolves_def by (meson set_mono_prefix subsetD)

lemma last_version:
  assumes "history_ok sv r vs" and "0 < ts_CurrentVersion r"
  shows "vs \<noteq> []" and "tv_Version (last vs) = ts_CurrentVersion r" and "tv_Serial (last vs) = ts_Serial r"
    and "last vs \<in> set vs"
proof -
  have m: "map tv_Version vs = [1..ts_CurrentVersion r]" using assms(1) by (simp add: history_ok_def)
  show ne: "vs \<noteq> []" using m assms(2) by auto
  have "last (map tv_Version vs) = ts_CurrentVersion r"
    unfolding m using assms(2) by (simp add: upto_rec2)
  then show "tv_Version (last vs) = ts_CurrentVersion r" using ne by (simp add: last_map)
  show "tv_Serial (last vs) = ts_Serial r" using assms(1) ne by (simp add: history_ok_def)
  show "last vs \<in> set vs" using ne by simp
qed

lemma known_row_own:
  assumes "store_wf sv d" and "r \<in> set (sd_States d)"
  shows "known_row d r"
proof -
  have h: "history_ok sv r (row_versions d (ts_ID r))" using assms by (simp add: store_wf_def)
  let ?v = "last (row_versions d (ts_ID r))"
  show ?thesis
    unfolding known_row_def
  proof (intro conjI impI)
    show "(ts_ID r, state_key r) \<in> set (map (\<lambda>r. (ts_ID r, state_key r)) (sd_States d))"
      using assms(2) by auto
    show "0 \<le> ts_CurrentVersion r" using h by (simp add: history_ok_def)
    assume pos: "0 < ts_CurrentVersion r"
    note l = last_version [OF h pos]
    have "?v \<in> set (sd_Versions d)" "tv_StateID ?v = ts_ID r"
      using l(4) by (auto simp: row_versions_def)
    moreover have "tv_Lineage ?v = ts_Lineage r" using h l(4) by (auto simp: history_ok_def version_ok_def)
    ultimately show "\<exists>v \<in> set (sd_Versions d). tv_StateID v = ts_ID r \<and> tv_Version v = ts_CurrentVersion r \<and>
        tv_Serial v = ts_Serial r \<and> tv_Lineage v = ts_Lineage r"
      using l(2,3) by blast
  qed
qed

text \<open>A row at the version a writer read is the row it read, in serial and lineage.\<close>

lemma known_row_current:
  assumes wf: "store_wf sv d" and r: "r \<in> set (sd_States d)" and st: "known_row d st"
    and same: "ts_ID r = ts_ID st" "ts_CurrentVersion r = ts_CurrentVersion st" and pos: "0 < ts_CurrentVersion st"
  shows "ts_Serial r = ts_Serial st" and "ts_Lineage r = ts_Lineage st"
proof -
  let ?vs = "row_versions d (ts_ID r)"
  have h: "history_ok sv r ?vs" using wf r by (simp add: store_wf_def)
  obtain v where v: "v \<in> set ?vs" "tv_Version v = ts_CurrentVersion r" "tv_Serial v = ts_Serial st" "tv_Lineage v = ts_Lineage st"
    using st pos same by (auto simp: known_row_def row_versions_def)
  have l: "tv_Version (last ?vs) = ts_CurrentVersion r" "tv_Serial (last ?vs) = ts_Serial r" "last ?vs \<in> set ?vs"
    using last_version [OF h] pos same(2) by simp_all
  have "distinct (map tv_Version ?vs)" using h by (simp add: history_ok_def)
  then have "v = last ?vs" using v(1,2) l(1,3) by (metis distinct_map inj_onD)
  with v l h show "ts_Serial r = ts_Serial st" "ts_Lineage r = ts_Lineage st"
    by (auto simp: history_ok_def version_ok_def)
qed

section \<open>Every atomic step keeps it\<close>

lemma update_where_id:
  assumes "\<And>r. ts_ID (f r) = ts_ID r \<and> state_key (f r) = state_key r"
  shows "map (\<lambda>r. (ts_ID r, state_key r)) (sd_States (fst (update_where P f d))) =
    map (\<lambda>r. (ts_ID r, state_key r)) (sd_States d)"
  using assms by (auto simp: update_where_def)

text \<open>An update that touches only the lock.\<close>

lemma lock_update_wf:
  assumes wf: "store_wf sv d"
    and f: "\<And>r. ts_ID (f r) = ts_ID r \<and> state_key (f r) = state_key r \<and> ts_OrganizationID (f r) = ts_OrganizationID r \<and>
      ts_CurrentVersion (f r) = ts_CurrentVersion r \<and> ts_Serial (f r) = ts_Serial r \<and> ts_Lineage (f r) = ts_Lineage r \<and>
      lock_ok (f r)"
  shows "store_wf sv (fst (update_where P f d))" and "evolves d (fst (update_where P f d))"
proof -
  let ?d = "fst (update_where P f d)"
  have keys: "map (\<lambda>r. (ts_ID r, state_key r)) (sd_States ?d) = map (\<lambda>r. (ts_ID r, state_key r)) (sd_States d)"
    by (rule update_where_id) (use f in simp)
  have ids: "map ts_ID (sd_States ?d) = map ts_ID (sd_States d)" "map state_key (sd_States ?d) = map state_key (sd_States d)"
    using arg_cong [OF keys, of "map fst"] arg_cong [OF keys, of "map snd"] by (simp_all add: comp_def)
  have vs: "sd_Versions ?d = sd_Versions d" by (simp add: update_where_def)
  then show "evolves d ?d" using keys by (simp add: evolves_def)
  have "history_ok sv (f r) vs = history_ok sv r vs" for r vs
    using f [of r] by (simp add: history_ok_def version_ok_def)
  then have "\<forall>r \<in> set (sd_States ?d). history_ok sv r (row_versions ?d (ts_ID r)) \<and> lock_ok r"
    using wf f vs by (auto simp: store_wf_def update_where_def row_versions_def)
  moreover have "ts_ID ` set (sd_States ?d) = ts_ID ` set (sd_States d)"
    using arg_cong [OF ids(1), of set] by simp
  ultimately show "store_wf sv ?d"
    using wf ids vs by (simp add: store_wf_def)
qed

lemma insert_state_wf:
  assumes wf: "store_wf sv d" and ins: "insert_state d (new_state i c) = Some d'"
  shows "store_wf sv d'" and "evolves d d'"
proof -
  let ?r = "new_state i c"
  have d': "d' = d\<lparr>sd_States := sd_States d @ [?r]\<rparr>"
    and fresh: "\<And>x. x \<in> set (sd_States d) \<Longrightarrow> ts_ID x \<noteq> ts_ID ?r \<and> state_key x \<noteq> state_key ?r"
    using ins by (auto simp: insert_state_def list_ex_iff split: if_splits)
  have new: "ts_ID ?r \<notin> ts_ID ` set (sd_States d)" "state_key ?r \<notin> state_key ` set (sd_States d)"
    using fresh by force+
  show "evolves d d'" by (simp add: d' evolves_def)
  have none: "row_versions d (ts_ID ?r) = []"
    using wf fresh by (auto simp: row_versions_def store_wf_def filter_empty_conv)
  have "history_ok sv ?r []" "lock_ok ?r"
    by (simp_all add: history_ok_def lock_ok_def new_state_def)
  with none wf have "\<forall>r \<in> set (sd_States d'). history_ok sv r (row_versions d' (ts_ID r)) \<and> lock_ok r"
    by (auto simp: d' store_wf_def row_versions_def)
  moreover have "distinct (map ts_ID (sd_States d'))" "distinct (map state_key (sd_States d'))"
    using wf new by (simp_all add: d' store_wf_def)
  ultimately show "store_wf sv d'"
    using wf by (auto simp: store_wf_def d')
qed

lemma write_tx_cases:
  obtains "write_tx d c l st v = (d, snd (write_tx d c l st v))" and "snd (write_tx d c l st v) \<noteq> Inr ()"
  | r where "filter (movable c l st) (sd_States d) = [r]"
    and "\<And>x. x \<in> set (sd_Versions d) \<Longrightarrow> \<not> (tv_StateID x = tv_StateID v \<and> tv_Version x = tv_Version v)"
    and "write_tx d c l st v =
      (d\<lparr>sd_States := map (\<lambda>r. if movable c l st r
           then r\<lparr>ts_CurrentVersion := tv_Version v, ts_Serial := tv_Serial v, ts_Lineage := tv_Lineage v\<rparr> else r) (sd_States d),
         sd_Versions := sd_Versions d @ [v]\<rparr>, Inr ())"
proof (cases "list_ex (\<lambda>x. tv_StateID x = tv_StateID v \<and> tv_Version x = tv_Version v) (sd_Versions d) \<or>
    get_state d (tv_StateID v) = None \<or> length (filter (movable c l st) (sd_States d)) \<noteq> 1")
  case True
  then show ?thesis by (intro that(1)) (auto simp: write_tx_def update_where_def)
next
  case False
  then obtain r where "filter (movable c l st) (sd_States d) = [r]"
    by (auto simp: length_Suc_conv)
  with False show ?thesis by (intro that(2)) (auto simp: write_tx_def update_where_def list_ex_iff)
qed

lemma history_snoc:
  assumes h: "history_ok sv r vs" and v: "version_ok sv r' v" "tv_Version v = ts_CurrentVersion r + 1"
    and r': "ts_CurrentVersion r' = tv_Version v" "ts_Serial r' = tv_Serial v" "ts_OrganizationID r' = ts_OrganizationID r"
    and ext: "0 < ts_CurrentVersion r \<Longrightarrow> ts_Lineage r' = ts_Lineage r \<and> ts_Serial r < tv_Serial v"
  shows "history_ok sv r' (vs @ [v])"
proof (cases "vs = []")
  case True
  with h have "ts_CurrentVersion r = 0" by (auto simp: history_ok_def)
  with True v r' show ?thesis by (simp add: history_ok_def)
next
  case False
  have cur: "0 \<le> ts_CurrentVersion r" "map tv_Version vs = [1..ts_CurrentVersion r]"
    and sorted: "sorted_wrt (<) (map tv_Serial vs)" and ok: "\<forall>x \<in> set vs. version_ok sv r x"
    and last: "tv_Serial (last vs) = ts_Serial r"
    using h False by (simp_all add: history_ok_def)
  have "ts_CurrentVersion r \<noteq> 0" using cur(2) False by auto
  with cur have pos: "0 < ts_CurrentVersion r" by simp
  have "map tv_Version (vs @ [v]) = [1..ts_CurrentVersion r']"
    using cur v(2) r'(1) by (simp add: upto_rec2)
  moreover have "x \<le> last (map tv_Serial vs)" if "x \<in> set (map tv_Serial vs)" for x
    using that sorted by (induction vs rule: rev_induct) (auto simp: sorted_wrt_append)
  then have "sorted_wrt (<) (map tv_Serial (vs @ [v]))"
    using sorted ext [OF pos] last False by (force simp: sorted_wrt_append last_map)
  moreover have "\<forall>x \<in> set (vs @ [v]). version_ok sv r' x"
    using ok v(1) ext [OF pos] r'(3) by (simp add: version_ok_def)
  ultimately show ?thesis
    using pos r'(1,2) v(2) by (simp add: history_ok_def)
qed

lemma write_tx_wf:
  assumes wf: "store_wf sv d" and st: "known_row d st" and ext: "extends_row st serial lineage"
    and org: "ts_OrganizationID st = cl_OrgID c" and body: "open_state sv sealed = Inr body"
    and v: "v = new_version sv c st serial lineage body sealed who"
  shows "store_wf sv (fst (write_tx d c l st v))" and "evolves d (fst (write_tx d c l st v))"
proof -
  let ?d = "fst (write_tx d c l st v)"
  let ?f = "\<lambda>r. r\<lparr>ts_CurrentVersion := tv_Version v, ts_Serial := tv_Serial v, ts_Lineage := tv_Lineage v\<rparr>"
  have "store_wf sv ?d \<and> evolves d ?d"
  proof (rule write_tx_cases [of d c l st v])
    assume "write_tx d c l st v = (d, snd (write_tx d c l st v))"
    then have "?d = d" by (metis fst_conv)
    with wf show ?thesis by (simp add: evolves_refl)
  next
    fix r
    assume one: "filter (movable c l st) (sd_States d) = [r]"
      and "write_tx d c l st v = (d\<lparr>sd_States := map (\<lambda>r. if movable c l st r then ?f r else r) (sd_States d),
         sd_Versions := sd_Versions d @ [v]\<rparr>, Inr ())"
    then have d': "?d = d\<lparr>sd_States := map (\<lambda>r. if movable c l st r then ?f r else r) (sd_States d),
         sd_Versions := sd_Versions d @ [v]\<rparr>" by simp
    have r: "r \<in> set (sd_States d)" "movable c l st r" using one by (auto simp: filter_eq_Cons_iff)
    then have same: "ts_ID r = ts_ID st" "ts_CurrentVersion r = ts_CurrentVersion st" by (auto simp: movable_def)
    have uniq: "x = r" if "x \<in> set (sd_States d)" "ts_ID x = ts_ID st" for x
      using that r(1) same(1) wf by (auto simp: store_wf_def distinct_map inj_on_def)
    have mov: "movable c l st x \<longleftrightarrow> x = r" if "x \<in> set (sd_States d)" for x
      using that uniq r(2) by (auto simp: movable_def)
    have "state_key r = state_key st" using st uniq by (auto simp: known_row_def)
    then have rorg: "ts_OrganizationID r = cl_OrgID c" using org by (simp add: state_key_def)
    have sid: "tv_StateID v = ts_ID r" by (simp add: v new_version_def same)
    have vs: "row_versions ?d i = row_versions d i @ (if i = ts_ID r then [v] else [])" for i
      by (simp add: d' row_versions_def sid)
    have hist: "history_ok sv (?f r) (row_versions d (ts_ID r) @ [v])"
    proof (rule history_snoc)
      show "history_ok sv r (row_versions d (ts_ID r))" using wf r(1) by (simp add: store_wf_def)
      show "version_ok sv (?f r) v" using body rorg by (simp add: version_ok_def v new_version_def)
      show "tv_Version v = ts_CurrentVersion r + 1" by (simp add: v new_version_def same)
      assume "0 < ts_CurrentVersion r"
      with known_row_current [OF wf r(1) st same] ext same
      show "ts_Lineage (?f r) = ts_Lineage r \<and> ts_Serial r < tv_Serial v"
        by (simp add: extends_row_def v new_version_def)
    qed simp_all
    have keys: "map (\<lambda>r. (ts_ID r, state_key r)) (sd_States ?d) = map (\<lambda>r. (ts_ID r, state_key r)) (sd_States d)"
      by (simp add: d' state_key_def)
    have ids: "map ts_ID (sd_States ?d) = map ts_ID (sd_States d)" "map state_key (sd_States ?d) = map state_key (sd_States d)"
      using arg_cong [OF keys, of "map fst"] arg_cong [OF keys, of "map snd"] by (simp_all add: comp_def)
    have rows: "history_ok sv x (row_versions ?d (ts_ID x)) \<and> lock_ok x" if xd: "x \<in> set (sd_States ?d)" for x
    proof -
      obtain y where y: "y \<in> set (sd_States d)" "x = (if movable c l st y then ?f y else y)"
        using xd by (auto simp: d')
      have "lock_ok y" "history_ok sv y (row_versions d (ts_ID y))" using wf y(1) by (simp_all add: store_wf_def)
      then show ?thesis
      proof (cases "y = r")
        case True
        then have x: "x = ?f r" using y mov [OF y(1)] by simp
        have "lock_ok (?f r)" using \<open>lock_ok y\<close> True by (auto simp: lock_ok_def)
        then show ?thesis using hist vs x by simp
      next
        case False
        then have "ts_ID y \<noteq> ts_ID r" using uniq [OF y(1)] same by auto
        with False y mov [OF y(1)] vs \<open>lock_ok y\<close> \<open>history_ok sv y _\<close> show ?thesis by simp
      qed
    qed
    have "ts_ID ` set (sd_States ?d) = ts_ID ` set (sd_States d)"
      using arg_cong [OF ids(1), of set] by simp
    moreover have "\<forall>x \<in> set (sd_Versions ?d). tv_StateID x \<in> ts_ID ` set (sd_States d)"
      using wf sid r(1) by (auto simp: d' store_wf_def)
    ultimately have "store_wf sv ?d"
      using wf ids rows unfolding store_wf_def by simp
    moreover have "evolves d ?d" using keys by (simp add: evolves_def) (simp add: d')
    ultimately show ?thesis by simp
  qed
  then show "store_wf sv ?d" "evolves d ?d" by simp_all
qed

section \<open>The store is a system of atomic steps\<close>

lemma db_step_wf:
  assumes "db_step sv d d'" and wf: "store_wf sv d"
  shows "store_wf sv d' \<and> evolves d d'"
  using assms(1)
proof cases
  case (step_insert i c)
  with insert_state_wf [OF wf] show ?thesis by blast
next
  case (step_lock i info step now)
  then show ?thesis
    using lock_update_wf [OF wf, of "lock_row info step now"] by (simp add: lock_row_def lock_ok_def state_key_def)
next
  case (step_unlock i l c)
  then show ?thesis
    using lock_update_wf [OF wf, of unlock_row] by (simp add: unlock_row_def lock_ok_def state_key_def)
next
  case (step_write st serial lineage c sealed body l who)
  from write_tx_wf [OF wf step_write(2-5) refl] show ?thesis unfolding step_write(1) by simp
next
  case (step_runs steps runs)
  with wf show ?thesis by (simp add: store_wf_def evolves_def row_versions_def)
qed

interpretation store: atomic_steps "db_step sv" "store_wf sv" evolves for sv
proof unfold_locales
  fix d d' assume "db_step sv d d'" "store_wf sv d"
  from db_step_wf [OF this] show "store_wf sv d'" "evolves d d'" by simp_all
qed (rule evolves_refl, erule (1) evolves_trans)

section \<open>Every operation is a sequence of atomic steps\<close>

text \<open>The others run atomic steps too.\<close>

definition fair :: "StateService \<Rightarrow> interference \<Rightarrow> bool" where
  "fair sv itf \<longleftrightarrow> interleaves (db_step sv) itf"

lemma fairD: "fair sv itf \<Longrightarrow> (db_step sv)\<^sup>*\<^sup>* d (itf k d)"
  unfolding fair_def by (rule interleavesD)

lemma fair_trans: "fair sv itf \<Longrightarrow> (db_step sv)\<^sup>*\<^sup>* d d' \<Longrightarrow> (db_step sv)\<^sup>*\<^sup>* d (itf k d')"
  unfolding fair_def by (rule interleaves_trans)

lemma ensureState_steps:
  assumes fair: "fair sv itf"
  shows "(db_step sv)\<^sup>*\<^sup>* d (fst (ensureState itf d c i))"
proof (cases "findState d c")
  case None
  note new = fairD [OF fair, of d 0]
  show ?thesis
  proof (cases "insert_state (itf 0 d) (new_state i c)")
    case (Some d2)
    then have "fst (ensureState itf d c i) = d2" using None by (simp add: ensureState_def)
    with rtranclp.rtrancl_into_rtrancl [OF new step_insert [OF Some]] show ?thesis by simp
  next
    case none: None
    have "fst (ensureState itf d c i) = itf 1 (itf 0 d)"
      using None none by (simp add: ensureState_def Let_def split: option.split)
    with fair_trans [OF fair new, of 1] show ?thesis by simp
  qed
qed (simp add: ensureState_def)

lemma lock_loop_steps:
  assumes "fair sv itf"
  shows "(db_step sv)\<^sup>*\<^sup>* d (fst (lock_loop itf n k d i step info now))"
proof (induction n arbitrary: k d)
  case 0
  show ?case by simp
next
  case (Suc n)
  let ?d = "fst (update_where (lockable i info step) (lock_row info step now) d)"
  have one: "(db_step sv)\<^sup>*\<^sup>* d ?d" by (blast intro: step_lock)
  note two = fair_trans [OF assms one, of k]
  from rtranclp_trans [OF fair_trans [OF assms two] Suc.IH] one two show ?case
    by (simp add: split_beta Let_def split: option.split)
qed

lemma Lock_steps:
  assumes "fair sv itf"
  shows "(db_step sv)\<^sup>*\<^sup>* d (fst (Lock sv itf d c info i now))"
proof -
  have e: "(db_step sv)\<^sup>*\<^sup>* d (fst (ensureState itf d c i))" by (rule ensureState_steps [OF assms])
  note rtranclp_trans [OF fair_trans [OF assms e] lock_loop_steps [OF assms]]
  with e show ?thesis
    by (simp add: Lock_def split_beta split: prod.split sum.split)
qed

lemma Unlock_steps:
  assumes fair: "fair sv itf"
  shows "(db_step sv)\<^sup>*\<^sup>* d (fst (Unlock sv itf d c info))"
proof (cases "state_Enabled sv \<and> li_ID info \<noteq> [] \<and> findState d c \<noteq> None")
  case True
  then obtain st where on: "state_Enabled sv" "li_ID info \<noteq> []" "findState d c = Some st" by auto
  let ?u = "update_where (unlockable (ts_ID st) (li_ID info) c) unlock_row (itf 0 d)"
  have one: "(db_step sv)\<^sup>*\<^sup>* d (fst ?u)"
    by (rule rtranclp.rtrancl_into_rtrancl [OF fairD [OF fair] step_unlock])
  have "fst (Unlock sv itf d c info) = (if snd ?u = 1 then fst ?u else itf 1 (fst ?u))"
    using on by (simp add: Unlock_def split_beta Let_def split: option.split)
  with one fair_trans [OF fair one] show ?thesis by simp
next
  case False
  then have "fst (Unlock sv itf d c info) = d" by (auto simp: Unlock_def)
  then show ?thesis by simp
qed

text \<open>What gzip and the cipher give: a body that was sealed opens.\<close>

definition gzip_ok :: "StateService \<Rightarrow> bool" where
  "gzip_ok sv \<longleftrightarrow> (\<forall>b. sv_Gunzip sv (sv_Gzip sv b) = Some b)"

lemma open_seal_state:
  assumes "gzip_ok sv" and "length nonce = nonce_size" and "seal_state sv nonce b = Inr s"
  shows "open_state sv s = Inr b"
proof -
  have "Seal (sv_Sealer sv) nonce (sv_Gzip sv b) = Inr s"
    using assms(3) by (auto simp: seal_state_def split: sum.splits)
  from sealer.open_seal [OF assms(2) this] show ?thesis
    using assms(1) by (simp add: open_state_def gzip_ok_def)
qed

lemma findState_own:
  assumes "findState d c = Some st"
  shows "st \<in> set (sd_States d)" and "state_for c st" and "ts_OrganizationID st = cl_OrgID c"
proof -
  have m: "st \<in> set (sd_States d) \<and> state_for c st"
    using assms by (auto simp: findState_def find_Some_iff)
  then show "st \<in> set (sd_States d)" "state_for c st" "ts_OrganizationID st = cl_OrgID c"
    by (simp_all add: state_for_def)
qed

lemma write_guard_extends: "write_guard d c st serial lineage g = Inr False \<Longrightarrow> extends_row st serial lineage"
  by (auto simp: write_guard_def extends_row_def split: if_splits option.splits)

text \<open>The cases of \<open>Write\<close>: it stops before the transaction, or it runs it on a row it knows.\<close>

lemma Write_cases:
  obtains "fst (Write sv itf d c l body nonce) = d"
  | "fst (Write sv itf d c l body nonce) = itf 0 d"
  | st serial lineage sealed who where "findState d c = Some st" and "locked_by_request c l st" and "CanWrite c"
    and "write_header body = Inr (serial, lineage)"
    and "write_guard (itf 0 d) c st serial lineage (md5_digest sv body) = Inr False"
    and "seal_state sv nonce body = Inr sealed" and "who = started_by (itf 1 (itf 0 d)) c"
    and "Write sv itf d c l body nonce =
      write_tx (itf 2 (itf 1 (itf 0 d))) c l st (new_version sv c st serial lineage body sealed who)"
proof (cases "\<exists>st serial lineage. findState d c = Some st \<and> locked_by_request c l st \<and> CanWrite c \<and> state_Enabled sv \<and>
    write_header body = Inr (serial, lineage)")
  case True
  then obtain st serial lineage where on: "findState d c = Some st" "locked_by_request c l st" "CanWrite c"
    "state_Enabled sv" "write_header body = Inr (serial, lineage)" by blast
  show ?thesis
  proof (cases "write_guard (itf 0 d) c st serial lineage (md5_digest sv body) = Inr False \<and>
      (\<exists>sealed. seal_state sv nonce body = Inr sealed)")
    case True
    with on show ?thesis by (auto intro: that(3) [of st serial lineage] simp: Write_def Let_def)
  next
    case False
    with on show ?thesis
      by (intro that(2)) (auto simp: Write_def Let_def split: sum.split bool.split)
  qed
next
  case False
  then show ?thesis
    by (intro that(1)) (auto simp: Write_def split: sum.split option.split)
qed

lemma Write_steps:
  assumes fair: "fair sv itf" and wf: "store_wf sv d" and gz: "gzip_ok sv" and n: "length nonce = nonce_size"
  shows "(db_step sv)\<^sup>*\<^sup>* d (fst (Write sv itf d c l body nonce))"
proof (rule Write_cases [of sv itf d c l body nonce])
  assume "fst (Write sv itf d c l body nonce) = itf 0 d"
  with fairD [OF fair] show ?thesis by simp
next
  fix st serial lineage sealed who
  let ?d3 = "itf 2 (itf 1 (itf 0 d))"
  assume st: "findState d c = Some st" and g: "write_guard (itf 0 d) c st serial lineage (md5_digest sv body) = Inr False"
    and sealed: "seal_state sv nonce body = Inr sealed"
    and w: "Write sv itf d c l body nonce = write_tx ?d3 c l st (new_version sv c st serial lineage body sealed who)"
  have before: "(db_step sv)\<^sup>*\<^sup>* d ?d3"
    by (intro fair_trans [OF fair]) simp
  have "known_row ?d3 st"
    using known_row_own [OF wf findState_own(1) [OF st]] store.reach_rel [OF before wf] known_row_evolves by blast
  then have "db_step sv ?d3 (fst (write_tx ?d3 c l st (new_version sv c st serial lineage body sealed who)))"
    using write_guard_extends [OF g] findState_own(3) [OF st] open_seal_state [OF gz n sealed] by (rule step_write)
  with before show ?thesis unfolding w by (rule rtranclp.rtrancl_into_rtrancl)
qed simp

end
