(* ===== verification/StateHTTP_Props.thy ===== *)
theory StateHTTP_Props
  imports StateHTTP StateStore_Props
begin

text \<open>
  The endpoints as sequences of atomic steps, and the frame of a request: the rows it cannot touch.
\<close>

section \<open>Every request is a sequence of atomic steps\<close>

definition good_draws :: "Draws \<Rightarrow> bool" where
  "good_draws dr \<longleftrightarrow> length (dr_Nonce dr) = nonce_size"

lemma fair_later: "fair sv itf \<Longrightarrow> fair sv (later itf)"
  by (simp add: fair_def interleaves_def later_def)

lemma finish_fst [simp]: "fst (finish route r) = fst r"
  by (simp add: finish_def)

lemma claims_service: "tofuStateClaims srv d rq now = Inr (sv, c) \<Longrightarrow> ss_Service srv = Some sv"
  by (auto simp: tofuStateClaims_def split: option.splits if_splits sum.splits)

text \<open>
  The database of a request: unchanged, as the others left it, or what the operation of its route made
  of that.
\<close>

lemma serve_cases:
  obtains "fst (serve_state srv itf d rq dr) = d"
  | "fst (serve_state srv itf d rq dr) = itf 0 d"
  | sv c info where "tofuStateClaims srv d rq (dr_Now dr) = Inr (sv, c)" and "rq_Route rq = LockState"
    and "fst (serve_state srv itf d rq dr) = fst (Lock sv (later itf) (itf 0 d) c info (dr_NewID dr) (dr_Now dr))"
  | sv c info where "tofuStateClaims srv d rq (dr_Now dr) = Inr (sv, c)" and "rq_Route rq = UnlockState"
    and "fst (serve_state srv itf d rq dr) = fst (Unlock sv (later itf) (itf 0 d) c info)"
  | sv c body where "tofuStateClaims srv d rq (dr_Now dr) = Inr (sv, c)" and "rq_Route rq = PostState"
    and "fst (serve_state srv itf d rq dr) = fst (Write sv (later itf) (itf 0 d) c (rq_LockID rq) body (dr_Nonce dr))"
proof (cases "tofuStateClaims srv d rq (dr_Now dr)")
  case (Inl r)
  then have "fst (serve_state srv itf d rq dr) = d"
    by (cases "rq_Route rq") (simp_all add: serve_state_def GetTofuState_def PostTofuState_def LockTofuState_def UnlockTofuState_def)
  then show ?thesis by (rule that(1))
next
  case (Inr x)
  obtain sv c where auth: "tofuStateClaims srv d rq (dr_Now dr) = Inr (sv, c)" using Inr by (cases x) simp
  show ?thesis
  proof (cases "rq_Route rq")
    case GetState
    then show ?thesis
      by (intro that(2)) (simp add: serve_state_def GetTofuState_def auth Let_def)
  next
    case PostState
    then show ?thesis
    proof (cases "rq_Body rq")
      case None
      with PostState show ?thesis by (intro that(1)) (simp add: serve_state_def PostTofuState_def auth)
    next
      case (Some body)
      with PostState show ?thesis
        by (cases "length body > ss_MaxBytes srv \<or> rq_ContentMD5 rq \<noteq> [] \<and> std_decode (rq_ContentMD5 rq) \<noteq> Some (sv_MD5 sv body)")
          (rule that(1) that(5) [OF auth], auto simp: serve_state_def PostTofuState_def auth)+
    qed
  next
    case LockState
    then show ?thesis
      by (cases "readLockInfo (rq_Body rq)")
        (rule that(1) that(3) [OF auth], auto simp: serve_state_def LockTofuState_def auth)+
  next
    case UnlockState
    then show ?thesis
      by (cases "readLockInfo (rq_Body rq)")
        (rule that(1) that(4) [OF auth], auto simp: serve_state_def UnlockTofuState_def auth)+
  qed
qed

lemma serve_steps:
  assumes srv: "ss_Service srv = Some sv" and fair: "fair sv itf" and wf: "store_wf sv d" and gz: "gzip_ok sv"
    and dr: "good_draws dr"
  shows "(db_step sv)\<^sup>*\<^sup>* d (fst (serve_state srv itf d rq dr))"
proof -
  note now = fairD [OF fair, of d 0] and lfair = fair_later [OF fair]
  note wf' = store.reach_inv [OF now wf]
  have same: "sv' = sv" if "tofuStateClaims srv d rq (dr_Now dr) = Inr (sv', c)" for sv' c
    using claims_service [OF that] srv by simp
  note n = dr [unfolded good_draws_def]
  show ?thesis
  proof (rule serve_cases [of srv itf d rq dr])
    fix sv' c info
    assume "tofuStateClaims srv d rq (dr_Now dr) = Inr (sv', c)"
      "fst (serve_state srv itf d rq dr) = fst (Lock sv' (later itf) (itf 0 d) c info (dr_NewID dr) (dr_Now dr))"
    with rtranclp_trans [OF now Lock_steps [OF lfair]] same show ?thesis by simp
  next
    fix sv' c info
    assume "tofuStateClaims srv d rq (dr_Now dr) = Inr (sv', c)"
      "fst (serve_state srv itf d rq dr) = fst (Unlock sv' (later itf) (itf 0 d) c info)"
    with rtranclp_trans [OF now Unlock_steps [OF lfair]] same show ?thesis by simp
  next
    fix sv' c body
    assume "tofuStateClaims srv d rq (dr_Now dr) = Inr (sv', c)"
      "fst (serve_state srv itf d rq dr) = fst (Write sv' (later itf) (itf 0 d) c (rq_LockID rq) body (dr_Nonce dr))"
    with rtranclp_trans [OF now Write_steps [OF lfair wf' gz n]] same show ?thesis by simp
  qed (use now in simp_all)
qed

text \<open>A stream of requests, each among others.\<close>

fun serve_all :: "StateServer \<Rightarrow> (interference \<times> StateRequest \<times> Draws) list \<Rightarrow> StateDB \<Rightarrow> StateDB" where
  "serve_all srv [] d = d"
| "serve_all srv ((itf, rq, dr) # rest) d = serve_all srv rest (fst (serve_state srv itf d rq dr))"

lemma serve_all_steps:
  assumes srv: "ss_Service srv = Some sv" and gz: "gzip_ok sv" and wf: "store_wf sv d"
    and ok: "\<forall>(itf, rq, dr) \<in> set rs. fair sv itf \<and> good_draws dr"
  shows "(db_step sv)\<^sup>*\<^sup>* d (serve_all srv rs d)"
  using wf ok
proof (induction rs arbitrary: d)
  case Nil
  show ?case by simp
next
  case (Cons x rs)
  obtain itf rq dr where x: "x = (itf, rq, dr)" by (cases x)
  have one: "(db_step sv)\<^sup>*\<^sup>* d (fst (serve_state srv itf d rq dr))"
    using serve_steps [OF srv] Cons.prems gz x by simp
  from rtranclp_trans [OF one Cons.IH [OF store.reach_inv [OF one Cons.prems(1)]]] Cons.prems(2)
  show ?case by (simp add: x)
qed

section \<open>The frame of a request\<close>

text \<open>A row with its history, there and untouched.\<close>

definition held :: "StateRow \<Rightarrow> VersionRow list \<Rightarrow> StateDB \<Rightarrow> bool" where
  "held r vs d \<longleftrightarrow> r \<in> set (sd_States d) \<and> row_versions d (ts_ID r) = vs"

definition spares :: "interference \<Rightarrow> StateRow \<Rightarrow> VersionRow list \<Rightarrow> bool" where
  "spares itf r vs \<longleftrightarrow> (\<forall>k d. held r vs d \<longrightarrow> held r vs (itf k d))"

text \<open>
  What a request may do to a row: it is its own row, and the route's rule on the lock holds. (A lock
  request may take a free lock or repeat its own; a write needs the write scope and the lock it names;
  an unlock is by the holder or with the write scope; a read changes nothing.)
\<close>

definition lock_rule :: "Claims \<Rightarrow> StateRequest \<Rightarrow> StateRow \<Rightarrow> bool" where
  "lock_rule c rq r =
     (case rq_Route rq of
        GetState \<Rightarrow> False
      | PostState \<Rightarrow> CanWrite c \<and> ts_LockID r = Some (rq_LockID rq) \<and> ts_LockedBy r = Some (cl_ComponentRunID c)
      | LockState \<Rightarrow> ts_LockID r = None \<or> ts_LockedBy r = Some (cl_ComponentRunID c)
      | UnlockState \<Rightarrow> ts_LockID r \<noteq> None \<and> (CanWrite c \<or> ts_LockedBy r = Some (cl_ComponentRunID c)))"

definition may_touch :: "Claims \<Rightarrow> StateRequest \<Rightarrow> StateRow \<Rightarrow> bool" where
  "may_touch c rq r \<longleftrightarrow> state_for c r \<and> lock_rule c rq r"

lemma sparesD: "spares itf r vs \<Longrightarrow> held r vs d \<Longrightarrow> held r vs (itf k d)"
  by (simp add: spares_def)

lemma spares_later: "spares itf r vs \<Longrightarrow> spares (later itf) r vs"
  by (simp add: spares_def later_def)

lemma held_update: "held r vs d \<Longrightarrow> \<not> P r \<Longrightarrow> held r vs (fst (update_where P f d))"
  by (force simp: held_def update_where_def row_versions_def)

lemma held_insert: "held r vs d \<Longrightarrow> insert_state d x = Some d' \<Longrightarrow> held r vs d' \<and> ts_ID x \<noteq> ts_ID r"
  by (auto simp: held_def insert_state_def row_versions_def list_ex_iff split: if_splits)

lemma held_write_tx:
  assumes "store_wf sv d" and "held r vs d" and "\<not> movable c l st r" and "tv_StateID v = ts_ID st"
  shows "held r vs (fst (write_tx d c l st v))"
proof (rule write_tx_cases [of d c l st v])
  assume "write_tx d c l st v = (d, snd (write_tx d c l st v))"
  then have "fst (write_tx d c l st v) = d" by (metis fst_conv)
  with assms(2) show ?thesis by simp
next
  fix x
  assume one: "filter (movable c l st) (sd_States d) = [x]"
    and w: "write_tx d c l st v =
      (d\<lparr>sd_States := map (\<lambda>r. if movable c l st r
           then r\<lparr>ts_CurrentVersion := tv_Version v, ts_Serial := tv_Serial v, ts_Lineage := tv_Lineage v\<rparr> else r) (sd_States d),
         sd_Versions := sd_Versions d @ [v]\<rparr>, Inr ())"
  have x: "x \<in> set (sd_States d)" "movable c l st x" using one by (auto simp: filter_eq_Cons_iff)
  have "inj_on ts_ID (set (sd_States d))" using assms(1) by (simp add: store_wf_def distinct_map)
  moreover have "x \<noteq> r" "ts_ID x = ts_ID st" using x(2) assms(3) by (auto simp: movable_def)
  moreover have "r \<in> set (sd_States d)" using assms(2) by (simp add: held_def)
  ultimately have "ts_ID r \<noteq> ts_ID st" using x(1) by (metis inj_onD)
  then have "row_versions (fst (write_tx d c l st v)) (ts_ID r) = row_versions d (ts_ID r)"
    using assms(4) by (simp add: w row_versions_def)
  moreover have "r \<in> set (sd_States (fst (write_tx d c l st v)))"
    using assms(2,3) by (auto simp: w held_def image_iff intro!: bexI [of _ r])
  ultimately show ?thesis using assms(2) by (simp add: held_def)
qed

text \<open>The row a request finds is not one of another component workspace.\<close>

lemma other_row:
  assumes "store_wf sv d" and "findState d c = Some st" and "held r vs d" and "\<not> state_for c r"
  shows "ts_ID st \<noteq> ts_ID r"
proof -
  have "inj_on ts_ID (set (sd_States d))" using assms(1) by (simp add: store_wf_def distinct_map)
  then show ?thesis using findState_own(1,2) [OF assms(2)] assms(3,4) by (auto simp: held_def dest: inj_onD)
qed

lemma ensureState_frame:
  assumes fair: "fair sv itf" and wf: "store_wf sv d" and resp: "spares itf r vs" and h: "held r vs d"
  shows "held r vs (fst (ensureState itf d c i)) \<and>
    (\<forall>st. snd (ensureState itf d c i) = Inr st \<longrightarrow> \<not> state_for c r \<longrightarrow> ts_ID st \<noteq> ts_ID r)"
proof (cases "findState d c")
  case (Some st)
  with other_row [OF wf Some h] h show ?thesis by (simp add: ensureState_def)
next
  case None
  note h1 = sparesD [OF resp h, of 0]
  note wf2 = store.reach_inv [OF fair_trans [OF fair fairD [OF fair, of d 0], of 1] wf]
  show ?thesis
  proof (cases "insert_state (itf 0 d) (new_state i c)")
    case (Some d2)
    with None held_insert [OF h1 Some] show ?thesis by (simp add: ensureState_def)
  next
    case none: None
    with None sparesD [OF resp h1, of 1] other_row [OF wf2 _ sparesD [OF resp h1]]
    show ?thesis by (simp add: ensureState_def Let_def split: option.split)
  qed
qed

lemma lock_loop_frame:
  assumes resp: "spares itf r vs" and no: "\<not> lockable i info step r" and h: "held r vs d"
  shows "held r vs (fst (lock_loop itf n k d i step info now))"
  using h
proof (induction n arbitrary: k d)
  case (Suc n)
  note one = held_update [of r vs d "lockable i info step", OF Suc.prems no, of "lock_row info step now"]
  note two = sparesD [OF resp one, of k]
  from one two Suc.IH [OF sparesD [OF resp two]] show ?case
    by (simp add: split_beta Let_def split: option.split)
qed simp

lemma Lock_frame:
  assumes fair: "fair sv itf" and wf: "store_wf sv d" and resp: "spares itf r vs" and h: "held r vs d"
    and out: "\<not> (state_for c r \<and> (ts_LockID r = None \<or> ts_LockedBy r = Some (cl_ComponentRunID c)))"
  shows "held r vs (fst (Lock sv itf d c info i now))"
proof -
  let ?e = "ensureState itf d c i"
  note e = ensureState_frame [OF fair wf resp h, of c i]
  have "held r vs (fst (lock_loop itf lockAttempts 3 (itf 2 (fst ?e)) (ts_ID st) (cl_ComponentRunID c) info now))"
    if "snd ?e = Inr st" for st
  proof (rule lock_loop_frame [OF resp])
    show "\<not> lockable (ts_ID st) info (cl_ComponentRunID c) r"
      using e that out by (auto simp: lockable_def)
    show "held r vs (itf 2 (fst ?e))" using e resp by (blast intro: sparesD)
  qed
  with e h show ?thesis
    by (simp add: Lock_def split_beta split: prod.split sum.split)
qed

lemma Unlock_frame:
  assumes wf: "store_wf sv d" and resp: "spares itf r vs" and h: "held r vs d"
    and out: "\<not> (state_for c r \<and> ts_LockID r \<noteq> None \<and> (CanWrite c \<or> ts_LockedBy r = Some (cl_ComponentRunID c)))"
  shows "held r vs (fst (Unlock sv itf d c info))"
proof (cases "state_Enabled sv \<and> li_ID info \<noteq> [] \<and> findState d c \<noteq> None")
  case True
  then obtain st where on: "state_Enabled sv" "li_ID info \<noteq> []" "findState d c = Some st" by auto
  let ?u = "update_where (unlockable (ts_ID st) (li_ID info) c) unlock_row (itf 0 d)"
  have "\<not> unlockable (ts_ID st) (li_ID info) c r"
    using other_row [OF wf on(3) h] out by (auto simp: unlockable_def)
  note one = held_update [of r vs "itf 0 d" "unlockable (ts_ID st) (li_ID info) c", OF sparesD [OF resp h] this, of unlock_row]
  have "fst (Unlock sv itf d c info) = (if snd ?u = 1 then fst ?u else itf 1 (fst ?u))"
    using on by (simp add: Unlock_def split_beta Let_def split: option.split)
  with one sparesD [OF resp one, of 1] show ?thesis by simp
next
  case False
  then have "fst (Unlock sv itf d c info) = d" by (auto simp: Unlock_def)
  with h show ?thesis by simp
qed

lemma Write_frame:
  assumes fair: "fair sv itf" and wf: "store_wf sv d" and resp: "spares itf r vs" and h: "held r vs d"
    and out: "\<not> (state_for c r \<and> CanWrite c \<and> ts_LockID r = Some l \<and> ts_LockedBy r = Some (cl_ComponentRunID c))"
  shows "held r vs (fst (Write sv itf d c l body nonce))"
proof (rule Write_cases [of sv itf d c l body nonce])
  fix st serial lineage sealed who
  let ?d3 = "itf 2 (itf 1 (itf 0 d))"
  assume st: "findState d c = Some st" and can: "CanWrite c"
    and w: "Write sv itf d c l body nonce = write_tx ?d3 c l st (new_version sv c st serial lineage body sealed who)"
  have "(db_step sv)\<^sup>*\<^sup>* d ?d3" by (intro fair_trans [OF fair]) simp
  note wf3 = store.reach_inv [OF this wf]
  have h3: "held r vs ?d3" by (intro sparesD [OF resp] h)
  have "\<not> movable c l st r"
    using other_row [OF wf st h] out can by (auto simp: movable_def)
  from held_write_tx [OF wf3 h3 this] show ?thesis unfolding w by (simp add: new_version_def)
qed (use h sparesD [OF resp h] in simp_all)

lemma serve_frame:
  assumes srv: "ss_Service srv = Some sv" and fair: "fair sv itf" and wf: "store_wf sv d"
    and resp: "spares itf r vs" and h: "held r vs d"
    and out: "\<And>c. tofuStateClaims srv d rq (dr_Now dr) = Inr (sv, c) \<Longrightarrow> \<not> may_touch c rq r"
  shows "held r vs (fst (serve_state srv itf d rq dr))"
proof -
  note lfair = fair_later [OF fair] and lresp = spares_later [OF resp]
  note h' = sparesD [OF resp h, of 0]
  note wf' = store.reach_inv [OF fairD [OF fair, of d 0] wf]
  have same: "sv' = sv" if "tofuStateClaims srv d rq (dr_Now dr) = Inr (sv', c)" for sv' c
    using claims_service [OF that] srv by simp
  show ?thesis
  proof (rule serve_cases [of srv itf d rq dr])
    fix sv' c info
    assume c: "tofuStateClaims srv d rq (dr_Now dr) = Inr (sv', c)" and "rq_Route rq = LockState"
      and "fst (serve_state srv itf d rq dr) = fst (Lock sv' (later itf) (itf 0 d) c info (dr_NewID dr) (dr_Now dr))"
    with Lock_frame [OF lfair wf' lresp h'] same [OF c] out [of c]
    show ?thesis by (auto simp: may_touch_def lock_rule_def)
  next
    fix sv' c info
    assume c: "tofuStateClaims srv d rq (dr_Now dr) = Inr (sv', c)" and "rq_Route rq = UnlockState"
      and "fst (serve_state srv itf d rq dr) = fst (Unlock sv' (later itf) (itf 0 d) c info)"
    with Unlock_frame [OF wf' lresp h'] same [OF c] out [of c]
    show ?thesis by (auto simp: may_touch_def lock_rule_def)
  next
    fix sv' c body
    assume c: "tofuStateClaims srv d rq (dr_Now dr) = Inr (sv', c)" and "rq_Route rq = PostState"
      and "fst (serve_state srv itf d rq dr) = fst (Write sv' (later itf) (itf 0 d) c (rq_LockID rq) body (dr_Nonce dr))"
    with Write_frame [OF lfair wf' lresp h'] same [OF c] out [of c]
    show ?thesis by (auto simp: may_touch_def lock_rule_def)
  qed (use h h' in simp_all)
qed

end
