(* ===== verification/StateStore_Seq.thy ===== *)
theory StateStore_Seq
  imports StateStore_Props
begin

text \<open>
  The outcome of the operations of the state service when nothing runs in between: what \<open>Lock\<close> and
  \<open>Write\<close> answer on every branch, and what \<open>Read\<close> gives back.
\<close>

definition alone :: interference where
  "alone k d = d"

lemma alone_simp [simp]: "alone k d = d"
  by (simp add: alone_def)

lemma fair_alone [simp]: "fair sv alone"
  by (simp add: fair_def interleaves_def)

section \<open>Single rows\<close>

lemma filter_single:
  "distinct xs \<Longrightarrow> x \<in> set xs \<Longrightarrow> (\<And>y. y \<in> set xs \<Longrightarrow> P y \<longleftrightarrow> y = x) \<Longrightarrow> filter P xs = [x]"
proof (induction xs)
  case (Cons a xs)
  show ?case
  proof (cases "a = x")
    case True
    with Cons.prems have "filter P xs = []" by (auto simp: filter_empty_conv)
    with True Cons.prems show ?thesis by simp
  next
    case False
    with Cons show ?thesis by simp
  qed
qed simp

lemma find_unique:
  assumes "x \<in> set xs" and "P x" and "\<And>y. y \<in> set xs \<Longrightarrow> P y \<Longrightarrow> y = x"
  shows "find P xs = Some x"
proof (cases "find P xs")
  case None
  with assms(1,2) show ?thesis by (auto simp: find_None_iff)
next
  case (Some y)
  then have "y \<in> set xs \<and> P y" by (auto simp: find_Some_iff)
  with assms(3) Some show ?thesis by blast
qed

lemma row_unique: "store_wf sv d \<Longrightarrow> r \<in> set (sd_States d) \<Longrightarrow> x \<in> set (sd_States d) \<Longrightarrow> ts_ID x = ts_ID r \<Longrightarrow> x = r"
  by (auto simp: store_wf_def distinct_map dest: inj_onD)

lemma rows_distinct: "store_wf sv d \<Longrightarrow> distinct (sd_States d)"
  by (simp add: store_wf_def distinct_map)

text \<open>An update that names a row by its id changes that row or nothing.\<close>

lemma update_where_row:
  assumes wf: "store_wf sv d" and r: "r \<in> set (sd_States d)" and P: "\<And>x. P x \<Longrightarrow> ts_ID x = ts_ID r"
  shows "snd (update_where P f d) = (if P r then 1 else 0)"
proof (cases "P r")
  case True
  then have "filter P (sd_States d) = [r]"
    using row_unique [OF wf r] P by (intro filter_single [OF rows_distinct [OF wf] r]) blast
  with True show ?thesis by (simp add: update_where_def)
next
  case False
  then have "filter P (sd_States d) = []"
    using row_unique [OF wf r] P by (auto simp: filter_empty_conv)
  with False show ?thesis by (simp add: update_where_def)
qed

lemma get_state_row: "store_wf sv d \<Longrightarrow> r \<in> set (sd_States d) \<Longrightarrow> get_state d (ts_ID r) = Some r"
  unfolding get_state_def by (rule find_unique) (auto intro: row_unique)

lemma find_version_row:
  assumes wf: "store_wf sv d" and r: "r \<in> set (sd_States d)" and pos: "0 < ts_CurrentVersion r"
  shows "find_version d (ts_OrganizationID r) r = Some (last (row_versions d (ts_ID r)))"
proof -
  let ?vs = "row_versions d (ts_ID r)"
  have h: "history_ok sv r ?vs" using wf r by (simp add: store_wf_def)
  note l = last_version [OF h pos]
  have "version_ok sv r (last ?vs)" using h l(4) by (simp add: history_ok_def)
  moreover have inj: "inj_on tv_Version (set ?vs)"
    using h distinct_map [of tv_Version ?vs] by (simp add: history_ok_def)
  have "y = last ?vs" if "y \<in> set (sd_Versions d)" "tv_StateID y = ts_ID r" "tv_Version y = ts_CurrentVersion r" for y
  proof (rule inj_onD [OF inj])
    show "tv_Version y = tv_Version (last ?vs)" "y \<in> set ?vs" "last ?vs \<in> set ?vs"
      using that l by (simp_all add: row_versions_def)
  qed
  ultimately show ?thesis
    unfolding find_version_def using l by (intro find_unique) (auto simp: version_ok_def row_versions_def)
qed

section \<open>Locking\<close>

text \<open>Who gets the lock of a row.\<close>

definition lock_free :: "LockInfo \<Rightarrow> uuid \<Rightarrow> StateRow \<Rightarrow> bool" where
  "lock_free info step r \<longleftrightarrow> ts_LockID r = None \<or> ts_LockID r = Some (li_ID info) \<and> ts_LockedBy r = Some step"

lemma lock_loop_alone:
  assumes wf: "store_wf sv d" and r: "r \<in> set (sd_States d)"
  shows "lock_loop alone (Suc n) k d (ts_ID r) step info now =
    (if lock_free info step r then (fst (update_where (lockable (ts_ID r) info step) (lock_row info step now) d), Inr ())
     else (d, Inl (LockedError (holderOf r))))"
proof -
  let ?u = "update_where (lockable (ts_ID r) info step) (lock_row info step now) d"
  have hits: "snd ?u = (if lock_free info step r then 1 else 0)"
    by (subst update_where_row [OF wf r]) (auto simp: lockable_def lock_free_def)
  show ?thesis
  proof (cases "lock_free info step r")
    case True
    with hits show ?thesis by (simp add: split_beta)
  next
    case False
    then have "\<forall>x \<in> set (sd_States d). \<not> lockable (ts_ID r) info step x"
      using row_unique [OF wf r] by (auto simp: lockable_def lock_free_def)
    then have "fst ?u = d" by (simp add: update_where_def map_idI)
    with hits False get_state_row [OF wf r] show ?thesis
      by (simp add: split_beta Let_def lock_free_def split: option.split)
  qed
qed

lemma state_for_update:
  assumes "\<And>r. state_key (f r) = state_key r"
  shows "findState (fst (update_where P f d)) c = map_option (\<lambda>r. if P r then f r else r) (findState d c)"
proof -
  have "state_for c (if P r then f r else r) = state_for c r" for r
    using assms [of r] by (auto simp: state_for_def state_key_def)
  then show ?thesis by (simp add: findState_def update_where_def find_map_same)
qed

lemma ensureState_alone:
  assumes wf: "store_wf sv d" and fresh: "i \<notin> ts_ID ` set (sd_States d)"
  obtains d1 st where "ensureState alone d c i = (d1, Inr st)" and "store_wf sv d1" and "findState d1 c = Some st"
    and "st = (case findState d c of Some st \<Rightarrow> st | None \<Rightarrow> new_state i c)"
proof (cases "findState d c")
  case (Some st)
  with wf show ?thesis by (intro that [of d st]) (simp_all add: ensureState_def)
next
  case None
  then have none: "\<not> state_for c x" if "x \<in> set (sd_States d)" for x
    using that by (auto simp: findState_def find_None_iff)
  have new: "state_for c (new_state i c)" "ts_ID (new_state i c) = i" by (simp_all add: state_for_def new_state_def)
  have "state_key x \<noteq> state_key (new_state i c)" if "x \<in> set (sd_States d)" for x
    using none [OF that] new(1) by (auto simp: state_for_def state_key_def)
  with fresh new(2) have ins: "insert_state d (new_state i c) = Some (d\<lparr>sd_States := sd_States d @ [new_state i c]\<rparr>)"
    by (auto simp: insert_state_def list_ex_iff)
  show ?thesis
  proof (rule that)
    show "ensureState alone d c i = (d\<lparr>sd_States := sd_States d @ [new_state i c]\<rparr>, Inr (new_state i c))"
      using None ins by (simp add: ensureState_def)
    show "store_wf sv (d\<lparr>sd_States := sd_States d @ [new_state i c]\<rparr>)" by (rule insert_state_wf(1) [OF wf ins])
    show "findState (d\<lparr>sd_States := sd_States d @ [new_state i c]\<rparr>) c = Some (new_state i c)"
      unfolding findState_def using none new(1) by (intro find_unique) auto
  qed (simp add: None)
qed

lemma Lock_alone:
  fixes c :: Claims
  assumes wf: "store_wf sv d" and fresh: "i \<notin> ts_ID ` set (sd_States d)" and on: "state_Enabled sv" "li_ID info \<noteq> []"
  defines "st \<equiv> (case findState d c of Some st \<Rightarrow> st | None \<Rightarrow> new_state i c)"
  shows "snd (Lock sv alone d c info i now) =
      (if lock_free info (cl_ComponentRunID c) st then Inr () else Inl (LockedError (holderOf st)))"
    and "findState (fst (Lock sv alone d c info i now)) c =
      Some (if lock_free info (cl_ComponentRunID c) st then lock_row info (cl_ComponentRunID c) now st else st)"
proof -
  obtain d1 where e: "ensureState alone d c i = (d1, Inr st)" and wf1: "store_wf sv d1" and st: "findState d1 c = Some st"
    using ensureState_alone [OF wf fresh] unfolding st_def by metis
  have three: "lockAttempts = Suc 2" by (simp add: lockAttempts_def)
  note loop = lock_loop_alone [OF wf1 findState_own(1) [OF st], of 2 3 "cl_ComponentRunID c" info now, folded three]
  have l: "Lock sv alone d c info i now =
      (if lock_free info (cl_ComponentRunID c) st
       then (fst (update_where (lockable (ts_ID st) info (cl_ComponentRunID c)) (lock_row info (cl_ComponentRunID c) now) d1), Inr ())
       else (d1, Inl (LockedError (holderOf st))))"
    using on e loop by (simp add: Lock_def del: lock_loop.simps)
  have key: "state_key (lock_row info s now r) = state_key r" for r s by (simp add: lock_row_def state_key_def)
  show "snd (Lock sv alone d c info i now) =
      (if lock_free info (cl_ComponentRunID c) st then Inr () else Inl (LockedError (holderOf st)))"
    by (simp add: l)
  show "findState (fst (Lock sv alone d c info i now)) c =
      Some (if lock_free info (cl_ComponentRunID c) st then lock_row info (cl_ComponentRunID c) now st else st)"
  proof -
    have "lockable (ts_ID st) info (cl_ComponentRunID c) st = lock_free info (cl_ComponentRunID c) st"
      by (simp add: lockable_def lock_free_def)
    with st show ?thesis by (simp add: l state_for_update [OF key])
  qed
qed

section \<open>Writing\<close>

text \<open>The bodies a state takes: a serial above the stored one, or the stored body again.\<close>

definition row_accepts :: "StateService \<Rightarrow> StateDB \<Rightarrow> StateRow \<Rightarrow> int \<Rightarrow> string \<Rightarrow> string \<Rightarrow> bool" where
  "row_accepts sv d st serial lineage body \<longleftrightarrow>
     ts_CurrentVersion st = 0 \<or>
     lineage = ts_Lineage st \<and>
     (ts_Serial st < serial \<or>
      serial = ts_Serial st \<and> tv_Md5 (last (row_versions d (ts_ID st))) = md5_digest sv body)"

definition accepts_write :: "StateService \<Rightarrow> StateDB \<Rightarrow> Claims \<Rightarrow> string \<Rightarrow> string \<Rightarrow> bool" where
  "accepts_write sv d c l body \<longleftrightarrow>
     state_Enabled sv \<and> CanWrite c \<and>
     (case (write_header body, findState d c) of
        (Inr (serial, lineage), Some st) \<Rightarrow> locked_by_request c l st \<and> row_accepts sv d st serial lineage body
      | _ \<Rightarrow> False)"

lemma write_guard_accepts:
  assumes wf: "store_wf sv d" and st: "findState d c = Some st"
  shows "(\<exists>b. write_guard d c st serial lineage (md5_digest sv body) = Inr b) \<longleftrightarrow> row_accepts sv d st serial lineage body"
    and "write_guard d c st serial lineage (md5_digest sv body) = Inr True \<Longrightarrow>
      0 < ts_CurrentVersion st \<and> tv_Md5 (last (row_versions d (ts_ID st))) = md5_digest sv body"
proof -
  note own = findState_own [OF st]
  have nn: "0 \<le> ts_CurrentVersion st" using known_row_own [OF wf own(1)] by (simp add: known_row_def)
  show "(\<exists>b. write_guard d c st serial lineage (md5_digest sv body) = Inr b) \<longleftrightarrow> row_accepts sv d st serial lineage body"
    using nn find_version_row [OF wf own(1)] own(3) by (auto simp: write_guard_def row_accepts_def)
  show "0 < ts_CurrentVersion st \<and> tv_Md5 (last (row_versions d (ts_ID st))) = md5_digest sv body"
    if "write_guard d c st serial lineage (md5_digest sv body) = Inr True"
    using that find_version_row [OF wf own(1)] own(3) by (auto simp: write_guard_def split: if_splits)
qed

lemma seal_state_enabled: "state_Enabled sv \<Longrightarrow> \<exists>s. seal_state sv nonce b = Inr s"
  by (auto simp: state_Enabled_def Enabled_def seal_state_def Seal_def split: option.split)

lemma write_tx_alone:
  fixes serial :: int and lineage body sealed who :: string
  assumes wf: "store_wf sv d" and st: "findState d c = Some st" and lock: "locked_by_request c l st"
  defines "v \<equiv> new_version sv c st serial lineage body sealed who"
  shows "write_tx d c l st v =
    (fst (update_where (movable c l st) (\<lambda>r. r\<lparr>ts_CurrentVersion := tv_Version v, ts_Serial := serial, ts_Lineage := lineage\<rparr>) d)
       \<lparr>sd_Versions := sd_Versions d @ [v]\<rparr>, Inr ())"
proof -
  note own = findState_own [OF st]
  have h: "history_ok sv st (row_versions d (ts_ID st))" using wf own(1) by (simp add: store_wf_def)
  have "tv_Version x \<le> ts_CurrentVersion st" if "x \<in> set (row_versions d (ts_ID st))" for x
  proof -
    have "tv_Version x \<in> set (map tv_Version (row_versions d (ts_ID st)))" using that by simp
    also have "\<dots> = {1..ts_CurrentVersion st}" using h by (simp add: history_ok_def del: set_map)
    finally show ?thesis by simp
  qed
  then have new: "\<not> (tv_StateID x = ts_ID st \<and> tv_Version x = ts_CurrentVersion st + 1)" if "x \<in> set (sd_Versions d)" for x
    using that by (force simp: row_versions_def)
  have hits: "snd (update_where (movable c l st) f d) = 1" for f
    by (subst update_where_row [OF wf own(1)]) (use lock in \<open>auto simp: movable_def locked_by_request_def\<close>)
  have vs: "sd_Versions (fst (update_where P f d)) = sd_Versions d" for P f by (simp add: update_where_def)
  show ?thesis
    using new hits vs get_state_row [OF wf own(1)]
    by (auto simp: write_tx_def v_def new_version_def list_ex_iff split_beta)
qed

text \<open>Every branch of \<open>Write\<close>, alone.\<close>

lemma Write_alone_ok:
  assumes wf: "store_wf sv d"
  shows "snd (Write sv alone d c l body nonce) = Inr () \<longleftrightarrow> accepts_write sv d c l body"
proof (cases "\<exists>st serial lineage. findState d c = Some st \<and> locked_by_request c l st \<and> CanWrite c \<and> state_Enabled sv \<and>
    write_header body = Inr (serial, lineage)")
  case True
  then obtain st serial lineage where on: "findState d c = Some st" "locked_by_request c l st" "CanWrite c"
    "state_Enabled sv" "write_header body = Inr (serial, lineage)" by blast
  obtain sealed where s: "seal_state sv nonce body = Inr sealed" using seal_state_enabled [OF on(4)] by blast
  note tx = write_tx_alone [OF wf on(1,2)]
  have "accepts_write sv d c l body \<longleftrightarrow> (\<exists>b. write_guard d c st serial lineage (md5_digest sv body) = Inr b)"
    using on write_guard_accepts(1) [OF wf on(1)] by (simp add: accepts_write_def)
  with on s tx show ?thesis
    by (auto simp: Write_def Let_def split: sum.split bool.split)
next
  case False
  then show ?thesis
    by (auto simp: Write_def accepts_write_def split: sum.split option.split)
qed

lemma Write_alone_read:
  assumes wf: "store_wf sv d" and gz: "gzip_ok sv" and n: "length nonce = nonce_size"
    and w: "Write sv alone d c l body nonce = (d', Inr ())"
  obtains b where "Read_state sv alone d' c = Inr (Some b)" and "md5_digest sv b = md5_digest sv body"
    and "d' \<noteq> d \<Longrightarrow> b = body"
proof -
  have wf': "store_wf sv d'"
    using store.reach_inv [OF Write_steps [OF fair_alone wf gz n] wf, of c l body] w by simp
  have "accepts_write sv d c l body" using Write_alone_ok [OF wf, of c l body nonce] w by simp
  then obtain st serial lineage where on: "findState d c = Some st" "locked_by_request c l st" "CanWrite c"
    "state_Enabled sv" "write_header body = Inr (serial, lineage)"
    by (auto simp: accepts_write_def split: sum.splits option.splits)
  obtain sealed where s: "seal_state sv nonce body = Inr sealed" using seal_state_enabled [OF on(4)] by blast
  have read: "\<exists>b. Read_state sv alone e c = Inr (Some b) \<and> open_state sv (tv_Sealed (last (row_versions e (ts_ID x)))) = Inr b \<and>
      md5_digest sv b = tv_Md5 (last (row_versions e (ts_ID x)))"
    if wfe: "store_wf sv e" and x: "findState e c = Some x" and pos: "0 < ts_CurrentVersion x" for e x
  proof -
    note own = findState_own [OF x]
    have h: "history_ok sv x (row_versions e (ts_ID x))" using wfe own(1) by (simp add: store_wf_def)
    have "version_ok sv x (last (row_versions e (ts_ID x)))"
      using h last_version(4) [OF h pos] by (simp add: history_ok_def)
    with on(4) x pos find_version_row [OF wfe own(1) pos] own(3) show ?thesis
      by (auto simp: Read_state_def version_ok_def)
  qed
  let ?g = "write_guard d c st serial lineage (md5_digest sv body)"
  consider "?g = Inr True" | "?g = Inr False"
    using on w by (cases ?g) (auto simp: Write_def Let_def split: bool.splits)
  then show ?thesis
  proof cases
    case 1
    then have "d' = d" using on w by (simp add: Write_def)
    with read [OF wf on(1)] write_guard_accepts(2) [OF wf on(1) 1] that show ?thesis by auto
  next
    case 2
    let ?v = "new_version sv c st serial lineage body sealed (started_by d c)"
    let ?f = "\<lambda>r. r\<lparr>ts_CurrentVersion := tv_Version ?v, ts_Serial := serial, ts_Lineage := lineage\<rparr>"
    have d': "d' = fst (update_where (movable c l st) ?f d)\<lparr>sd_Versions := sd_Versions d @ [?v]\<rparr>"
      using on s w 2 write_tx_alone [OF wf on(1,2), of serial lineage body sealed "started_by d c"]
      by (simp add: Write_def)
    have "findState d' c = findState (fst (update_where (movable c l st) ?f d)) c" by (simp add: d' findState_def)
    also have "\<dots> = Some (?f st)"
      using on(1,2) by (subst state_for_update) (simp_all add: state_key_def movable_def locked_by_request_def)
    finally have x: "findState d' c = Some (?f st)" .
    have last: "last (row_versions d' (ts_ID (?f st))) = ?v"
      by (simp add: d' row_versions_def) (simp add: new_version_def)
    have "0 < ts_CurrentVersion (?f st)"
      using known_row_own [OF wf findState_own(1) [OF on(1)]] by (simp add: known_row_def new_version_def)
    from read [OF wf' x this] last open_seal_state [OF gz n s] show ?thesis
      by (intro that [of body]) (auto simp: new_version_def)
  qed
qed

end
