(* ===== verification/State_Claims.thy ===== *)
theory State_Claims
  imports StateHTTP_Props StateStore_Seq Demo
begin

text \<open>The properties of the managed state and its endpoints, with their witnesses.\<close>

section \<open>An example\<close>

definition demo_service :: StateService where
  "demo_service =
     \<lparr>sv_Sealer = Some demo_aead, sv_Signer = Some demo_signer, sv_Gzip = id, sv_Gunzip = Some,
      sv_MD5 = take 16, sv_ParseUUID = demo_parse_uuid\<rparr>"

definition demo_server :: StateServer where
  "demo_server = \<lparr>ss_Service = Some demo_service, ss_MaxBytes = 100\<rparr>"

definition demo_claims :: "uuid \<Rightarrow> string \<Rightarrow> Claims" where
  "demo_claims step scope =
     \<lparr>cl_OrgID = 1, cl_ApplicationID = 2, cl_ComponentID = 20, cl_Workspace = [], cl_WorkflowRunID = 30,
      cl_ComponentRunID = step, cl_Scope = scope, cl_Expiry = 1000\<rparr>"

definition demo_token :: "uuid \<Rightarrow> string \<Rightarrow> string" where
  "demo_token step scope =
     (case Sign demo_signer demo_uuid_string (demo_claims step scope) of Inr t \<Rightarrow> t | Inl _ \<Rightarrow> [])"

definition demo_step :: "uuid \<Rightarrow> StepRow" where
  "demo_step step =
     \<lparr>sr_OrganizationID = 1, sr_ID = step, sr_WorkflowRunID = 30, sr_Running = True, sr_RunOrganizationID = 1,
      sr_RunApplicationID = 2\<rparr>"

definition demo_db :: StateDB where
  "demo_db = \<lparr>sd_States = [], sd_Versions = [], sd_Steps = [demo_step 40, demo_step 41], sd_Runs = [(1, 30, ''ann'')]\<rparr>"

definition demo_draws :: Draws where
  "demo_draws = \<lparr>dr_Now = 10, dr_NewID = 7, dr_Nonce = replicate nonce_size CHR ''n''\<rparr>"

definition demo_request :: "state_route \<Rightarrow> uuid \<Rightarrow> string \<Rightarrow> string \<Rightarrow> StateRequest" where
  "demo_request route step scope body =
     \<lparr>rq_Route = route, rq_ComponentID = demo_uuid_string 20, rq_Workspace = ''default'',
      rq_BasicAuth = Some (''spacefleet'', demo_token step scope), rq_LockID = ''L'', rq_ContentMD5 = [], rq_Body = Some body\<rparr>"

lemma demo_request_simps [simp]:
  "rq_Route (demo_request route step scope body) = route"
  "rq_BasicAuth (demo_request route step scope body) = Some (''spacefleet'', demo_token step scope)"
  "rq_Body (demo_request route step scope body) = Some body"
  "dr_Now demo_draws = 10" "dr_NewID demo_draws = 7"
  by (simp_all add: demo_request_def demo_draws_def)

definition lock_body :: string where
  "lock_body = [CHR ''{'', quote_char, CHR ''I'', CHR ''D'', quote_char, CHR '':'', quote_char, CHR ''L'', quote_char, CHR ''}'']"

definition state_body :: string where
  "state_body =
     [CHR ''{'', quote_char] @ ''serial'' @ [quote_char, CHR '':'', CHR ''1'', CHR '','', quote_char] @ ''lineage'' @
     [quote_char, CHR '':'', quote_char, CHR ''x'', quote_char, CHR ''}'']"

lemma demo_json:
  "json_parse lock_body = Some (JObj [(''ID'', JStr ''L'')])"
  "json_parse state_body = Some (JObj [(''serial'', JNum ''1''), (''lineage'', JStr ''x'')])"
  by code_simp+

lemma demo_fold: "fold_name ''ID'' = ''id''" "fold_name ''serial'' = ''serial''" "fold_name ''lineage'' = ''lineage''"
  by code_simp+

lemma demo_int: "json_int64 (JNum ''1'') = Some 1"
  by code_simp

lemma demo_bodies:
  "readLockInfo (Some lock_body) = Inr (empty_lock\<lparr>li_ID := ''L''\<rparr>)"
  "write_header state_body = Inr (1, ''x'')"
proof -
  have "length lock_body = 10" by (simp add: lock_body_def)
  then show "readLockInfo (Some lock_body) = Inr (empty_lock\<lparr>li_ID := ''L''\<rparr>)"
    by (simp add: readLockInfo_def demo_json maxLockBody_def lock_member_def demo_fold Let_def)
  show "write_header state_body = Inr (1, ''x'')"
    by (simp add: write_header_def decode_header_def demo_json header_member_def demo_fold demo_int Let_def)
qed

lemma demo_claims_facts:
  "claims_plain (demo_claims step scope)" "scope_known (demo_claims step ScopeWrite)" "scope_known (demo_claims step ScopeRead)"
  "CanWrite (demo_claims step ScopeWrite)" "\<not> CanWrite (demo_claims step ScopeRead)"
  by (simp_all add: claims_plain_def json_plain_def demo_claims_def scope_known_def CanWrite_def)

lemma demo_verify:
  assumes "scope = ScopeRead \<or> scope = ScopeWrite"
  shows "Verify demo_signer demo_parse_uuid (demo_token step scope) 10 = Inr (demo_claims step scope)"
    and "demo_token step scope \<noteq> []"
proof -
  have known: "scope_known (demo_claims step scope)" using assms demo_claims_facts by auto
  then have sign: "Sign demo_signer demo_uuid_string (demo_claims step scope) = Inr (demo_token step scope)"
    by (simp add: demo_token_def Sign_def Let_def)
  have "demo_signer b \<noteq> []" for b by (simp add: demo_signer_def)
  from Verify_Sign [OF demo_uuid_codec demo_claims_facts(1) sign this, of 10]
  show "Verify demo_signer demo_parse_uuid (demo_token step scope) 10 = Inr (demo_claims step scope)"
    by (simp add: demo_claims_def)
  show "demo_token step scope \<noteq> []"
    using sign known by (auto simp: Sign_def Let_def)
qed

lemma demo_enabled: "state_Enabled demo_service"
  by (simp add: state_Enabled_def demo_service_def Enabled_def)

lemma demo_auth:
  assumes "scope = ScopeRead \<or> scope = ScopeWrite" and "step = 40 \<or> step = 41" and "sd_Steps d = sd_Steps demo_db"
  shows "tofuStateClaims demo_server d (demo_request route step scope body) 10 = Inr (demo_service, demo_claims step scope)"
proof -
  have "list_ex (step_live (demo_claims step scope)) (sd_Steps d)"
    using assms(2,3) by (auto simp: demo_db_def step_live_def demo_claims_def demo_step_def)
  then have "Authenticate demo_service d (demo_token step scope) 20 ''default'' 10 = Inr (demo_claims step scope)"
    using demo_verify [OF assms(1)] demo_enabled
    by (simp add: Authenticate_def) (simp add: demo_service_def demo_claims_def WorkspaceName_def DefaultWorkspace_def)
  with demo_enabled demo_verify(2) [OF assms(1)] show ?thesis
    by (simp add: tofuStateClaims_def demo_server_def demo_request_def)
      (simp add: demo_service_def demo_uuid_inverse)
qed

lemma demo_assumptions:
  "ss_Service demo_server = Some demo_service" "gzip_ok demo_service" "good_draws demo_draws" "store_wf demo_service demo_db"
  by (simp_all add: demo_server_def gzip_ok_def demo_service_def good_draws_def demo_draws_def store_wf_def demo_db_def)

text \<open>The row after step 40 locked the state, and the store after it wrote.\<close>

definition demo_row :: StateRow where
  "demo_row = lock_row (empty_lock\<lparr>li_ID := ''L''\<rparr>) 40 10 (new_state 7 (demo_claims 40 ScopeWrite))"

definition locked_db :: StateDB where
  "locked_db = demo_db\<lparr>sd_States := [demo_row]\<rparr>"

lemma demo_lock: "serve_state demo_server alone demo_db (demo_request LockState 40 ScopeWrite lock_body) demo_draws =
  (locked_db, respond 200 EmptyBody)"
proof -
  let ?c = "demo_claims 40 ScopeWrite" and ?i = "empty_lock\<lparr>li_ID := ''L''\<rparr>"
  have later: "later alone = alone" by (simp add: fun_eq_iff later_def)
  have "ensureState alone demo_db ?c 7 = (demo_db\<lparr>sd_States := [new_state 7 ?c]\<rparr>, Inr (new_state 7 ?c))"
    by (simp add: ensureState_def findState_def demo_db_def insert_state_def)
  then have "Lock demo_service alone demo_db ?c ?i 7 10 = (locked_db, Inr ())"
    using demo_enabled
    by (simp add: Lock_def lockAttempts_def numeral_3_eq_3 update_where_def lockable_def)
      (simp add: locked_db_def demo_row_def demo_claims_def new_state_def)
  then show ?thesis
    using demo_auth [of ScopeWrite 40 demo_db LockState lock_body] later demo_bodies(1)
    by (simp add: serve_state_def LockTofuState_def finish_def)
qed

lemma locked_wf: "store_wf demo_service locked_db"
  by (simp add: store_wf_def locked_db_def demo_db_def row_versions_def history_ok_def lock_ok_def demo_row_def lock_row_def
      new_state_def)

section \<open>History\<close>

text \<open>
  C7: The history of every managed state under any interleaving. Take a stream of requests to the
  state endpoints, each with whatever sequences of atomic steps the other requests run between its own
  statements. Then no state row and no stored version ever disappears or changes place, the versions
  of a state are numbered 1 to its current version without a gap, their serials strictly increase, all
  carry the lineage of the state, and each still opens to a body of its recorded MD5 and size.
\<close>

theorem state_history:
  assumes "ss_Service srv = Some sv" and "gzip_ok sv" and "store_wf sv d"
    and "\<forall>(itf, rq, dr) \<in> set rs. fair sv itf \<and> good_draws dr"
    and "r \<in> set (sd_States d)"
  defines "d' \<equiv> serve_all srv rs d"
  shows "\<exists>r' \<in> set (sd_States d'). ts_ID r' = ts_ID r \<and> state_key r' = state_key r \<and>
      prefix (row_versions d (ts_ID r)) (row_versions d' (ts_ID r)) \<and>
      map tv_Version (row_versions d' (ts_ID r)) = [1..ts_CurrentVersion r'] \<and>
      sorted_wrt (<) (map tv_Serial (row_versions d' (ts_ID r))) \<and>
      (\<forall>v \<in> set (row_versions d' (ts_ID r)). tv_Lineage v = ts_Lineage r' \<and>
         (\<exists>b. open_state sv (tv_Sealed v) = Inr b \<and> tv_Md5 v = md5_digest sv b \<and> tv_SizeBytes v = int (length b)))"
proof -
  have steps: "(db_step sv)\<^sup>*\<^sup>* d d'" unfolding d'_def by (rule serve_all_steps [OF assms(1-4)])
  have wf: "store_wf sv d'" and ev: "evolves d d'"
    using store.reach_inv [OF steps assms(3)] store.reach_rel [OF steps assms(3)] .
  have "(ts_ID r, state_key r) \<in> set (map (\<lambda>r. (ts_ID r, state_key r)) (sd_States d'))"
    using ev assms(5) set_mono_prefix by (fastforce simp: evolves_def)
  then obtain r' where r': "r' \<in> set (sd_States d')" "ts_ID r' = ts_ID r" "state_key r' = state_key r" by auto
  have "history_ok sv r' (row_versions d' (ts_ID r))" using wf r'(1,2) by (force simp: store_wf_def)
  moreover have "prefix (row_versions d (ts_ID r)) (row_versions d' (ts_ID r))"
    using ev by (auto simp: evolves_def row_versions_def prefix_def)
  ultimately show ?thesis
    using r' by (intro bexI [of _ r']) (auto simp: history_ok_def version_ok_def)
qed

theorem state_history_witness:
  "\<exists>r' \<in> set (sd_States (serve_all demo_server
      [(alone, demo_request PostState 40 ScopeWrite state_body, demo_draws)] locked_db)). ts_ID r' = 7"
proof -
  have "demo_row \<in> set (sd_States locked_db)" "ts_ID demo_row = 7"
    by (simp_all add: locked_db_def demo_row_def lock_row_def new_state_def)
  with state_history [OF demo_assumptions(1,2) locked_wf, of "[(alone, demo_request PostState 40 ScopeWrite state_body, demo_draws)]" demo_row]
    demo_assumptions(3)
  show ?thesis by auto
qed

text \<open>
  C14: Who can change a managed state. If a request changed a row or its history (the others left it
  alone), then it carried a token that verifies and has not expired, for exactly the path's component
  and workspace, whose step is running in a run of the claimed application, the row is the one the
  claims name in all four columns, and the lock rule of its route held: a read changes nothing, a write
  has the write scope and the lock its step holds, a lock is free or its step's, an unlock is by the
  holder or with the write scope.
\<close>

theorem state_change_authorized:
  assumes "ss_Service srv = Some sv" and "fair sv itf" and "store_wf sv d" and "spares itf r vs"
    and "held r vs d" and "\<not> held r vs (fst (serve_state srv itf d rq dr))"
  shows "\<exists>signer user token c step. sv_Signer sv = Some signer \<and> rq_BasicAuth rq = Some (user, token) \<and>
    Verify signer (sv_ParseUUID sv) token (dr_Now dr) = Inr c \<and> dr_Now dr < cl_Expiry c \<and>
    sv_ParseUUID sv (rq_ComponentID rq) = Some (ts_ComponentID r) \<and> rq_Workspace rq = ts_Workspace r \<and>
    step \<in> set (sd_Steps d) \<and> step_live c step \<and> state_for c r \<and> lock_rule c rq r"
proof -
  obtain c where c: "tofuStateClaims srv d rq (dr_Now dr) = Inr (sv, c)" and touch: "may_touch c rq r"
    using serve_frame [OF assms(1-5)] assms(6) by blast
  obtain signer user token where "sv_Signer sv = Some signer" "rq_BasicAuth rq = Some (user, token)"
    and v: "Verify signer (sv_ParseUUID sv) token (dr_Now dr) = Inr c"
    and path: "sv_ParseUUID sv (rq_ComponentID rq) = Some (cl_ComponentID c)" "WorkspaceName (cl_Workspace c) = rq_Workspace rq"
    and live: "list_ex (step_live c) (sd_Steps d)"
    using c by (auto simp: tofuStateClaims_def Authenticate_def split: option.splits sum.splits if_splits bool.splits)
  moreover have "dr_Now dr < cl_Expiry c" using v by (rule Verify_Inr) simp
  moreover obtain step where "step \<in> set (sd_Steps d)" "step_live c step" using live by (auto simp: list_ex_iff)
  ultimately show ?thesis using touch by (auto simp: may_touch_def state_for_def)
qed

theorem state_change_authorized_witness:
  "\<exists>signer c. Verify signer demo_parse_uuid (demo_token 40 ScopeWrite) 10 = Inr c \<and> cl_ComponentRunID c = 40 \<and> CanWrite c"
proof -
  let ?rq = "demo_request UnlockState 40 ScopeWrite lock_body"
  let ?c = "demo_claims 40 ScopeWrite" and ?i = "empty_lock\<lparr>li_ID := ''L''\<rparr>"
  have "fst (serve_state demo_server alone locked_db ?rq demo_draws) = fst (Unlock demo_service (later alone) locked_db ?c ?i)"
    using demo_auth [of ScopeWrite 40 locked_db UnlockState lock_body] demo_bodies(1)
    by (simp add: serve_state_def UnlockTofuState_def locked_db_def)
  moreover have "findState locked_db ?c = Some demo_row"
    by (simp add: findState_def locked_db_def state_for_def demo_row_def lock_row_def new_state_def)
  ultimately have "sd_States (fst (serve_state demo_server alone locked_db ?rq demo_draws)) = [unlock_row demo_row]"
    using demo_enabled
    by (simp add: Unlock_def later_def update_where_def locked_db_def unlockable_def demo_row_def lock_row_def demo_claims_facts)
  moreover have "unlock_row demo_row \<noteq> demo_row" by (simp add: unlock_row_def demo_row_def lock_row_def new_state_def)
  ultimately have gone: "\<not> held demo_row [] (fst (serve_state demo_server alone locked_db ?rq demo_draws))"
    by (simp add: held_def)
  have "held demo_row [] locked_db" by (simp add: held_def locked_db_def demo_db_def row_versions_def)
  from state_change_authorized [OF demo_assumptions(1) fair_alone locked_wf _ this gone]
  obtain signer user token c step where
    "rq_BasicAuth ?rq = Some (user, token)" "Verify signer (sv_ParseUUID demo_service) token (dr_Now demo_draws) = Inr c"
    "sv_Signer demo_service = Some signer"
    by (auto simp: spares_def)
  then have "Verify demo_signer demo_parse_uuid (demo_token 40 ScopeWrite) 10 = Inr c"
    by (simp add: demo_request_def demo_service_def demo_draws_def)
  with demo_verify(1) [of ScopeWrite 40] show ?thesis
    by (intro exI [of _ demo_signer] exI [of _ c]) (auto simp: demo_claims_def CanWrite_def)
qed




section \<open>Outcomes\<close>

text \<open>
  What a lock request answers. On a state without a row, or whose lock is free, or held by the same
  step under the same id, the lock is taken and the row records it; in every other case the row keeps
  its lock and the answer carries the holder, under the id the row is locked with.
\<close>

lemma lock_outcome:
  fixes c :: Claims
  assumes "store_wf sv d" and "i \<notin> ts_ID ` set (sd_States d)" and "state_Enabled sv" and "li_ID info \<noteq> []"
  defines "st \<equiv> (case findState d c of Some st \<Rightarrow> st | None \<Rightarrow> new_state i c)"
  shows "snd (Lock sv alone d c info i now) =
      (if lock_free info (cl_ComponentRunID c) st then Inr () else Inl (LockedError (holderOf st))) \<and>
    findState (fst (Lock sv alone d c info i now)) c =
      Some (if lock_free info (cl_ComponentRunID c) st then lock_row info (cl_ComponentRunID c) now st else st) \<and>
    (\<not> lock_free info (cl_ComponentRunID c) st \<longrightarrow> ts_LockID st = Some (li_ID (holderOf st)))"
proof -
  have "lock_ok st"
  proof (cases "findState d c")
    case None
    then show ?thesis by (simp add: st_def new_state_def lock_ok_def)
  next
    case (Some x)
    then show ?thesis using findState_own(1) [OF Some] assms(1) by (simp add: st_def store_wf_def)
  qed
  then have "\<not> lock_free info (cl_ComponentRunID c) st \<longrightarrow> ts_LockID st = Some (li_ID (holderOf st))"
    by (auto simp: lock_ok_def lock_free_def holderOf_def empty_lock_def split: option.split)
  with Lock_alone [OF assms(1-4), of c now, folded st_def] show ?thesis by simp
qed

lemma lock_outcome_example:
  "snd (Lock demo_service alone locked_db (demo_claims 41 ScopeWrite) (empty_lock\<lparr>li_ID := ''M''\<rparr>) 8 11) =
     Inl (LockedError (empty_lock\<lparr>li_ID := ''L''\<rparr>)) \<and>
   snd (Lock demo_service alone demo_db (demo_claims 41 ScopeWrite) (empty_lock\<lparr>li_ID := ''M''\<rparr>) 8 11) = Inr ()"
proof -
  have "findState locked_db (demo_claims 41 ScopeWrite) = Some demo_row"
    by (simp add: findState_def locked_db_def state_for_def demo_row_def lock_row_def new_state_def demo_claims_def)
  moreover have "8 \<notin> ts_ID ` set (sd_States locked_db)"
    by (simp add: locked_db_def demo_row_def lock_row_def new_state_def)
  ultimately show ?thesis
    using lock_outcome [of demo_service locked_db 8 "empty_lock\<lparr>li_ID := ''M''\<rparr>" "demo_claims 41 ScopeWrite" 11]
      lock_outcome [of demo_service demo_db 8 "empty_lock\<lparr>li_ID := ''M''\<rparr>" "demo_claims 41 ScopeWrite" 11]
      locked_wf demo_assumptions(4) demo_enabled
    by (simp add: lock_free_def holderOf_def findState_def) (simp add: demo_db_def demo_row_def lock_row_def new_state_def)
qed

text \<open>
  C25: A write succeeds exactly when the service is configured, the token has the write scope, the body
  is a state file, its step holds the named lock, and the state is new or the body is of its lineage
  with a larger serial, or the stored body again; and then a read gives the written body back (for a
  repeated write, a body of the same MD5).
\<close>

theorem write_outcome:
  assumes "store_wf sv d" and "gzip_ok sv" and "length nonce = nonce_size"
  shows "(snd (Write sv alone d c l body nonce) = Inr () \<longleftrightarrow> accepts_write sv d c l body) \<and>
    (accepts_write sv d c l body \<longrightarrow>
      (\<exists>b. Read_state sv alone (fst (Write sv alone d c l body nonce)) c = Inr (Some b) \<and>
         md5_digest sv b = md5_digest sv body \<and> (fst (Write sv alone d c l body nonce) \<noteq> d \<longrightarrow> b = body)))"
proof (intro conjI impI)
  show ok: "snd (Write sv alone d c l body nonce) = Inr () \<longleftrightarrow> accepts_write sv d c l body"
    by (rule Write_alone_ok [OF assms(1)])
  assume "accepts_write sv d c l body"
  with ok have "Write sv alone d c l body nonce = (fst (Write sv alone d c l body nonce), Inr ())"
    by (metis prod.collapse)
  from Write_alone_read [OF assms this] show "\<exists>b. Read_state sv alone (fst (Write sv alone d c l body nonce)) c = Inr (Some b) \<and>
      md5_digest sv b = md5_digest sv body \<and> (fst (Write sv alone d c l body nonce) \<noteq> d \<longrightarrow> b = body)"
    by blast
qed

theorem write_outcome_witness:
  "\<exists>b. Read_state demo_service alone
      (fst (Write demo_service alone locked_db (demo_claims 40 ScopeWrite) ''L'' state_body (dr_Nonce demo_draws)))
      (demo_claims 40 ScopeWrite) = Inr (Some b) \<and> md5_digest demo_service b = md5_digest demo_service state_body"
proof -
  have "findState locked_db (demo_claims 40 ScopeWrite) = Some demo_row"
    by (simp add: findState_def locked_db_def state_for_def demo_row_def lock_row_def new_state_def)
  then have "accepts_write demo_service locked_db (demo_claims 40 ScopeWrite) ''L'' state_body"
    using demo_bodies(2) demo_enabled demo_claims_facts(4) [of 40]
    by (simp add: accepts_write_def) (simp add: locked_by_request_def row_accepts_def demo_row_def lock_row_def new_state_def demo_claims_def)
  with write_outcome [OF locked_wf demo_assumptions(2) demo_assumptions(3) [unfolded good_draws_def]]
  show ?thesis by blast
qed

end
