(* ===== verification/Runs.thy ===== *)
theory Runs
  imports Snapshot TofuStateOp StateToken
begin

text \<open>
  Run records (\<open>lib/workflows/runs.go\<close>, \<open>stateops.go\<close>, \<open>scoped.go\<close>): the tables, and how a run
  starts. The snapshot and the arguments of a run are JSON columns in the code; here they are the values
  that JSON holds. Each statement and each transaction is atomic; \<open>itf k d\<close> is what other processes did
  to the database before the next statement of an operation. Times are Unix seconds.
\<close>

section \<open>Tables\<close>

datatype run_status = RunPending | RunRunning | RunSucceeded | RunFailed | RunPartial | RunAwaiting

datatype step_status = StepPending | StepRunning | StepSucceeded | StepFailed | StepSkipped | StepAwaiting

record RunScope =
  sc_ComponentID :: uuid
  sc_ComponentName :: string
  sc_ComponentType :: string
  sc_Targets :: "string list"
  sc_GitRef :: string

datatype run_args = NoArgs | StateOpArgs StateOp | ScopeArgs RunScope

record RunRow =
  wr_ID :: uuid
  wr_OrganizationID :: uuid
  wr_ApplicationID :: uuid
  wr_Action :: string
  wr_Status :: run_status
  wr_Message :: string
  wr_StartedBy :: string
  wr_JobID :: string
  wr_Graph :: GraphSnapshot
  wr_Args :: run_args
  wr_CreatedAt :: int
  wr_StartedAt :: "int option"
  wr_FinishedAt :: "int option"

text \<open>A recorded approval: who, when.\<close>

type_synonym Approval = "string \<times> int"

record StepRun =
  cr_ID :: uuid
  cr_OrganizationID :: uuid
  cr_WorkflowRunID :: uuid
  cr_ComponentID :: uuid
  cr_Name :: string
  cr_Type :: string
  cr_Status :: step_status
  cr_Message :: string
  cr_RunName :: string
  cr_Logs :: string
  cr_Outputs :: string
  cr_Resources :: string
  cr_Policy :: string
  cr_ChartRevision :: string
  cr_ValuesRevision :: string
  cr_ApprovedBy :: string
  cr_ApprovedAt :: "int option"
  cr_Approvals :: "Approval list"
  cr_StartedAt :: "int option"
  cr_FinishedAt :: "int option"
  cr_UpdatedAt :: int

record AppRow =
  ar_ID :: uuid
  ar_OrganizationID :: uuid
  ar_Name :: string
  ar_RunnerClusterID :: uuid
  ar_DriftIntervalMinutes :: int

record StageRow =
  sg_ID :: uuid
  sg_OrganizationID :: uuid
  sg_ApplicationID :: uuid
  sg_Name :: string
  sg_Ordinal :: int

text \<open>Rows are in the order of their creation.\<close>

record RunDB =
  rd_Apps :: "AppRow list"
  rd_Stages :: "StageRow list"
  rd_Components :: "Component list"
  rd_Runs :: "RunRow list"
  rd_Steps :: "StepRun list"

type_synonym run_itf = "nat \<Rightarrow> RunDB \<Rightarrow> RunDB"

datatype run_error =
    ErrNotFound
  | ErrConstraint
  | ErrInvalidAction
  | ErrRunInFlight
  | ErrNoDriftTargets
  | ErrNotTofuComponent
  | ErrInvalidStateOp stateop_error
  | ErrInvalidScopedAction
  | ErrScopedRunUnsupported
  | ErrInvalidTarget target_error
  | ErrInvalidGitRef string
  | ErrInvalidDecision
  | ErrNotAwaitingApproval
  | ErrNotAnApprover
  | ErrSelfApproval
  | ErrAlreadyApproved
  | ErrRunNotInFlight
  | ErrAmbiguousName string

section \<open>Queries\<close>

definition in_flight :: "run_status \<Rightarrow> bool" where
  "in_flight s \<longleftrightarrow> s \<in> {RunPending, RunRunning, RunAwaiting}"

definition getApp :: "RunDB \<Rightarrow> uuid \<Rightarrow> uuid \<Rightarrow> run_error + AppRow" where
  "getApp d org app =
     (case find (\<lambda>a. ar_OrganizationID a = org \<and> ar_ID a = app) (rd_Apps d) of
        None \<Rightarrow> Inl ErrNotFound | Some a \<Rightarrow> Inr a)"

definition get_component :: "RunDB \<Rightarrow> uuid \<Rightarrow> uuid \<Rightarrow> uuid \<Rightarrow> run_error + Component" where
  "get_component d org app i =
     (case find (\<lambda>c. co_OrganizationID c = org \<and> co_ApplicationID c = app \<and> co_ID c = i) (rd_Components d) of
        None \<Rightarrow> Inl ErrNotFound | Some c \<Rightarrow> Inr c)"

definition stage_components :: "RunDB \<Rightarrow> uuid \<Rightarrow> StageRow \<Rightarrow> WorkflowStage" where
  "stage_components d org st =
     \<lparr>ws_ID = sg_ID st, ws_Name = sg_Name st,
      ws_Components = sort_key co_Ordinal (filter (\<lambda>c. co_StageID c = sg_ID st \<and> co_OrganizationID c = org) (rd_Components d))\<rparr>"

definition loadStages :: "RunDB \<Rightarrow> uuid \<Rightarrow> uuid \<Rightarrow> WorkflowStage list" where
  "loadStages d org app =
     map (stage_components d org)
       (sort_key sg_Ordinal (filter (\<lambda>st. sg_OrganizationID st = org \<and> sg_ApplicationID st = app) (rd_Stages d)))"

text \<open>The stage a component was loaded with.\<close>

definition component_stage :: "RunDB \<Rightarrow> uuid \<Rightarrow> Component \<Rightarrow> StageRow option" where
  "component_stage d org c = find (\<lambda>st. sg_ID st = co_StageID c \<and> sg_OrganizationID st = org) (rd_Stages d)"

definition run_in_flight :: "RunDB \<Rightarrow> uuid \<Rightarrow> uuid \<Rightarrow> bool" where
  "run_in_flight d org app \<longleftrightarrow>
     list_ex (\<lambda>r. wr_OrganizationID r = org \<and> wr_ApplicationID r = app \<and> in_flight (wr_Status r)) (rd_Runs d)"

definition assertNoRunInFlight :: "RunDB \<Rightarrow> uuid \<Rightarrow> uuid \<Rightarrow> run_error + unit" where
  "assertNoRunInFlight d org app = (if run_in_flight d org app then Inl ErrRunInFlight else Inr ())"

section \<open>Creating a run\<close>

text \<open>What the process draws: the clock, the id of the run and the ids of its steps.\<close>

record RunDraws =
  rw_Now :: int
  rw_RunID :: uuid
  rw_StepID :: "nat \<Rightarrow> uuid"

definition new_run :: "RunDraws \<Rightarrow> uuid \<Rightarrow> uuid \<Rightarrow> string \<Rightarrow> run_args \<Rightarrow> GraphSnapshot \<Rightarrow> RunRow" where
  "new_run dr org app action args snap =
     \<lparr>wr_ID = rw_RunID dr, wr_OrganizationID = org, wr_ApplicationID = app, wr_Action = action, wr_Status = RunPending,
      wr_Message = [], wr_StartedBy = [], wr_JobID = [], wr_Graph = snap, wr_Args = args, wr_CreatedAt = rw_Now dr,
      wr_StartedAt = None, wr_FinishedAt = None\<rparr>"

definition new_step :: "RunDraws \<Rightarrow> uuid \<Rightarrow> nat \<Rightarrow> GraphNode \<Rightarrow> StepRun" where
  "new_step dr org k n =
     \<lparr>cr_ID = rw_StepID dr k, cr_OrganizationID = org, cr_WorkflowRunID = rw_RunID dr, cr_ComponentID = gn_ID n,
      cr_Name = gn_Name n, cr_Type = gn_Type n, cr_Status = StepPending, cr_Message = [], cr_RunName = [], cr_Logs = [],
      cr_Outputs = [], cr_Resources = [], cr_Policy = [], cr_ChartRevision = [], cr_ValuesRevision = [],
      cr_ApprovedBy = [], cr_ApprovedAt = None, cr_Approvals = [], cr_StartedAt = None, cr_FinishedAt = None,
      cr_UpdatedAt = rw_Now dr\<rparr>"

definition new_steps :: "RunDraws \<Rightarrow> uuid \<Rightarrow> GraphSnapshot \<Rightarrow> StepRun list" where
  "new_steps dr org snap = map (\<lambda>(k, n). new_step dr org k n) (enumerate 0 (snap_Nodes snap))"

text \<open>One transaction; an id that is taken is a constraint error.\<close>

definition createRun ::
  "RunDraws \<Rightarrow> RunDB \<Rightarrow> uuid \<Rightarrow> uuid \<Rightarrow> string \<Rightarrow> run_args \<Rightarrow> GraphSnapshot \<Rightarrow> RunDB \<times> (run_error + RunRow)" where
  "createRun dr d org app action args snap =
     (let r = new_run dr org app action args snap; ss = new_steps dr org snap in
      if wr_ID r \<in> set (map wr_ID (rd_Runs d)) \<or> \<not> distinct (map cr_ID (rd_Steps d @ ss)) then (d, Inl ErrConstraint)
      else (d\<lparr>rd_Runs := rd_Runs d @ [r], rd_Steps := rd_Steps d @ ss\<rparr>, Inr r))"

section \<open>Whole-workflow runs\<close>

text \<open>\<open>adjust\<close> is how a triggered preview pins components; \<open>BeginRun\<close> has none.\<close>

definition beginRun ::
  "(uuid \<Rightarrow> uuid) \<Rightarrow> RunDraws \<Rightarrow> run_itf \<Rightarrow> RunDB \<Rightarrow> uuid \<Rightarrow> uuid \<Rightarrow> string \<Rightarrow> (Component \<Rightarrow> Component)
     \<Rightarrow> RunDB \<times> (run_error + RunRow)" where
  "beginRun derive dr itf d org app action adjust =
     (if \<not> validAction action then (d, Inl ErrInvalidAction)
      else case getApp d org app of
        Inl e \<Rightarrow> (d, Inl e)
      | Inr _ \<Rightarrow>
          let d1 = itf 0 d in
          case assertNoRunInFlight d1 org app of
            Inl e \<Rightarrow> (d1, Inl e)
          | Inr _ \<Rightarrow>
              let d2 = itf 1 d1;
                  stages = map (\<lambda>st. st\<lparr>ws_Components := map adjust (ws_Components st)\<rparr>) (loadStages d2 org app);
                  snap = snapshotComponents derive stages action
              in if action = ActionDrift \<and> snap_Nodes snap = [] then (d2, Inl ErrNoDriftTargets)
                 else createRun dr (itf 2 d2) org app action NoArgs snap)"

definition BeginRun ::
  "(uuid \<Rightarrow> uuid) \<Rightarrow> RunDraws \<Rightarrow> run_itf \<Rightarrow> RunDB \<Rightarrow> uuid \<Rightarrow> uuid \<Rightarrow> string \<Rightarrow> RunDB \<times> (run_error + RunRow)" where
  "BeginRun derive dr itf d org app action = beginRun derive dr itf d org app action (\<lambda>c. c)"

section \<open>State operations\<close>

definition snapshotStageOf :: "StageRow option \<Rightarrow> uuid option \<times> GraphStage list" where
  "snapshotStageOf st = (case st of None \<Rightarrow> (None, []) | Some s \<Rightarrow> (Some (sg_ID s), [\<lparr>gs_ID = sg_ID s, gs_Name = sg_Name s\<rparr>]))"

text \<open>The separator of a display name: a middle dot between spaces.\<close>

definition name_separator :: string where
  "name_separator = [CHR '' '', CHR 0xC2, CHR 0xB7, CHR '' '']"

definition stateOpSnapshot :: "Component \<Rightarrow> StageRow option \<Rightarrow> StateOp \<Rightarrow> GraphSnapshot" where
  "stateOpSnapshot c st op =
     \<lparr>snap_Nodes =
        [\<lparr>gn_ID = co_ID c, gn_ComponentID = co_ID c, gn_Name = co_Name c @ name_separator @ StateOp_Label op,
          gn_Type = co_Type c, gn_Config = withCommand (co_Config c) CommandStateOp, gn_DependsOn = [],
          gn_ContinueOnFailure = False, gn_RequiresApproval = True,
          gn_ApprovalPolicy = (if isZeroPolicy (co_ApprovalPolicy c) then None else Some (co_ApprovalPolicy c)),
          gn_TargetClusterID = None, gn_TargetNamespace = [], gn_ChartCredentialID = None,
          gn_GitHubInstallationID = nonzero (co_GithubInstallationID c), gn_StageID = fst (snapshotStageOf st)\<rparr>],
      snap_Stages = snd (snapshotStageOf st)\<rparr>"

definition BeginStateOp ::
  "RunDraws \<Rightarrow> run_itf \<Rightarrow> RunDB \<Rightarrow> uuid \<Rightarrow> uuid \<Rightarrow> uuid \<Rightarrow> StateOp \<Rightarrow> RunDB \<times> (run_error + RunRow)" where
  "BeginStateOp dr itf d org app componentID op =
     (case StateOp_Validate op of
        Some e \<Rightarrow> (d, Inl (ErrInvalidStateOp e))
      | None \<Rightarrow>
          (case getApp d org app of
             Inl e \<Rightarrow> (d, Inl e)
           | Inr _ \<Rightarrow>
               let d1 = itf 0 d in
               case get_component d1 org app componentID of
                 Inl e \<Rightarrow> (d1, Inl e)
               | Inr c \<Rightarrow>
                   if co_Type c \<noteq> TypeTerraform then (d1, Inl ErrNotTofuComponent)
                   else
                     let d2 = itf 1 d1 in
                     case assertNoRunInFlight d2 org app of
                       Inl e \<Rightarrow> (d2, Inl e)
                     | Inr _ \<Rightarrow>
                         createRun dr (itf 2 d2) org app ActionStateOp (StateOpArgs op)
                           (stateOpSnapshot c (component_stage d1 org c) op)))"

text \<open>
  The operation of a run: none for another action, an error when a \<open>state_op\<close> run carries none. The JSON
  of a scope has no member of an operation, so it decodes to the empty one; and the other way round.
\<close>

definition StateOpOf :: "RunRow \<Rightarrow> string + StateOp option" where
  "StateOpOf r =
     (if wr_Action r \<noteq> ActionStateOp then Inr None
      else case wr_Args r of
        NoArgs \<Rightarrow> Inl ''no state operation arguments''
      | StateOpArgs op \<Rightarrow> Inr (Some op)
      | ScopeArgs _ \<Rightarrow>
          Inr (Some \<lparr>so_Operation = [], so_Address = [], so_NewAddress = [], so_LockID = [], so_ImportID = []\<rparr>))"

section \<open>Runs of one component\<close>

definition space_rune :: "nat \<Rightarrow> bool" where
  "space_rune r \<longleftrightarrow>
     9 \<le> r \<and> r \<le> 13 \<or> r \<in> {0x20, 0x85, 0xA0, 0x1680, 0x2028, 0x2029, 0x202F, 0x205F, 0x3000} \<or> 0x2000 \<le> r \<and> r \<le> 0x200A"

definition control_rune :: "nat \<Rightarrow> bool" where
  "control_rune r \<longleftrightarrow> r < 0x20 \<or> 0x7F \<le> r \<and> r < 0xA0"

definition bad_ref_rune :: "nat \<Rightarrow> bool" where
  "bad_ref_rune r \<longleftrightarrow> space_rune r \<or> control_rune r \<or> r \<in> {0x7E, 0x5E, 0x3A, 0x3F, 0x2A, 0x5B, 0x5C}"

definition ValidateGitRef :: "string \<Rightarrow> run_error + unit" where
  "ValidateGitRef r =
     (if r = [] then Inl (ErrInvalidGitRef ''empty'')
      else if length r > 255 then Inl (ErrInvalidGitRef ''longer than 255 characters'')
      else if prefix ''-'' r then Inl (ErrInvalidGitRef ''starts with -'')
      else if prefix ''/'' r \<or> suffix ''/'' r \<or> str_contains r ''//'' then Inl (ErrInvalidGitRef ''has an empty path segment'')
      else if suffix ''.'' r \<or> suffix ''.lock'' r then Inl (ErrInvalidGitRef ''ends with . or .lock'')
      else if str_contains r ''..'' \<or> str_contains r (CHR ''@'' # ''{'') \<or> r = ''@'' then Inl (ErrInvalidGitRef ''contains .. or an at sign before a brace'')
      else if list_ex (prefix ''.'') (split_on (CHR ''/'') r) then Inl (ErrInvalidGitRef ''has a path segment starting with .'')
      else if list_ex bad_ref_rune (runes r) then Inl (ErrInvalidGitRef ''contains a forbidden character'')
      else Inr ())"

definition clonesFromGit :: "Component \<Rightarrow> bool" where
  "clonesFromGit c \<longleftrightarrow>
     (if co_Type c = TypeHelm then cfg (co_Config c) ''chart_source'' = SourceGit
      else co_Type c = TypeManifest \<or> co_Type c = TypeTerraform)"

definition withGitRef :: "config \<Rightarrow> string \<Rightarrow> config" where
  "withGitRef c r = c(''git_ref'' \<mapsto> r)"

definition encode_string_list :: "string list \<Rightarrow> string" where
  "encode_string_list xs = ''['' @ str_join '','' (map json_string xs) @ '']''"

text \<open>Flags that do not decode are replaced.\<close>

definition withTargets :: "config \<Rightarrow> string list \<Rightarrow> config" where
  "withTargets c targets =
     (if targets = [] then c
      else let raw = cfg c ''plan_flags'';
               flags = (if raw = [] then [] else case decode_string_list raw of None \<Rightarrow> [] | Some fs \<Rightarrow> fs)
           in c(''plan_flags'' \<mapsto> encode_string_list (flags @ TargetFlags targets)))"

definition scoped_node :: "Component \<Rightarrow> StageRow option \<Rightarrow> string \<Rightarrow> string list \<Rightarrow> string \<Rightarrow> GraphNode" where
  "scoped_node c st action targets gitRef =
     (let n = componentNode c uuid_Nil;
          c1 = (if gn_Type n = TypeTerraform then withTargets (gn_Config n) targets else gn_Config n);
          c2 = (if gitRef \<noteq> [] then withGitRef c1 gitRef else c1)
      in n\<lparr>gn_Config := c2, gn_ContinueOnFailure := False,
           gn_RequiresApproval := (co_RequiresApproval c \<or> action = ActionUninstall), gn_StageID := fst (snapshotStageOf st)\<rparr>)"

definition scopedSnapshot ::
  "(uuid \<Rightarrow> uuid) \<Rightarrow> Component \<Rightarrow> StageRow option \<Rightarrow> string \<Rightarrow> string list \<Rightarrow> string \<Rightarrow> GraphSnapshot" where
  "scopedSnapshot derive c st action targets gitRef =
     \<lparr>snap_Nodes = expandExecutionNodes derive [scoped_node c st action targets gitRef] action,
      snap_Stages = snd (snapshotStageOf st)\<rparr>"

definition scoped_args_ok :: "string \<Rightarrow> string list \<Rightarrow> string \<Rightarrow> run_error + unit" where
  "scoped_args_ok action targets gitRef =
     (if action \<noteq> ActionDeploy \<and> action \<noteq> ActionUninstall then Inl ErrInvalidScopedAction
      else case ValidateTargets targets of
        Some e \<Rightarrow> Inl (ErrInvalidTarget e)
      | None \<Rightarrow> if gitRef \<noteq> [] then ValidateGitRef gitRef else Inr ())"

definition scoped_component_ok :: "Component \<Rightarrow> string \<Rightarrow> string list \<Rightarrow> string \<Rightarrow> run_error + unit" where
  "scoped_component_ok c action targets gitRef =
     (if co_Type c \<noteq> TypeTerraform \<and> (action \<noteq> ActionUninstall \<or> targets \<noteq> []) then Inl ErrScopedRunUnsupported
      else if gitRef \<noteq> [] \<and> \<not> clonesFromGit c then Inl (ErrInvalidGitRef ''not cloned from git'')
      else Inr ())"

definition BeginComponentRun ::
  "(uuid \<Rightarrow> uuid) \<Rightarrow> RunDraws \<Rightarrow> run_itf \<Rightarrow> RunDB \<Rightarrow> uuid \<Rightarrow> uuid \<Rightarrow> uuid \<Rightarrow> string \<Rightarrow> string list \<Rightarrow> string
     \<Rightarrow> RunDB \<times> (run_error + RunRow)" where
  "BeginComponentRun derive dr itf d org app componentID action targets gitRef =
     (case scoped_args_ok action targets gitRef of
        Inl e \<Rightarrow> (d, Inl e)
      | Inr _ \<Rightarrow>
          (case getApp d org app of
             Inl e \<Rightarrow> (d, Inl e)
           | Inr _ \<Rightarrow>
               let d1 = itf 0 d in
               case get_component d1 org app componentID of
                 Inl e \<Rightarrow> (d1, Inl e)
               | Inr c \<Rightarrow>
                   (case scoped_component_ok c action targets gitRef of
                      Inl e \<Rightarrow> (d1, Inl e)
                    | Inr _ \<Rightarrow>
                        let d2 = itf 1 d1 in
                        case assertNoRunInFlight d2 org app of
                          Inl e \<Rightarrow> (d2, Inl e)
                        | Inr _ \<Rightarrow>
                            createRun dr (itf 2 d2) org app action
                              (ScopeArgs \<lparr>sc_ComponentID = co_ID c, sc_ComponentName = co_Name c, sc_ComponentType = co_Type c,
                                 sc_Targets = targets, sc_GitRef = gitRef\<rparr>)
                              (scopedSnapshot derive c (component_stage d1 org c) action targets gitRef))))"

definition ScopeOf :: "RunRow \<Rightarrow> string + RunScope option" where
  "ScopeOf r =
     (if wr_Action r \<noteq> ActionDeploy \<and> wr_Action r \<noteq> ActionUninstall then Inr None
      else case wr_Args r of
        NoArgs \<Rightarrow> Inr None
      | ScopeArgs s \<Rightarrow> if sc_ComponentID s = uuid_Nil then Inl ''run scope names no component'' else Inr (Some s)
      | StateOpArgs _ \<Rightarrow> Inl ''run scope names no component'')"

end
