(* ===== verification/RunControl.thy ===== *)
theory RunControl
  imports Runs
begin

text \<open>
  What happens to a run after it started (\<open>lib/workflows/runs.go\<close>, \<open>approvals.go\<close>, \<open>recovery.go\<close>,
  \<open>drift.go\<close>): the transitions the executor drives, decisions at approval gates, cancellation, the
  reapers, the drift schedule.
\<close>

section \<open>Conditional updates\<close>

definition update_rows :: "('a \<Rightarrow> bool) \<Rightarrow> ('a \<Rightarrow> 'a) \<Rightarrow> 'a list \<Rightarrow> 'a list" where
  "update_rows P f rows = map (\<lambda>r. if P r then f r else r) rows"

text \<open>\<open>update_runs\<close> and \<open>update_steps\<close> also give the number of rows that changed.\<close>

definition update_runs :: "(RunRow \<Rightarrow> bool) \<Rightarrow> (RunRow \<Rightarrow> RunRow) \<Rightarrow> RunDB \<Rightarrow> RunDB \<times> nat" where
  "update_runs P f d = (d\<lparr>rd_Runs := update_rows P f (rd_Runs d)\<rparr>, length (filter P (rd_Runs d)))"

definition update_steps :: "(StepRun \<Rightarrow> bool) \<Rightarrow> (StepRun \<Rightarrow> StepRun) \<Rightarrow> int \<Rightarrow> RunDB \<Rightarrow> RunDB \<times> nat" where
  "update_steps P f now d =
     (d\<lparr>rd_Steps := update_rows P (\<lambda>s. (f s)\<lparr>cr_UpdatedAt := now\<rparr>) (rd_Steps d)\<rparr>, length (filter P (rd_Steps d)))"

definition or_not_found :: "RunDB \<times> nat \<Rightarrow> RunDB \<times> (run_error + unit)" where
  "or_not_found r = (fst r, if snd r = 0 then Inl ErrNotFound else Inr ())"

definition run_is :: "uuid \<Rightarrow> uuid \<Rightarrow> RunRow \<Rightarrow> bool" where
  "run_is org i r \<longleftrightarrow> wr_OrganizationID r = org \<and> wr_ID r = i"

definition step_is :: "uuid \<Rightarrow> uuid \<Rightarrow> StepRun \<Rightarrow> bool" where
  "step_is org i s \<longleftrightarrow> cr_OrganizationID s = org \<and> cr_ID s = i"

definition step_of_run :: "uuid \<Rightarrow> uuid \<Rightarrow> StepRun \<Rightarrow> bool" where
  "step_of_run org runID s \<longleftrightarrow> cr_OrganizationID s = org \<and> cr_WorkflowRunID s = runID"

definition step_open :: "step_status \<Rightarrow> bool" where
  "step_open s \<longleftrightarrow> s \<in> {StepPending, StepRunning, StepAwaiting}"

section \<open>Transitions of the executor\<close>

definition run_mark :: "run_status \<Rightarrow> string \<Rightarrow> int \<Rightarrow> RunRow \<Rightarrow> RunRow" where
  "run_mark status message now r =
     r\<lparr>wr_Status := status,
       wr_Message := (if message \<noteq> [] then message else wr_Message r),
       wr_StartedAt := (if status = RunRunning then Some now else wr_StartedAt r),
       wr_FinishedAt := (if status \<in> {RunSucceeded, RunFailed, RunPartial} then Some now else wr_FinishedAt r)\<rparr>"

definition MarkRun :: "RunDB \<Rightarrow> uuid \<Rightarrow> uuid \<Rightarrow> run_status \<Rightarrow> string \<Rightarrow> int \<Rightarrow> RunDB \<times> (run_error + unit)" where
  "MarkRun d org runID status message now =
     or_not_found (update_runs (\<lambda>r. run_is org runID r \<and> in_flight (wr_Status r)) (run_mark status message now) d)"

definition step_mark :: "step_status \<Rightarrow> string \<Rightarrow> string \<Rightarrow> int \<Rightarrow> StepRun \<Rightarrow> StepRun" where
  "step_mark status message runName now s =
     s\<lparr>cr_Status := status,
       cr_Message := (if message \<noteq> [] then message else cr_Message s),
       cr_RunName := (if runName \<noteq> [] then runName else cr_RunName s),
       cr_StartedAt := (if status = StepRunning then Some now else cr_StartedAt s),
       cr_FinishedAt := (if status \<in> {StepSucceeded, StepFailed, StepSkipped} then Some now else cr_FinishedAt s)\<rparr>"

definition MarkComponentRun ::
  "RunDB \<Rightarrow> uuid \<Rightarrow> uuid \<Rightarrow> step_status \<Rightarrow> string \<Rightarrow> string \<Rightarrow> int \<Rightarrow> RunDB \<times> (run_error + unit)" where
  "MarkComponentRun d org crID status message runName now =
     or_not_found (update_steps (step_is org crID) (step_mark status message runName now) now d)"

definition settle :: "step_status \<Rightarrow> string \<Rightarrow> int \<Rightarrow> StepRun \<Rightarrow> StepRun" where
  "settle status message now s = s\<lparr>cr_Status := status, cr_Message := message, cr_FinishedAt := Some now\<rparr>"

definition SettleStuckComponentRuns :: "RunDB \<Rightarrow> uuid \<Rightarrow> uuid \<Rightarrow> string \<Rightarrow> int \<Rightarrow> RunDB \<times> nat" where
  "SettleStuckComponentRuns d org runID message now =
     update_steps (\<lambda>s. step_of_run org runID s \<and> step_open (cr_Status s))
       (settle StepSkipped (if message = [] then ''skipped (run did not complete)'' else message) now) now d"

section \<open>Columns written beside the status\<close>

definition SetRunJob :: "RunDB \<Rightarrow> uuid \<Rightarrow> uuid \<Rightarrow> string \<Rightarrow> RunDB \<times> (run_error + unit)" where
  "SetRunJob d org runID jobID = or_not_found (update_runs (run_is org runID) (\<lambda>r. r\<lparr>wr_JobID := jobID\<rparr>) d)"

definition SetRunStartedBy :: "RunDB \<Rightarrow> uuid \<Rightarrow> uuid \<Rightarrow> string \<Rightarrow> RunDB \<times> (run_error + unit)" where
  "SetRunStartedBy d org runID who = or_not_found (update_runs (run_is org runID) (\<lambda>r. r\<lparr>wr_StartedBy := who\<rparr>) d)"

definition SetComponentRunOutputs :: "RunDB \<Rightarrow> uuid \<Rightarrow> uuid \<Rightarrow> string \<Rightarrow> string \<Rightarrow> int \<Rightarrow> RunDB \<times> (run_error + unit)" where
  "SetComponentRunOutputs d org crID outputs resources now =
     or_not_found (update_steps (step_is org crID)
       (\<lambda>s. s\<lparr>cr_Outputs := (if outputs \<noteq> [] then outputs else cr_Outputs s),
              cr_Resources := (if resources \<noteq> [] then resources else cr_Resources s)\<rparr>) now d)"

definition SetComponentRunPolicy :: "RunDB \<Rightarrow> uuid \<Rightarrow> uuid \<Rightarrow> string \<Rightarrow> int \<Rightarrow> RunDB \<times> (run_error + unit)" where
  "SetComponentRunPolicy d org crID verdict now =
     or_not_found (update_steps (step_is org crID) (\<lambda>s. s\<lparr>cr_Policy := verdict\<rparr>) now d)"

definition SetComponentRunLogs ::
  "RunDB \<Rightarrow> uuid \<Rightarrow> uuid \<Rightarrow> string \<Rightarrow> string \<Rightarrow> string \<Rightarrow> int \<Rightarrow> RunDB \<times> (run_error + unit)" where
  "SetComponentRunLogs d org crID logs chart vals now =
     or_not_found (update_steps (step_is org crID)
       (\<lambda>s. s\<lparr>cr_Logs := (if logs \<noteq> [] then logs else cr_Logs s),
              cr_ChartRevision := (if chart \<noteq> [] then chart else cr_ChartRevision s),
              cr_ValuesRevision := (if vals \<noteq> [] then vals else cr_ValuesRevision s)\<rparr>) now d)"

section \<open>Approval gates\<close>

text \<open>
  \<open>strings.EqualFold\<close>: \<open>orb\<close> maps a rune to the representative of its case-folding orbit, the Unicode
  table of the library; \<open>low\<close> is its lower-case table.
\<close>

definition equal_fold :: "(nat \<Rightarrow> nat) \<Rightarrow> string \<Rightarrow> string \<Rightarrow> bool" where
  "equal_fold orb s t \<longleftrightarrow> map orb (runes s) = map orb (runes t)"

definition containsFold :: "(nat \<Rightarrow> nat) \<Rightarrow> string list \<Rightarrow> string \<Rightarrow> bool" where
  "containsFold orb xs s \<longleftrightarrow> list_ex (\<lambda>x. equal_fold orb x s) xs"

definition snapshotPolicy :: "GraphSnapshot \<Rightarrow> uuid \<Rightarrow> ApprovalPolicy option" where
  "snapshotPolicy snap unitID = Option.bind (find (\<lambda>n. gn_ID n = unitID) (snap_Nodes snap)) gn_ApprovalPolicy"

definition approverNames :: "Approval list \<Rightarrow> string" where
  "approverNames as = str_join '', '' (map fst as)"

text \<open>What a policy says about an approver, before the tally.\<close>

definition policy_refuses :: "(nat \<Rightarrow> nat) \<Rightarrow> ApprovalPolicy option \<Rightarrow> string \<Rightarrow> string \<Rightarrow> run_error option" where
  "policy_refuses orb policy startedBy who =
     (case policy of
        None \<Rightarrow> None
      | Some p \<Rightarrow>
          if Approvers p \<noteq> [] \<and> \<not> containsFold orb (Approvers p) who then Some ErrNotAnApprover
          else if RequireDifferentApprover p \<and> startedBy \<noteq> [] \<and> equal_fold orb startedBy who then Some ErrSelfApproval
          else None)"

definition canonical_approver :: "(nat \<Rightarrow> nat) \<Rightarrow> string \<Rightarrow> string" where
  "canonical_approver low approver = to_lower low (trim_space approver)"

text \<open>An approval: the new tally, and whether it opens the gate.\<close>

definition count_approval ::
  "(nat \<Rightarrow> nat) \<Rightarrow> (nat \<Rightarrow> nat) \<Rightarrow> RunRow \<Rightarrow> StepRun \<Rightarrow> string \<Rightarrow> int \<Rightarrow> run_error + Approval list \<times> bool" where
  "count_approval low orb run cr approver now =
     (let who = canonical_approver low approver; policy = snapshotPolicy (wr_Graph run) (cr_ComponentID cr) in
      case policy_refuses orb policy (wr_StartedBy run) who of
        Some e \<Rightarrow> Inl e
      | None \<Rightarrow>
          if list_ex (\<lambda>a. equal_fold orb (fst a) who) (cr_Approvals cr) then Inl ErrAlreadyApproved
          else let tally = cr_Approvals cr @ [(approver, now)] in
               Inr (tally, approvalsRequired policy \<le> int (length tally)))"

definition approve_row :: "string \<Rightarrow> int \<Rightarrow> Approval list \<Rightarrow> bool \<Rightarrow> int \<Rightarrow> StepRun \<Rightarrow> StepRun" where
  "approve_row approver now tally opens need s =
     (if opens then s\<lparr>cr_Approvals := tally, cr_ApprovedBy := approver, cr_ApprovedAt := Some now, cr_Status := StepPending,
                     cr_Message := ''approved by '' @ approverNames tally\<rparr>
      else s\<lparr>cr_Approvals := tally,
             cr_Message := show_nat (length tally) @ '' of '' @ show_int need @ '' approvals ('' @ approverNames tally @ '')''\<rparr>)"

definition reject_row :: "string \<Rightarrow> int \<Rightarrow> StepRun \<Rightarrow> StepRun" where
  "reject_row approver now s =
     s\<lparr>cr_ApprovedBy := approver, cr_ApprovedAt := Some now, cr_Status := StepFailed, cr_Message := ''approval rejected'',
       cr_FinishedAt := Some now\<rparr>"

text \<open>The update a decision makes, and whether the handler resumes the run.\<close>

definition decide ::
  "(nat \<Rightarrow> nat) \<Rightarrow> (nat \<Rightarrow> nat) \<Rightarrow> RunRow \<Rightarrow> StepRun \<Rightarrow> string \<Rightarrow> bool \<Rightarrow> int \<Rightarrow> run_error + (StepRun \<Rightarrow> StepRun) \<times> bool" where
  "decide low orb run cr approver approve now =
     (if approve then
        try_bind (count_approval low orb run cr approver now) (\<lambda>(tally, opens).
          Inr (approve_row approver now tally opens (approvalsRequired (snapshotPolicy (wr_Graph run) (cr_ComponentID cr))), opens))
      else Inr (reject_row approver now, True))"

definition find_run :: "RunDB \<Rightarrow> uuid \<Rightarrow> uuid \<Rightarrow> uuid \<Rightarrow> RunRow option" where
  "find_run d org app runID = find (\<lambda>r. run_is org runID r \<and> wr_ApplicationID r = app) (rd_Runs d)"

definition find_step :: "RunDB \<Rightarrow> uuid \<Rightarrow> uuid \<Rightarrow> uuid \<Rightarrow> StepRun option" where
  "find_step d org runID crID = find (\<lambda>s. step_of_run org runID s \<and> cr_ID s = crID) (rd_Steps d)"

text \<open>The row as it is now, to return.\<close>

definition reread_run :: "RunDB \<Rightarrow> uuid \<Rightarrow> uuid \<Rightarrow> run_error + RunRow" where
  "reread_run d org runID = (case find (run_is org runID) (rd_Runs d) of None \<Rightarrow> Inl ErrNotFound | Some r \<Rightarrow> Inr r)"

definition ApproveComponentRun ::
  "(nat \<Rightarrow> nat) \<Rightarrow> (nat \<Rightarrow> nat) \<Rightarrow> run_itf \<Rightarrow> RunDB \<Rightarrow> uuid \<Rightarrow> uuid \<Rightarrow> uuid \<Rightarrow> uuid \<Rightarrow> string \<Rightarrow> string \<Rightarrow> int
     \<Rightarrow> RunDB \<times> (run_error + RunRow \<times> bool)" where
  "ApproveComponentRun low orb itf d org app runID crID approver decision now =
     (if decision \<noteq> ''approve'' \<and> decision \<noteq> ''reject'' then (d, Inl ErrInvalidDecision)
      else case find_run d org app runID of
        None \<Rightarrow> (d, Inl ErrNotFound)
      | Some run \<Rightarrow>
          if wr_Status run \<noteq> RunAwaiting then (d, Inl ErrNotAwaitingApproval)
          else
            let d1 = itf 0 d in
            case find_step d1 org runID crID of
              None \<Rightarrow> (d1, Inl ErrNotFound)
            | Some cr \<Rightarrow>
                if cr_Status cr \<noteq> StepAwaiting then (d1, Inl ErrNotAwaitingApproval)
                else case decide low orb run cr approver (decision = ''approve'') now of
                  Inl e \<Rightarrow> (d1, Inl e)
                | Inr (f, resume) \<Rightarrow>
                    let (d2, hits) = update_steps (\<lambda>s. step_of_run org runID s \<and> cr_ID s = crID \<and> cr_Status s = StepAwaiting)
                          f now (itf 1 d1)
                    in if hits = 0 then (d2, Inl ErrNotAwaitingApproval)
                       else let d3 = itf 2 d2 in (d3, try_bind (reread_run d3 org runID) (\<lambda>r. Inr (r, resume))))"

section \<open>Cancelling\<close>

definition CancelRun :: "run_itf \<Rightarrow> RunDB \<Rightarrow> uuid \<Rightarrow> uuid \<Rightarrow> uuid \<Rightarrow> int \<Rightarrow> RunDB \<times> (run_error + RunRow)" where
  "CancelRun itf d org app runID now =
     (case find_run d org app runID of
        None \<Rightarrow> (d, Inl ErrNotFound)
      | Some run \<Rightarrow>
          if \<not> in_flight (wr_Status run) then (d, Inl ErrRunNotInFlight)
          else
            let d1 = itf 0 d;
                (d2, hits) = update_runs (\<lambda>r. run_is org runID r \<and> in_flight (wr_Status r)) (run_mark RunFailed ''run cancelled'' now) d1
            in if hits = 0 then (d1, Inl ErrRunNotInFlight)
               else
                 let d3 = itf 1 (fst (update_steps (\<lambda>s. step_of_run org runID s \<and> step_open (cr_Status s))
                       (settle StepFailed ''cancelled (run cancelled)'' now) now d2))
                 in (d3, reread_run d3 org runID))"

section \<open>Sweeps\<close>

text \<open>\<open>workflowWatchTimeout\<close> is 90 minutes.\<close>

definition reapMaxLifetime :: int where
  "reapMaxLifetime = 90 * 60 + 15 * 60"

text \<open>\<open>live\<close> answers whether a job is live, or fails; without it nothing is reaped.\<close>

definition reap_run :: "run_itf \<Rightarrow> nat \<Rightarrow> int \<Rightarrow> RunRow \<Rightarrow> RunDB \<Rightarrow> RunDB \<times> bool" where
  "reap_run itf k now run d =
     (case MarkRun d (wr_OrganizationID run) (wr_ID run) RunFailed
             ''run abandoned: no live worker and exceeded max lifetime'' now of
        (d1, Inl _) \<Rightarrow> (d1, False)
      | (d1, Inr _) \<Rightarrow>
          (fst (update_steps
             (\<lambda>s. step_of_run (wr_OrganizationID run) (wr_ID run) s \<and> cr_Status s \<in> {StepPending, StepRunning})
             (settle StepFailed ''abandoned (run reaped)'' now) now (itf k d1)), True))"

fun reap_loop ::
  "run_itf \<Rightarrow> nat \<Rightarrow> (string \<Rightarrow> bool option) option \<Rightarrow> int \<Rightarrow> RunRow list \<Rightarrow> RunDB \<Rightarrow> RunDB \<times> nat" where
  "reap_loop itf k live now [] d = (d, 0)"
| "reap_loop itf k live now (run # rest) d =
     (case live of
        None \<Rightarrow> reap_loop itf k live now rest d
      | Some alive \<Rightarrow>
          if wr_JobID run = [] \<or> alive (wr_JobID run) \<noteq> Some False then reap_loop itf k live now rest d
          else
            let (d1, reaped) = reap_run itf (Suc k) now run (itf k d);
                (d2, n) = reap_loop itf (Suc (Suc k)) live now rest d1
            in (d2, if reaped then Suc n else n))"

definition ReapStuckRuns ::
  "run_itf \<Rightarrow> (string \<Rightarrow> bool option) option \<Rightarrow> int \<Rightarrow> int \<Rightarrow> RunDB \<Rightarrow> RunDB \<times> nat" where
  "ReapStuckRuns itf live maxLifetime now d =
     reap_loop itf 0 live now
       (filter (\<lambda>r. wr_Status r = RunRunning \<and> (case wr_StartedAt r of Some t \<Rightarrow> t < now - maxLifetime | None \<Rightarrow> False)) (rd_Runs d)) d"

text \<open>The parked steps of one run: those whose policy has timed out are failed.\<close>

definition gate_expired :: "RunRow \<Rightarrow> int \<Rightarrow> StepRun \<Rightarrow> bool" where
  "gate_expired run now cr \<longleftrightarrow>
     (case snapshotPolicy (wr_Graph run) (cr_ComponentID cr) of
        Some p \<Rightarrow> 0 < TimeoutMinutes p \<and> TimeoutMinutes p * 60 \<le> now - cr_UpdatedAt cr
      | None \<Rightarrow> False)"

definition timeout_message :: "RunRow \<Rightarrow> StepRun \<Rightarrow> string" where
  "timeout_message run cr =
     (case snapshotPolicy (wr_Graph run) (cr_ComponentID cr) of
        Some p \<Rightarrow> ''approval timed out after '' @ show_int (TimeoutMinutes p) @ '' minutes'' | None \<Rightarrow> [])"

fun expire_steps :: "run_itf \<Rightarrow> nat \<Rightarrow> int \<Rightarrow> RunRow \<Rightarrow> StepRun list \<Rightarrow> RunDB \<Rightarrow> RunDB \<times> bool \<times> nat" where
  "expire_steps itf k now run [] d = (d, False, k)"
| "expire_steps itf k now run (cr # rest) d =
     (if \<not> gate_expired run now cr then expire_steps itf k now run rest d
      else
        let d1 = fst (update_steps (\<lambda>s. cr_ID s = cr_ID cr \<and> cr_Status s = StepAwaiting)
                   (settle StepFailed (timeout_message run cr) now) now (itf k d));
            (d2, _, k2) = expire_steps itf (Suc k) now run rest d1
        in (d2, True, k2))"

fun expire_runs :: "run_itf \<Rightarrow> nat \<Rightarrow> int \<Rightarrow> RunRow list \<Rightarrow> RunDB \<Rightarrow> RunDB \<times> nat" where
  "expire_runs itf k now [] d = (d, 0)"
| "expire_runs itf k now (run # rest) d =
     (let d0 = itf k d;
          parked = filter (\<lambda>s. step_of_run (wr_OrganizationID run) (wr_ID run) s \<and> cr_Status s = StepAwaiting) (rd_Steps d0);
          (d1, expired, k1) = expire_steps itf (Suc k) now run parked d0
      in if \<not> expired then expire_runs itf k1 now rest d1
         else case MarkRun (itf k1 d1) (wr_OrganizationID run) (wr_ID run) RunFailed ''approval timed out'' now of
           (d2, Inl _) \<Rightarrow> expire_runs itf (Suc k1) now rest d2
         | (d2, Inr _) \<Rightarrow>
             let d3 = fst (SettleStuckComponentRuns (itf (Suc k1) d2) (wr_OrganizationID run) (wr_ID run)
                        ''skipped (approval timed out)'' now);
                 (d4, n) = expire_runs itf (Suc (Suc k1)) now rest d3
             in (d4, Suc n))"

definition ReapExpiredApprovals :: "run_itf \<Rightarrow> int \<Rightarrow> RunDB \<Rightarrow> RunDB \<times> nat" where
  "ReapExpiredApprovals itf now d = expire_runs itf 0 now (filter (\<lambda>r. wr_Status r = RunAwaiting) (rd_Runs d)) d"

section \<open>The drift schedule\<close>

text \<open>The newest drift run of an application.\<close>

definition last_drift :: "RunDB \<Rightarrow> AppRow \<Rightarrow> RunRow option" where
  "last_drift d app =
     (let rs = filter (\<lambda>r. wr_OrganizationID r = ar_OrganizationID app \<and> wr_ApplicationID r = ar_ID app \<and>
                        wr_Action r = ActionDrift) (rd_Runs d)
      in if rs = [] then None else Some (last (sort_key wr_CreatedAt rs)))"

definition driftDue :: "RunDB \<Rightarrow> AppRow \<Rightarrow> int \<Rightarrow> bool" where
  "driftDue d app now =
     (case last_drift d app of None \<Rightarrow> True | Some r \<Rightarrow> ar_DriftIntervalMinutes app * 60 \<le> now - wr_CreatedAt r)"

text \<open>
  One application of the sweep; \<open>enqueue\<close> gives the job id or a message. \<open>itf\<close> answers for five
  statements at most.
\<close>

definition schedule_app ::
  "(uuid \<Rightarrow> uuid) \<Rightarrow> RunDraws \<Rightarrow> run_itf \<Rightarrow> (uuid \<Rightarrow> string + string) \<Rightarrow> int \<Rightarrow> AppRow \<Rightarrow> RunDB \<Rightarrow> RunDB \<times> bool" where
  "schedule_app derive dr itf enqueue now app d =
     (if \<not> driftDue d app now then (d, False)
      else case BeginRun derive dr (\<lambda>k. itf (Suc k)) (itf 0 d) (ar_OrganizationID app) (ar_ID app) ActionDrift of
        (d1, Inl _) \<Rightarrow> (d1, False)
      | (d1, Inr run) \<Rightarrow>
          (case enqueue (wr_ID run) of
             Inl e \<Rightarrow>
               (fst (MarkRun (itf 4 d1) (ar_OrganizationID app) (wr_ID run) RunFailed
                  (''failed to enqueue scheduled drift check: '' @ e) now), False)
           | Inr jobID \<Rightarrow> (fst (SetRunJob (itf 4 d1) (ar_OrganizationID app) (wr_ID run) jobID), True)))"

fun schedule_apps ::
  "(uuid \<Rightarrow> uuid) \<Rightarrow> (nat \<Rightarrow> RunDraws) \<Rightarrow> (nat \<Rightarrow> run_itf) \<Rightarrow> (uuid \<Rightarrow> string + string) \<Rightarrow> int \<Rightarrow> AppRow list \<Rightarrow> RunDB
     \<Rightarrow> RunDB \<times> nat" where
  "schedule_apps derive dr itf enqueue now [] d = (d, 0)"
| "schedule_apps derive dr itf enqueue now (app # apps) d =
     (let (d1, started) = schedule_app derive (dr 0) (itf 0) enqueue now app d;
          (d2, n) = schedule_apps derive (\<lambda>k. dr (Suc k)) (\<lambda>k. itf (Suc k)) enqueue now apps d1
      in (d2, if started then Suc n else n))"

definition ScheduleDueDriftChecks ::
  "(uuid \<Rightarrow> uuid) \<Rightarrow> (nat \<Rightarrow> RunDraws) \<Rightarrow> (nat \<Rightarrow> run_itf) \<Rightarrow> (uuid \<Rightarrow> string + string) \<Rightarrow> int \<Rightarrow> RunDB \<Rightarrow> RunDB \<times> nat" where
  "ScheduleDueDriftChecks derive dr itf enqueue now d =
     schedule_apps derive dr itf enqueue now (filter (\<lambda>a. 0 < ar_DriftIntervalMinutes a) (rd_Apps d)) d"

end
