(* ===== verification/Runs_Props.thy ===== *)
theory Runs_Props
  imports RunControl Atomic
begin

text \<open>
  Runs under interleaving: the atomic steps of the run tables, what they keep (identities, settled runs,
  the tally behind an open gate), and that every operation is a sequence of them.
\<close>

section \<open>What moves forward\<close>

definition same_run :: "RunRow \<Rightarrow> RunRow \<Rightarrow> bool" where
  "same_run r r' \<longleftrightarrow>
     wr_ID r' = wr_ID r \<and> wr_OrganizationID r' = wr_OrganizationID r \<and> wr_ApplicationID r' = wr_ApplicationID r \<and>
     wr_Action r' = wr_Action r \<and> wr_Graph r' = wr_Graph r \<and> wr_Args r' = wr_Args r \<and> wr_CreatedAt r' = wr_CreatedAt r"

text \<open>A settled run is frozen; a run that has started keeps who started it.\<close>

definition run_moves :: "RunRow \<Rightarrow> RunRow \<Rightarrow> bool" where
  "run_moves r r' \<longleftrightarrow> same_run r r' \<and>
     (\<not> in_flight (wr_Status r) \<longrightarrow> wr_Status r' = wr_Status r \<and> wr_Message r' = wr_Message r \<and>
        wr_StartedAt r' = wr_StartedAt r \<and> wr_FinishedAt r' = wr_FinishedAt r) \<and>
     (wr_StartedAt r \<noteq> None \<longrightarrow> wr_StartedAt r' \<noteq> None \<and> wr_StartedBy r' = wr_StartedBy r)"

definition step_moves :: "StepRun \<Rightarrow> StepRun \<Rightarrow> bool" where
  "step_moves s s' \<longleftrightarrow>
     cr_ID s' = cr_ID s \<and> cr_OrganizationID s' = cr_OrganizationID s \<and> cr_WorkflowRunID s' = cr_WorkflowRunID s \<and>
     cr_ComponentID s' = cr_ComponentID s \<and> cr_Name s' = cr_Name s \<and> cr_Type s' = cr_Type s"

lemma run_moves_refl: "run_moves r r"
  by (simp add: run_moves_def same_run_def)

lemma run_moves_trans: "run_moves a b \<Longrightarrow> run_moves b c \<Longrightarrow> run_moves a c"
  by (auto simp: run_moves_def same_run_def)

lemma step_moves_refl: "step_moves s s"
  by (simp add: step_moves_def)

lemma step_moves_trans: "step_moves a b \<Longrightarrow> step_moves b c \<Longrightarrow> step_moves a c"
  by (simp add: step_moves_def)

definition runs_evolve :: "RunDB \<Rightarrow> RunDB \<Rightarrow> bool" where
  "runs_evolve d d' \<longleftrightarrow> rows_move run_moves (rd_Runs d) (rd_Runs d') \<and> rows_move step_moves (rd_Steps d) (rd_Steps d')"

lemma runs_evolve_refl: "runs_evolve d d"
  by (simp add: runs_evolve_def rows_move_refl run_moves_refl step_moves_refl)

lemma runs_evolve_trans: "runs_evolve a b \<Longrightarrow> runs_evolve b c \<Longrightarrow> runs_evolve a c"
  unfolding runs_evolve_def using rows_move_trans [of run_moves] rows_move_trans [of step_moves] run_moves_trans step_moves_trans
  by blast

section \<open>The tally behind a gate\<close>

text \<open>The approver is one address, spelled so that its canonical form folds to it.\<close>

definition plain_approver :: "(nat \<Rightarrow> nat) \<Rightarrow> (nat \<Rightarrow> nat) \<Rightarrow> string \<Rightarrow> bool" where
  "plain_approver low orb a \<longleftrightarrow> equal_fold orb a (canonical_approver low a)"

definition tally_ok :: "(nat \<Rightarrow> nat) \<Rightarrow> (nat \<Rightarrow> nat) \<Rightarrow> ApprovalPolicy option \<Rightarrow> string \<Rightarrow> Approval list \<Rightarrow> bool" where
  "tally_ok low orb policy startedBy tally \<longleftrightarrow>
     (\<forall>a \<in> set tally. policy_refuses orb policy startedBy (canonical_approver low (fst a)) = None) \<and>
     sorted_wrt (\<lambda>a b. \<not> equal_fold orb (fst a) (fst b)) tally"

definition gate_open :: "StepRun \<Rightarrow> bool" where
  "gate_open s \<longleftrightarrow> cr_Status s = StepPending \<and> cr_ApprovedAt s \<noteq> None"

definition step_policy :: "RunRow \<Rightarrow> StepRun \<Rightarrow> ApprovalPolicy option" where
  "step_policy r s = snapshotPolicy (wr_Graph r) (cr_ComponentID s)"

definition gate_ok :: "(nat \<Rightarrow> nat) \<Rightarrow> (nat \<Rightarrow> nat) \<Rightarrow> RunRow \<Rightarrow> StepRun \<Rightarrow> bool" where
  "gate_ok low orb r s \<longleftrightarrow>
     (cr_Approvals s \<noteq> [] \<longrightarrow> wr_StartedAt r \<noteq> None) \<and>
     tally_ok low orb (step_policy r s) (wr_StartedBy r) (cr_Approvals s) \<and>
     (gate_open s \<longrightarrow> approvalsRequired (step_policy r s) \<le> int (length (cr_Approvals s)))"

lemma count_approval_ok:
  assumes c: "count_approval low orb run cr approver now = Inr (tally, opens)" and p: "plain_approver low orb approver"
    and ok: "tally_ok low orb (step_policy run cr) (wr_StartedBy run) (cr_Approvals cr)"
  shows "tally_ok low orb (step_policy run cr) (wr_StartedBy run) tally" and "tally \<noteq> []"
    and "opens \<longleftrightarrow> approvalsRequired (step_policy run cr) \<le> int (length tally)"
proof -
  let ?who = "canonical_approver low approver"
  have t: "tally = cr_Approvals cr @ [(approver, now)]"
    and allowed: "policy_refuses orb (step_policy run cr) (wr_StartedBy run) ?who = None"
    and new: "\<not> list_ex (\<lambda>a. equal_fold orb (fst a) ?who) (cr_Approvals cr)"
    and o: "opens \<longleftrightarrow> approvalsRequired (step_policy run cr) \<le> int (length tally)"
    using c by (auto simp: count_approval_def Let_def step_policy_def split: option.splits if_splits)
  have "\<not> equal_fold orb (fst a) approver" if "a \<in> set (cr_Approvals cr)" for a
    using that new p by (auto simp: list_ex_iff plain_approver_def equal_fold_def)
  with ok allowed show "tally_ok low orb (step_policy run cr) (wr_StartedBy run) tally"
    by (auto simp: tally_ok_def t sorted_wrt_append)
  show "tally \<noteq> []" by (simp add: t)
  show "opens \<longleftrightarrow> approvalsRequired (step_policy run cr) \<le> int (length tally)" by (rule o)
qed

section \<open>Atomic steps\<close>

text \<open>What a decision knows of the rows it read: they are the rows of these ids, and their tally is good.\<close>

definition known_gate :: "(nat \<Rightarrow> nat) \<Rightarrow> (nat \<Rightarrow> nat) \<Rightarrow> RunDB \<Rightarrow> RunRow \<Rightarrow> StepRun \<Rightarrow> bool" where
  "known_gate low orb d run cr \<longleftrightarrow>
     (\<exists>r \<in> set (rd_Runs d). run_moves run r) \<and> (\<exists>s \<in> set (rd_Steps d). step_moves cr s) \<and>
     wr_StartedAt run \<noteq> None \<and> cr_WorkflowRunID cr = wr_ID run \<and> cr_OrganizationID cr = wr_OrganizationID run \<and>
     tally_ok low orb (step_policy run cr) (wr_StartedBy run) (cr_Approvals cr)"

text \<open>A column beside the status.\<close>

definition beside :: "(StepRun \<Rightarrow> StepRun) \<Rightarrow> bool" where
  "beside f \<longleftrightarrow> (\<forall>s. step_moves s (f s) \<and> cr_Status (f s) = cr_Status s \<and> cr_Approvals (f s) = cr_Approvals s \<and>
     cr_ApprovedAt (f s) = cr_ApprovedAt s)"

text \<open>
  The statements and transactions of the operations. Nothing moves a step back to pending but an approval;
  only a run that started is parked, and who started a run is recorded before it starts.
\<close>

inductive run_step :: "(nat \<Rightarrow> nat) \<Rightarrow> (nat \<Rightarrow> nat) \<Rightarrow> RunDB \<Rightarrow> RunDB \<Rightarrow> bool" for low orb where
  st_create: "createRun dr d org app action args snap = (d', Inr r) \<Longrightarrow> run_step low orb d d'"
| st_mark_run:
    "(\<And>r. status = RunAwaiting \<Longrightarrow> r \<in> set (rd_Runs d) \<Longrightarrow> run_is org i r \<Longrightarrow> in_flight (wr_Status r) \<Longrightarrow>
       wr_StartedAt r \<noteq> None) \<Longrightarrow>
     run_step low orb d (fst (MarkRun d org i status message now))"
| st_mark_step: "status \<noteq> StepPending \<Longrightarrow> run_step low orb d (fst (MarkComponentRun d org i status message name now))"
| st_settle: "status \<noteq> StepPending \<Longrightarrow> run_step low orb d (fst (update_steps P (settle status message now) now d))"
| st_columns: "beside f \<Longrightarrow> run_step low orb d (fst (update_steps P f now d))"
| st_decide:
    "known_gate low orb d run cr \<Longrightarrow> plain_approver low orb approver \<Longrightarrow>
     decide low orb run cr approver approve now = Inr (f, resume) \<Longrightarrow>
     run_step low orb d (fst (update_steps (\<lambda>s. step_of_run (wr_OrganizationID run) (wr_ID run) s \<and> cr_ID s = cr_ID cr \<and>
       cr_Status s = StepAwaiting) f now d))"
| st_cancel:
    "run_step low orb d (fst (update_steps (\<lambda>s. step_of_run org i s \<and> step_open (cr_Status s)) (settle StepFailed message now) now
       (fst (update_runs (\<lambda>r. run_is org i r \<and> in_flight (wr_Status r)) (run_mark RunFailed message' now) d))))"
| st_job: "run_step low orb d (fst (SetRunJob d org i job))"
| st_started_by:
    "(\<And>r. r \<in> set (rd_Runs d) \<Longrightarrow> run_is org i r \<Longrightarrow> wr_StartedAt r = None) \<Longrightarrow>
     run_step low orb d (fst (SetRunStartedBy d org i who))"
| st_workflow: "run_step low orb d (d\<lparr>rd_Apps := apps, rd_Stages := stages, rd_Components := comps\<rparr>)"

section \<open>The invariant\<close>

definition run_times_ok :: "RunRow \<Rightarrow> bool" where
  "run_times_ok r \<longleftrightarrow> (wr_FinishedAt r \<noteq> None \<longleftrightarrow> \<not> in_flight (wr_Status r)) \<and>
     (wr_Status r \<in> {RunRunning, RunAwaiting} \<longrightarrow> wr_StartedAt r \<noteq> None)"

definition runs_wf :: "(nat \<Rightarrow> nat) \<Rightarrow> (nat \<Rightarrow> nat) \<Rightarrow> RunDB \<Rightarrow> bool" where
  "runs_wf low orb d \<longleftrightarrow>
     distinct (map wr_ID (rd_Runs d)) \<and> distinct (map cr_ID (rd_Steps d)) \<and> (\<forall>r \<in> set (rd_Runs d). run_times_ok r) \<and>
     (\<forall>s \<in> set (rd_Steps d). \<exists>r \<in> set (rd_Runs d).
        cr_WorkflowRunID s = wr_ID r \<and> cr_OrganizationID s = wr_OrganizationID r \<and> gate_ok low orb r s)"

lemma run_unique: "runs_wf low orb d \<Longrightarrow> r \<in> set (rd_Runs d) \<Longrightarrow> x \<in> set (rd_Runs d) \<Longrightarrow> wr_ID x = wr_ID r \<Longrightarrow> x = r"
  by (auto simp: runs_wf_def distinct_map dest: inj_onD)

lemma step_unique: "runs_wf low orb d \<Longrightarrow> s \<in> set (rd_Steps d) \<Longrightarrow> x \<in> set (rd_Steps d) \<Longrightarrow> cr_ID x = cr_ID s \<Longrightarrow> x = s"
  by (auto simp: runs_wf_def distinct_map dest: inj_onD)

lemma update_rows_map: "update_rows P f xs = map (\<lambda>r. if P r then f r else r) xs"
  by (simp add: update_rows_def)

lemma set_update_rows: "set (update_rows P f xs) = (\<lambda>r. if P r then f r else r) ` set xs"
  by (simp add: update_rows_def)

text \<open>A run that moves keeps the gates of its steps.\<close>

lemma gate_ok_moves:
  assumes "gate_ok low orb r s" and "run_moves r r'"
  shows "gate_ok low orb r' s"
  using assms by (cases "cr_Approvals s = []") (auto simp: gate_ok_def run_moves_def same_run_def step_policy_def tally_ok_def)

lemma gate_ok_same:
  assumes "gate_ok low orb r s" and "step_moves s s'" and "cr_Approvals s' = cr_Approvals s"
    and "gate_open s' \<Longrightarrow> gate_open s"
  shows "gate_ok low orb r s'"
  using assms by (auto simp: gate_ok_def step_moves_def step_policy_def)

text \<open>Updates of the run table.\<close>

lemma update_runs_wf:
  assumes wf: "runs_wf low orb d"
    and f: "\<And>r. r \<in> set (rd_Runs d) \<Longrightarrow> P r \<Longrightarrow> run_moves r (f r) \<and> run_times_ok (f r)"
  shows "runs_wf low orb (fst (update_runs P f d)) \<and> runs_evolve d (fst (update_runs P f d))"
proof -
  let ?g = "\<lambda>r. if P r then f r else r"
  let ?d = "fst (update_runs P f d)"
  have d: "rd_Runs ?d = map ?g (rd_Runs d)" "rd_Steps ?d = rd_Steps d"
    by (simp_all add: update_runs_def update_rows_map)
  have g: "run_moves r (?g r)" "run_times_ok (?g r)" if "r \<in> set (rd_Runs d)" for r
    using that f wf run_moves_refl by (auto simp: runs_wf_def)
  then have ids: "map wr_ID (rd_Runs ?d) = map wr_ID (rd_Runs d)"
    by (simp add: d run_moves_def same_run_def)
  have "\<exists>r \<in> set (rd_Runs ?d). cr_WorkflowRunID s = wr_ID r \<and> cr_OrganizationID s = wr_OrganizationID r \<and> gate_ok low orb r s"
    if sd: "s \<in> set (rd_Steps d)" for s
  proof -
    obtain r where r: "r \<in> set (rd_Runs d)" "cr_WorkflowRunID s = wr_ID r" "cr_OrganizationID s = wr_OrganizationID r"
      "gate_ok low orb r s" using wf sd by (auto simp: runs_wf_def)
    have "gate_ok low orb (?g r) s" by (rule gate_ok_moves [OF r(4) g(1) [OF r(1)]])
    moreover have "?g r \<in> set (rd_Runs ?d)" using r(1) by (simp add: d)
    moreover have "wr_ID (?g r) = wr_ID r" "wr_OrganizationID (?g r) = wr_OrganizationID r"
      using g(1) [OF r(1)] by (simp_all add: run_moves_def same_run_def)
    ultimately show ?thesis using r(2,3) by metis
  qed
  moreover have "\<forall>r \<in> set (rd_Runs ?d). run_times_ok r" unfolding d set_map using g(2) by blast
  ultimately have "runs_wf low orb ?d" using wf ids d(2) unfolding runs_wf_def by simp
  moreover have "runs_evolve d ?d"
    unfolding runs_evolve_def d using g(1) by (auto intro: rows_move_map rows_move_refl step_moves_refl)
  ultimately show ?thesis by simp
qed

text \<open>Updates of the step table.\<close>

lemma update_steps_wf:
  assumes wf: "runs_wf low orb d"
    and f: "\<And>s r. s \<in> set (rd_Steps d) \<Longrightarrow> P s \<Longrightarrow> r \<in> set (rd_Runs d) \<Longrightarrow> cr_WorkflowRunID s = wr_ID r \<Longrightarrow>
      cr_OrganizationID s = wr_OrganizationID r \<Longrightarrow> gate_ok low orb r s \<Longrightarrow> step_moves s (f s) \<and> gate_ok low orb r (f s)"
  shows "runs_wf low orb (fst (update_steps P f now d)) \<and> runs_evolve d (fst (update_steps P f now d))"
proof -
  let ?g = "\<lambda>s. if P s then (f s)\<lparr>cr_UpdatedAt := now\<rparr> else s"
  let ?d = "fst (update_steps P f now d)"
  have d: "rd_Steps ?d = map ?g (rd_Steps d)" "rd_Runs ?d = rd_Runs d"
    by (simp_all add: update_steps_def update_rows_map)
  have upd: "gate_ok low orb r (s\<lparr>cr_UpdatedAt := now\<rparr>) = gate_ok low orb r s" for r s
    by (simp add: gate_ok_def step_policy_def gate_open_def)
  have g: "step_moves s (?g s) \<and>
      (\<exists>r \<in> set (rd_Runs d). cr_WorkflowRunID s = wr_ID r \<and> cr_OrganizationID s = wr_OrganizationID r \<and> gate_ok low orb r (?g s))"
    if sd: "s \<in> set (rd_Steps d)" for s
  proof -
    obtain r where r: "r \<in> set (rd_Runs d)" "cr_WorkflowRunID s = wr_ID r" "cr_OrganizationID s = wr_OrganizationID r"
      "gate_ok low orb r s" using wf sd by (auto simp: runs_wf_def)
    with f [OF sd _ r] show ?thesis by (auto simp: upd step_moves_def)
  qed
  have ids: "map cr_ID (rd_Steps ?d) = map cr_ID (rd_Steps d)" using g by (simp add: d step_moves_def)
  have "\<exists>r \<in> set (rd_Runs d). cr_WorkflowRunID x = wr_ID r \<and> cr_OrganizationID x = wr_OrganizationID r \<and> gate_ok low orb r x"
    if x: "x \<in> set (rd_Steps ?d)" for x
  proof -
    obtain s where s: "s \<in> set (rd_Steps d)" "x = ?g s" using x d(1) by auto
    from g [OF s(1)] show ?thesis by (auto simp: s(2) step_moves_def)
  qed
  then have "runs_wf low orb ?d" using wf ids d(2) unfolding runs_wf_def by simp
  moreover have "runs_evolve d ?d"
    unfolding runs_evolve_def d using g by (auto intro!: rows_move_map rows_move_refl run_moves_refl)
  ultimately show ?thesis by simp
qed

section \<open>The run tables are a system of atomic steps\<close>

lemma run_mark_moves:
  assumes "in_flight (wr_Status r)" and "status = RunAwaiting \<Longrightarrow> wr_StartedAt r \<noteq> None" and "run_times_ok r"
  shows "run_moves r (run_mark status message now r) \<and> run_times_ok (run_mark status message now r)"
  using assms by (cases status) (auto simp: run_moves_def same_run_def run_mark_def run_times_ok_def in_flight_def)

lemma createRun_wf:
  assumes wf: "runs_wf low orb d" and c: "createRun dr d org app action args snap = (d', Inr r)"
  shows "runs_wf low orb d' \<and> runs_evolve d d'"
proof -
  let ?ss = "new_steps dr org snap"
  have d': "d' = d\<lparr>rd_Runs := rd_Runs d @ [r], rd_Steps := rd_Steps d @ ?ss\<rparr>" and r: "r = new_run dr org app action args snap"
    and fresh: "wr_ID r \<notin> set (map wr_ID (rd_Runs d))" "distinct (map cr_ID (rd_Steps d @ ?ss))"
    using c by (auto simp: createRun_def Let_def split: if_splits)
  have new: "cr_WorkflowRunID s = wr_ID r \<and> cr_OrganizationID s = wr_OrganizationID r \<and> gate_ok low orb r s" if "s \<in> set ?ss" for s
    using that by (auto simp: new_steps_def new_step_def r new_run_def gate_ok_def tally_ok_def gate_open_def)
  have "run_times_ok r" by (simp add: r new_run_def run_times_ok_def in_flight_def)
  then have "runs_wf low orb d'"
    using wf fresh new unfolding runs_wf_def by (auto simp: d')
  then show ?thesis
    by (simp add: runs_evolve_def d' rows_move_append run_moves_refl step_moves_refl)
qed

text \<open>A step that does not become an open gate.\<close>

lemma gate_ok_closed:
  "gate_ok low orb r s \<Longrightarrow> step_moves s s' \<Longrightarrow> cr_Approvals s' = cr_Approvals s \<Longrightarrow> cr_Status s' \<noteq> StepPending \<Longrightarrow>
    step_moves s s' \<and> gate_ok low orb r s'"
  by (auto intro: gate_ok_same simp: gate_open_def)

lemma settle_gate_ok:
  "status \<noteq> StepPending \<Longrightarrow> gate_ok low orb r s \<Longrightarrow>
    step_moves s (settle status message now s) \<and> gate_ok low orb r (settle status message now s)"
  by (rule gate_ok_closed) (simp_all add: settle_def step_moves_def)

lemma decide_gate_ok:
  assumes k: "known_gate low orb d run cr" and p: "plain_approver low orb approver"
    and dec: "decide low orb run cr approver approve now = Inr (f, resume)"
    and s: "cr_ID s = cr_ID cr" "step_of_run (wr_OrganizationID run) (wr_ID run) s" "cr_Status s = StepAwaiting"
    and wf: "runs_wf low orb d" and sd: "s \<in> set (rd_Steps d)" and r: "r \<in> set (rd_Runs d)" "wr_ID r = wr_ID run"
    and ok: "gate_ok low orb r s"
  shows "step_moves s (f s) \<and> gate_ok low orb r (f s)"
proof (cases approve)
  case False
  then have "f = reject_row approver now" using dec by (simp add: decide_def)
  with ok show ?thesis by (intro gate_ok_closed) (simp_all add: reject_row_def step_moves_def)
next
  case True
  obtain x where x: "x \<in> set (rd_Runs d)" "run_moves run x" using k by (auto simp: known_gate_def)
  then have "wr_ID x = wr_ID r" using r(2) by (simp add: run_moves_def same_run_def)
  then have run: "run_moves run r" using x run_unique [OF wf r(1) x(1)] by simp
  have np: "wr_StartedAt run \<noteq> None" using k by (simp add: known_gate_def)
  then have now: "wr_StartedAt r \<noteq> None" "wr_StartedBy r = wr_StartedBy run" "wr_Graph r = wr_Graph run"
    using run by (simp_all add: run_moves_def same_run_def)
  obtain y where y: "y \<in> set (rd_Steps d)" "step_moves cr y" using k by (auto simp: known_gate_def)
  then have "cr_ID y = cr_ID s" using s(1) by (simp add: step_moves_def)
  then have cr: "step_moves cr s" using y step_unique [OF wf sd y(1)] by simp
  have pol: "step_policy r s = step_policy run cr"
    using cr now(3) by (simp add: step_policy_def step_moves_def)
  obtain tally opens where c: "count_approval low orb run cr approver now = Inr (tally, opens)"
    and f: "f = approve_row approver now tally opens (approvalsRequired (step_policy run cr))"
    using dec True by (auto simp: decide_def try_bind_Inr step_policy_def)
  have "tally_ok low orb (step_policy run cr) (wr_StartedBy run) (cr_Approvals cr)" using k by (simp add: known_gate_def)
  note t = count_approval_ok [OF c p this]
  have "step_moves s (f s)" "cr_Approvals (f s) = tally" by (simp_all add: f approve_row_def step_moves_def)
  moreover have "gate_open (f s) \<Longrightarrow> opens" using s(3) by (auto simp: f approve_row_def gate_open_def split: if_splits)
  moreover have "step_policy r (f s) = step_policy r s" by (simp add: f approve_row_def step_policy_def)
  ultimately show ?thesis using t pol now by (simp add: gate_ok_def)
qed

lemma run_step_wf:
  assumes "run_step low orb d d'" and wf: "runs_wf low orb d"
  shows "runs_wf low orb d' \<and> runs_evolve d d'"
  using assms(1)
proof cases
  case (st_create dr org app action args snap r)
  from createRun_wf [OF wf this] show ?thesis .
next
  case (st_mark_run status org i message now)
  have "run_moves r (run_mark status message now r) \<and> run_times_ok (run_mark status message now r)"
    if "r \<in> set (rd_Runs d)" "run_is org i r \<and> in_flight (wr_Status r)" for r
    using that st_mark_run(2) run_mark_moves wf by (simp add: runs_wf_def)
  then show ?thesis
    unfolding st_mark_run(1) MarkRun_def or_not_found_def fst_conv by (rule update_runs_wf [OF wf])
next
  case (st_mark_step status org i message name now)
  have "step_moves s (step_mark status message name now s) \<and> gate_ok low orb r (step_mark status message name now s)"
    if "gate_ok low orb r s" for s r
    using st_mark_step(2) by (intro gate_ok_closed [OF that]) (simp_all add: step_mark_def step_moves_def)
  then show ?thesis
    unfolding st_mark_step(1) MarkComponentRun_def or_not_found_def fst_conv by (intro update_steps_wf [OF wf])
next
  case (st_settle status P message now)
  show ?thesis unfolding st_settle(1) by (intro update_steps_wf [OF wf] settle_gate_ok st_settle(2))
next
  case (st_columns f P now)
  have "step_moves s (f s) \<and> gate_ok low orb r (f s)" if "gate_ok low orb r s" for s r
    using st_columns(2) gate_ok_same [OF that, of "f s"] by (simp add: beside_def gate_open_def)
  then show ?thesis unfolding st_columns(1) by (intro update_steps_wf [OF wf])
next
  case (st_decide run cr approver approve now f resume)
  have "step_moves s (f s) \<and> gate_ok low orb r (f s)"
    if "s \<in> set (rd_Steps d)" "step_of_run (wr_OrganizationID run) (wr_ID run) s \<and> cr_ID s = cr_ID cr \<and> cr_Status s = StepAwaiting"
      "r \<in> set (rd_Runs d)" "cr_WorkflowRunID s = wr_ID r" "gate_ok low orb r s" for s r
    using decide_gate_ok [OF st_decide(2-4) _ _ _ wf that(1,3) _ that(5)] that(2,4) by (auto simp: step_of_run_def)
  then show ?thesis unfolding st_decide(1) by (intro update_steps_wf [OF wf]) blast
next
  case (st_cancel org i message now message')
  let ?d = "fst (update_runs (\<lambda>r. run_is org i r \<and> in_flight (wr_Status r)) (run_mark RunFailed message' now) d)"
  have one: "runs_wf low orb ?d \<and> runs_evolve d ?d"
    by (rule update_runs_wf [OF wf], rule run_mark_moves) (use wf in \<open>simp_all add: runs_wf_def\<close>)
  then have "runs_wf low orb d' \<and> runs_evolve ?d d'"
    unfolding st_cancel by (intro update_steps_wf settle_gate_ok) simp_all
  with one show ?thesis using runs_evolve_trans by blast
next
  case (st_job org i job)
  have "run_moves r (r\<lparr>wr_JobID := job\<rparr>) \<and> run_times_ok (r\<lparr>wr_JobID := job\<rparr>)" if "r \<in> set (rd_Runs d)" for r
    using that wf by (auto simp: runs_wf_def run_moves_def same_run_def run_times_ok_def)
  then show ?thesis unfolding st_job SetRunJob_def or_not_found_def fst_conv by (intro update_runs_wf [OF wf])
next
  case (st_started_by org i who)
  have "run_moves r (r\<lparr>wr_StartedBy := who\<rparr>) \<and> run_times_ok (r\<lparr>wr_StartedBy := who\<rparr>)"
    if "r \<in> set (rd_Runs d)" "run_is org i r" for r
    using that st_started_by(2) [OF that] wf
    by (auto simp: runs_wf_def run_moves_def same_run_def run_times_ok_def in_flight_def)
  then show ?thesis
    unfolding st_started_by(1) SetRunStartedBy_def or_not_found_def fst_conv by (rule update_runs_wf [OF wf])
next
  case (st_workflow apps stages comps)
  with wf show ?thesis by (simp add: runs_wf_def runs_evolve_def rows_move_refl run_moves_refl step_moves_refl)
qed

interpretation runs: atomic_steps "run_step low orb" "runs_wf low orb" runs_evolve for low orb
proof unfold_locales
  fix d d' assume "run_step low orb d d'" "runs_wf low orb d"
  from run_step_wf [OF this] show "runs_wf low orb d'" "runs_evolve d d'" by simp_all
qed (rule runs_evolve_refl, erule (1) runs_evolve_trans)

section \<open>Every operation is a sequence of atomic steps\<close>

abbreviation run_steps :: "(nat \<Rightarrow> nat) \<Rightarrow> (nat \<Rightarrow> nat) \<Rightarrow> RunDB \<Rightarrow> RunDB \<Rightarrow> bool" where
  "run_steps low orb \<equiv> (run_step low orb)\<^sup>*\<^sup>*"

lemmas one_step = rtranclp.rtrancl_into_rtrancl

lemma createRun_steps: "run_steps low orb d (fst (createRun dr d org app action args snap))"
proof (cases "createRun dr d org app action args snap")
  case (Pair d' r)
  show ?thesis
  proof (cases r)
    case (Inl e)
    with Pair have "d' = d" by (auto simp: createRun_def Let_def split: if_splits)
    with Pair show ?thesis by simp
  next
    case (Inr x)
    with Pair show ?thesis by (auto intro: st_create)
  qed
qed

lemma createRun_after:
  "interleaves (run_step low orb) itf \<Longrightarrow> run_steps low orb d d1 \<Longrightarrow>
    run_steps low orb d (fst (createRun dr (itf k d1) org app action args snap))"
  by (blast intro: rtranclp_trans interleaves_trans createRun_steps)

lemma beginRun_steps:
  assumes i: "interleaves (run_step low orb) itf"
  shows "run_steps low orb d (fst (beginRun derive dr itf d org app action adjust))"
proof -
  have 1: "run_steps low orb d (itf 0 d)" by (rule interleavesD [OF i])
  have 2: "run_steps low orb d (itf 1 (itf 0 d))" by (rule interleaves_trans [OF i 1])
  from 1 2 createRun_after [OF i 2, of _ 2] show ?thesis
    by (simp add: beginRun_def Let_def split: sum.split)
qed

lemma BeginStateOp_steps:
  assumes i: "interleaves (run_step low orb) itf"
  shows "run_steps low orb d (fst (BeginStateOp dr itf d org app componentID op))"
proof -
  have 1: "run_steps low orb d (itf 0 d)" by (rule interleavesD [OF i])
  have 2: "run_steps low orb d (itf 1 (itf 0 d))" by (rule interleaves_trans [OF i 1])
  from 1 2 createRun_after [OF i 2, of _ 2] show ?thesis
    by (simp add: BeginStateOp_def Let_def split: sum.split option.split)
qed

lemma BeginComponentRun_steps:
  assumes i: "interleaves (run_step low orb) itf"
  shows "run_steps low orb d (fst (BeginComponentRun derive dr itf d org app componentID action targets gitRef))"
proof -
  have 1: "run_steps low orb d (itf 0 d)" by (rule interleavesD [OF i])
  have 2: "run_steps low orb d (itf 1 (itf 0 d))" by (rule interleaves_trans [OF i 1])
  from 1 2 createRun_after [OF i 2, of _ 2] show ?thesis
    by (simp add: BeginComponentRun_def Let_def split: sum.split)
qed

lemma find_runD:
  assumes "find_run d org app i = Some r"
  shows "r \<in> set (rd_Runs d)" and "wr_ID r = i" and "wr_OrganizationID r = org" and "wr_ApplicationID r = app"
proof -
  have "r \<in> set (rd_Runs d) \<and> run_is org i r \<and> wr_ApplicationID r = app"
    using assms by (auto simp: find_run_def find_Some_iff)
  then show "r \<in> set (rd_Runs d)" "wr_ID r = i" "wr_OrganizationID r = org" "wr_ApplicationID r = app"
    by (simp_all add: run_is_def)
qed

lemma find_stepD:
  assumes "find_step d org i crID = Some s"
  shows "s \<in> set (rd_Steps d)" and "step_of_run org i s" and "cr_ID s = crID"
proof -
  have "s \<in> set (rd_Steps d) \<and> step_of_run org i s \<and> cr_ID s = crID"
    using assms by (auto simp: find_step_def find_Some_iff)
  then show "s \<in> set (rd_Steps d)" "step_of_run org i s" "cr_ID s = crID" by simp_all
qed

lemma read_gate_known:
  assumes wf: "runs_wf low orb d" and i: "interleaves (run_step low orb) itf"
    and run: "find_run d org app runID = Some run" "wr_Status run = RunAwaiting"
    and cr: "find_step (itf 0 d) org runID crID = Some cr"
  shows "known_gate low orb (itf 1 (itf 0 d)) run cr"
proof -
  have s1: "run_steps low orb d (itf 0 d)" by (rule interleavesD [OF i])
  have s2: "run_steps low orb (itf 0 d) (itf 1 (itf 0 d))" by (rule interleavesD [OF i])
  note wf1 = runs.reach_inv [OF s1 wf]
  note e1 = runs.reach_rel [OF s1 wf] and e2 = runs.reach_rel [OF s2 wf1]
  note fr = find_runD [OF run(1)] and fc = find_stepD [OF cr]
  obtain r1 where r1: "r1 \<in> set (rd_Runs (itf 0 d))" "run_moves run r1"
    using rows_moveD [of run_moves, OF _ fr(1)] e1 by (auto simp: runs_evolve_def)
  have "\<exists>r \<in> set (rd_Runs (itf 1 (itf 0 d))). run_moves run r"
    using rows_moveD [of run_moves, OF _ fr(1)] runs_evolve_trans [OF e1 e2] by (auto simp: runs_evolve_def)
  moreover have "\<exists>s \<in> set (rd_Steps (itf 1 (itf 0 d))). step_moves cr s"
    using rows_moveD [of step_moves, OF _ fc(1)] e2 by (auto simp: runs_evolve_def)
  moreover obtain r where r: "r \<in> set (rd_Runs (itf 0 d))" "cr_WorkflowRunID cr = wr_ID r" "gate_ok low orb r cr"
    using wf1 fc(1) by (auto simp: runs_wf_def)
  moreover have "r = r1"
    using run_unique [OF wf1 r1(1) r(1)] r(2) r1(2) fr(2) fc(2) by (simp add: run_moves_def same_run_def step_of_run_def)
  moreover have started: "wr_StartedAt run \<noteq> None" using wf fr(1) run(2) by (simp add: runs_wf_def run_times_ok_def)
  moreover have "step_policy r1 cr = step_policy run cr" "wr_StartedBy r1 = wr_StartedBy run"
    using r1(2) started by (simp_all add: run_moves_def same_run_def step_policy_def)
  ultimately show ?thesis
    unfolding known_gate_def using fr fc(2) by (simp add: gate_ok_def step_of_run_def)
qed

lemma ApproveComponentRun_steps:
  assumes i: "interleaves (run_step low orb) itf" and wf: "runs_wf low orb d" and p: "plain_approver low orb approver"
  shows "run_steps low orb d (fst (ApproveComponentRun low orb itf d org app runID crID approver decision now))"
    (is "run_steps low orb d (fst ?op)")
proof (cases "\<exists>run cr f resume. (decision = ''approve'' \<or> decision = ''reject'') \<and> find_run d org app runID = Some run \<and>
    wr_Status run = RunAwaiting \<and> find_step (itf 0 d) org runID crID = Some cr \<and> cr_Status cr = StepAwaiting \<and>
    decide low orb run cr approver (decision = ''approve'') now = Inr (f, resume)")
  case True
  then obtain run cr f resume where on: "decision = ''approve'' \<or> decision = ''reject''" "find_run d org app runID = Some run"
    "wr_Status run = RunAwaiting" "find_step (itf 0 d) org runID crID = Some cr" "cr_Status cr = StepAwaiting"
    "decide low orb run cr approver (decision = ''approve'') now = Inr (f, resume)" by blast
  let ?d1 = "itf 1 (itf 0 d)"
  let ?u = "update_steps (\<lambda>s. step_of_run org runID s \<and> cr_ID s = crID \<and> cr_Status s = StepAwaiting) f now ?d1"
  have "run_step low orb ?d1 (fst ?u)"
    using st_decide [OF read_gate_known [OF wf i on(2-4)] p on(6)] find_runD [OF on(2)] find_stepD [OF on(4)] by simp
  then have u: "run_steps low orb d (fst ?u)"
    by (rule one_step [OF interleaves_trans [OF i interleavesD [OF i]]])
  have "fst ?op = (if snd ?u = 0 then fst ?u else itf 2 (fst ?u))"
    using on by (auto simp: ApproveComponentRun_def Let_def split_beta)
  with u interleaves_trans [OF i u, of 2] show ?thesis by simp
next
  case False
  then have "fst ?op = d \<or> fst ?op = itf 0 d"
    by (auto simp: ApproveComponentRun_def Let_def split: option.split sum.split)
  with interleavesD [OF i] show ?thesis by auto
qed

lemma CancelRun_steps:
  assumes i: "interleaves (run_step low orb) itf"
  shows "run_steps low orb d (fst (CancelRun itf d org app runID now))" (is "run_steps low orb d (fst ?op)")
proof -
  let ?u = "update_runs (\<lambda>r. run_is org runID r \<and> in_flight (wr_Status r)) (run_mark RunFailed ''run cancelled'' now) (itf 0 d)"
  let ?c = "fst (update_steps (\<lambda>s. step_of_run org runID s \<and> step_open (cr_Status s))
      (settle StepFailed ''cancelled (run cancelled)'' now) now (fst ?u))"
  have 0: "run_steps low orb d (itf 0 d)" by (rule interleavesD [OF i])
  have 1: "run_steps low orb d ?c" by (rule one_step [OF 0 st_cancel])
  have "fst ?op \<in> {d, itf 0 d, itf 1 ?c}"
    by (auto simp: CancelRun_def Let_def split_beta split: option.split)
  with 0 interleaves_trans [OF i 1, of 1] show ?thesis by auto
qed

lemma MarkRun_steps: "status \<noteq> RunAwaiting \<Longrightarrow> run_steps low orb d (fst (MarkRun d org i status message now))"
  by (blast intro: st_mark_run)

lemma settle_steps:
  "status \<noteq> StepPending \<Longrightarrow> run_steps low orb d (fst (update_steps P (settle status message now) now d))"
  by (blast intro: st_settle)

lemma reap_run_steps:
  assumes i: "interleaves (run_step low orb) itf"
  shows "run_steps low orb d (fst (reap_run itf k now run d))"
proof -
  let ?m = "MarkRun d (wr_OrganizationID run) (wr_ID run) RunFailed ''run abandoned: no live worker and exceeded max lifetime'' now"
  have m: "run_steps low orb d (fst ?m)" by (rule MarkRun_steps) simp
  note s = rtranclp_trans [OF interleaves_trans [OF i m, of k] settle_steps [of StepFailed low orb]]
  show ?thesis
  proof (cases "snd ?m")
    case (Inl e)
    with m show ?thesis by (simp add: reap_run_def split_beta)
  next
    case (Inr u)
    then show ?thesis unfolding reap_run_def split_beta by (simp only: sum.case fst_conv) (rule s, simp)
  qed
qed

lemma reap_loop_steps:
  assumes i: "interleaves (run_step low orb) itf"
  shows "run_steps low orb d (fst (reap_loop itf k live now runs d))"
proof (induction runs arbitrary: k d)
  case (Cons run rest)
  have "run_steps low orb d (fst (reap_run itf (Suc k) now run (itf k d)))"
    by (rule rtranclp_trans [OF interleavesD [OF i] reap_run_steps [OF i]])
  from rtranclp_trans [OF this Cons.IH] Cons.IH show ?case
    by (auto simp: split_beta Let_def split: option.split)
qed simp

lemma ReapStuckRuns_steps:
  "interleaves (run_step low orb) itf \<Longrightarrow> run_steps low orb d (fst (ReapStuckRuns itf live maxLifetime now d))"
  unfolding ReapStuckRuns_def by (rule reap_loop_steps)

lemma expire_steps_steps:
  assumes i: "interleaves (run_step low orb) itf"
  shows "run_steps low orb d (fst (expire_steps itf k now run steps d))"
proof (induction steps arbitrary: k d)
  case (Cons cr rest)
  have "run_steps low orb d (fst (update_steps P (settle StepFailed m now) now (itf k d)))" for P m
    by (rule rtranclp_trans [OF interleavesD [OF i] settle_steps]) simp
  from rtranclp_trans [OF this Cons.IH] Cons.IH show ?case
    by (simp add: split_beta Let_def)
qed simp

lemma expire_runs_steps:
  assumes i: "interleaves (run_step low orb) itf"
  shows "run_steps low orb d (fst (expire_runs itf k now runs d))"
proof (induction runs arbitrary: k d)
  case (Cons run rest)
  let ?p = "filter (\<lambda>s. step_of_run (wr_OrganizationID run) (wr_ID run) s \<and> cr_Status s = StepAwaiting) (rd_Steps (itf k d))"
  let ?e = "expire_steps itf (Suc k) now run ?p (itf k d)"
  let ?k = "snd (snd ?e)"
  let ?m = "MarkRun (itf ?k (fst ?e)) (wr_OrganizationID run) (wr_ID run) RunFailed ''approval timed out'' now"
  let ?s = "SettleStuckComponentRuns (itf (Suc ?k) (fst ?m)) (wr_OrganizationID run) (wr_ID run) ''skipped (approval timed out)'' now"
  have e: "run_steps low orb d (fst ?e)"
    by (rule rtranclp_trans [OF interleavesD [OF i] expire_steps_steps [OF i]])
  have m: "run_steps low orb d (fst ?m)"
    by (rule rtranclp_trans [OF interleaves_trans [OF i e] MarkRun_steps]) simp
  have s: "run_steps low orb d (fst ?s)"
    unfolding SettleStuckComponentRuns_def by (rule rtranclp_trans [OF interleaves_trans [OF i m] settle_steps]) simp
  show ?case
  proof (cases "fst (snd ?e)")
    case False
    with rtranclp_trans [OF e Cons.IH] show ?thesis by (simp add: split_beta Let_def)
  next
    case True
    with rtranclp_trans [OF m Cons.IH] rtranclp_trans [OF s Cons.IH] show ?thesis
      by (cases "snd ?m") (simp_all add: split_beta Let_def)
  qed
qed simp

lemma ReapExpiredApprovals_steps:
  "interleaves (run_step low orb) itf \<Longrightarrow> run_steps low orb d (fst (ReapExpiredApprovals itf now d))"
  unfolding ReapExpiredApprovals_def by (rule expire_runs_steps)

lemma SetRunJob_steps: "run_steps low orb d (fst (SetRunJob d org i job))"
  by (blast intro: st_job)

lemma schedule_app_steps:
  assumes i: "interleaves (run_step low orb) itf"
  shows "run_steps low orb d (fst (schedule_app derive dr itf enqueue now app d))"
proof -
  let ?b = "BeginRun derive dr (\<lambda>k. itf (Suc k)) (itf 0 d) (ar_OrganizationID app) (ar_ID app) ActionDrift"
  have b: "run_steps low orb d (fst ?b)"
    unfolding BeginRun_def by (rule rtranclp_trans [OF interleavesD [OF i] beginRun_steps [OF interleaves_shift [OF i]]])
  have 4: "run_steps low orb d (itf 4 (fst ?b))" by (rule interleaves_trans [OF i b])
  have "run_steps low orb d (fst (MarkRun (itf 4 (fst ?b)) org x RunFailed m now))" for org x m
    by (rule rtranclp_trans [OF 4 MarkRun_steps]) simp
  moreover have "run_steps low orb d (fst (SetRunJob (itf 4 (fst ?b)) org x m))" for org x m
    by (rule rtranclp_trans [OF 4 SetRunJob_steps])
  ultimately show ?thesis using b by (simp add: schedule_app_def split_beta split: sum.split)
qed

lemma schedule_apps_steps:
  "(\<And>k. interleaves (run_step low orb) (itf k)) \<Longrightarrow>
    run_steps low orb d (fst (schedule_apps derive dr itf enqueue now apps d))"
proof (induction apps arbitrary: dr itf d)
  case (Cons app apps)
  from rtranclp_trans [OF schedule_app_steps [OF Cons.prems] Cons.IH [OF Cons.prems]] show ?case
    by (simp add: split_beta Let_def)
qed simp

end
