(* ===== verification/RunTrace.thy ===== *)
theory RunTrace
  imports Runs_Props
begin

text \<open>Sequences of requests to the run service, each with what others do between its statements.\<close>

datatype run_op =
    OpBeginRun RunDraws uuid uuid string
  | OpBeginStateOp RunDraws uuid uuid uuid StateOp
  | OpBeginComponentRun RunDraws uuid uuid uuid string "string list" string
  | OpSetRunStartedBy uuid uuid string
  | OpSetRunJob uuid uuid string
  | OpMarkRun uuid uuid run_status string
  | OpMarkComponentRun uuid uuid step_status string string
  | OpSetOutputs uuid uuid string string
  | OpSetPolicy uuid uuid string
  | OpSetLogs uuid uuid string string string
  | OpSettle uuid uuid string
  | OpApprove uuid uuid uuid uuid string string
  | OpCancel uuid uuid uuid
  | OpReapStuck "(string \<Rightarrow> bool option) option" int
  | OpReapExpired
  | OpSchedule "nat \<Rightarrow> RunDraws" "nat \<Rightarrow> run_itf" "uuid \<Rightarrow> string + string"

text \<open>The libraries under the service: derived ids, the lower-case table, the folding orbits.\<close>

record RunLib =
  rl_Derive :: "uuid \<Rightarrow> uuid"
  rl_Low :: "nat \<Rightarrow> nat"
  rl_Orb :: "nat \<Rightarrow> nat"

fun serve_op :: "RunLib \<Rightarrow> run_itf \<Rightarrow> int \<Rightarrow> run_op \<Rightarrow> RunDB \<Rightarrow> RunDB" where
  "serve_op lib itf now (OpBeginRun dr org app action) d = fst (BeginRun (rl_Derive lib) dr itf d org app action)"
| "serve_op lib itf now (OpBeginStateOp dr org app c op) d = fst (BeginStateOp dr itf d org app c op)"
| "serve_op lib itf now (OpBeginComponentRun dr org app c action targets ref) d =
     fst (BeginComponentRun (rl_Derive lib) dr itf d org app c action targets ref)"
| "serve_op lib itf now (OpSetRunStartedBy org i who) d = fst (SetRunStartedBy d org i who)"
| "serve_op lib itf now (OpSetRunJob org i job) d = fst (SetRunJob d org i job)"
| "serve_op lib itf now (OpMarkRun org i status message) d = fst (MarkRun d org i status message now)"
| "serve_op lib itf now (OpMarkComponentRun org i status message name) d = fst (MarkComponentRun d org i status message name now)"
| "serve_op lib itf now (OpSetOutputs org i outputs resources) d = fst (SetComponentRunOutputs d org i outputs resources now)"
| "serve_op lib itf now (OpSetPolicy org i verdict) d = fst (SetComponentRunPolicy d org i verdict now)"
| "serve_op lib itf now (OpSetLogs org i logs chart vals) d = fst (SetComponentRunLogs d org i logs chart vals now)"
| "serve_op lib itf now (OpSettle org i message) d = fst (SettleStuckComponentRuns d org i message now)"
| "serve_op lib itf now (OpApprove org app i c approver decision) d =
     fst (ApproveComponentRun (rl_Low lib) (rl_Orb lib) itf d org app i c approver decision now)"
| "serve_op lib itf now (OpCancel org app i) d = fst (CancelRun itf d org app i now)"
| "serve_op lib itf now (OpReapStuck live maxLifetime) d = fst (ReapStuckRuns itf live maxLifetime now d)"
| "serve_op lib itf now OpReapExpired d = fst (ReapExpiredApprovals itf now d)"
| "serve_op lib itf now (OpSchedule drs itfs enqueue) d = fst (ScheduleDueDriftChecks (rl_Derive lib) drs itfs enqueue now d)"

text \<open>
  What the callers keep to: who started a run is recorded before it starts, only a run that started is
  parked, no step is marked pending, and an approver is named by one plain address.
\<close>

fun op_contract :: "RunLib \<Rightarrow> run_op \<Rightarrow> RunDB \<Rightarrow> bool" where
  "op_contract lib (OpSetRunStartedBy org i who) d = list_all (\<lambda>r. run_is org i r \<longrightarrow> wr_StartedAt r = None) (rd_Runs d)"
| "op_contract lib (OpMarkRun org i status message) d =
     (status = RunAwaiting \<longrightarrow> list_all (\<lambda>r. run_is org i r \<longrightarrow> wr_StartedAt r \<noteq> None) (rd_Runs d))"
| "op_contract lib (OpMarkComponentRun org i status message name) d = (status \<noteq> StepPending)"
| "op_contract lib (OpApprove org app i c approver decision) d = plain_approver (rl_Low lib) (rl_Orb lib) approver"
| "op_contract lib _ d = True"

text \<open>A sweep over applications has others between the statements of each.\<close>

fun sweep_fair :: "RunLib \<Rightarrow> run_op \<Rightarrow> bool" where
  "sweep_fair lib (OpSchedule drs itfs enqueue) \<longleftrightarrow> (\<forall>k. interleaves (run_step (rl_Low lib) (rl_Orb lib)) (itfs k))"
| "sweep_fair lib _ \<longleftrightarrow> True"

fun serve_ops :: "RunLib \<Rightarrow> (run_itf \<times> int \<times> run_op) list \<Rightarrow> RunDB \<Rightarrow> RunDB" where
  "serve_ops lib [] d = d"
| "serve_ops lib ((itf, now, rq) # rest) d = serve_ops lib rest (serve_op lib itf now rq d)"

fun fair_ops :: "RunLib \<Rightarrow> (run_itf \<times> int \<times> run_op) list \<Rightarrow> RunDB \<Rightarrow> bool" where
  "fair_ops lib [] d \<longleftrightarrow> True"
| "fair_ops lib ((itf, now, rq) # rest) d \<longleftrightarrow>
     interleaves (run_step (rl_Low lib) (rl_Orb lib)) itf \<and> sweep_fair lib rq \<and> op_contract lib rq d \<and>
     fair_ops lib rest (serve_op lib itf now rq d)"

lemma serve_ops_append: "serve_ops lib (xs @ ys) d = serve_ops lib ys (serve_ops lib xs d)"
  by (induction lib xs d rule: serve_ops.induct) auto

lemma fair_ops_append: "fair_ops lib (xs @ ys) d \<longleftrightarrow> fair_ops lib xs d \<and> fair_ops lib ys (serve_ops lib xs d)"
  by (induction lib xs d rule: fair_ops.induct) auto

lemma columns_steps: "beside f \<Longrightarrow> run_steps low orb d (fst (update_steps P f now d))"
  by (blast intro: st_columns)

lemma serve_op_steps:
  assumes wf: "runs_wf (rl_Low lib) (rl_Orb lib) d" and i: "interleaves (run_step (rl_Low lib) (rl_Orb lib)) itf"
    and f: "sweep_fair lib rq" and c: "op_contract lib rq d"
  shows "run_steps (rl_Low lib) (rl_Orb lib) d (serve_op lib itf now rq d)"
proof (cases rq)
  case (OpBeginRun dr org app action)
  then show ?thesis by (simp add: BeginRun_def beginRun_steps [OF i])
next
  case (OpBeginStateOp dr org app c op)
  then show ?thesis by (simp add: BeginStateOp_steps [OF i])
next
  case (OpBeginComponentRun dr org app c action targets ref)
  then show ?thesis by (simp add: BeginComponentRun_steps [OF i])
next
  case (OpSetRunStartedBy org i who)
  then have "run_step (rl_Low lib) (rl_Orb lib) d (serve_op lib itf now rq d)"
    using c by (auto intro: st_started_by simp: list_all_iff)
  then show ?thesis by blast
next
  case (OpSetRunJob org i job)
  then show ?thesis by (simp add: SetRunJob_steps)
next
  case (OpMarkRun org i status message)
  then have "run_step (rl_Low lib) (rl_Orb lib) d (serve_op lib itf now rq d)"
    using c by (auto intro!: st_mark_run simp: list_all_iff)
  then show ?thesis by blast
next
  case (OpMarkComponentRun org i status message name)
  then have "run_step (rl_Low lib) (rl_Orb lib) d (serve_op lib itf now rq d)"
    using c by (auto intro: st_mark_step)
  then show ?thesis by blast
next
  case (OpSetOutputs org i outputs resources)
  then show ?thesis
    by (simp add: SetComponentRunOutputs_def or_not_found_def columns_steps beside_def step_moves_def)
next
  case (OpSetPolicy org i verdict)
  then show ?thesis
    by (simp add: SetComponentRunPolicy_def or_not_found_def columns_steps beside_def step_moves_def)
next
  case (OpSetLogs org i logs chart vals)
  then show ?thesis
    by (simp add: SetComponentRunLogs_def or_not_found_def columns_steps beside_def step_moves_def)
next
  case (OpSettle org i message)
  then show ?thesis by (simp add: SettleStuckComponentRuns_def settle_steps)
next
  case (OpApprove org app i' c' approver decision)
  then show ?thesis using c by (simp add: ApproveComponentRun_steps [OF i wf])
next
  case (OpCancel org app i')
  then show ?thesis by (simp add: CancelRun_steps [OF i])
next
  case (OpReapStuck live maxLifetime)
  then show ?thesis by (simp add: ReapStuckRuns_steps [OF i])
next
  case OpReapExpired
  then show ?thesis by (simp add: ReapExpiredApprovals_steps [OF i])
next
  case (OpSchedule drs itfs enqueue)
  then show ?thesis using f by (simp add: ScheduleDueDriftChecks_def schedule_apps_steps)
qed

lemma serve_ops_steps:
  "runs_wf (rl_Low lib) (rl_Orb lib) d \<Longrightarrow> fair_ops lib ops d \<Longrightarrow> run_steps (rl_Low lib) (rl_Orb lib) d (serve_ops lib ops d)"
proof (induction lib ops d rule: serve_ops.induct)
  case (2 lib itf now rq rest d)
  then have one: "run_steps (rl_Low lib) (rl_Orb lib) d (serve_op lib itf now rq d)"
    by (intro serve_op_steps) simp_all
  from rtranclp_trans [OF one 2(1) [OF runs.reach_inv [OF one 2(2)]]] 2(3) show ?case by simp
qed simp

text \<open>Before the first run.\<close>

definition no_runs :: "RunDB \<Rightarrow> bool" where
  "no_runs d \<longleftrightarrow> rd_Runs d = [] \<and> rd_Steps d = []"

lemma no_runs_wf: "no_runs d \<Longrightarrow> runs_wf low orb d"
  by (simp add: no_runs_def runs_wf_def)

lemma serve_ops_wf: "no_runs d \<Longrightarrow> fair_ops lib ops d \<Longrightarrow> runs_wf (rl_Low lib) (rl_Orb lib) (serve_ops lib ops d)"
  by (rule runs.reach_inv [OF serve_ops_steps no_runs_wf]) (simp_all add: no_runs_wf)

lemma serve_ops_evolve:
  "no_runs d \<Longrightarrow> fair_ops lib (before @ later) d \<Longrightarrow>
    runs_evolve (serve_ops lib before d) (serve_ops lib (before @ later) d)"
  unfolding fair_ops_append serve_ops_append
  by (rule runs.reach_rel [OF serve_ops_steps]) (auto simp: serve_ops_wf)

end
