(* ===== verification/RunExpiry.thy ===== *)
theory RunExpiry
  imports RunTrace
begin

text \<open>The sweeps when no other request runs between their statements: what each does to the rows of one run.\<close>

abbreviation idle :: run_itf where
  "idle \<equiv> \<lambda>k d. d"

definition run_rows :: "uuid \<Rightarrow> RunDB \<Rightarrow> RunRow list \<times> StepRun list" where
  "run_rows i d = (filter (\<lambda>r. wr_ID r = i) (rd_Runs d), filter (\<lambda>s. cr_WorkflowRunID s = i) (rd_Steps d))"

definition step_keys :: "RunDB \<Rightarrow> (uuid \<times> uuid) list" where
  "step_keys d = map (\<lambda>s. (cr_ID s, cr_WorkflowRunID s)) (rd_Steps d)"

lemma update_runs_sel [simp]:
  "rd_Steps (fst (update_runs P f d)) = rd_Steps d"
  "rd_Runs (fst (update_runs P f d)) = map (\<lambda>r. if P r then f r else r) (rd_Runs d)"
  "snd (update_runs P f d) = length (filter P (rd_Runs d))"
  by (simp_all add: update_runs_def update_rows_def)

lemma update_steps_sel [simp]:
  "rd_Runs (fst (update_steps P f now d)) = rd_Runs d"
  "rd_Steps (fst (update_steps P f now d)) = map (\<lambda>s. if P s then (f s)\<lparr>cr_UpdatedAt := now\<rparr> else s) (rd_Steps d)"
  by (simp_all add: update_steps_def update_rows_def)

lemma filter_map_same: "(\<And>x. x \<in> set xs \<Longrightarrow> P (f x) = P x) \<Longrightarrow> (\<And>x. x \<in> set xs \<Longrightarrow> P x \<Longrightarrow> f x = x) \<Longrightarrow> filter P (map f xs) = filter P xs"
  by (induction xs) auto

text \<open>An update away from a run leaves its rows.\<close>

lemma update_runs_frame:
  assumes "\<And>r. wr_ID (f r) = wr_ID r" and "\<And>r. P r \<Longrightarrow> wr_ID r \<noteq> i"
  shows "run_rows i (fst (update_runs P f d)) = run_rows i d" and "step_keys (fst (update_runs P f d)) = step_keys d"
proof -
  show "run_rows i (fst (update_runs P f d)) = run_rows i d"
    unfolding run_rows_def update_runs_sel by (subst filter_map_same) (use assms in auto)
  show "step_keys (fst (update_runs P f d)) = step_keys d" by (simp add: step_keys_def)
qed

lemma update_steps_keys:
  assumes "\<And>s. cr_ID (f s) = cr_ID s \<and> cr_WorkflowRunID (f s) = cr_WorkflowRunID s"
  shows "step_keys (fst (update_steps P f now d)) = step_keys d"
  using assms by (simp add: step_keys_def)

lemma update_steps_frame:
  assumes "\<And>s. cr_ID (f s) = cr_ID s \<and> cr_WorkflowRunID (f s) = cr_WorkflowRunID s"
    and "\<And>s. s \<in> set (rd_Steps d) \<Longrightarrow> P s \<Longrightarrow> cr_WorkflowRunID s \<noteq> i"
  shows "run_rows i (fst (update_steps P f now d)) = run_rows i d"
  unfolding run_rows_def update_steps_sel by (subst filter_map_same) (use assms in auto)

section \<open>The approval sweep\<close>

definition expire_gate :: "int \<Rightarrow> RunRow \<Rightarrow> StepRun \<Rightarrow> RunDB \<Rightarrow> RunDB" where
  "expire_gate now run cr d =
     fst (update_steps (\<lambda>s. cr_ID s = cr_ID cr \<and> cr_Status s = StepAwaiting) (settle StepFailed (timeout_message run cr) now) now d)"

definition expired_gates :: "int \<Rightarrow> RunRow \<Rightarrow> RunDB \<Rightarrow> StepRun list" where
  "expired_gates now run d =
     filter (\<lambda>s. (step_of_run (wr_OrganizationID run) (wr_ID run) s \<and> cr_Status s = StepAwaiting) \<and> gate_expired run now s) (rd_Steps d)"

definition expire_run :: "int \<Rightarrow> RunRow \<Rightarrow> RunDB \<Rightarrow> RunDB" where
  "expire_run now run d =
     (if expired_gates now run d = [] then d
      else
        let m = MarkRun (List.fold (expire_gate now run) (expired_gates now run d) d) (wr_OrganizationID run) (wr_ID run) RunFailed
              ''approval timed out'' now
        in case snd m of
          Inl _ \<Rightarrow> fst m
        | Inr _ \<Rightarrow> fst (SettleStuckComponentRuns (fst m) (wr_OrganizationID run) (wr_ID run) ''skipped (approval timed out)'' now))"

lemma expire_steps_idle:
  "fst (expire_steps idle k now run crs d) = List.fold (expire_gate now run) (filter (gate_expired run now) crs) d"
  "fst (snd (expire_steps idle k now run crs d)) \<longleftrightarrow> filter (gate_expired run now) crs \<noteq> []"
  by (induction crs arbitrary: k d) (simp_all add: split_beta Let_def expire_gate_def)

lemma expire_runs_idle: "fst (expire_runs idle k now rs d) = List.fold (expire_run now) rs d"
proof (induction rs arbitrary: k d)
  case (Cons run rs)
  have "filter (gate_expired run now) (filter (\<lambda>s. step_of_run (wr_OrganizationID run) (wr_ID run) s \<and> cr_Status s = StepAwaiting)
      (rd_Steps d)) = expired_gates now run d"
    by (simp add: expired_gates_def)
  with Cons show ?case
    by (simp add: expire_run_def expire_steps_idle split_beta Let_def split: sum.split)
qed simp

lemma expire_gate_keys [simp]: "step_keys (expire_gate now run cr d) = step_keys d" "rd_Runs (expire_gate now run cr d) = rd_Runs d"
  unfolding expire_gate_def by (rule update_steps_keys, simp add: settle_def) simp

lemma fold_gate_keys [simp]:
  "step_keys (List.fold (expire_gate now run) crs d) = step_keys d" "rd_Runs (List.fold (expire_gate now run) crs d) = rd_Runs d"
  by (induction crs arbitrary: d) simp_all

lemma key_unique:
  assumes "distinct (map fst (step_keys d))" and "s \<in> set (rd_Steps d)" and "(cr_ID s, w) \<in> set (step_keys d)"
  shows "cr_WorkflowRunID s = w"
proof -
  have "(cr_ID s, cr_WorkflowRunID s) \<in> set (step_keys d)" using assms(2) by (simp add: step_keys_def)
  from eq_key_imp_eq_value [OF assms(1) this assms(3)] show ?thesis .
qed

lemma fold_gate_frame:
  "distinct (map fst (step_keys d)) \<Longrightarrow> (\<And>cr. cr \<in> set crs \<Longrightarrow> (cr_ID cr, w) \<in> set (step_keys d)) \<Longrightarrow> w \<noteq> i \<Longrightarrow>
    run_rows i (List.fold (expire_gate now run) crs d) = run_rows i d"
proof (induction crs arbitrary: d)
  case (Cons cr crs)
  have away: "cr_WorkflowRunID s \<noteq> i" if "s \<in> set (rd_Steps d)" "cr_ID s = cr_ID cr \<and> cr_Status s = StepAwaiting" for s
    using key_unique [OF Cons.prems(1) that(1), of w] that(2) Cons.prems(2) [of cr] Cons.prems(3) by simp
  have "run_rows i (expire_gate now run cr d) = run_rows i d"
    unfolding expire_gate_def by (rule update_steps_frame) (simp_all add: settle_def away)
  moreover have "run_rows i (List.fold (expire_gate now run) crs (expire_gate now run cr d)) = run_rows i (expire_gate now run cr d)"
    using Cons.prems by (intro Cons.IH) simp_all
  ultimately show ?case by simp
qed simp

lemma expire_run_keys: "step_keys (expire_run now run d) = step_keys d"
proof -
  have m: "step_keys (fst (MarkRun e org i st msg now)) = step_keys e" for e org i st msg
    unfolding MarkRun_def or_not_found_def fst_conv by (simp add: step_keys_def)
  have "step_keys (fst (SettleStuckComponentRuns e org i msg now)) = step_keys e" for e org i msg
    unfolding SettleStuckComponentRuns_def by (rule update_steps_keys) (simp add: settle_def)
  with m show ?thesis by (simp add: expire_run_def Let_def split: sum.split)
qed

lemma expired_gatesD:
  "cr \<in> set (expired_gates now run d) \<Longrightarrow> (cr_ID cr, wr_ID run) \<in> set (step_keys d)"
  by (auto simp: expired_gates_def step_of_run_def step_keys_def)

lemma expire_run_frame:
  assumes keys: "distinct (map fst (step_keys d))" and i: "wr_ID run \<noteq> i"
  shows "run_rows i (expire_run now run d) = run_rows i d"
proof -
  let ?e = "List.fold (expire_gate now run) (expired_gates now run d) d"
  have e: "run_rows i ?e = run_rows i d"
    by (rule fold_gate_frame [OF keys expired_gatesD i])
  have m: "run_rows i (fst (MarkRun x (wr_OrganizationID run) (wr_ID run) st msg now)) = run_rows i x" for x st msg
    unfolding MarkRun_def or_not_found_def fst_conv
    by (rule update_runs_frame) (use i in \<open>auto simp: run_is_def run_mark_def\<close>)
  have "run_rows i (fst (SettleStuckComponentRuns x (wr_OrganizationID run) (wr_ID run) msg now)) = run_rows i x" for x msg
    unfolding SettleStuckComponentRuns_def
    by (rule update_steps_frame) (use i in \<open>auto simp: step_of_run_def settle_def\<close>)
  with e m show ?thesis by (simp add: expire_run_def Let_def split: sum.split)
qed

lemma fold_expire_frame:
  "distinct (map fst (step_keys d)) \<Longrightarrow> i \<notin> wr_ID ` set rs \<Longrightarrow> run_rows i (List.fold (expire_run now) rs d) = run_rows i d"
  by (induction rs arbitrary: d) (auto simp: expire_run_keys expire_run_frame)

lemma fold_expire_keys: "step_keys (List.fold (expire_run now) rs d) = step_keys d"
  by (induction rs arbitrary: d) (simp_all add: expire_run_keys)

text \<open>A run one of whose gates has timed out is settled, and so are its steps.\<close>

lemma expire_run_settles:
  assumes run: "run \<in> set (rd_Runs d)" "wr_Status run = RunAwaiting" and e: "expired_gates now run d \<noteq> []"
  shows "run_mark RunFailed ''approval timed out'' now run \<in> set (rd_Runs (expire_run now run d))"
    and "\<And>s. s \<in> set (rd_Steps (expire_run now run d)) \<Longrightarrow> step_of_run (wr_OrganizationID run) (wr_ID run) s \<Longrightarrow>
      \<not> step_open (cr_Status s)"
proof -
  let ?e = "List.fold (expire_gate now run) (expired_gates now run d) d"
  let ?m = "MarkRun ?e (wr_OrganizationID run) (wr_ID run) RunFailed ''approval timed out'' now"
  let ?P = "\<lambda>r. run_is (wr_OrganizationID run) (wr_ID run) r \<and> in_flight (wr_Status r)"
  have P: "?P run" using run(2) by (simp add: run_is_def in_flight_def)
  then have hit: "filter ?P (rd_Runs d) \<noteq> []" using run(1) by (auto simp: filter_empty_conv)
  then have ok: "snd ?m = Inr ()" by (simp add: MarkRun_def or_not_found_def)
  have x: "expire_run now run d = fst (SettleStuckComponentRuns (fst ?m) (wr_OrganizationID run) (wr_ID run)
      ''skipped (approval timed out)'' now)"
    using e ok by (simp add: expire_run_def Let_def)
  have "rd_Runs (expire_run now run d) = map (\<lambda>r. if ?P r then run_mark RunFailed ''approval timed out'' now r else r) (rd_Runs d)"
    by (simp add: x SettleStuckComponentRuns_def MarkRun_def or_not_found_def)
  with run(1) P show "run_mark RunFailed ''approval timed out'' now run \<in> set (rd_Runs (expire_run now run d))"
    by (auto intro: rev_image_eqI)
  fix s assume s: "s \<in> set (rd_Steps (expire_run now run d))" "step_of_run (wr_OrganizationID run) (wr_ID run) s"
  have "step_of_run org i (settle st msg now y) = step_of_run org i y" for org i st msg y
    by (simp add: step_of_run_def settle_def)
  with s show "\<not> step_open (cr_Status s)"
    unfolding x SettleStuckComponentRuns_def update_steps_sel set_map
    by (elim imageE) (auto simp: settle_def step_open_def step_of_run_def split: if_splits)
qed

end
