(* ===== verification/RunSingle.thy ===== *)
theory RunSingle
  imports RunExpiry
begin

text \<open>Runs of one application at a time, when requests are served one after another.\<close>

definition single_flight :: "RunDB \<Rightarrow> bool" where
  "single_flight d \<longleftrightarrow>
     (\<forall>i < length (rd_Runs d). \<forall>j < length (rd_Runs d).
        wr_OrganizationID (rd_Runs d ! i) = wr_OrganizationID (rd_Runs d ! j) \<and>
        wr_ApplicationID (rd_Runs d ! i) = wr_ApplicationID (rd_Runs d ! j) \<and>
        in_flight (wr_Status (rd_Runs d ! i)) \<and> in_flight (wr_Status (rd_Runs d ! j)) \<longrightarrow> i = j)"

text \<open>Moving the rows there are keeps it.\<close>

lemma single_flight_moves:
  assumes "single_flight d" and "runs_evolve d d'" and "length (rd_Runs d') = length (rd_Runs d)"
  shows "single_flight d'"
proof -
  have m: "run_moves (rd_Runs d ! i) (rd_Runs d' ! i)" if "i < length (rd_Runs d)" for i
    using assms(2) that by (simp add: runs_evolve_def rows_move_nth)
  have old: "in_flight (wr_Status (rd_Runs d ! i))" if "i < length (rd_Runs d)" "in_flight (wr_Status (rd_Runs d' ! i))" for i
    using m [OF that(1)] that(2) by (auto simp: run_moves_def)
  have same: "wr_OrganizationID (rd_Runs d' ! i) = wr_OrganizationID (rd_Runs d ! i) \<and>
      wr_ApplicationID (rd_Runs d' ! i) = wr_ApplicationID (rd_Runs d ! i)" if "i < length (rd_Runs d)" for i
    using m [OF that] by (simp add: run_moves_def same_run_def)
  show ?thesis
    unfolding single_flight_def assms(3) using assms(1) old same by (simp add: single_flight_def)
qed

lemma createRun_single:
  assumes "single_flight d" and "\<not> run_in_flight d org app"
  shows "single_flight (fst (createRun dr d org app action args snap))"
proof -
  let ?r = "new_run dr org app action args snap"
  have new: "wr_OrganizationID ?r = org" "wr_ApplicationID ?r = app" by (simp_all add: new_run_def)
  have free: "\<not> (wr_OrganizationID x = org \<and> wr_ApplicationID x = app \<and> in_flight (wr_Status x))" if "x \<in> set (rd_Runs d)" for x
    using assms(2) that by (auto simp: run_in_flight_def list_ex_iff)
  have "single_flight (d\<lparr>rd_Runs := rd_Runs d @ [?r], rd_Steps := ss\<rparr>)" for ss
    using assms(1) free unfolding single_flight_def by (auto simp: nth_append less_Suc_eq new)
  with assms(1) show ?thesis by (simp add: createRun_def Let_def)
qed

lemma beginRun_single: "single_flight d \<Longrightarrow> single_flight (fst (beginRun derive dr idle d org app action adjust))"
  by (simp add: beginRun_def Let_def assertNoRunInFlight_def createRun_single split: sum.split)

lemma BeginStateOp_single: "single_flight d \<Longrightarrow> single_flight (fst (BeginStateOp dr idle d org app c op))"
  by (simp add: BeginStateOp_def Let_def assertNoRunInFlight_def createRun_single split: sum.split option.split)

lemma BeginComponentRun_single:
  "single_flight d \<Longrightarrow> single_flight (fst (BeginComponentRun derive dr idle d org app c action targets ref))"
  by (simp add: BeginComponentRun_def Let_def assertNoRunInFlight_def createRun_single split: sum.split)

section \<open>Operations that start no run\<close>

definition run_count :: "RunDB \<Rightarrow> nat" where
  "run_count d = length (rd_Runs d)"

lemma update_count [simp]: "run_count (fst (update_runs P f d)) = run_count d" "run_count (fst (update_steps Q g now d)) = run_count d"
  by (simp_all add: run_count_def)

lemma mark_count [simp]:
  "run_count (fst (MarkRun d org i status message now)) = run_count d"
  "run_count (fst (MarkComponentRun d org i st message name now)) = run_count d"
  "run_count (fst (SettleStuckComponentRuns d org i message now)) = run_count d"
  "run_count (fst (SetRunJob d org i job)) = run_count d"
  "run_count (fst (SetRunStartedBy d org i who)) = run_count d"
  "run_count (fst (SetComponentRunOutputs d org i a b now)) = run_count d"
  "run_count (fst (SetComponentRunPolicy d org i a now)) = run_count d"
  "run_count (fst (SetComponentRunLogs d org i a b c now)) = run_count d"
  by (simp_all add: MarkRun_def MarkComponentRun_def SettleStuckComponentRuns_def SetRunJob_def SetRunStartedBy_def
      SetComponentRunOutputs_def SetComponentRunPolicy_def SetComponentRunLogs_def or_not_found_def)

lemma approve_count: "run_count (fst (ApproveComponentRun low orb idle d org app i c approver decision now)) = run_count d"
  by (simp add: ApproveComponentRun_def Let_def split_beta split: option.split sum.split)

lemma cancel_count: "run_count (fst (CancelRun idle d org app i now)) = run_count d"
  by (simp add: CancelRun_def Let_def split_beta split: option.split)

lemma reap_count: "run_count (fst (reap_loop idle k live now rs d)) = run_count d"
proof (induction rs arbitrary: k d)
  case (Cons r rs)
  have "run_count (fst (reap_run idle k now r d)) = run_count d" for k
    by (simp add: reap_run_def split_beta split: sum.split)
  with Cons show ?case by (cases live) (simp_all add: Let_def split_beta)
qed simp

lemma expire_count: "run_count (fst (ReapExpiredApprovals idle now d)) = run_count d"
proof -
  have "run_count (List.fold (expire_gate now run) crs d) = run_count d" for run crs d
    by (simp add: run_count_def)
  then have one: "run_count (expire_run now run d) = run_count d" for run d
    by (simp add: expire_run_def Let_def split: sum.split)
  have "run_count (List.fold (expire_run now) rs d) = run_count d" for rs
    by (induction rs arbitrary: d) (simp_all add: one)
  then show ?thesis by (simp add: ReapExpiredApprovals_def expire_runs_idle)
qed

section \<open>Requests one after another\<close>

fun served_alone :: "run_itf \<times> int \<times> run_op \<Rightarrow> bool" where
  "served_alone (itf, now, OpSchedule drs itfs enqueue) \<longleftrightarrow> itf = idle \<and> itfs = (\<lambda>k. idle)"
| "served_alone (itf, now, rq) \<longleftrightarrow> itf = idle"

text \<open>The scheduled check keeps the invariant and one run of an application.\<close>

lemma schedule_app_single:
  assumes wf: "runs_wf low orb d" and s: "single_flight d"
  shows "single_flight (fst (schedule_app derive dr idle enqueue now app d))"
proof -
  let ?b = "BeginRun derive dr (\<lambda>k. idle (Suc k)) d (ar_OrganizationID app) (ar_ID app) ActionDrift"
  have b: "single_flight (fst ?b)" using s by (simp add: BeginRun_def beginRun_single)
  have steps: "run_steps low orb d (fst ?b)" by (simp add: BeginRun_def beginRun_steps interleaves_id)
  note wfb = runs.reach_inv [OF steps wf]
  have "single_flight (fst (MarkRun (fst ?b) org i RunFailed m now))" for org i m
    by (rule single_flight_moves [OF b runs.reach_rel [OF MarkRun_steps wfb]])
      (simp_all flip: run_count_def)
  moreover have "single_flight (fst (SetRunJob (fst ?b) org i job))" for org i job
    by (rule single_flight_moves [OF b runs.reach_rel [OF SetRunJob_steps wfb]])
      (simp flip: run_count_def)
  ultimately show ?thesis using b s by (simp add: schedule_app_def split_beta split: sum.split)
qed

lemma schedule_apps_single:
  "runs_wf low orb d \<Longrightarrow> single_flight d \<Longrightarrow>
    single_flight (fst (schedule_apps derive dr (\<lambda>k. idle) enqueue now apps d))"
proof (induction apps arbitrary: dr d)
  case (Cons app apps)
  have "run_steps low orb d (fst (schedule_app derive (dr 0) idle enqueue now app d))"
    by (rule schedule_app_steps) (rule interleaves_id)
  from Cons.IH [OF runs.reach_inv [OF this Cons.prems(1)] schedule_app_single [OF Cons.prems]] show ?case
    by (simp add: split_beta Let_def)
qed simp

lemma serve_op_single:
  assumes wf: "runs_wf (rl_Low lib) (rl_Orb lib) d" and s: "single_flight d"
    and f: "sweep_fair lib rq" and c: "op_contract lib rq d" and a: "served_alone (itf, now, rq)"
  shows "single_flight (serve_op lib itf now rq d)"
proof -
  have i: "itf = idle" using a by (cases rq) simp_all
  have steps: "run_steps (rl_Low lib) (rl_Orb lib) d (serve_op lib itf now rq d)"
    by (rule serve_op_steps [OF wf _ f c]) (simp add: i interleaves_id)
  note moves = single_flight_moves [OF s runs.reach_rel [OF steps wf]]
  show ?thesis
  proof (cases rq)
    case (OpBeginRun dr org app action)
    then show ?thesis by (simp add: i BeginRun_def beginRun_single [OF s])
  next
    case (OpBeginStateOp dr org app c op)
    then show ?thesis by (simp add: i BeginStateOp_single [OF s])
  next
    case (OpBeginComponentRun dr org app c action targets ref)
    then show ?thesis by (simp add: i BeginComponentRun_single [OF s])
  next
    case (OpSchedule drs itfs enqueue)
    then show ?thesis using a by (simp add: ScheduleDueDriftChecks_def schedule_apps_single [OF wf s])
  qed (rule moves, simp add: i approve_count cancel_count reap_count expire_count ReapStuckRuns_def flip: run_count_def)+
qed

lemma serve_ops_single:
  "runs_wf (rl_Low lib) (rl_Orb lib) d \<Longrightarrow> single_flight d \<Longrightarrow> fair_ops lib ops d \<Longrightarrow> list_all served_alone ops \<Longrightarrow>
    single_flight (serve_ops lib ops d)"
proof (induction lib ops d rule: serve_ops.induct)
  case (2 lib itf now rq rest d)
  have steps: "run_steps (rl_Low lib) (rl_Orb lib) d (serve_op lib itf now rq d)"
    by (rule serve_op_steps) (use 2 in simp_all)
  have "single_flight (serve_op lib itf now rq d)"
    by (rule serve_op_single) (use 2 in simp_all)
  with 2 runs.reach_inv [OF steps 2(2)] show ?case by simp
qed simp

end
