(* ===== verification/Runs_Claims.thy ===== *)
theory Runs_Claims
  imports RunSingle
begin

text \<open>The properties of the run records, with their witnesses.\<close>

section \<open>An example\<close>

text \<open>A manually approved state operation on one component, which takes two approvals.\<close>

definition demo_lib :: RunLib where
  "demo_lib = \<lparr>rl_Derive = (\<lambda>i. i + 100), rl_Low = id, rl_Orb = id\<rparr>"

definition demo_gated :: Component where
  "demo_gated =
     \<lparr>co_ID = 20, co_OrganizationID = 1, co_ApplicationID = 2, co_StageID = 10, co_Ordinal = 0, co_Name = ''net'',
      co_Type = TypeTerraform, co_Config = Map.empty, co_ContinueOnFailure = False, co_RequiresApproval = True,
      co_ApprovalPolicy = \<lparr>Approvers = [], Required = 2, RequireDifferentApprover = True, TimeoutMinutes = 5\<rparr>,
      co_TargetClusterID = 0, co_TargetNamespace = [], co_ChartCredentialID = 0, co_GithubInstallationID = 0\<rparr>"

definition demo_rundb :: RunDB where
  "demo_rundb =
     \<lparr>rd_Apps = [\<lparr>ar_ID = 2, ar_OrganizationID = 1, ar_Name = ''shop'', ar_RunnerClusterID = 5,
                 ar_DriftIntervalMinutes = 0\<rparr>],
      rd_Stages = [\<lparr>sg_ID = 10, sg_OrganizationID = 1, sg_ApplicationID = 2, sg_Name = ''infra'', sg_Ordinal = 0\<rparr>],
      rd_Components = [demo_gated], rd_Runs = [], rd_Steps = []\<rparr>"

definition demo_draw :: RunDraws where
  "demo_draw = \<lparr>rw_Now = 0, rw_RunID = 30, rw_StepID = (\<lambda>k. 40 + of_nat k)\<rparr>"

definition demo_force_unlock :: StateOp where
  "demo_force_unlock = \<lparr>so_Operation = StateOpForceUnlock, so_Address = [], so_NewAddress = [], so_LockID = ''L'', so_ImportID = []\<rparr>"

definition quiet :: "(int \<times> run_op) list \<Rightarrow> (run_itf \<times> int \<times> run_op) list" where
  "quiet ops = map (Pair (\<lambda>k d. d)) ops"

fun contracts :: "RunLib \<Rightarrow> (int \<times> run_op) list \<Rightarrow> RunDB \<Rightarrow> bool" where
  "contracts lib [] d \<longleftrightarrow> True"
| "contracts lib ((now, rq) # rest) d \<longleftrightarrow>
     (case rq of OpSchedule _ _ _ \<Rightarrow> False | _ \<Rightarrow> True) \<and> op_contract lib rq d \<and>
     contracts lib rest (serve_op lib (\<lambda>k d. d) now rq d)"

lemma quiet_append: "quiet (xs @ ys) = quiet xs @ quiet ys"
  by (simp add: quiet_def)

lemma fair_quiet: "contracts lib ops d \<Longrightarrow> fair_ops lib (quiet ops) d"
  by (induction lib ops d rule: contracts.induct) (auto simp: quiet_def interleaves_id split: run_op.splits)

definition demo_parked :: "(int \<times> run_op) list" where
  "demo_parked =
     [(0, OpBeginStateOp demo_draw 1 2 20 demo_force_unlock), (1, OpSetRunStartedBy 1 30 ''ann''),
      (2, OpMarkRun 1 30 RunRunning []), (3, OpMarkComponentRun 1 40 StepAwaiting [] []), (4, OpMarkRun 1 30 RunAwaiting [])]"

definition demo_approved :: "(int \<times> run_op) list" where
  "demo_approved = demo_parked @ [(5, OpApprove 1 2 30 40 ''bob'' ''approve''), (6, OpApprove 1 2 30 40 ''cy'' ''approve'')]"

definition demo_cancelled :: "(int \<times> run_op) list" where
  "demo_cancelled = demo_parked @ [(7, OpCancel 1 2 30)]"

lemma demo_contracts: "contracts demo_lib demo_approved demo_rundb" "contracts demo_lib (demo_cancelled @ [(8, OpMarkRun 1 30 RunSucceeded [])]) demo_rundb"
  by code_simp+

lemma demo_approved_steps: "map (\<lambda>s. (cr_Status s, cr_ApprovedAt s, cr_Approvals s)) (rd_Steps (serve_ops demo_lib (quiet demo_approved) demo_rundb)) =
  [(StepPending, Some 6, [(''bob'', 5), (''cy'', 6)])]"
  by code_simp

lemma demo_cancelled_runs: "map (\<lambda>r. (wr_ID r, wr_Status r, wr_Message r, wr_FinishedAt r)) (rd_Runs (serve_ops demo_lib (quiet demo_cancelled) demo_rundb)) =
  [(30, RunFailed, ''run cancelled'', Some 7)]"
  by code_simp

lemma demo_no_runs: "no_runs demo_rundb"
  by (simp add: no_runs_def demo_rundb_def)

section \<open>Settled runs\<close>

lemma find_key: "distinct (map f xs) \<Longrightarrow> x \<in> set xs \<Longrightarrow> find (\<lambda>y. f y = f x) xs = Some x"
  by (induction xs) (auto simp: image_iff)

text \<open>
  C10: However requests interleave, a run that has settled keeps its status, its message and its times, and
  it is settled exactly when it has a finish time: no late report of a worker, cancel, reaper or approval
  revives it.
\<close>

theorem settled_run_frozen:
  assumes "no_runs d" and "fair_ops lib (before @ later) d"
    and "r \<in> set (rd_Runs (serve_ops lib before d))" and "\<not> in_flight (wr_Status r)"
  shows "wr_FinishedAt r \<noteq> None \<and>
    (\<exists>r'. find (\<lambda>x. wr_ID x = wr_ID r) (rd_Runs (serve_ops lib (before @ later) d)) = Some r' \<and>
      wr_Status r' = wr_Status r \<and> wr_Message r' = wr_Message r \<and> wr_StartedAt r' = wr_StartedAt r \<and>
      wr_FinishedAt r' = wr_FinishedAt r \<and> wr_Graph r' = wr_Graph r \<and> wr_Args r' = wr_Args r)"
proof -
  let ?e = "serve_ops lib (before @ later) d"
  have wf: "runs_wf (rl_Low lib) (rl_Orb lib) (serve_ops lib before d)" "runs_wf (rl_Low lib) (rl_Orb lib) ?e"
    using assms(1,2) serve_ops_wf fair_ops_append by blast+
  obtain r' where r': "r' \<in> set (rd_Runs ?e)" "run_moves r r'"
    using rows_moveD [of run_moves, OF _ assms(3)] serve_ops_evolve [OF assms(1,2)] by (auto simp: runs_evolve_def)
  have "find (\<lambda>x. wr_ID x = wr_ID r') (rd_Runs ?e) = Some r'"
    using wf(2) r'(1) by (intro find_key) (simp add: runs_wf_def)
  moreover have "wr_FinishedAt r \<noteq> None"
    using wf(1) assms(3,4) by (simp add: runs_wf_def run_times_ok_def)
  ultimately show ?thesis
    using r'(2) assms(4) by (auto simp: run_moves_def same_run_def)
qed

theorem settled_run_frozen_witness:
  "\<exists>r'. find (\<lambda>x. wr_ID x = 30) (rd_Runs (serve_ops demo_lib (quiet demo_cancelled @ quiet [(8, OpMarkRun 1 30 RunSucceeded [])]) demo_rundb)) = Some r' \<and>
    wr_Status r' = RunFailed"
proof -
  let ?b = "quiet demo_cancelled" and ?l = "quiet [(8, OpMarkRun 1 30 RunSucceeded [])]"
  have fair: "fair_ops demo_lib (?b @ ?l) demo_rundb"
    using fair_quiet [OF demo_contracts(2)] by (simp only: quiet_append)
  obtain r where r: "r \<in> set (rd_Runs (serve_ops demo_lib ?b demo_rundb))" "wr_ID r = 30" "wr_Status r = RunFailed"
    using demo_cancelled_runs by (auto simp: map_eq_Cons_conv)
  from settled_run_frozen [OF demo_no_runs fair r(1)] r(2,3) show ?thesis by (auto simp: in_flight_def)
qed

section \<open>Approval gates\<close>

text \<open>
  C3: However requests interleave, a step whose gate an approval opened has as many approvals on record as
  its policy requires, each by an allowed approver (named by the policy when it names any, and not who
  started the run when that is excluded), no two of them the same person.
\<close>

theorem gate_opens_with_quorum:
  assumes "no_runs d" and "fair_ops lib ops d"
    and "s \<in> set (rd_Steps (serve_ops lib ops d))" and "cr_Status s = StepPending" and "cr_ApprovedAt s \<noteq> None"
  shows "\<exists>r \<in> set (rd_Runs (serve_ops lib ops d)).
    cr_WorkflowRunID s = wr_ID r \<and>
    (let policy = snapshotPolicy (wr_Graph r) (cr_ComponentID s); names = map fst (cr_Approvals s) in
       approvalsRequired policy \<le> int (length names) \<and> sorted_wrt (\<lambda>a b. \<not> equal_fold (rl_Orb lib) a b) names \<and>
       (\<forall>a \<in> set names. policy_refuses (rl_Orb lib) policy (wr_StartedBy r) (canonical_approver (rl_Low lib) a) = None))"
proof -
  have "runs_wf (rl_Low lib) (rl_Orb lib) (serve_ops lib ops d)" using assms(1,2) by (rule serve_ops_wf)
  then obtain r where r: "r \<in> set (rd_Runs (serve_ops lib ops d))" "cr_WorkflowRunID s = wr_ID r"
    "gate_ok (rl_Low lib) (rl_Orb lib) r s" using assms(3) by (auto simp: runs_wf_def)
  then show ?thesis
    using assms(4,5) by (auto simp: gate_ok_def gate_open_def tally_ok_def step_policy_def Let_def sorted_wrt_map intro!: bexI [of _ r])
qed

theorem gate_opens_with_quorum_witness:
  "\<exists>s \<in> set (rd_Steps (serve_ops demo_lib (quiet demo_approved) demo_rundb)).
     \<exists>r \<in> set (rd_Runs (serve_ops demo_lib (quiet demo_approved) demo_rundb)).
       approvalsRequired (snapshotPolicy (wr_Graph r) (cr_ComponentID s)) \<le> 2"
proof -
  obtain s where s: "s \<in> set (rd_Steps (serve_ops demo_lib (quiet demo_approved) demo_rundb))" "cr_Status s = StepPending"
    "cr_ApprovedAt s \<noteq> None" "cr_Approvals s = [(''bob'', 5), (''cy'', 6)]"
    using demo_approved_steps by (auto simp: map_eq_Cons_conv)
  from gate_opens_with_quorum [OF demo_no_runs fair_quiet [OF demo_contracts(1)] s(1-3)] s(1,4)
  show ?thesis by (auto simp: Let_def)
qed

section \<open>Cancelling\<close>

lemma find_present: "x \<in> set xs \<Longrightarrow> P x \<Longrightarrow> \<exists>y. find P xs = Some y \<and> y \<in> set xs \<and> P y"
  by (induction xs) auto

lemma mark_failed:
  "\<not> in_flight (wr_Status (run_mark RunFailed message now r))" "run_is org i (run_mark RunFailed message now r) = run_is org i r"
  "wr_OrganizationID (run_mark RunFailed message now r) = wr_OrganizationID r"
  "wr_ApplicationID (run_mark RunFailed message now r) = wr_ApplicationID r"
  by (simp_all add: run_mark_def run_is_def in_flight_def)

text \<open>
  C16: Cancelling a run that is in flight settles it as failed and leaves none of its steps pending, running
  or parked, so the application takes new runs again as soon as no other run of it is in flight.
\<close>

theorem cancel_settles:
  assumes "find_run d org app i = Some run" and "in_flight (wr_Status run)"
  shows "case CancelRun (\<lambda>k d. d) d org app i now of (d', res) \<Rightarrow>
    (\<exists>r. res = Inr r \<and> r \<in> set (rd_Runs d') \<and> wr_ID r = i) \<and>
    (\<forall>r \<in> set (rd_Runs d'). run_is org i r \<longrightarrow> \<not> in_flight (wr_Status r)) \<and>
    (\<exists>r \<in> set (rd_Runs d'). wr_ID r = i \<and> wr_Status r = RunFailed \<and> wr_FinishedAt r = Some now) \<and>
    (\<forall>s \<in> set (rd_Steps d'). step_of_run org i s \<longrightarrow> cr_Status s \<in> {StepSucceeded, StepFailed, StepSkipped}) \<and>
    (assertNoRunInFlight d' org app = Inr () \<longleftrightarrow>
      (\<forall>r \<in> set (rd_Runs d). wr_OrganizationID r = org \<and> wr_ApplicationID r = app \<and> in_flight (wr_Status r) \<longrightarrow> wr_ID r = i))"
proof -
  let ?P = "\<lambda>r. run_is org i r \<and> in_flight (wr_Status r)"
  let ?u = "update_runs ?P (run_mark RunFailed ''run cancelled'' now) d"
  let ?c = "fst (update_steps (\<lambda>s. step_of_run org i s \<and> step_open (cr_Status s))
      (settle StepFailed ''cancelled (run cancelled)'' now) now (fst ?u))"
  note fr = find_runD [OF assms(1)]
  have this_run: "run_is org i run" using fr by (simp add: run_is_def)
  have hit: "run \<in> set (filter ?P (rd_Runs d))" using fr(1) this_run assms(2) by simp
  then have hits: "snd ?u \<noteq> 0" by (auto simp: update_runs_sel filter_empty_conv)
  have op: "CancelRun (\<lambda>k d. d) d org app i now = (?c, reread_run ?c org i)"
    using assms hits by (simp add: CancelRun_def Let_def split_beta)
  have runs: "rd_Runs ?c = map (\<lambda>r. if ?P r then run_mark RunFailed ''run cancelled'' now r else r) (rd_Runs d)"
    by (simp add: update_steps_sel update_runs_sel)
  have failed: "run_mark RunFailed ''run cancelled'' now run \<in> set (rd_Runs ?c)"
    using fr(1) this_run assms(2) by (auto simp: runs)
  have "run_is org i (run_mark RunFailed ''run cancelled'' now run)" using this_run by (simp add: run_is_def run_mark_def)
  from find_present [of _ _ "run_is org i", OF failed this] obtain r where "find (run_is org i) (rd_Runs ?c) = Some r" "r \<in> set (rd_Runs ?c)" "run_is org i r"
    by (elim exE conjE)
  then have 1: "\<exists>r. reread_run ?c org i = Inr r \<and> r \<in> set (rd_Runs ?c) \<and> wr_ID r = i"
    by (simp add: reread_run_def run_is_def)
  have 2: "\<forall>r \<in> set (rd_Runs ?c). run_is org i r \<longrightarrow> \<not> in_flight (wr_Status r)"
    unfolding runs set_map by (intro ballI impI) (elim imageE, simp add: mark_failed split: if_splits)
  have 3: "\<exists>r \<in> set (rd_Runs ?c). wr_ID r = i \<and> wr_Status r = RunFailed \<and> wr_FinishedAt r = Some now"
    by (rule bexI [OF _ failed]) (simp add: run_mark_def fr(2))
  have 4: "\<forall>s \<in> set (rd_Steps ?c). step_of_run org i s \<longrightarrow> cr_Status s \<in> {StepSucceeded, StepFailed, StepSkipped}"
  proof (intro ballI impI)
    fix s assume "s \<in> set (rd_Steps ?c)" "step_of_run org i s"
    then obtain s0 where s0: "s = (if step_of_run org i s0 \<and> step_open (cr_Status s0) then
        (settle StepFailed ''cancelled (run cancelled)'' now s0)\<lparr>cr_UpdatedAt := now\<rparr> else s0)"
      by (simp only: update_steps_sel set_map) (elim imageE)
    show "cr_Status s \<in> {StepSucceeded, StepFailed, StepSkipped}"
    proof (cases "step_of_run org i s0 \<and> step_open (cr_Status s0)")
      case True
      then show ?thesis by (simp add: s0 settle_def)
    next
      case False
      then show ?thesis using s0 \<open>step_of_run org i s\<close> by (cases "cr_Status s0") (auto simp: step_open_def)
    qed
  qed
  let ?Q = "\<lambda>r. wr_OrganizationID r = org \<and> wr_ApplicationID r = app \<and> in_flight (wr_Status r)"
  have "?Q (if ?P r then run_mark RunFailed ''run cancelled'' now r else r) \<longleftrightarrow> ?Q r \<and> wr_ID r \<noteq> i" for r
    by (simp add: mark_failed) (auto simp: run_is_def)
  then have "run_in_flight ?c org app \<longleftrightarrow> list_ex (\<lambda>r. ?Q r \<and> wr_ID r \<noteq> i) (rd_Runs d)"
    unfolding run_in_flight_def runs list.pred_map o_def list_ex_iff set_map bex_simps by simp
  then have 5: "assertNoRunInFlight ?c org app = Inr () \<longleftrightarrow>
      (\<forall>r \<in> set (rd_Runs d). wr_OrganizationID r = org \<and> wr_ApplicationID r = app \<and> in_flight (wr_Status r) \<longrightarrow> wr_ID r = i)"
    by (auto simp: assertNoRunInFlight_def list_ex_iff)
  from 1 2 3 4 5 show ?thesis unfolding op prod.case by blast
qed

theorem cancel_settles_witness:
  "assertNoRunInFlight (fst (CancelRun (\<lambda>k d. d) (serve_ops demo_lib (quiet demo_parked) demo_rundb) 1 2 30 9)) 1 2 = Inr ()"
proof -
  let ?d = "serve_ops demo_lib (quiet demo_parked) demo_rundb"
  have "map (\<lambda>r. (wr_ID r, wr_Status r)) (rd_Runs ?d) = [(30, RunAwaiting)]" by code_simp
  then have only: "r \<in> set (rd_Runs ?d) \<Longrightarrow> wr_ID r = 30 \<and> wr_Status r = RunAwaiting" for r
    by (auto simp: map_eq_Cons_conv)
  have "find_run ?d 1 2 30 \<noteq> None" by (simp only: Option.is_none_def [symmetric]) code_simp
  then obtain run where run: "find_run ?d 1 2 30 = Some run" by blast
  then have "in_flight (wr_Status run)" using only find_runD(1) by (auto simp: in_flight_def)
  from cancel_settles [OF run this, of 9] only show ?thesis by (auto simp: split_beta)
qed

section \<open>Gates that time out\<close>




section \<open>One run at a time\<close>

text \<open>
  C17: When requests are served one after another, an application never has two runs in flight: whole
  workflow runs, runs of one component, state operations and scheduled checks all refuse to start beside
  a run that has not settled.
\<close>

theorem one_run_at_a_time:
  assumes "no_runs d" and "fair_ops lib ops d" and "list_all served_alone ops"
  shows "single_flight (serve_ops lib ops d)"
  by (rule serve_ops_single [OF no_runs_wf [OF assms(1)] _ assms(2,3)]) (use assms(1) in \<open>simp add: no_runs_def single_flight_def\<close>)

theorem one_run_at_a_time_witness:
  "single_flight (serve_ops demo_lib (quiet demo_approved) demo_rundb)"
proof -
  have "list_all served_alone (quiet demo_approved)"
    by (simp add: quiet_def demo_approved_def demo_parked_def)
  then show ?thesis by (rule one_run_at_a_time [OF demo_no_runs fair_quiet [OF demo_contracts(1)]])
qed

text \<open>
  The check and the insert are two statements: another request between them starts a second run.
\<close>

definition demo_rival :: run_itf where
  "demo_rival k d =
     (if k = 2 then fst (BeginStateOp (demo_draw\<lparr>rw_RunID := 31, rw_StepID := (\<lambda>k. 50 + of_nat k)\<rparr>) (\<lambda>k d. d) d 1 2 20 demo_force_unlock)
      else d)"

lemma begin_race:
  "interleaves (run_step low orb) demo_rival"
  "map (\<lambda>r. (wr_ID r, wr_Status r)) (rd_Runs (fst (BeginStateOp demo_draw demo_rival demo_rundb 1 2 20 demo_force_unlock))) =
     [(31, RunPending), (30, RunPending)]"
proof -
  show "interleaves (run_step low orb) demo_rival"
    by (simp add: interleaves_def demo_rival_def BeginStateOp_steps interleaves_id)
  show "map (\<lambda>r. (wr_ID r, wr_Status r)) (rd_Runs (fst (BeginStateOp demo_draw demo_rival demo_rundb 1 2 20 demo_force_unlock))) =
     [(31, RunPending), (30, RunPending)]"
    by code_simp
qed

section \<open>Losses between statements\<close>

text \<open>The tally is read, then overwritten: of two approvals at once, both accepted, one is lost.\<close>

definition demo_second_approver :: run_itf where
  "demo_second_approver k d =
     (if k = 1 then fst (ApproveComponentRun id id (\<lambda>k d. d) d 1 2 30 40 ''cy'' ''approve'' 6) else d)"

lemma approval_lost:
  "let d = serve_ops demo_lib (quiet demo_parked) demo_rundb;
       (d', res) = ApproveComponentRun id id demo_second_approver d 1 2 30 40 ''bob'' ''approve'' 5
   in (case res of Inr (r, resume) \<Rightarrow> \<not> resume | Inl e \<Rightarrow> False) \<and> map cr_Approvals (rd_Steps d') = [[(''bob'', 5)]]"
  by code_simp

text \<open>A late report of a worker reopens a step of a cancelled run; the run stays settled.\<close>

lemma late_report_reopens:
  "map cr_Status (rd_Steps (serve_ops demo_lib (quiet (demo_cancelled @ [(8, OpMarkComponentRun 1 40 StepRunning [] [])])) demo_rundb)) =
     [StepRunning]"
  by code_simp

text \<open>Each resume moves the start time of the run.\<close>

lemma restart_moves_start:
  "map wr_StartedAt (rd_Runs (serve_ops demo_lib (quiet (demo_approved @ [(9, OpMarkRun 1 30 RunRunning [])])) demo_rundb)) = [Some 9]"
  by code_simp

text \<open>The reaper settles a run and leaves a parked step of it parked.\<close>

lemma reaped_run_parks:
  "let d = serve_ops demo_lib (quiet (demo_parked @ [(5, OpSetRunJob 1 30 ''j''), (9, OpMarkRun 1 30 RunRunning []),
             (10000, OpReapStuck (Some (\<lambda>_. Some False)) reapMaxLifetime)])) demo_rundb
   in map wr_Status (rd_Runs d) = [RunFailed] \<and> map cr_Status (rd_Steps d) = [StepAwaiting]"
  by code_simp

end
