(* ===== verification/RunReads.thy ===== *)
theory RunReads
  imports RunControl Outputs
begin

text \<open>
  Reads of the run tables (\<open>lib/workflows/runs.go\<close>): runs and steps for the screens, the recorded state of
  an OpenTofu component, the outputs a reference resolves to.
\<close>

section \<open>Runs and steps\<close>

text \<open>Newest first; rows created at one instant come in the reverse order of their creation.\<close>

definition newest_runs :: "(RunRow \<Rightarrow> bool) \<Rightarrow> RunDB \<Rightarrow> RunRow list" where
  "newest_runs P d = rev (sort_key wr_CreatedAt (filter P (rd_Runs d)))"

definition ListRuns :: "RunDB \<Rightarrow> uuid \<Rightarrow> uuid \<Rightarrow> run_error + RunRow list" where
  "ListRuns d org app =
     try_bind (getApp d org app) (\<lambda>_. Inr (newest_runs (\<lambda>r. wr_OrganizationID r = org \<and> wr_ApplicationID r = app) d))"

definition ListOrgRuns :: "RunDB \<Rightarrow> uuid \<Rightarrow> nat \<Rightarrow> RunRow list" where
  "ListOrgRuns d org limit = take limit (newest_runs (\<lambda>r. wr_OrganizationID r = org) d)"

definition GetRun :: "RunDB \<Rightarrow> uuid \<Rightarrow> uuid \<Rightarrow> uuid \<Rightarrow> run_error + RunRow \<times> StepRun list" where
  "GetRun d org app runID =
     (case find_run d org app runID of
        None \<Rightarrow> Inl ErrNotFound
      | Some run \<Rightarrow> Inr (run, filter (step_of_run org runID) (rd_Steps d)))"

definition GetComponentRun :: "RunDB \<Rightarrow> uuid \<Rightarrow> uuid \<Rightarrow> uuid \<Rightarrow> uuid \<Rightarrow> run_error + StepRun" where
  "GetComponentRun d org app runID crID =
     (case find_run d org app runID of
        None \<Rightarrow> Inl ErrNotFound
      | Some _ \<Rightarrow> (case find_step d org runID crID of None \<Rightarrow> Inl ErrNotFound | Some s \<Rightarrow> Inr s))"

section \<open>The latest step\<close>

text \<open>\<open>ORDER BY finished_at DESC\<close> puts a row without a finish time first.\<close>

definition latest_steps :: "(StepRun \<Rightarrow> bool) \<Rightarrow> RunDB \<Rightarrow> StepRun list" where
  "latest_steps P d =
     (let rs = filter P (rd_Steps d) in
      rev (filter (\<lambda>s. cr_FinishedAt s = None) rs) @
      rev (sort_key (\<lambda>s. the (cr_FinishedAt s)) (filter (\<lambda>s. cr_FinishedAt s \<noteq> None) rs)))"

definition latest_step :: "(StepRun \<Rightarrow> bool) \<Rightarrow> RunDB \<Rightarrow> run_error + StepRun" where
  "latest_step P d = (case latest_steps P d of [] \<Rightarrow> Inl ErrNotFound | s # _ \<Rightarrow> Inr s)"

definition TofuComponentByName :: "RunDB \<Rightarrow> uuid \<Rightarrow> uuid \<Rightarrow> string \<Rightarrow> run_error + uuid" where
  "TofuComponentByName d org app name =
     (case filter (\<lambda>c. co_OrganizationID c = org \<and> co_ApplicationID c = app \<and> co_Name c = name \<and> co_Type c = TypeTerraform)
         (rd_Components d) of
        [] \<Rightarrow> Inl ErrNotFound
      | [c] \<Rightarrow> Inr (co_ID c)
      | _ \<Rightarrow> Inl (ErrAmbiguousName name))"

definition recorded_outputs :: "uuid \<Rightarrow> uuid \<Rightarrow> StepRun \<Rightarrow> bool" where
  "recorded_outputs org i s \<longleftrightarrow>
     cr_OrganizationID s = org \<and> cr_ComponentID s = i \<and> cr_Status s = StepSucceeded \<and> cr_Outputs s \<noteq> []"

definition ResolveComponentOutputs :: "RunDB \<Rightarrow> uuid \<Rightarrow> uuid \<Rightarrow> uuid \<Rightarrow> string" where
  "ResolveComponentOutputs d org runID i =
     (case find (\<lambda>s. recorded_outputs org i s \<and> cr_WorkflowRunID s = runID) (rd_Steps d) of
        Some s \<Rightarrow> cr_Outputs s
      | None \<Rightarrow> (case latest_step (recorded_outputs org i) d of Inr s \<Rightarrow> cr_Outputs s | Inl _ \<Rightarrow> []))"

section \<open>The state panel\<close>

definition assertComponentInApp :: "RunDB \<Rightarrow> uuid \<Rightarrow> uuid \<Rightarrow> uuid \<Rightarrow> run_error + unit" where
  "assertComponentInApp d org app i =
     (if list_ex (\<lambda>c. co_OrganizationID c = org \<and> co_ApplicationID c = app \<and> co_ID c = i) (rd_Components d) then Inr ()
      else Inl ErrNotFound)"

definition recorded_state :: "(uuid \<Rightarrow> uuid) \<Rightarrow> uuid \<Rightarrow> uuid \<Rightarrow> StepRun \<Rightarrow> bool" where
  "recorded_state derive org i s \<longleftrightarrow>
     cr_OrganizationID s = org \<and> cr_ComponentID s \<in> {derive i, i} \<and> cr_Status s = StepSucceeded \<and>
     (cr_Outputs s \<noteq> [] \<or> cr_Resources s \<noteq> [])"

definition LatestComponentState :: "(uuid \<Rightarrow> uuid) \<Rightarrow> RunDB \<Rightarrow> uuid \<Rightarrow> uuid \<Rightarrow> uuid \<Rightarrow> run_error + StepRun" where
  "LatestComponentState derive d org app i =
     try_bind (assertComponentInApp d org app i) (\<lambda>_. latest_step (recorded_state derive org i) d)"

definition LatestSettledStep :: "(uuid \<Rightarrow> uuid) \<Rightarrow> RunDB \<Rightarrow> uuid \<Rightarrow> uuid \<Rightarrow> uuid \<Rightarrow> run_error + StepRun" where
  "LatestSettledStep derive d org app i =
     try_bind (assertComponentInApp d org app i) (\<lambda>_.
       latest_step (\<lambda>s. cr_OrganizationID s = org \<and> cr_ComponentID s \<in> {derive i, i} \<and>
         cr_Status s \<in> {StepSucceeded, StepFailed} \<and> cr_FinishedAt s \<noteq> None) d)"

text \<open>The run of a step, as the join sees it.\<close>

definition step_in_run :: "(RunRow \<Rightarrow> bool) \<Rightarrow> RunDB \<Rightarrow> StepRun \<Rightarrow> bool" where
  "step_in_run P d s \<longleftrightarrow> list_ex (\<lambda>r. wr_ID r = cr_WorkflowRunID s \<and> P r) (rd_Runs d)"

definition LatestDriftCheck :: "RunDB \<Rightarrow> uuid \<Rightarrow> uuid \<Rightarrow> uuid \<Rightarrow> run_error + StepRun" where
  "LatestDriftCheck d org app i =
     try_bind (assertComponentInApp d org app i) (\<lambda>_.
       latest_step (\<lambda>s. cr_OrganizationID s = org \<and> cr_ComponentID s = i \<and> cr_Status s \<in> {StepSucceeded, StepFailed} \<and>
         step_in_run (\<lambda>r. wr_OrganizationID r = org \<and> wr_Action r = ActionDrift) d s) d)"

section \<open>Output names\<close>

record OutputKey =
  ok_Key :: string
  ok_Type :: string
  ok_Sensitive :: bool

definition parseOutputKeys :: "string \<Rightarrow> OutputKey list" where
  "parseOutputKeys raw =
     (if raw = [] then []
      else case decode_outputs raw of
        None \<Rightarrow> []
      | Some outs \<Rightarrow>
          map (\<lambda>k. let out = the (map_of outs k) in
                \<lparr>ok_Key = k,
                 ok_Type = (case to_Type out of None \<Rightarrow> [] | Some t \<Rightarrow> if t = ''null'' then [] else t),
                 ok_Sensitive = to_Sensitive out\<rparr>)
            (sorted_keys outs))"

text \<open>The first row of a component whose keys parse decides.\<close>

fun first_keys :: "(uuid \<Rightarrow> uuid option) \<Rightarrow> StepRun list \<Rightarrow> (uuid \<rightharpoonup> OutputKey list) \<Rightarrow> (uuid \<rightharpoonup> OutputKey list)" where
  "first_keys authoredOf [] out = out"
| "first_keys authoredOf (s # rest) out =
     (case authoredOf (cr_ComponentID s) of
        None \<Rightarrow> first_keys authoredOf rest out
      | Some a \<Rightarrow>
          if out a \<noteq> None \<or> parseOutputKeys (cr_Outputs s) = [] then first_keys authoredOf rest out
          else first_keys authoredOf rest (out(a \<mapsto> parseOutputKeys (cr_Outputs s))))"

definition authored_of :: "(uuid \<Rightarrow> uuid) \<Rightarrow> uuid list \<Rightarrow> uuid \<Rightarrow> uuid option" where
  "authored_of derive ids = foldl (\<lambda>m i. m(i \<mapsto> i, derive i \<mapsto> i)) Map.empty ids"

definition LatestOutputKeys ::
  "(uuid \<Rightarrow> uuid) \<Rightarrow> RunDB \<Rightarrow> uuid \<Rightarrow> uuid \<Rightarrow> run_error + (uuid \<rightharpoonup> OutputKey list)" where
  "LatestOutputKeys derive d org app =
     try_bind (getApp d org app) (\<lambda>_.
       let ids = map co_ID (filter (\<lambda>c. co_OrganizationID c = org \<and> co_ApplicationID c = app) (rd_Components d)) in
       if ids = [] then Inr Map.empty
       else Inr (first_keys (authored_of derive ids)
              (latest_steps (\<lambda>s. cr_OrganizationID s = org \<and> cr_ComponentID s \<in> set ids \<union> derive ` set ids \<and>
                 cr_Status s = StepSucceeded \<and> cr_Outputs s \<noteq> []) d) Map.empty))"

end
