(* ===== verification/PolicyGate.thy ===== *)
theory PolicyGate
  imports RunReads Planner
begin

text \<open>
  Plan policies: the input document and the verdict (\<open>lib/policy/policy.go\<close>) and the gate a succeeded plan
  passes (\<open>lib/workflows/policygate.go\<close>). The Rego interpreter is an argument: the values of the deny rule,
  or the text of its failure to compile or to run.
\<close>

section \<open>The input document\<close>

record Policy =
  po_ID :: string
  po_Name :: string
  po_Rego :: string
  po_Enforcement :: string

definition EnforcementBlock :: string where "EnforcementBlock = ''block''"

definition EnforcementWarn :: string where "EnforcementWarn = ''warn''"

definition ValidEnforcement :: "string \<Rightarrow> bool" where
  "ValidEnforcement v \<longleftrightarrow> v = EnforcementBlock \<or> v = EnforcementWarn"

record PolicyResource =
  pc_Address :: string
  pc_Module :: string
  pc_Mode :: string
  pc_Type :: string
  pc_Name :: string
  pc_Action :: string
  pc_Detail :: string

record PlanInput =
  pi_HasChanges :: bool
  pi_Add :: nat
  pi_Change :: nat
  pi_Destroy :: nat
  pi_Replace :: nat
  pi_OutputsChanged :: bool
  pi_Resources :: "PolicyResource list"

text \<open>A reference is an id and a name; of a run, a policy sees id, action and who started it.\<close>

record PolicyInput =
  in_Application :: "string \<times> string"
  in_Component :: "string \<times> string"
  in_Run :: "string \<times> string \<times> string"
  in_Plan :: PlanInput

section \<open>Resource addresses\<close>

definition byte_index :: "char \<Rightarrow> string \<Rightarrow> nat option" where
  "byte_index c s = str_index [c] s"

text \<open>Where a module segment ends: at the first dot, after an index when one comes first.\<close>

definition segment_end :: "string \<Rightarrow> nat option" where
  "segment_end seg =
     (let dot = byte_index (CHR ''.'') seg in
      case byte_index (CHR ''['') seg of
        None \<Rightarrow> dot
      | Some i \<Rightarrow>
          if dot \<noteq> None \<and> the dot \<le> i then dot
          else case byte_index (CHR '']'') (drop i seg) of
            None \<Rightarrow> dot
          | Some j \<Rightarrow> map_option (\<lambda>e. e + (i + j)) (byte_index (CHR ''.'') (drop (i + j) seg)))"

function module_parts :: "string \<Rightarrow> string list \<Rightarrow> string list \<times> string" where
  "module_parts rest parts =
     (if \<not> prefix ''module.'' rest then (parts, rest)
      else
        let seg = drop 7 rest in
        case segment_end seg of
          None \<Rightarrow> (parts @ [''module.'' @ seg], [])
        | Some e \<Rightarrow> module_parts (drop (Suc e) seg) (parts @ [''module.'' @ take e seg]))"
  by pat_completeness auto
termination by (relation "measure (\<lambda>(rest, parts). length rest)") (auto simp: prefix_def)

declare module_parts.simps [simp del]

text \<open>The instance key at the end: the longest bracket that holds no closing one.\<close>

definition strip_index :: "string \<Rightarrow> string" where
  "strip_index s =
     (if s = [] \<or> last s \<noteq> CHR '']'' then s
      else
        let init = butlast s; seg = rev (takeWhile (\<lambda>c. c \<noteq> CHR '']'') (rev init)) in
        if CHR ''['' \<in> set seg then take (length init - length seg) init @ takeWhile (\<lambda>c. c \<noteq> CHR ''['') seg else s)"

definition ParseAddress :: "string \<Rightarrow> string \<times> string \<times> string \<times> string" where
  "ParseAddress addr =
     (let (parts, rest) = module_parts addr [];
          (mode, rest1) = (if prefix ''data.'' rest then (''data'', drop 5 rest) else (''managed'', rest));
          rest2 = strip_index rest1
      in case byte_index (CHR ''.'') rest2 of
           Some (Suc i) \<Rightarrow> (str_join ''.'' parts, mode, take (Suc i) rest2, drop (Suc (Suc i)) rest2)
         | _ \<Rightarrow> (str_join ''.'' parts, mode, [], []))"

definition policy_resource :: "ResourceChange \<Rightarrow> PolicyResource" where
  "policy_resource r =
     (case ParseAddress (rc_Address r) of (m, mode, ty, name) \<Rightarrow>
        \<lparr>pc_Address = rc_Address r, pc_Module = m, pc_Mode = mode, pc_Type = ty, pc_Name = name,
         pc_Action = rc_Action r, pc_Detail = rc_Detail r\<rparr>)"

definition NewPlanInput :: "Plan \<Rightarrow> PlanInput" where
  "NewPlanInput p =
     \<lparr>pi_HasChanges = pl_HasChanges p, pi_Add = pl_Add p, pi_Change = pl_Change p, pi_Destroy = pl_Destroy p,
      pi_Replace = pl_Replace p, pi_OutputsChanged = pl_OutputsChanged p,
      pi_Resources = map policy_resource (pl_Resources p)\<rparr>"

section \<open>Verdicts\<close>

record PolicyResult =
  re_PolicyID :: string
  re_PolicyName :: string
  re_Enforcement :: string
  re_Violations :: "string list"
  re_Error :: string

record Verdict =
  vd_EvaluatedAt :: int
  vd_Results :: "PolicyResult list"
  vd_Blocked :: bool
  vd_Warned :: bool

type_synonym rego = "string \<Rightarrow> PolicyInput \<Rightarrow> string + json list"

fun flatten_deny :: "(string \<Rightarrow> string) \<Rightarrow> json \<Rightarrow> string list" where
  "flatten_deny num JNull = []"
| "flatten_deny num (JArr vs) = concat (map (flatten_deny num) vs)"
| "flatten_deny num (JStr s) = [s]"
| "flatten_deny num (JBool b) = (if b then [''denied''] else [])"
| "flatten_deny num v = [sprint_value num v]"

definition sort_strings :: "string list \<Rightarrow> string list" where
  "sort_strings xs = foldr insert_sorted xs []"

text \<open>The messages and the error of one policy.\<close>

definition evalOne :: "(string \<Rightarrow> string) \<Rightarrow> rego \<Rightarrow> string \<Rightarrow> PolicyInput \<Rightarrow> string list \<times> string" where
  "evalOne num opa src inp =
     (case opa src inp of
        Inl e \<Rightarrow> ([], e)
      | Inr vs \<Rightarrow> (sort_strings (concat (map (flatten_deny num) vs)), []))"

definition policy_result :: "(string \<Rightarrow> string) \<Rightarrow> rego \<Rightarrow> PolicyInput \<Rightarrow> Policy \<Rightarrow> PolicyResult" where
  "policy_result num opa inp p =
     (case evalOne num opa (po_Rego p) inp of (msgs, e) \<Rightarrow>
        \<lparr>re_PolicyID = po_ID p, re_PolicyName = po_Name p, re_Enforcement = po_Enforcement p,
         re_Violations = msgs, re_Error = e\<rparr>)"

definition violated :: "PolicyResult \<Rightarrow> bool" where
  "violated r \<longleftrightarrow> re_Violations r \<noteq> [] \<or> re_Error r \<noteq> []"

definition add_result :: "Verdict \<Rightarrow> PolicyResult \<Rightarrow> Verdict" where
  "add_result v r =
     v\<lparr>vd_Results := vd_Results v @ [r],
       vd_Blocked := (vd_Blocked v \<or> violated r \<and> re_Enforcement r = EnforcementBlock),
       vd_Warned := (vd_Warned v \<or> violated r \<and> re_Enforcement r \<noteq> EnforcementBlock)\<rparr>"

definition Evaluate :: "(string \<Rightarrow> string) \<Rightarrow> rego \<Rightarrow> int \<Rightarrow> Policy list \<Rightarrow> PolicyInput \<Rightarrow> Verdict" where
  "Evaluate num opa now policies inp =
     foldl add_result \<lparr>vd_EvaluatedAt = now, vd_Results = [], vd_Blocked = False, vd_Warned = False\<rparr>
       (map (policy_result num opa inp) policies)"

section \<open>The gate\<close>

record PolicyRow =
  pp_ID :: uuid
  pp_OrganizationID :: uuid
  pp_Name :: string
  pp_Rego :: string
  pp_Enforcement :: string
  pp_Enabled :: bool
  pp_ApplicationID :: "uuid option"
  pp_CreatedAt :: int

definition policyGateApplies :: "string \<Rightarrow> GraphNode \<Rightarrow> bool" where
  "policyGateApplies action node \<longleftrightarrow> is_plan_unit node \<and> action \<in> {ActionDeploy, ActionUninstall, ActionPreview}"

definition policiesFor :: "platform \<Rightarrow> PolicyRow list \<Rightarrow> uuid \<Rightarrow> uuid \<Rightarrow> Policy list" where
  "policiesFor pf rows org app =
     map (\<lambda>r. \<lparr>po_ID = pf_UUIDString pf (pp_ID r), po_Name = pp_Name r, po_Rego = pp_Rego r, po_Enforcement = pp_Enforcement r\<rparr>)
       (sort_key pp_CreatedAt
         (filter (\<lambda>r. pp_OrganizationID r = org \<and> pp_Enabled r \<and> (pp_ApplicationID r = None \<or> pp_ApplicationID r = Some app)) rows))"

definition policyInput :: "platform \<Rightarrow> Application \<Rightarrow> uuid \<Rightarrow> string \<Rightarrow> string \<times> string \<times> string \<Rightarrow> Plan \<Rightarrow> PolicyInput" where
  "policyInput pf app componentID componentName run plan =
     \<lparr>in_Application = (pf_UUIDString pf (ap_ID app), ap_Name app),
      in_Component = (pf_UUIDString pf componentID, trim_suffix componentName tofuPlanNameSuffix),
      in_Run = run, in_Plan = NewPlanInput plan\<rparr>"

definition result_summary :: "PolicyResult \<Rightarrow> string list" where
  "result_summary r =
     (if re_Enforcement r \<noteq> EnforcementBlock then []
      else if re_Error r \<noteq> [] then [re_PolicyName r @ '' could not be evaluated ('' @ re_Error r @ '')'']
      else if re_Violations r \<noteq> [] then [re_PolicyName r @ '': '' @ str_join ''; '' (re_Violations r)]
      else [])"

definition verdictSummary :: "Verdict \<Rightarrow> string" where
  "verdictSummary v = str_join name_separator (concat (map result_summary (vd_Results v)))"

text \<open>
  What the gate reads beside the run: the policy rows or the error of the query, the interpreter, the
  text form of a verdict. It gives the verdict to record, and the reason when the step must fail.
\<close>

record PolicyEnv =
  pe_Rows :: "string + PolicyRow list"
  pe_Rego :: rego
  pe_Encode :: "Verdict \<Rightarrow> string"

definition evaluatePolicies ::
  "platform \<Rightarrow> PolicyEnv \<Rightarrow> int \<Rightarrow> uuid \<Rightarrow> string \<Rightarrow> RunRow option \<Rightarrow> uuid \<Rightarrow> Application \<Rightarrow> GraphNode \<Rightarrow> string
     \<Rightarrow> string option \<times> string option" where
  "evaluatePolicies pf pe now org action run runID app node logs =
     (case pe_Rows pe of
        Inl e \<Rightarrow> (None, if action \<noteq> ActionPreview then Some (''policies could not be loaded: '' @ e) else None)
      | Inr rows \<Rightarrow>
          let policies = policiesFor pf rows org (ap_ID app) in
          if policies = [] then (None, None)
          else
            let startedBy = (case run of Some r \<Rightarrow> wr_StartedBy r | None \<Rightarrow> []);
                inp = policyInput pf app (gn_ComponentID node) (gn_Name node) (pf_UUIDString pf runID, action, startedBy) (ParsePlan logs);
                v = Evaluate (pf_ShowNumber pf) (pe_Rego pe) now policies inp
            in (Some (pe_Encode pe v),
                if \<not> vd_Blocked v \<or> action = ActionPreview then None else Some (''blocked by policy: '' @ verdictSummary v)))"

section \<open>Plans to try a policy on\<close>

definition plan_step :: "RunDB \<Rightarrow> uuid \<Rightarrow> StepRun \<Rightarrow> bool" where
  "plan_step d org s \<longleftrightarrow>
     cr_OrganizationID s = org \<and> cr_Type s = TypeTerraform \<and> suffix tofuPlanNameSuffix (cr_Name s) \<and>
     cr_Status s = StepSucceeded \<and>
     step_in_run (\<lambda>r. wr_OrganizationID r = org \<and> wr_Action r \<in> {ActionDeploy, ActionUninstall, ActionPreview}) d s"

text \<open>Steps whose run or application is gone are dropped.\<close>

definition planSteps :: "RunDB \<Rightarrow> StepRun list \<Rightarrow> (StepRun \<times> RunRow \<times> AppRow) list" where
  "planSteps d rows =
     List.map_filter (\<lambda>s.
       Option.bind (find (\<lambda>r. wr_ID r = cr_WorkflowRunID s) (rd_Runs d)) (\<lambda>r.
         map_option (\<lambda>a. (s, r, a)) (find (\<lambda>a. ar_ID a = wr_ApplicationID r) (rd_Apps d)))) rows"

definition RecentPlanSteps :: "RunDB \<Rightarrow> uuid \<Rightarrow> nat \<Rightarrow> (StepRun \<times> RunRow \<times> AppRow) list" where
  "RecentPlanSteps d org limit =
     planSteps d (take limit (latest_steps (\<lambda>s. plan_step d org s \<and> cr_Logs s \<noteq> []) d))"

definition PlanStep :: "RunDB \<Rightarrow> uuid \<Rightarrow> uuid \<Rightarrow> run_error + StepRun \<times> RunRow \<times> AppRow" where
  "PlanStep d org i =
     (case find (\<lambda>s. plan_step d org s \<and> cr_ID s = i) (rd_Steps d) of
        None \<Rightarrow> Inl ErrNotFound
      | Some s \<Rightarrow> (case planSteps d [s] of [] \<Rightarrow> Inl ErrNotFound | p # _ \<Rightarrow> Inr p))"

section \<open>What a verdict says\<close>

lemma foldl_add_result:
  "vd_Blocked (foldl add_result v rs) \<longleftrightarrow> vd_Blocked v \<or> list_ex (\<lambda>r. violated r \<and> re_Enforcement r = EnforcementBlock) rs"
  "vd_Warned (foldl add_result v rs) \<longleftrightarrow> vd_Warned v \<or> list_ex (\<lambda>r. violated r \<and> re_Enforcement r \<noteq> EnforcementBlock) rs"
  "vd_Results (foldl add_result v rs) = vd_Results v @ rs"
  by (induction rs arbitrary: v) (auto simp: add_result_def)

lemma re_Enforcement_result [simp]: "re_Enforcement (policy_result num opa inp p) = po_Enforcement p"
  by (simp add: policy_result_def split: prod.split)

lemma Evaluate_blocked:
  "vd_Blocked (Evaluate num opa now policies inp) \<longleftrightarrow>
     list_ex (\<lambda>p. po_Enforcement p = EnforcementBlock \<and> violated (policy_result num opa inp p)) policies"
  by (auto simp: Evaluate_def foldl_add_result list_ex_iff)

lemma violated_iff:
  "violated (policy_result num opa inp p) \<longleftrightarrow>
     (case opa (po_Rego p) inp of Inl e \<Rightarrow> e \<noteq> [] | Inr vs \<Rightarrow> concat (map (flatten_deny num) vs) \<noteq> [])"
proof -
  have "insert_sorted x xs \<noteq> []" for x xs by (cases xs) simp_all
  then have "sort_strings xs = [] \<longleftrightarrow> xs = []" for xs by (cases xs) (simp_all add: sort_strings_def)
  then show ?thesis by (simp add: violated_def policy_result_def evalOne_def split: sum.split)
qed

end
