(* ===== verification/TektonRun.thy ===== *)
theory TektonRun
  imports Planner
begin

text \<open>
  TaskRuns (\<open>lib/tekton/run.go\<close>): the manifest of a run and the Secret beside it as trees of JSON, the status
  read back from one, and the choices the executor makes among listed runs (\<open>runexec.go\<close>). A Go map is an
  association list.
\<close>

section \<open>Specification and status\<close>

text \<open>The planner's specification with the labels and the timeout (in seconds) the executor adds.\<close>

record TaskRunSpec = RunSpec +
  sp_Timeout :: int
  sp_Labels :: env

record RunStatus =
  rs_Name :: string
  rs_Namespace :: string
  rs_Phase :: string
  rs_PodName :: string
  rs_Message :: string
  rs_StartedAt :: "int option"
  rs_CompletedAt :: "int option"

definition Terminal :: "RunStatus \<Rightarrow> bool" where
  "Terminal r \<longleftrightarrow> rs_Phase r = ''Succeeded'' \<or> rs_Phase r = ''Failed''"

abbreviation RunOrgLabel :: string where "RunOrgLabel \<equiv> ''spacefleet.io/org-id''"
abbreviation RunJobLabel :: string where "RunJobLabel \<equiv> ''spacefleet.io/job-id''"
abbreviation RunComponentLabel :: string where "RunComponentLabel \<equiv> ''spacefleet.io/component-run-id''"

section \<open>Manifests\<close>

definition secretEnvDataKey :: "string \<Rightarrow> string" where
  "secretEnvDataKey name = ''env-'' @ name"

definition credsSecretName :: "string \<Rightarrow> string" where
  "credsSecretName i = ''helm-creds-'' @ i"

definition env_entry :: "env \<Rightarrow> env \<Rightarrow> string \<Rightarrow> string \<Rightarrow> json" where
  "env_entry env secretEnv secretName k =
     (if map_of secretEnv k \<noteq> None then
        JObj [(''name'', JStr k),
              (''valueFrom'', JObj [(''secretKeyRef'', JObj [(''name'', JStr secretName), (''key'', JStr (secretEnvDataKey k))])])]
      else JObj [(''name'', JStr k), (''value'', JStr (case map_of env k of Some v \<Rightarrow> v | None \<Rightarrow> []))])"

text \<open>The names of a map, each once.\<close>

definition map_names :: "env \<Rightarrow> string list" where
  "map_names m = remdups (map fst m)"

definition envVars :: "env \<Rightarrow> env \<Rightarrow> string \<Rightarrow> json list" where
  "envVars env secretEnv secretName =
     map (env_entry env secretEnv secretName) (foldr insert_sorted (map_names env @ map_names secretEnv) [])"

definition labelsToAny :: "env \<Rightarrow> json" where
  "labelsToAny labels = JObj (map (\<lambda>(k, v). (k, JStr v)) labels)"

text \<open>\<open>time.Duration.String\<close> of a whole number of seconds above zero.\<close>

definition duration_string :: "int \<Rightarrow> string" where
  "duration_string t =
     (let h = t div 3600; m = t div 60 mod 60; s = t mod 60 in
      if 0 < h then show_int h @ ''h'' @ show_int m @ ''m'' @ show_int s @ ''s''
      else if 0 < m then show_int m @ ''m'' @ show_int s @ ''s''
      else show_int s @ ''s'')"

definition creds_mounts :: "TaskRunSpec \<Rightarrow> json list" where
  "creds_mounts spec =
     (if sp_Files spec \<noteq> [] then
        [JObj [(''name'', JStr ''creds''), (''mountPath'', JStr CredsMountPath), (''readOnly'', JBool True)]] else []) @
     (if sp_PluginCacheClaim spec \<noteq> [] then
        [JObj [(''name'', JStr ''plugin-cache''), (''mountPath'', JStr PluginCacheMountPath)]] else [])"

definition creds_volumes :: "string \<Rightarrow> TaskRunSpec \<Rightarrow> json list" where
  "creds_volumes secretName spec =
     (if sp_Files spec \<noteq> [] then
        [JObj [(''name'', JStr ''creds''), (''secret'', JObj [(''secretName'', JStr secretName)])]] else []) @
     (if sp_PluginCacheClaim spec \<noteq> [] then
        [JObj [(''name'', JStr ''plugin-cache''),
               (''persistentVolumeClaim'', JObj [(''claimName'', JStr (sp_PluginCacheClaim spec))])]] else [])"

definition buildTaskRun :: "string \<Rightarrow> string \<Rightarrow> TaskRunSpec \<Rightarrow> json" where
  "buildTaskRun namespace secretName spec =
     (let env = envVars (sp_Env spec) (sp_SecretEnv spec) secretName;
          mounts = creds_mounts spec;
          step = JObj ([(''name'', JStr ''run''), (''image'', JStr (sp_Image spec)), (''script'', JStr (sp_Script spec))] @
            (if env \<noteq> [] then [(''env'', JArr env)] else []) @
            (if mounts \<noteq> [] then [(''volumeMounts'', JArr mounts)] else []));
          taskSpec = JObj ([(''steps'', JArr [step])] @
            (if mounts \<noteq> [] then [(''volumes'', JArr (creds_volumes secretName spec))] else []));
          metadata = JObj ([(''generateName'', JStr (sp_Name spec @ ''-'')), (''namespace'', JStr namespace)] @
            (if sp_Labels spec \<noteq> [] then [(''labels'', labelsToAny (sp_Labels spec))] else []));
          trSpec = JObj ([(''taskSpec'', taskSpec)] @
            (if sp_ServiceAccountName spec \<noteq> [] then [(''serviceAccountName'', JStr (sp_ServiceAccountName spec))] else []) @
            (if 0 < sp_Timeout spec then [(''timeout'', JStr (duration_string (sp_Timeout spec)))] else []))
      in JObj [(''apiVersion'', JStr ''tekton.dev/v1''), (''kind'', JStr ''TaskRun''), (''metadata'', metadata), (''spec'', trSpec)])"

text \<open>A later key wins; the entries of the environment come after the files.\<close>

definition buildCredsSecret :: "TaskRunSpec \<Rightarrow> (string \<rightharpoonup> string)" where
  "buildCredsSecret spec =
     map_of (map (\<lambda>(k, v). (secretEnvDataKey k, v)) (sp_SecretEnv spec) @ sp_Files spec)"

definition needs_secret :: "TaskRunSpec \<Rightarrow> bool" where
  "needs_secret spec \<longleftrightarrow> sp_Files spec \<noteq> [] \<or> sp_SecretEnv spec \<noteq> []"

text \<open>
  What \<open>submitTaskRun\<close> asks of the cluster: the Secret first when there is one, then the TaskRun. A TaskRun
  that is refused takes its Secret with it.
\<close>

datatype submit_call = CreateSecret string "string \<rightharpoonup> string" env | CreateTaskRun json | DeleteSecret string | OwnSecret string string

definition submitTaskRun ::
  "string \<Rightarrow> TaskRunSpec \<Rightarrow> string \<Rightarrow> (submit_call \<Rightarrow> string option) \<Rightarrow> string \<times> string \<Rightarrow> submit_call list \<times> (string + string)" where
  "submitTaskRun namespace spec i refused created =
     (if \<not> needs_secret spec then
        let create = CreateTaskRun (buildTaskRun namespace [] spec) in
        ([create], case refused create of Some e \<Rightarrow> Inl (''tekton: create taskrun: '' @ e) | None \<Rightarrow> Inr (fst created))
      else
        let secret = CreateSecret (credsSecretName i) (buildCredsSecret spec) (sp_Labels spec);
            create = CreateTaskRun (buildTaskRun namespace (credsSecretName i) spec) in
        case refused secret of
          Some e \<Rightarrow> ([secret], Inl (''tekton: create creds secret: '' @ e))
        | None \<Rightarrow>
            (case refused create of
               Some e \<Rightarrow> ([secret, create, DeleteSecret (credsSecretName i)], Inl (''tekton: create taskrun: '' @ e))
             | None \<Rightarrow>
                 ([secret, create] @ (if snd created \<noteq> [] then [OwnSecret (credsSecretName i) (fst created)] else []),
                  Inr (fst created))))"

section \<open>Status\<close>

text \<open>A TaskRun object as read: the fields the status is taken from; times that do not parse are absent.\<close>

record TaskRunObject =
  tk_Name :: string
  tk_Namespace :: string
  tk_Labels :: env
  tk_PodName :: string
  tk_StartTime :: "int option"
  tk_CompletionTime :: "int option"
  tk_Conditions :: "(string \<times> string \<times> string) list"

definition phase_of :: "string \<Rightarrow> string" where
  "phase_of status = (if status = ''True'' then ''Succeeded'' else if status = ''False'' then ''Failed'' else ''Running'')"

text \<open>The first condition of type Succeeded decides: type, status, message.\<close>

definition toRunStatus :: "TaskRunObject \<Rightarrow> RunStatus" where
  "toRunStatus u =
     (let r = \<lparr>rs_Name = tk_Name u, rs_Namespace = tk_Namespace u, rs_Phase = ''Pending'', rs_PodName = tk_PodName u,
               rs_Message = [], rs_StartedAt = tk_StartTime u, rs_CompletedAt = tk_CompletionTime u\<rparr> in
      case find (\<lambda>c. fst c = ''Succeeded'') (tk_Conditions u) of
        None \<Rightarrow> r
      | Some (_, status, message) \<Rightarrow> r\<lparr>rs_Phase := phase_of status, rs_Message := message\<rparr>)"

definition ownsRun :: "TaskRunObject \<Rightarrow> string \<Rightarrow> bool" where
  "ownsRun u orgLabel \<longleftrightarrow> orgLabel = [] \<or> (case map_of (tk_Labels u) RunOrgLabel of Some v \<Rightarrow> v | None \<Rightarrow> []) = orgLabel"

section \<open>Choosing a run to attach to\<close>

definition stampLabels :: "TaskRunSpec \<Rightarrow> env \<Rightarrow> TaskRunSpec" where
  "stampLabels spec labels =
     (if labels = [] then spec
      else spec\<lparr>sp_Labels := labels @ filter (\<lambda>kv. fst kv \<notin> fst ` set labels) (sp_Labels spec)\<rparr>)"

definition startedAfter :: "RunStatus \<Rightarrow> RunStatus \<Rightarrow> bool" where
  "startedAfter a b \<longleftrightarrow>
     (case rs_StartedAt a of
        None \<Rightarrow> False
      | Some s \<Rightarrow> (case rs_StartedAt b of None \<Rightarrow> True | Some t \<Rightarrow> t < s))"

definition latest_active :: "RunStatus option \<Rightarrow> RunStatus \<Rightarrow> RunStatus option" where
  "latest_active best r =
     (if Terminal r then best
      else case best of None \<Rightarrow> Some r | Some b \<Rightarrow> if startedAfter r b then Some r else best)"

definition latestActiveRun :: "RunStatus list \<Rightarrow> string" where
  "latestActiveRun runs = (case foldl latest_active None runs of None \<Rightarrow> [] | Some b \<Rightarrow> rs_Name b)"

section \<open>What the manifest shows\<close>

text \<open>Two specifications with the same names in their files and their secret environment.\<close>

definition same_shape :: "TaskRunSpec \<Rightarrow> TaskRunSpec \<Rightarrow> bool" where
  "same_shape s t \<longleftrightarrow>
     sp_Name s = sp_Name t \<and> sp_Image s = sp_Image t \<and> sp_Script s = sp_Script t \<and> sp_Env s = sp_Env t \<and>
     sp_ServiceAccountName s = sp_ServiceAccountName t \<and> sp_PluginCacheClaim s = sp_PluginCacheClaim t \<and>
     sp_Timeout s = sp_Timeout t \<and> sp_Labels s = sp_Labels t \<and>
     map fst (sp_Files s) = map fst (sp_Files t) \<and> map fst (sp_SecretEnv s) = map fst (sp_SecretEnv t)"

lemma map_of_names: "map fst xs = map fst ys \<Longrightarrow> map_of xs k = None \<longleftrightarrow> map_of ys k = None"
  by (simp add: map_of_eq_None_iff flip: set_map)

lemma buildTaskRun_shape: "same_shape s t \<Longrightarrow> buildTaskRun namespace secretName s = buildTaskRun namespace secretName t"
proof -
  assume s: "same_shape s t"
  have "env_entry (sp_Env s) (sp_SecretEnv s) secretName = env_entry (sp_Env t) (sp_SecretEnv t) secretName"
    using s map_of_names [of "sp_SecretEnv s" "sp_SecretEnv t"] by (simp add: fun_eq_iff env_entry_def same_shape_def)
  then have "envVars (sp_Env s) (sp_SecretEnv s) secretName = envVars (sp_Env t) (sp_SecretEnv t) secretName"
    using s by (simp add: envVars_def map_names_def same_shape_def)
  moreover have "sp_Files s = [] \<longleftrightarrow> sp_Files t = []" using s by (simp add: same_shape_def) (metis map_is_Nil_conv)
  ultimately show ?thesis
    using s by (simp add: buildTaskRun_def creds_mounts_def creds_volumes_def same_shape_def)
qed

lemma latest_active_fold:
  "foldl latest_active best runs = None \<longleftrightarrow> best = None \<and> list_all Terminal runs"
  by (induction runs arbitrary: best) (auto simp: latest_active_def split: option.splits)

lemma latest_active_mem:
  "foldl latest_active best runs = Some r \<Longrightarrow> best = Some r \<or> r \<in> set runs \<and> \<not> Terminal r"
proof (induction runs arbitrary: best)
  case (Cons x runs)
  then have "latest_active best x = Some r \<or> r \<in> set runs \<and> \<not> Terminal r" by simp
  then show ?case by (auto simp: latest_active_def split: if_splits option.splits)
qed simp

end
