(* ===== verification/RunWorker.thy ===== *)
theory RunWorker
  imports PolicyGate TektonRun Scheduler
begin

text \<open>
  One attempt at a run (\<open>lib/workflows/worker.go\<close>) and the executor under it (\<open>lib/tekton/runexec.go\<close>). What a
  goroutine of the scheduler does for its unit is a program of statements, reads and cluster calls, so
  that units interleave with each other and with everyone else.
\<close>

section \<open>Programs of a unit\<close>

datatype db_write =
    WMark uuid step_status string string
  | WLogs uuid string string string
  | WPolicy uuid string
  | WOutputs uuid string string

fun apply_write :: "uuid \<Rightarrow> int \<Rightarrow> db_write \<Rightarrow> RunDB \<Rightarrow> RunDB \<times> (run_error + unit)" where
  "apply_write org now (WMark i status message runName) d = MarkComponentRun d org i status message runName now"
| "apply_write org now (WLogs i logs chart vals) d = SetComponentRunLogs d org i logs chart vals now"
| "apply_write org now (WPolicy i verdict) d = SetComponentRunPolicy d org i verdict now"
| "apply_write org now (WOutputs i outputs resources) d = SetComponentRunOutputs d org i outputs resources now"

datatype cluster_call =
    OpList string
  | OpGet string
  | OpSubmit TaskRunSpec
  | OpWatch string
  | OpLogs string
  | OpHandover string string
  | OpDelete string

text \<open>
  Answers of the cluster: an error (\<open>AMissing\<close> when it is not found), listed runs, one run, a text, a
  watch that gave a snapshot, later states, and ended closed or cancelled.
\<close>

datatype stream_end = StreamClosed | StreamCancelled string

datatype cluster_answer =
    AError string
  | AMissing string
  | ARuns "RunStatus list"
  | ARun RunStatus
  | AText string
  | AStream RunStatus "RunStatus list" stream_end

datatype unit_prog =
    UDone nodeResult
  | UWrite db_write "bool \<Rightarrow> unit_prog"
  | URead "RunDB \<Rightarrow> int \<Rightarrow> unit_prog"
  | UCall cluster_call "cluster_answer \<Rightarrow> unit_prog"
  | URetryable string unit_prog

section \<open>The executor\<close>

record ExecRequest =
  xq_Spec :: TaskRunSpec
  xq_Labels :: env
  xq_RecoverSelector :: string
  xq_ExistingRun :: string

text \<open>An answer of the wrong kind counts as an error.\<close>

definition answer_error :: "cluster_answer \<Rightarrow> string" where
  "answer_error ans = (case ans of AError e \<Rightarrow> e | AMissing e \<Rightarrow> e | _ \<Rightarrow> ''unexpected answer'')"

definition exec_recover :: "string \<Rightarrow> (string \<Rightarrow> unit_prog) \<Rightarrow> unit_prog" where
  "exec_recover selector k = UCall (OpList selector) (\<lambda>ans. k (case ans of ARuns runs \<Rightarrow> latestActiveRun runs | _ \<Rightarrow> []))"

text \<open>\<open>runActive\<close>: present and not terminal; not found is not active, any other error is one.\<close>

definition exec_runActive :: "string \<Rightarrow> (string + bool \<Rightarrow> unit_prog) \<Rightarrow> unit_prog" where
  "exec_runActive name k =
     UCall (OpGet name) (\<lambda>ans. k (case ans of
        ARun st \<Rightarrow> Inr (\<not> Terminal st) | AMissing _ \<Rightarrow> Inr False | _ \<Rightarrow> Inl (answer_error ans)))"

fun first_terminal :: "RunStatus list \<Rightarrow> RunStatus option" where
  "first_terminal rs = find Terminal rs"

definition exec_await :: "string \<Rightarrow> (string + RunStatus \<Rightarrow> unit_prog) \<Rightarrow> unit_prog" where
  "exec_await name k =
     UCall (OpWatch name) (\<lambda>ans.
       case ans of
         AStream snapshot events fin \<Rightarrow>
           if Terminal snapshot then k (Inr snapshot)
           else (case first_terminal events of
             Some r \<Rightarrow> k (Inr r)
           | None \<Rightarrow>
               (case fin of
                  StreamCancelled e \<Rightarrow> k (Inl e)
                | StreamClosed \<Rightarrow>
                    UCall (OpGet name) (\<lambda>got. case got of
                      ARun r \<Rightarrow> if Terminal r then k (Inr r)
                        else k (Inl (''tekton: watch on run '' @ name @ '' ended before completion''))
                    | _ \<Rightarrow> k (Inl (answer_error got)))))
       | _ \<Rightarrow> k (Inl (answer_error ans)))"

text \<open>\<open>persist\<close> is \<open>OnSubmitted\<close>: the write of the name the server assigned.\<close>

definition exec_submit ::
  "ExecRequest \<Rightarrow> (string \<Rightarrow> db_write) \<Rightarrow> (string \<Rightarrow> string + RunStatus \<Rightarrow> unit_prog) \<Rightarrow> unit_prog" where
  "exec_submit r persist k =
     UCall (OpSubmit (stampLabels (xq_Spec r) (xq_Labels r))) (\<lambda>ans.
       case ans of
         ARun run \<Rightarrow>
           UWrite (persist (rs_Name run)) (\<lambda>ok.
             if ok then exec_await (rs_Name run) (k (rs_Name run))
             else k (rs_Name run) (Inl ''component run not found''))
       | _ \<Rightarrow> k [] (Inl (answer_error ans)))"

definition exec_attach ::
  "ExecRequest \<Rightarrow> (string \<Rightarrow> db_write) \<Rightarrow> (string \<Rightarrow> string + RunStatus \<Rightarrow> unit_prog) \<Rightarrow> string \<Rightarrow> unit_prog" where
  "exec_attach r persist k name =
     (if name = [] then exec_submit r persist k
      else exec_runActive name (\<lambda>act. case act of
        Inl e \<Rightarrow> k name (Inl e)
      | Inr active \<Rightarrow> if active then exec_await name (k name) else exec_submit r persist k))"

definition Execute ::
  "ExecRequest \<Rightarrow> (string \<Rightarrow> db_write) \<Rightarrow> (string \<Rightarrow> string + RunStatus \<Rightarrow> unit_prog) \<Rightarrow> unit_prog" where
  "Execute r persist k =
     (if xq_ExistingRun r = [] \<and> xq_RecoverSelector r \<noteq> [] then exec_recover (xq_RecoverSelector r) (exec_attach r persist k)
      else exec_attach r persist k (xq_ExistingRun r))"

section \<open>The worker\<close>

record RunArgs =
  wa_WorkflowRunID :: uuid
  wa_OrgID :: uuid
  wa_ApplicationID :: uuid
  wa_Action :: string
  wa_Force :: bool

text \<open>
  The worker's collaborators: platform functions, the planner's worker (its two reads of the run tables
  are replaced below), the policies, and the text of a planning error.
\<close>

record WorkerEnv =
  ve_Platform :: platform
  ve_Worker :: Worker
  ve_Policies :: PolicyEnv
  ve_ErrorText :: "plan_error \<Rightarrow> string"

definition componentByName :: "RunDB \<Rightarrow> uuid \<Rightarrow> uuid \<Rightarrow> string \<Rightarrow> plan_error + uuid option" where
  "componentByName d org app name =
     (case TofuComponentByName d org app name of
        Inr i \<Rightarrow> Inr (Some i)
      | Inl (ErrAmbiguousName n) \<Rightarrow> Inl (AmbiguousName n)
      | Inl _ \<Rightarrow> Inr None)"

definition run_worker :: "WorkerEnv \<Rightarrow> RunDB \<Rightarrow> Worker" where
  "run_worker env d =
     (ve_Worker env)\<lparr>wk_ComponentByName := Some (componentByName d),
       wk_ResolveOutputs := (\<lambda>org runID i. Inr (ResolveComponentOutputs d org runID i))\<rparr>"

definition run_application :: "AppRow \<Rightarrow> Application" where
  "run_application r =
     \<lparr>ap_ID = ar_ID r, ap_OrganizationID = ar_OrganizationID r, ap_Name = ar_Name r, ap_RunnerClusterID = ar_RunnerClusterID r\<rparr>"

text \<open>What an attempt has read before it schedules.\<close>

record WorkCtx =
  wx_Args :: RunArgs
  wx_Run :: RunRow
  wx_Steps :: "StepRun list"
  wx_App :: AppRow
  wx_StateOp :: "StateOp option"
  wx_AttemptsRemain :: bool

definition wx_nodes :: "WorkCtx \<Rightarrow> GraphNode list" where
  "wx_nodes x = snap_Nodes (wr_Graph (wx_Run x))"

definition crByComponent :: "WorkCtx \<Rightarrow> (uuid \<rightharpoonup> StepRun)" where
  "crByComponent x = foldl (\<lambda>m s. m(cr_ComponentID s \<mapsto> s)) Map.empty (wx_Steps x)"

definition nodeByID :: "WorkCtx \<Rightarrow> (uuid \<rightharpoonup> GraphNode)" where
  "nodeByID x = by_id (wx_nodes x)"

definition step_approved :: "WorkCtx \<Rightarrow> uuid \<Rightarrow> bool" where
  "step_approved x i \<longleftrightarrow> (case crByComponent x i of Some cr \<Rightarrow> cr_ApprovedAt cr \<noteq> None | None \<Rightarrow> False)"

definition work_nodes :: "WorkCtx \<Rightarrow> schedNode list" where
  "work_nodes x = map (sched_node (wa_Action (wx_Args x)) (step_approved x)) (wx_nodes x)"

definition work_concurrency :: "WorkCtx \<Rightarrow> int" where
  "work_concurrency x = int (run_concurrency (wx_nodes x))"

section \<open>One unit\<close>

definition failed_result :: "string \<Rightarrow> nodeResult" where
  "failed_result e = \<lparr>nr_Status = Failed, nr_Err = Some e, nr_Retryable = False, nr_Completes = []\<rparr>"

definition plain_result :: "sched_status \<Rightarrow> uuid list \<Rightarrow> nodeResult" where
  "plain_result st completes = \<lparr>nr_Status = st, nr_Err = None, nr_Retryable = False, nr_Completes = completes\<rparr>"

text \<open>\<open>captureTofuOutputs\<close>: a key that cannot be read or parsed is empty.\<close>

definition handover_text :: "(string \<Rightarrow> string option) \<Rightarrow> cluster_answer \<Rightarrow> string" where
  "handover_text conv ans =
     (case ans of AText raw \<Rightarrow> (case conv raw of Some t \<Rightarrow> t | None \<Rightarrow> []) | _ \<Rightarrow> [])"

definition capture_store :: "uuid \<Rightarrow> string \<Rightarrow> string \<Rightarrow> string \<Rightarrow> unit_prog \<Rightarrow> unit_prog" where
  "capture_store crID secret outputs resources k =
     (let del = UCall (OpDelete secret) (\<lambda>_. k) in
      if outputs = [] \<and> resources = [] then del
      else UWrite (WOutputs crID outputs resources) (\<lambda>ok. if ok then del else k))"

definition carry_forward :: "WorkerEnv \<Rightarrow> RunArgs \<Rightarrow> uuid \<Rightarrow> RunDB \<Rightarrow> string \<times> string \<Rightarrow> string \<times> string" where
  "carry_forward env a planID d both =
     (case LatestComponentState (pf_Derive (ve_Platform env)) d (wa_OrgID a) (wa_ApplicationID a) planID of
        Inl _ \<Rightarrow> both
      | Inr prev \<Rightarrow>
          (if fst both = [] then cr_Outputs prev else fst both, if snd both = [] then cr_Resources prev else snd both))"

definition captureTofuOutputs :: "WorkerEnv \<Rightarrow> WorkCtx \<Rightarrow> GraphNode \<Rightarrow> uuid \<Rightarrow> unit_prog \<Rightarrow> unit_prog" where
  "captureTofuOutputs env x node crID k =
     (let planID = tofuHandoverPlanID node (nodeByID x) in
      if planID = uuid_Nil then k
      else
        let secret = tofuPlanArtifactSecret (ve_Platform env) (wa_WorkflowRunID (wx_Args x)) planID in
        UCall (OpHandover secret ''outputs'') (\<lambda>a1.
        UCall (OpHandover secret ''resources'') (\<lambda>a2.
          let outputs = handover_text normalizeTofuOutputs a1; resources = handover_text normalizeTofuResources a2 in
          if (outputs = []) \<noteq> (resources = []) then
            URead (\<lambda>d now. case carry_forward env (wx_Args x) planID d (outputs, resources) of
              (outs, ress) \<Rightarrow> capture_store crID secret outs ress k)
          else capture_store crID secret outputs resources k)))"

text \<open>The apply units a plan completes get its outputs.\<close>

fun capture_completed :: "WorkerEnv \<Rightarrow> WorkCtx \<Rightarrow> uuid list \<Rightarrow> unit_prog \<Rightarrow> unit_prog" where
  "capture_completed env x [] k = k"
| "capture_completed env x (i # rest) k =
     (case (crByComponent x i, nodeByID x i) of
        (Some cr, Some n) \<Rightarrow> captureTofuOutputs env x n (cr_ID cr) (capture_completed env x rest k)
      | _ \<Rightarrow> capture_completed env x rest k)"

definition unit_succeeded :: "WorkerEnv \<Rightarrow> WorkCtx \<Rightarrow> GraphNode \<Rightarrow> StepRun \<Rightarrow> string \<Rightarrow> RunStatus \<Rightarrow> string \<Rightarrow> unit_prog" where
  "unit_succeeded env x node cr runName final logs =
     (let completes = noChangeCompletes (pf_Derive (ve_Platform env)) (wa_Action (wx_Args x)) node logs (nodeByID x);
          finish = capture_completed env x completes
            (UWrite (WMark (cr_ID cr) StepSucceeded (rs_Message final) runName) (\<lambda>_. UDone (plain_result Succeeded completes)))
      in if recordsTofuState (wa_Action (wx_Args x)) node then captureTofuOutputs env x node (cr_ID cr) finish else finish)"

definition unit_gated :: "WorkerEnv \<Rightarrow> WorkCtx \<Rightarrow> GraphNode \<Rightarrow> StepRun \<Rightarrow> string \<Rightarrow> RunStatus \<Rightarrow> string \<Rightarrow> unit_prog" where
  "unit_gated env x node cr runName final logs =
     (if \<not> policyGateApplies (wa_Action (wx_Args x)) node then unit_succeeded env x node cr runName final logs
      else URead (\<lambda>d now.
        case evaluatePolicies (ve_Platform env) (ve_Policies env) now (wa_OrgID (wx_Args x)) (wa_Action (wx_Args x))
            (find (\<lambda>r. wr_ID r = wa_WorkflowRunID (wx_Args x)) (rd_Runs d)) (wa_WorkflowRunID (wx_Args x))
            (run_application (wx_App x)) node logs of
          (verdict, refusal) \<Rightarrow>
            let next = (case refusal of
                  None \<Rightarrow> unit_succeeded env x node cr runName final logs
                | Some reason \<Rightarrow>
                    UWrite (WMark (cr_ID cr) StepFailed reason runName) (\<lambda>_.
                      UDone (failed_result (''workflows: component '' @ gn_Name node @ '': '' @ reason))))
            in (case verdict of None \<Rightarrow> next | Some v \<Rightarrow> UWrite (WPolicy (cr_ID cr) v) (\<lambda>_. next))))"

definition value_indexes :: "string \<Rightarrow> int list" where
  "value_indexes logs =
     List.map_filter (\<lambda>raw. Option.bind (cut_prefix (trim_space raw) ''SPACEFLEET_VALUES_REVISION_'') (\<lambda>rest. atoi (fst (str_cut rest ''=''))))
       (split_lines logs)"

definition value_revisions :: "string \<Rightarrow> (int \<times> string) list" where
  "value_revisions logs =
     (let m = rev_Values (ParseRevisions logs) in
      map (\<lambda>i. (i, the (m i))) (filter (\<lambda>i. m i \<noteq> None) (remdups (value_indexes logs))))"

definition unit_finished :: "WorkerEnv \<Rightarrow> WorkCtx \<Rightarrow> GraphNode \<Rightarrow> StepRun \<Rightarrow> string \<Rightarrow> RunStatus \<Rightarrow> unit_prog" where
  "unit_finished env x node cr runName final =
     UCall (OpLogs runName) (\<lambda>ans.
       let logs = (case ans of AText t \<Rightarrow> t | _ \<Rightarrow> []);
           next = (if rs_Phase final = ''Failed'' then
               let msg = (if rs_Message final = [] then ''component run failed'' else rs_Message final) in
               UWrite (WMark (cr_ID cr) StepFailed msg runName) (\<lambda>_.
                 UDone (failed_result (''workflows: component '' @ gn_Name node @ '' run '' @ runName @ '' failed: '' @ msg)))
             else unit_gated env x node cr runName final logs)
       in if logs = [] then next
          else UWrite (WLogs (cr_ID cr) logs (rev_Chart (ParseRevisions logs)) (encodeValuesRevision (value_revisions logs))) (\<lambda>_. next))"

definition unit_executed :: "WorkerEnv \<Rightarrow> WorkCtx \<Rightarrow> GraphNode \<Rightarrow> StepRun \<Rightarrow> string \<Rightarrow> string + RunStatus \<Rightarrow> unit_prog" where
  "unit_executed env x node cr runName res =
     (case res of
        Inl e \<Rightarrow>
          UWrite (if wx_AttemptsRemain x then WMark (cr_ID cr) StepRunning (''transient failure, retrying: '' @ e) runName
                  else WMark (cr_ID cr) StepFailed e runName) (\<lambda>_.
            URetryable e (UDone \<lparr>nr_Status = Failed, nr_Err = Some e, nr_Retryable = True, nr_Completes = []\<rparr>))
      | Inr final \<Rightarrow> unit_finished env x node cr runName final)"

text \<open>\<open>workflowWatchTimeout\<close> in seconds.\<close>

definition workflowWatchTimeout :: int where
  "workflowWatchTimeout = 90 * 60"

definition exec_request :: "WorkerEnv \<Rightarrow> WorkCtx \<Rightarrow> StepRun \<Rightarrow> RunRequest \<Rightarrow> ExecRequest" where
  "exec_request env x cr req =
     (let uid = pf_UUIDString (ve_Platform env) in
      \<lparr>xq_Spec = RunSpec.extend (rq_Spec req) \<lparr>sp_Timeout = workflowWatchTimeout, sp_Labels = []\<rparr>,
       xq_Labels = [(RunOrgLabel, uid (wa_OrgID (wx_Args x))), (RunJobLabel, uid (wa_WorkflowRunID (wx_Args x))),
                    (RunComponentLabel, uid (cr_ID cr))],
       xq_RecoverSelector = RunComponentLabel @ ''='' @ uid (cr_ID cr), xq_ExistingRun = rq_ExistingRun req\<rparr>)"

definition unit_planned :: "WorkerEnv \<Rightarrow> WorkCtx \<Rightarrow> GraphNode \<Rightarrow> StepRun \<Rightarrow> RunRequest \<Rightarrow> unit_prog" where
  "unit_planned env x node cr req =
     Execute (exec_request env x cr req) (\<lambda>name. WMark (cr_ID cr) StepRunning (''submitted run '' @ name) name)
       (unit_executed env x node cr)"

definition runComponent :: "WorkerEnv \<Rightarrow> WorkCtx \<Rightarrow> GraphNode \<Rightarrow> StepRun \<Rightarrow> unit_prog" where
  "runComponent env x node cr =
     (let a = wx_Args x in
      if cr_Status cr = StepSucceeded then
        UDone (plain_result Succeeded (noChangeCompletes (pf_Derive (ve_Platform env)) (wa_Action a) node (cr_Logs cr) (nodeByID x)))
      else if cr_Status cr = StepFailed then UDone (plain_result Failed [])
      else if cr_Status cr = StepSkipped then UDone (plain_result Skipped [])
      else
        UWrite (WMark (cr_ID cr) StepRunning (''starting '' @ wa_Action a) []) (\<lambda>_.
        URead (\<lambda>d now.
          case planComponent (ve_Platform env) (run_worker env d) (run_application (wx_App x)) node (wa_Action a) (wa_Force a)
              (cr_RunName cr) (wa_WorkflowRunID a) (cr_ID cr) (wx_nodes x) (wx_StateOp x) now of
            Inl e \<Rightarrow> UWrite (WMark (cr_ID cr) StepFailed (ve_ErrorText env e) []) (\<lambda>_. UDone (failed_result (ve_ErrorText env e)))
          | Inr req \<Rightarrow> unit_planned env x node cr req)))"

definition runFn :: "WorkerEnv \<Rightarrow> WorkCtx \<Rightarrow> uuid \<Rightarrow> unit_prog" where
  "runFn env x i =
     (case nodeByID x i of
        None \<Rightarrow> UDone (failed_result ''workflows: node missing from snapshot'')
      | Some node \<Rightarrow>
          (case crByComponent x i of
             None \<Rightarrow> UDone (failed_result ''workflows: component run for node missing'')
           | Some cr \<Rightarrow> runComponent env x node cr))"

end
