(* ===== verification/RunAttempt.thy ===== *)
theory RunAttempt
  imports RunWorker
begin

text \<open>
  An attempt as a whole (\<open>Work\<close> in \<open>lib/workflows/worker.go\<close>): what it reads, the scheduler with its
  callback and its units as one state machine over the run tables and the cluster, and how it settles.
\<close>

section \<open>Before the scheduler\<close>

definition start_work :: "run_itf \<Rightarrow> RunArgs \<Rightarrow> bool \<Rightarrow> int \<Rightarrow> RunDB \<Rightarrow> RunDB \<times> (string + WorkCtx)" where
  "start_work itf a attemptsRemain now d =
     (case GetRun d (wa_OrgID a) (wa_ApplicationID a) (wa_WorkflowRunID a) of
        Inl e \<Rightarrow> (d, Inl ''run not found'')
      | Inr (run, comps) \<Rightarrow>
          let d1 = itf 0 d in
          case getApp d1 (wa_OrgID a) (wa_ApplicationID a) of
            Inl e \<Rightarrow> (d1, Inl ''application not found'')
          | Inr app \<Rightarrow>
              let d2 = itf 1 d1 in
              case StateOpOf run of
                Inl e \<Rightarrow>
                  (fst (SettleStuckComponentRuns (itf 2 (fst (MarkRun d2 (wa_OrgID a) (wa_WorkflowRunID a) RunFailed e now)))
                     (wa_OrgID a) (wa_WorkflowRunID a) ''skipped (invalid state operation)'' now), Inl e)
              | Inr op \<Rightarrow>
                  (fst (MarkRun d2 (wa_OrgID a) (wa_WorkflowRunID a) RunRunning ''running workflow'' now),
                   Inr \<lparr>wx_Args = a, wx_Run = run, wx_Steps = comps, wx_App = app, wx_StateOp = op,
                        wx_AttemptsRemain = attemptsRemain\<rparr>))"

section \<open>The callback\<close>

text \<open>What \<open>onState\<close> writes. \<open>ranFn\<close>: the unit's own function ran; \<open>retry\<close>: a retryable failure is pending.\<close>

definition onState :: "WorkCtx \<Rightarrow> bool \<Rightarrow> bool \<Rightarrow> uuid \<Rightarrow> sched_status \<Rightarrow> db_write option" where
  "onState x ranFn retry i status =
     (case crByComponent x i of
        None \<Rightarrow> None
      | Some cr \<Rightarrow>
          (case status of
             AwaitingApproval \<Rightarrow> Some (WMark (cr_ID cr) StepAwaiting ''awaiting manual approval'' [])
           | Skipped \<Rightarrow>
               if wx_AttemptsRemain x \<and> retry then None
               else Some (WMark (cr_ID cr) StepSkipped ''skipped (an upstream component did not pass)'' [])
           | Failed \<Rightarrow>
               if ranFn then None
               else Some (WMark (cr_ID cr) StepFailed ''unresolved dependency: a referenced component is not part of this run'' [])
           | Succeeded \<Rightarrow>
               if ranFn \<or> cr_Status cr = StepSucceeded then None
               else Some (WMark (cr_ID cr) StepSucceeded
                      (case nodeByID x i of Some n \<Rightarrow> nothingToApplyMessage n | None \<Rightarrow> ''nothing to apply: the plan has no changes'') [])
           | _ \<Rightarrow> None))"

section \<open>The machine\<close>

text \<open>
  \<open>wj_Queue\<close> holds the settled and parked units whose callback has not run yet: the callback runs under
  the scheduler's lock, so no other unit settles and no sweep runs before the queue is empty.
\<close>

record work =
  wj_Sched :: sched
  wj_Queue :: "(uuid \<times> sched_status) list"
  wj_Units :: "uuid \<rightharpoonup> unit_prog"
  wj_Ran :: "uuid list"
  wj_Retry :: "string option"
  wj_DB :: RunDB
  wj_Log :: "(uuid \<times> cluster_call \<times> cluster_answer) list"

datatype work_event =
    Begin uuid
  | StepUnit uuid int cluster_answer
  | End uuid
  | Notify int
  | Main sched_event
  | Others RunDB

definition fresh_emissions :: "sched \<Rightarrow> sched \<Rightarrow> (uuid \<times> sched_status) list" where
  "fresh_emissions s t = drop (length (sc_emitted s)) (sc_emitted t)"

definition advance :: "WorkCtx \<Rightarrow> sched_event \<Rightarrow> work \<Rightarrow> work option" where
  "advance x e w =
     (case sched_step (work_nodes x) (work_concurrency x) e (wj_Sched w) of
        None \<Rightarrow> None
      | Some t \<Rightarrow> Some (w\<lparr>wj_Sched := t, wj_Queue := wj_Queue w @ fresh_emissions (wj_Sched w) t\<rparr>))"

fun unit_step :: "uuid \<Rightarrow> uuid \<Rightarrow> int \<Rightarrow> cluster_answer \<Rightarrow> unit_prog \<Rightarrow> work \<Rightarrow> work option" where
  "unit_step org i now ans (UDone res) w = None"
| "unit_step org i now ans (UWrite wr k) w =
     (case apply_write org now wr (wj_DB w) of
        (d, r) \<Rightarrow> Some (w\<lparr>wj_DB := d, wj_Units := (wj_Units w)(i \<mapsto> k (r = Inr ()))\<rparr>))"
| "unit_step org i now ans (URead k) w = Some (w\<lparr>wj_Units := (wj_Units w)(i \<mapsto> k (wj_DB w) now)\<rparr>)"
| "unit_step org i now ans (UCall c k) w =
     Some (w\<lparr>wj_Units := (wj_Units w)(i \<mapsto> k ans), wj_Log := wj_Log w @ [(i, c, ans)]\<rparr>)"
| "unit_step org i now ans (URetryable e k) w =
     Some (w\<lparr>wj_Units := (wj_Units w)(i \<mapsto> k), wj_Retry := (if wj_Retry w = None then Some e else wj_Retry w)\<rparr>)"

fun needs_lock :: "sched_event \<Rightarrow> bool" where
  "needs_lock CtxDone \<longleftrightarrow> False"
| "needs_lock _ \<longleftrightarrow> True"

fun work_step :: "WorkerEnv \<Rightarrow> WorkCtx \<Rightarrow> work_event \<Rightarrow> work \<Rightarrow> work option" where
  "work_step env x (Begin i) w =
     (case sched_step (work_nodes x) (work_concurrency x) (Acquire i) (wj_Sched w) of
        None \<Rightarrow> None
      | Some t \<Rightarrow> Some (w\<lparr>wj_Sched := t, wj_Units := (wj_Units w)(i \<mapsto> runFn env x i), wj_Ran := i # wj_Ran w\<rparr>))"
| "work_step env x (StepUnit i now ans) w =
     (case wj_Units w i of None \<Rightarrow> None | Some p \<Rightarrow> unit_step (wa_OrgID (wx_Args x)) i now ans p w)"
| "work_step env x (End i) w =
     (case wj_Units w i of
        Some (UDone res) \<Rightarrow> if wj_Queue w = [] then advance x (Finish i res) (w\<lparr>wj_Units := (wj_Units w)(i := None)\<rparr>) else None
      | _ \<Rightarrow> None)"
| "work_step env x (Notify now) w =
     (case wj_Queue w of
        [] \<Rightarrow> None
      | (i, status) # rest \<Rightarrow>
          (case onState x (i \<in> set (wj_Ran w)) (wj_Retry w \<noteq> None) i status of
             None \<Rightarrow> Some (w\<lparr>wj_Queue := rest\<rparr>)
           | Some wr \<Rightarrow> Some (w\<lparr>wj_Queue := rest, wj_DB := fst (apply_write (wa_OrgID (wx_Args x)) now wr (wj_DB w))\<rparr>)))"
| "work_step env x (Main e) w =
     (case e of
        Acquire i \<Rightarrow> None
      | Finish i res \<Rightarrow> None
      | _ \<Rightarrow> if needs_lock e \<and> wj_Queue w \<noteq> [] then None else advance x e w)"
| "work_step env x (Others d) w = Some (w\<lparr>wj_DB := d\<rparr>)"

definition begin_work :: "WorkCtx \<Rightarrow> RunDB \<Rightarrow> work" where
  "begin_work x d =
     \<lparr>wj_Sched = schedule_init (work_nodes x), wj_Queue = sc_emitted (schedule_init (work_nodes x)), wj_Units = Map.empty,
      wj_Ran = [], wj_Retry = None, wj_DB = d, wj_Log = []\<rparr>"

fun work_exec :: "WorkerEnv \<Rightarrow> WorkCtx \<Rightarrow> work_event list \<Rightarrow> work \<Rightarrow> work option" where
  "work_exec env x [] w = Some w"
| "work_exec env x (e # es) w = (case work_step env x e w of None \<Rightarrow> None | Some u \<Rightarrow> work_exec env x es u)"

section \<open>Handover Secrets\<close>

definition sweep_names :: "WorkerEnv \<Rightarrow> RunArgs \<Rightarrow> GraphSnapshot \<Rightarrow> string list" where
  "sweep_names env a snap =
     (if isReadOnlyAction (wa_Action a) then []
      else map (\<lambda>n. tofuPlanArtifactSecret (ve_Platform env) (wa_WorkflowRunID a) (gn_ID n)) (filter ownsTofuHandover (snap_Nodes snap)))"

text \<open>The Secrets the sweep asks to delete.\<close>

definition sweepPlanArtifacts :: "WorkerEnv \<Rightarrow> RunArgs \<Rightarrow> AppRow \<Rightarrow> GraphSnapshot \<Rightarrow> string list" where
  "sweepPlanArtifacts env a app snap =
     (case rv_Conn (wk_Resolver (ve_Worker env)) (wa_OrgID a) (ar_RunnerClusterID app) of
        Inl _ \<Rightarrow> []
      | Inr _ \<Rightarrow> sweep_names env a snap)"

definition isTerminalRunStatus :: "run_status \<Rightarrow> bool" where
  "isTerminalRunStatus s \<longleftrightarrow> s \<in> {run_status.RunSucceeded, run_status.RunFailed, run_status.RunPartial}"

definition sweepIfSettled :: "WorkerEnv \<Rightarrow> RunArgs \<Rightarrow> AppRow \<Rightarrow> GraphSnapshot \<Rightarrow> RunDB \<Rightarrow> string list" where
  "sweepIfSettled env a app snap d =
     (case GetRun d (wa_OrgID a) (wa_ApplicationID a) (wa_WorkflowRunID a) of
        Inl _ \<Rightarrow> []
      | Inr (run, _) \<Rightarrow> if isTerminalRunStatus (wr_Status run) then sweepPlanArtifacts env a app snap else [])"

definition sweepReapedRun :: "WorkerEnv \<Rightarrow> RunDB \<Rightarrow> RunRow \<Rightarrow> string list" where
  "sweepReapedRun env d run =
     (case getApp d (wr_OrganizationID run) (wr_ApplicationID run) of
        Inl _ \<Rightarrow> []
      | Inr app \<Rightarrow>
          sweepPlanArtifacts env
            \<lparr>wa_WorkflowRunID = wr_ID run, wa_OrgID = wr_OrganizationID run, wa_ApplicationID = wr_ApplicationID run,
             wa_Action = wr_Action run, wa_Force = False\<rparr> app (wr_Graph run))"

section \<open>After the scheduler\<close>

fun final_status :: "run_outcome \<Rightarrow> run_status \<times> string" where
  "final_status run_outcome.RunSucceeded = (run_status.RunSucceeded, ''succeeded'')"
| "final_status run_outcome.RunFailed = (run_status.RunFailed, ''failed'')"
| "final_status run_outcome.RunPartial = (run_status.RunPartial, ''partial'')"
| "final_status RunSuspended = (RunAwaiting, ''suspended'')"

text \<open>What ends an attempt: how it left the run, the Secrets it sweeps, the error it returns to the queue.\<close>

record WorkEnd =
  we_Swept :: "string list"
  we_Error :: "string option"

definition finish_work ::
  "WorkerEnv \<Rightarrow> WorkCtx \<Rightarrow> run_itf \<Rightarrow> int \<Rightarrow> run_outcome \<Rightarrow> string option \<Rightarrow> string option \<Rightarrow> RunDB \<Rightarrow> RunDB \<times> WorkEnd" where
  "finish_work env x itf now outcome ctxErr retry d =
     (let a = wx_Args x; org = wa_OrgID a; runID = wa_WorkflowRunID a; snap = wr_Graph (wx_Run x);
          exhausted = (if wx_AttemptsRemain x then [] else '', retries exhausted'');
          err = (case ctxErr of Some e \<Rightarrow> Some (''run aborted: '' @ e)
                 | None \<Rightarrow> map_option (\<lambda>e. ''run failed (retryable'' @ exhausted @ ''): '' @ e) retry)
      in if outcome = RunSuspended then
           (fst (MarkRun d org runID RunAwaiting ''awaiting manual approval'' now), \<lparr>we_Swept = [], we_Error = None\<rparr>)
         else if outcome = run_outcome.RunFailed \<and> wx_AttemptsRemain x \<and> err \<noteq> None then
           (d, \<lparr>we_Swept = (if ctxErr \<noteq> None then sweepIfSettled env a (wx_App x) snap d else []), we_Error = err\<rparr>)
         else
           let d1 = fst (MarkRun d org runID (fst (final_status outcome)) (''workflow '' @ snd (final_status outcome)) now);
               d2 = (if outcome \<in> {run_outcome.RunFailed, run_outcome.RunPartial}
                     then fst (SettleStuckComponentRuns (itf 0 d1) org runID ''skipped (run did not complete)'' now) else d1)
           in (d2, \<lparr>we_Swept = sweepPlanArtifacts env a (wx_App x) snap,
                    we_Error = (if outcome = run_outcome.RunFailed then err else None)\<rparr>))"

end
