(* ===== verification/RunAttempt_Props.thy ===== *)
theory RunAttempt_Props
  imports RunAttempt RunTrace
begin

text \<open>What every attempt keeps: its writes are steps of the run tables, its cluster calls have their reasons.\<close>

section \<open>Programs of units\<close>

text \<open>
  What a unit may still do. \<open>proof\<close>: its last cluster call showed that no run of it is active (or that listing
  failed); \<open>sent\<close>: it has submitted. No write marks a step pending or parked.
\<close>

definition shows_none :: "cluster_call \<Rightarrow> cluster_answer \<Rightarrow> bool" where
  "shows_none c ans \<longleftrightarrow>
     (case c of
        OpGet name \<Rightarrow> (case ans of AMissing _ \<Rightarrow> True | ARun st \<Rightarrow> Terminal st | _ \<Rightarrow> False)
      | OpList sel \<Rightarrow> (case ans of ARuns runs \<Rightarrow> latestActiveRun runs = [] | _ \<Rightarrow> True)
      | _ \<Rightarrow> False)"

fun write_plain :: "db_write \<Rightarrow> bool" where
  "write_plain (WMark i status message name) \<longleftrightarrow> status \<in> {StepRunning, StepSucceeded, StepFailed}"
| "write_plain _ \<longleftrightarrow> True"

definition is_submit :: "cluster_call \<Rightarrow> bool" where
  "is_submit c \<longleftrightarrow> (case c of OpSubmit _ \<Rightarrow> True | _ \<Rightarrow> False)"

lemma is_submit_simps [simp]:
  "is_submit (OpSubmit s)" "\<not> is_submit (OpList a)" "\<not> is_submit (OpGet a)" "\<not> is_submit (OpWatch a)" "\<not> is_submit (OpLogs a)"
  "\<not> is_submit (OpHandover a b)" "\<not> is_submit (OpDelete a)"
  by (simp_all add: is_submit_def)

primrec prog_ok :: "unit_prog \<Rightarrow> bool \<Rightarrow> bool \<Rightarrow> bool" where
  "prog_ok (UDone res) = (\<lambda>p s. True)"
| "prog_ok (UWrite w k) = (\<lambda>p s. write_plain w \<and> (\<forall>b. prog_ok (k b) p s))"
| "prog_ok (URead k) = (\<lambda>p s. \<forall>d now. prog_ok (k d now) p s)"
| "prog_ok (UCall c k) = (\<lambda>p s. (is_submit c \<longrightarrow> p \<and> \<not> s) \<and> (\<forall>ans. prog_ok (k ans) (shows_none c ans) (s \<or> is_submit c)))"
| "prog_ok (URetryable e k) = (\<lambda>p s. prog_ok k p s)"

text \<open>A program that submits no more.\<close>

primrec no_submit :: "unit_prog \<Rightarrow> bool" where
  "no_submit (UDone res) = True"
| "no_submit (UWrite w k) = (write_plain w \<and> (\<forall>b. no_submit (k b)))"
| "no_submit (URead k) = (\<forall>d now. no_submit (k d now))"
| "no_submit (UCall c k) = (\<not> is_submit c \<and> (\<forall>ans. no_submit (k ans)))"
| "no_submit (URetryable e k) = no_submit k"

lemma no_submit_ok: "no_submit q \<Longrightarrow> prog_ok q p s"
proof (induction q arbitrary: p s)
  case (UWrite w k)
  then show ?case using UWrite.IH [OF rangeI] by simp
next
  case (URead k)
  then show ?case using URead.IH [OF rangeI rangeI] by simp
next
  case (UCall c k)
  then show ?case using UCall.IH [OF rangeI] by simp
qed simp_all

lemma shows_none_simps [simp]:
  "shows_none (OpGet n) (AMissing e)" "shows_none (OpGet n) (ARun st) \<longleftrightarrow> Terminal st" "\<not> shows_none (OpGet n) (AError e)"
  "shows_none (OpList sel) (ARuns runs) \<longleftrightarrow> latestActiveRun runs = []"
  by (simp_all add: shows_none_def)

lemma capture_store_quiet: "no_submit k \<Longrightarrow> no_submit (capture_store i secret a b k)"
  by (simp add: capture_store_def Let_def)

lemma captureTofuOutputs_quiet: "no_submit k \<Longrightarrow> no_submit (captureTofuOutputs env x node i k)"
  by (simp add: captureTofuOutputs_def Let_def capture_store_quiet split_beta)

lemma capture_completed_quiet:
  assumes k: "no_submit k"
  shows "no_submit (capture_completed env x ids k)"
proof (induction ids)
  case (Cons i ids)
  then show ?case
    by (cases "crByComponent x i"; cases "nodeByID x i") (simp_all add: captureTofuOutputs_quiet)
qed (simp add: k)

lemma unit_succeeded_quiet: "no_submit (unit_succeeded env x node cr name final logs)"
  by (simp add: unit_succeeded_def Let_def capture_completed_quiet captureTofuOutputs_quiet)

lemma unit_gated_quiet: "no_submit (unit_gated env x node cr name final logs)"
  by (simp add: unit_gated_def Let_def unit_succeeded_quiet split_beta split: option.split)

lemma unit_finished_quiet: "no_submit (unit_finished env x node cr name final)"
  by (simp add: unit_finished_def Let_def unit_gated_quiet)

lemma unit_executed_quiet: "no_submit (unit_executed env x node cr name res)"
  by (simp add: unit_executed_def unit_finished_quiet split: sum.split)

lemma exec_await_quiet: "(\<And>r. no_submit (k r)) \<Longrightarrow> no_submit (exec_await name k)"
  by (simp add: exec_await_def split: cluster_answer.split stream_end.split option.split)

lemma exec_submit_ok:
  "(\<And>name r. no_submit (k name r)) \<Longrightarrow> (\<And>name. write_plain (persist name)) \<Longrightarrow> p \<Longrightarrow> \<not> s \<Longrightarrow> prog_ok (exec_submit r persist k) p s"
  by (simp add: exec_submit_def exec_await_quiet no_submit_ok split: cluster_answer.split)

lemma exec_attach_ok:
  assumes "\<And>name r. no_submit (k name r)" and "\<And>name. write_plain (persist name)" and "name = [] \<Longrightarrow> p" and "\<not> s"
  shows "prog_ok (exec_attach r persist k name) p s"
  using assms
  by (auto simp: exec_attach_def exec_runActive_def exec_await_quiet no_submit_ok exec_submit_ok split: cluster_answer.split sum.split)

lemma Execute_ok:
  assumes "\<And>name r. no_submit (k name r)" and "\<And>name. write_plain (persist name)"
    and "xq_RecoverSelector r \<noteq> []"
  shows "prog_ok (Execute r persist k) False False"
  using assms
  by (auto simp: Execute_def exec_recover_def exec_attach_ok shows_none_def split: cluster_answer.split)

lemma unit_planned_ok: "prog_ok (unit_planned env x node cr req) False False"
  unfolding unit_planned_def by (rule Execute_ok) (simp_all add: unit_executed_quiet exec_request_def Let_def)

lemma runComponent_ok: "prog_ok (runComponent env x node cr) False False"
  by (simp add: runComponent_def Let_def unit_planned_ok split: sum.split)

lemma runFn_ok: "prog_ok (runFn env x i) False False"
  by (simp add: runFn_def runComponent_ok split: option.split)

text \<open>Listed runs have names: none of them is active.\<close>

lemma latestActiveRun_none:
  assumes "list_all (\<lambda>r. rs_Name r \<noteq> []) runs"
  shows "latestActiveRun runs = [] \<longleftrightarrow> list_all Terminal runs"
proof (cases "foldl latest_active None runs")
  case None
  moreover from this have "list_all Terminal runs" using latest_active_fold [of None runs] by simp
  ultimately show ?thesis by (simp add: latestActiveRun_def)
next
  case (Some b)
  then have "b \<in> set runs" "\<not> list_all Terminal runs"
    using latest_active_mem [OF Some] latest_active_fold [of None runs] by auto
  moreover have "latestActiveRun runs \<noteq> []"
    using Some assms \<open>b \<in> set runs\<close> by (simp add: latestActiveRun_def list_all_iff)
  ultimately show ?thesis by simp
qed

section \<open>Executions of a program\<close>

text \<open>\<open>unit_path p l q\<close>: after the cluster calls \<open>l\<close> with these answers, \<open>p\<close> is at \<open>q\<close>.\<close>

inductive unit_path :: "unit_prog \<Rightarrow> (cluster_call \<times> cluster_answer) list \<Rightarrow> unit_prog \<Rightarrow> bool" for p where
  up_start: "unit_path p [] p"
| up_write: "unit_path p l (UWrite w k) \<Longrightarrow> unit_path p l (k b)"
| up_read: "unit_path p l (URead k) \<Longrightarrow> unit_path p l (k d now)"
| up_call: "unit_path p l (UCall c k) \<Longrightarrow> unit_path p (l @ [(c, ans)]) (k ans)"
| up_retry: "unit_path p l (URetryable e k) \<Longrightarrow> unit_path p l k"

definition last_shows_none :: "(cluster_call \<times> cluster_answer) list \<Rightarrow> bool" where
  "last_shows_none l \<longleftrightarrow> l \<noteq> [] \<and> shows_none (fst (last l)) (snd (last l))"

definition submitted :: "(cluster_call \<times> cluster_answer) list \<Rightarrow> bool" where
  "submitted l \<longleftrightarrow> list_ex (\<lambda>e. is_submit (fst e)) l"

text \<open>One submit at most, right after a call that showed no active run.\<close>

fun submits_guarded :: "(cluster_call \<times> cluster_answer) list \<Rightarrow> bool" where
  "submits_guarded l \<longleftrightarrow>
     (\<forall>j < length l. is_submit (fst (l ! j)) \<longrightarrow>
        0 < j \<and> shows_none (fst (l ! (j - 1))) (snd (l ! (j - 1))) \<and> (\<forall>k < length l. is_submit (fst (l ! k)) \<longrightarrow> k = j))"

declare submits_guarded.simps [simp del]

lemma submits_guarded_snoc:
  assumes "submits_guarded l" and "is_submit c \<longrightarrow> last_shows_none l \<and> \<not> submitted l"
  shows "submits_guarded (l @ [(c, ans)])"
proof (cases "is_submit c")
  case False
  then show ?thesis using assms(1) by (auto simp: submits_guarded.simps nth_append less_Suc_eq)
next
  case True
  then have l: "l \<noteq> []" "shows_none (fst (l ! (length l - 1))) (snd (l ! (length l - 1)))"
    using True assms(2) last_conv_nth [of l] by (auto simp: last_shows_none_def)
  have none: "\<not> is_submit (fst (l ! k))" if "k < length l" for k
    using True assms(2) that by (auto simp: submitted_def list_ex_length)
  show ?thesis unfolding submits_guarded.simps
    using l none by (auto simp: nth_append less_Suc_eq)
qed

lemma unit_path_ok:
  "unit_path p l q \<Longrightarrow> prog_ok p False False \<Longrightarrow>
    prog_ok q (last_shows_none l) (submitted l) \<and> submits_guarded l"
proof (induction rule: unit_path.induct)
  case up_start
  then show ?case by (simp add: last_shows_none_def submitted_def submits_guarded.simps)
next
  case (up_call l c k ans)
  then have "prog_ok (UCall c k) (last_shows_none l) (submitted l)" "submits_guarded l" by simp_all
  then show ?case
    using submits_guarded_snoc [of l c ans] by (simp add: last_shows_none_def submitted_def)
qed auto

end
