(* ===== verification/Scheduler_Units.thy ===== *)
theory Scheduler_Units
  imports Scheduler_Final
begin

text \<open>What a caller that follows the reports of the scheduler relies on: a unit starts once, and what is settled was reported.\<close>

section \<open>A unit starts once\<close>

definition begun :: "uuid \<Rightarrow> sched \<Rightarrow> bool" where
  "begun i s \<longleftrightarrow> (i, Running) \<in> set (sc_emitted s)"

definition executing :: "uuid \<Rightarrow> sched \<Rightarrow> bool" where
  "executing i s \<longleftrightarrow> (\<exists>n. (n, Executing) \<in> set (sc_procs s) \<and> sn_ID n = i)"

lemma begun_sweep: "sweep nodes s l = (t, l') \<Longrightarrow> begun i t \<longleftrightarrow> begun i s"
  using sweep_frame [of nodes s l t l'] by (force simp: sweep_frame_def begun_def)

lemma init_begun: "\<not> begun i (schedule_init nodes)"
proof (cases "nodes = []")
  case True
  then show ?thesis by (simp add: schedule_init_def begun_def empty_sched_def)
next
  case False
  obtain u l where u: "sweep nodes empty_sched 0 = (u, l)" by (cases "sweep nodes empty_sched 0")
  have "\<not> begun i u" using begun_sweep [OF u] by (simp add: begun_def empty_sched_def)
  then show ?thesis using False u by (simp add: schedule_init_def begun_def)
qed

lemma begun_acquire: "sched_step nodes c (Acquire j) s = Some t \<Longrightarrow> begun i t \<longleftrightarrow> i = j \<or> begun i s"
  by (auto simp: begun_def split: if_splits)

lemma begun_same:
  assumes "sched_step nodes c e s = Some t" and "\<And>i. e \<noteq> Acquire i"
  shows "begun i t \<longleftrightarrow> begun i s"
proof (cases e)
  case (Receive j)
  with assms obtain u l where u: "sweep nodes (drop_proc j s) 0 = (u, l)" "sc_emitted t = sc_emitted u"
    by (auto split: if_splits prod.splits)
  show ?thesis using begun_sweep [OF u(1), of i] by (simp add: begun_def u(2))
next
  case (Finish j res)
  with assms(1) have "sc_emitted t = sc_emitted s @ [(j, settle_status (nr_Status res))]" by (auto split: if_splits)
  then show ?thesis using settle_status_range [of "nr_Status res"] by (auto simp: begun_def)
qed (use assms in \<open>auto simp: begun_def split: if_splits loop_mode.splits\<close>)

lemma executing_open: "book_inv nodes s \<Longrightarrow> executing i s \<Longrightarrow> sc_results s i = None \<and> i \<notin> sc_parked s"
  unfolding executing_def
proof (elim exE conjE)
  fix n assume book: "book_inv nodes s" and n: "(n, Executing) \<in> set (sc_procs s)" "sn_ID n = i"
  then have "i \<in> sc_inflight s" by (auto simp: book_inv_def)
  moreover have "i \<in> set (proc_ids s)" using n by force
  ultimately show "sc_results s i = None \<and> i \<notin> sc_parked s" using book by (auto simp: book_inv_def)
qed

lemma begun_settled: "sched_reach nodes c s \<Longrightarrow> begun i s \<Longrightarrow> sc_results s i \<noteq> None \<or> executing i s"
  using emit_inv_reach unfolding emit_inv_def begun_def executing_def by blast

lemma acquire_once:
  assumes "sched_reach nodes c s" and "sched_step nodes c (Acquire i) s = Some t"
  shows "\<not> begun i s" and "executing i t"
proof -
  have book: "book_inv nodes s" by (rule book_inv_reach [OF assms(1)])
  have "proc_phase i s = Some Waiting" and t: "t = emit i Running (set_phase i Executing s)"
    using assms(2) by (auto split: if_splits)
  then obtain m where m: "(m, Waiting) \<in> set (sc_procs s)" "sn_ID m = i" using proc_phaseD by blast
  have "i \<in> sc_inflight s" using book m by (auto simp: book_inv_def)
  then have "sc_results s i = None" using book by (simp add: book_inv_def)
  moreover have "\<not> executing i s" using proc_unique [OF book m(1), of _ Executing] m(2) by (fastforce simp: executing_def)
  ultimately show "\<not> begun i s" using begun_settled [OF assms(1)] by blast
  show "executing i t" using set_phase_mem [OF book m(1), of m Executing Executing] m(2) by (auto simp: executing_def t)
qed

text \<open>A unit executes until it finishes.\<close>

lemma executing_stays:
  assumes "sched_step nodes c e s = Some t" and book: "book_inv nodes s" and "executing i s" and "\<And>res. e \<noteq> Finish i res"
  shows "executing i t"
proof -
  obtain n where n: "(n, Executing) \<in> set (sc_procs s)" "sn_ID n = i" using assms(3) by (auto simp: executing_def)
  have "(n, Executing) \<in> set (sc_procs t)"
  proof (cases e)
    case (Receive j)
    with assms(1) obtain u l where u: "sweep nodes (drop_proc j s) 0 = (u, l)" "sc_procs t = sc_procs u" "proc_phase j s = Some Settled"
      by (auto split: if_splits prod.splits)
    from proc_phaseD [OF u(3)] have "i \<noteq> j" using proc_unique [OF book n(1)] n(2) by fastforce
    then show ?thesis using sweep_frame [OF u(1)] n by (auto simp: u(2) sweep_frame_def)
  next
    case (Drain j)
    with assms(1) have j: "proc_phase j s = Some Settled" "sc_procs t = sc_procs (drop_proc j s)" by (auto split: if_splits)
    from proc_phaseD [OF j(1)] have "i \<noteq> j" using proc_unique [OF book n(1)] n(2) by fastforce
    then show ?thesis using n by (simp add: j(2))
  next
    case (Acquire j)
    with assms(1) have "sc_procs t = sc_procs (set_phase j Executing s)" by (auto split: if_splits)
    then show ?thesis using n by (force simp: set_phase_def image_iff)
  next
    case (Finish j res)
    with assms(1,4) have j: "i \<noteq> j" "t = set_phase j Settled (record_result j res s)" by (auto split: if_splits)
    then show ?thesis using n by (force simp: set_phase_def image_iff)
  qed (use assms(1) n in \<open>auto split: if_splits loop_mode.splits\<close>)
  then show ?thesis using n(2) by (auto simp: executing_def)
qed

section \<open>What is settled or parked was reported\<close>

definition told_inv :: "sched \<Rightarrow> bool" where
  "told_inv s \<longleftrightarrow> (\<forall>i st. sc_results s i = Some st \<longrightarrow> (i, st) \<in> set (sc_emitted s)) \<and>
     (\<forall>i \<in> sc_parked s. (i, AwaitingApproval) \<in> set (sc_emitted s))"

lemma told_inv_same:
  "told_inv s \<Longrightarrow> sc_results t = sc_results s \<Longrightarrow> sc_parked t = sc_parked s \<Longrightarrow> set (sc_emitted s) \<subseteq> set (sc_emitted t) \<Longrightarrow> told_inv t"
  by (auto simp: told_inv_def)

lemma told_inv_settle: "told_inv s \<Longrightarrow> told_inv (markSettled i st s)"
  by (auto simp: told_inv_def split: if_splits)

lemma told_inv_sweep_node: "told_inv s \<Longrightarrow> sweep_node nodes n (s, l, p) = (t, l', p') \<Longrightarrow> told_inv t"
  by (cases "sweep_decide nodes s n") (auto simp: told_inv_def split: if_splits)

lemma told_inv_sweep: "told_inv s \<Longrightarrow> sweep nodes s l = (t, l') \<Longrightarrow> told_inv t"
  by (rule sweep_induct [where P = "\<lambda>s l. told_inv s"]) (auto intro: told_inv_sweep_node)

lemma told_inv_step:
  assumes "sched_step nodes c e s = Some t" and told: "told_inv s"
  shows "told_inv t"
proof (cases e)
  case (Finish i res)
  with assms have "t = set_phase i Settled (record_result i res s)" by (auto split: if_splits)
  moreover have "told_inv (record_result i res s)" using told by (auto simp: told_inv_def)
  ultimately show ?thesis by (simp add: told_inv_def)
next
  case (Receive j)
  with assms obtain u l where u: "sweep nodes (drop_proc j s) 0 = (u, l)" "t = u\<lparr>sc_pending := sc_pending s - 1 + l\<rparr>"
    by (auto split: if_splits prod.splits)
  have "told_inv (drop_proc j s)" using told by (simp add: told_inv_def)
  from told_inv_sweep [OF this u(1)] show ?thesis by (simp add: u(2) told_inv_def)
qed (use assms in \<open>auto simp: told_inv_def split: if_splits loop_mode.splits\<close>)

lemma told_inv_init: "told_inv (schedule_init nodes)"
proof (cases "nodes = []")
  case True
  then show ?thesis by (simp add: schedule_init_def told_inv_def empty_sched_def)
next
  case False
  obtain u l where u: "sweep nodes empty_sched 0 = (u, l)" by (cases "sweep nodes empty_sched 0")
  have "told_inv empty_sched" by (simp add: told_inv_def empty_sched_def)
  from told_inv_sweep [OF this u] show ?thesis using False u by (simp add: schedule_init_def told_inv_def)
qed

lemma told_inv_reach: "sched_reach nodes c s \<Longrightarrow> told_inv s"
  by (induction rule: sched_reach.induct) (auto intro: told_inv_init told_inv_step)

end
