(* ===== verification/WorkTrace.thy ===== *)
theory WorkTrace
  imports RunAttempt_Props Scheduler_Units
begin

text \<open>Reachable states of an attempt, with other processes between any two of its steps, and what all of them keep.\<close>

section \<open>Reachability\<close>

text \<open>\<open>R\<close> bounds what others do to the run tables between two steps of the attempt.\<close>

inductive work_reach :: "(RunDB \<Rightarrow> RunDB \<Rightarrow> bool) \<Rightarrow> WorkerEnv \<Rightarrow> WorkCtx \<Rightarrow> RunDB \<Rightarrow> work \<Rightarrow> bool" for R env x d where
  wr_begin: "work_reach R env x d (begin_work x d)"
| wr_step: "work_reach R env x d w \<Longrightarrow> work_step env x e w = Some u \<Longrightarrow> (\<And>d'. e = Others d' \<Longrightarrow> R (wj_DB w) d') \<Longrightarrow>
    work_reach R env x d u"

text \<open>The calls of one unit.\<close>

definition unit_calls :: "uuid \<Rightarrow> work \<Rightarrow> (cluster_call \<times> cluster_answer) list" where
  "unit_calls i w = map snd (filter (\<lambda>e. fst e = i) (wj_Log w))"

lemma unit_calls_begin [simp]: "unit_calls i (begin_work x d) = []"
  by (simp add: unit_calls_def begin_work_def)

section \<open>The invariant\<close>

text \<open>Reports that wait for their callback: each once, none of a start.\<close>

definition queue_ok :: "sched \<Rightarrow> (uuid \<times> sched_status) list \<Rightarrow> bool" where
  "queue_ok s q \<longleftrightarrow> distinct q \<and> set q \<subseteq> set (sc_emitted s) \<and> Running \<notin> snd ` set q"

definition work_inv :: "WorkerEnv \<Rightarrow> WorkCtx \<Rightarrow> work \<Rightarrow> bool" where
  "work_inv env x w \<longleftrightarrow>
     sched_reach (work_nodes x) (work_concurrency x) (wj_Sched w) \<and> queue_ok (wj_Sched w) (wj_Queue w) \<and>
     (\<forall>i. i \<in> set (wj_Ran w) \<longleftrightarrow> begun i (wj_Sched w)) \<and>
     (\<forall>i p. wj_Units w i = Some p \<longrightarrow>
        executing i (wj_Sched w) \<and> begun i (wj_Sched w) \<and> unit_path (runFn env x i) (unit_calls i w) p) \<and>
     (\<forall>i. \<exists>p. unit_path (runFn env x i) (unit_calls i w) p) \<and>
     (\<forall>i. unit_calls i w \<noteq> [] \<longrightarrow> begun i (wj_Sched w))"

lemma work_invD:
  assumes "work_inv env x w"
  shows "sched_reach (work_nodes x) (work_concurrency x) (wj_Sched w)" and "queue_ok (wj_Sched w) (wj_Queue w)"
    and "i \<in> set (wj_Ran w) \<longleftrightarrow> begun i (wj_Sched w)"
    and "wj_Units w i = Some p \<Longrightarrow> executing i (wj_Sched w)" and "wj_Units w i = Some p \<Longrightarrow> begun i (wj_Sched w)"
    and "wj_Units w i = Some p \<Longrightarrow> unit_path (runFn env x i) (unit_calls i w) p"
    and "\<exists>p. unit_path (runFn env x i) (unit_calls i w) p" and "unit_calls i w \<noteq> [] \<Longrightarrow> begun i (wj_Sched w)"
  using assms by (auto simp: work_inv_def)

text \<open>What one statement of a unit changes.\<close>

lemma unit_stepE:
  assumes "unit_step org i now ans p w = Some u"
  obtains q d' rt l where
    "u = w\<lparr>wj_DB := d', wj_Retry := rt, wj_Units := (wj_Units w)(i \<mapsto> q), wj_Log := wj_Log w @ l\<rparr>"
    "\<forall>e \<in> set l. fst e = i" "\<And>r l'. unit_path r l' p \<Longrightarrow> unit_path r (l' @ map snd l) q"
    "d' = wj_DB w \<or> (\<exists>wr k. p = UWrite wr k \<and> d' = fst (apply_write org now wr (wj_DB w)))"
proof (cases p)
  case (UWrite wr k)
  obtain d' r where d': "apply_write org now wr (wj_DB w) = (d', r)" by (cases "apply_write org now wr (wj_DB w)")
  show ?thesis
    by (rule that [where d' = d' and rt = "wj_Retry w" and q = "k (r = Inr ())" and l = "[]"]) (use assms UWrite d' in \<open>auto intro: up_write\<close>)
next
  case (URead k)
  show ?thesis
    by (rule that [where d' = "wj_DB w" and rt = "wj_Retry w" and q = "k (wj_DB w) now" and l = "[]"]) (use assms URead in \<open>auto intro: up_read\<close>)
next
  case (UCall c k)
  show ?thesis
    by (rule that [where d' = "wj_DB w" and rt = "wj_Retry w" and q = "k ans" and l = "[(i, c, ans)]"]) (use assms UCall in \<open>auto intro: up_call\<close>)
next
  case (URetryable e k)
  show ?thesis
    by (rule that [where d' = "wj_DB w" and rt = "wj_Retry u" and q = k and l = "[]"]) (use assms URetryable in \<open>auto intro: up_retry\<close>)
qed (use assms in simp)

lemma advance_sel:
  assumes "advance x e w = Some u"
  shows "sched_step (work_nodes x) (work_concurrency x) e (wj_Sched w) = Some (wj_Sched u)"
    and "wj_DB u = wj_DB w" "wj_Ran u = wj_Ran w" "wj_Units u = wj_Units w" "wj_Log u = wj_Log w" "wj_Retry u = wj_Retry w"
    and "wj_Queue u = wj_Queue w @ fresh_emissions (wj_Sched w) (wj_Sched u)"
  using assms by (auto simp: advance_def split: option.splits)

text \<open>The reports of a step come after those before it.\<close>

lemma step_emits:
  assumes "sched_reach nodes c s" and "sched_step nodes c e s = Some t"
  shows "sc_emitted t = sc_emitted s @ fresh_emissions s t" and "distinct (sc_emitted t)"
    and "sc_results s \<subseteq>\<^sub>m sc_results t" and "sched_reach nodes c t"
proof -
  from step_grows [OF assms(2) book_inv_reach [OF assms(1)]]
  obtain es where es: "sc_emitted t = sc_emitted s @ es" and m: "sc_results s \<subseteq>\<^sub>m sc_results t" by auto
  show "sc_emitted t = sc_emitted s @ fresh_emissions s t" by (simp add: fresh_emissions_def es)
  show "sc_results s \<subseteq>\<^sub>m sc_results t" by (rule m)
  show r: "sched_reach nodes c t" using assms by (rule sched_reach.step)
  show "distinct (sc_emitted t)" using emit_inv_reach [OF r] by (simp add: emit_inv_def)
qed

lemma queue_ok_step:
  assumes "sched_reach nodes c s" and "sched_step nodes c e s = Some t" and "queue_ok s q"
    and same: "\<And>i. begun i t \<longleftrightarrow> begun i s"
  shows "queue_ok t (q @ fresh_emissions s t)"
proof -
  note em = step_emits [OF assms(1,2)]
  have "Running \<notin> snd ` set (fresh_emissions s t)"
  proof
    assume "Running \<in> snd ` set (fresh_emissions s t)"
    then obtain i where "(i, Running) \<in> set (fresh_emissions s t)" by auto
    then have "begun i t" "\<not> begun i s" using em(1,2) by (auto simp: begun_def)
    then show False using same by simp
  qed
  then show ?thesis using assms(3) em(1,2) by (auto simp: queue_ok_def)
qed

lemma work_inv_begin: "work_inv env x (begin_work x d)"
proof -
  let ?s = "schedule_init (work_nodes x)"
  have r: "sched_reach (work_nodes x) (work_concurrency x) ?s" by (rule sched_reach.start)
  have "Running \<notin> snd ` set (sc_emitted ?s)" using init_begun [of _ "work_nodes x"] by (auto simp: begun_def)
  then have "queue_ok ?s (sc_emitted ?s)" using emit_inv_reach [OF r] by (simp add: queue_ok_def emit_inv_def)
  moreover have "\<exists>p. unit_path (runFn env x i) [] p" for i using up_start by blast
  ultimately show ?thesis using r by (simp add: work_inv_def) (simp add: begin_work_def init_begun)
qed

lemma work_inv_advance:
  assumes inv: "work_inv env x w" and adv: "advance x e w = Some u" and na: "\<And>i. e \<noteq> Acquire i"
    and fin: "\<And>i res. e = Finish i res \<Longrightarrow> wj_Units w i = None"
  shows "work_inv env x u"
proof -
  note sel = advance_sel [OF adv] and r = work_invD(1) [OF inv]
  have same: "begun i (wj_Sched u) \<longleftrightarrow> begun i (wj_Sched w)" for i by (rule begun_same [OF sel(1) na])
  moreover have "queue_ok (wj_Sched u) (wj_Queue u)"
    unfolding sel(7) by (rule queue_ok_step [OF r sel(1) work_invD(2) [OF inv] same])
  moreover have "executing i (wj_Sched u)" if "wj_Units w i = Some p" for i p
    using executing_stays [OF sel(1) book_inv_reach [OF r] work_invD(4) [OF inv that]] fin that by fastforce
  moreover have "unit_calls i u = unit_calls i w" for i by (simp add: unit_calls_def sel)
  ultimately show ?thesis using inv step_emits(4) [OF r sel(1)] by (simp add: work_inv_def sel(3,4))
qed

lemma work_inv_unit:
  assumes inv: "work_inv env x w" and p: "wj_Units w i = Some p" and step: "unit_step org i now ans p w = Some u"
  shows "work_inv env x u"
  using step
proof (cases rule: unit_stepE)
  case (1 q d' rt l)
  have calls: "unit_calls j u = (if j = i then unit_calls i w @ map snd l else unit_calls j w)" for j
    using 1(2) by (auto simp: 1(1) unit_calls_def filter_empty_conv intro: filter_True)
  have path: "unit_path (runFn env x i) (unit_calls i w @ map snd l) q" by (rule 1(3) [OF work_invD(6) [OF inv p]])
  show ?thesis using inv path work_invD(4,5) [OF inv p] unfolding work_inv_def calls by (auto simp: 1(1))
qed

text \<open>The state after a step of the attempt: a start, a statement, or the scheduler, the callback, others.\<close>

lemma beginE:
  assumes "work_step env x (Begin i) w = Some u"
  obtains t where "sched_step (work_nodes x) (work_concurrency x) (Acquire i) (wj_Sched w) = Some t"
    "u = w\<lparr>wj_Sched := t, wj_Units := (wj_Units w)(i \<mapsto> runFn env x i), wj_Ran := i # wj_Ran w\<rparr>"
  using assms by (auto simp del: sched_step.simps split: option.splits)

lemma endE:
  assumes "work_step env x (End i) w = Some u"
  obtains res where "wj_Units w i = Some (UDone res)" "wj_Queue w = []"
    "advance x (Finish i res) (w\<lparr>wj_Units := (wj_Units w)(i := None)\<rparr>) = Some u"
  using assms by (auto split: option.splits unit_prog.splits if_splits)

lemma mainE:
  assumes "work_step env x (Main e) w = Some u"
  shows "advance x e w = Some u" and "e \<noteq> Acquire i" and "e \<noteq> Finish i res"
  using assms by (auto split: sched_event.splits if_splits)

lemma notifyE:
  assumes "work_step env x (Notify now) w = Some u"
  obtains i status q where "wj_Queue w = (i, status) # q"
    "u = w\<lparr>wj_Queue := q, wj_DB :=
      (case onState x (i \<in> set (wj_Ran w)) (wj_Retry w \<noteq> None) i status of
         None \<Rightarrow> wj_DB w | Some wr \<Rightarrow> fst (apply_write (wa_OrgID (wx_Args x)) now wr (wj_DB w)))\<rparr>"
proof (cases "wj_Queue w")
  case (Cons e q)
  obtain i status where "e = (i, status)" by (cases e)
  then show ?thesis using assms Cons by (intro that [of i status q]) (auto split: option.splits)
qed (use assms in simp)

lemma work_inv_step:
  assumes inv: "work_inv env x w" and step: "work_step env x e w = Some u"
  shows "work_inv env x u"
proof (cases e)
  case (Begin i)
  from step [unfolded Begin] show ?thesis
  proof (cases rule: beginE)
    case (1 t)
    note once = acquire_once [OF work_invD(1) [OF inv] 1(1)]
    have "unit_calls i w = []" using work_invD(8) [OF inv] once(1) by blast
    then have path: "unit_path (runFn env x i) (unit_calls i w) (runFn env x i)" using up_start by simp
    have calls: "unit_calls j u = unit_calls j w" for j by (simp add: unit_calls_def 1(2))
    have ex: "executing j t" if "executing j (wj_Sched w)" for j
      by (rule executing_stays [OF 1(1) book_inv_reach [OF work_invD(1) [OF inv]] that]) simp
    have "queue_ok t (wj_Queue w)"
      using work_invD(2) [OF inv] step_emits(1) [OF work_invD(1) [OF inv] 1(1)] by (auto simp: queue_ok_def)
    then show ?thesis
      using inv path calls ex once(2) begun_acquire [OF 1(1)] step_emits(4) [OF work_invD(1) [OF inv] 1(1)]
      by (auto simp: work_inv_def 1(2))
  qed
next
  case (StepUnit i now ans)
  then obtain p where "wj_Units w i = Some p" "unit_step (wa_OrgID (wx_Args x)) i now ans p w = Some u"
    using step by (auto split: option.splits)
  then show ?thesis by (rule work_inv_unit [OF inv])
next
  case (End i)
  from step [unfolded End] show ?thesis
  proof (cases rule: endE)
    case (1 res)
    have "work_inv env x (w\<lparr>wj_Units := (wj_Units w)(i := None)\<rparr>)"
      using inv by (auto simp: work_inv_def unit_calls_def)
    from work_inv_advance [OF this 1(3)] show ?thesis by simp
  qed
next
  case (Notify now)
  from step [unfolded Notify] show ?thesis
  proof (cases rule: notifyE)
    case (1 i status q)
    then show ?thesis using inv by (auto simp: work_inv_def unit_calls_def queue_ok_def 1(2))
  qed
next
  case (Main ev)
  from mainE [OF step [unfolded Main]] show ?thesis using work_inv_advance [OF inv] by blast
next
  case (Others d')
  then have "u = w\<lparr>wj_DB := d'\<rparr>" using step by simp
  then show ?thesis using inv by (simp add: work_inv_def unit_calls_def)
qed

lemma work_inv_reach: "work_reach R env x d w \<Longrightarrow> work_inv env x w"
proof (induction rule: work_reach.induct)
  case (wr_step w e u)
  then show ?case using work_inv_step by blast
qed (rule work_inv_begin)

section \<open>Its writes are steps of the run tables\<close>

lemma plain_write_step: "write_plain wr \<Longrightarrow> run_step low orb d (fst (apply_write org now wr d))"
  by (cases wr)
    (auto simp: SetComponentRunLogs_def SetComponentRunPolicy_def SetComponentRunOutputs_def or_not_found_def beside_def step_moves_def
      intro!: st_columns intro: st_mark_step)

lemma onState_step: "onState x ranF retry i status = Some wr \<Longrightarrow> run_step low orb d (fst (apply_write org now wr d))"
  by (auto simp: onState_def intro: st_mark_step split: option.splits sched_status.splits if_splits)

lemma unit_path_write: "unit_path (runFn env x i) l (UWrite wr k) \<Longrightarrow> write_plain wr"
  using unit_path_ok [OF _ runFn_ok] by fastforce

lemma work_step_db:
  assumes inv: "work_inv env x w" and step: "work_step env x e w = Some u"
    and fair: "\<And>d'. e = Others d' \<Longrightarrow> run_steps low orb (wj_DB w) d'"
  shows "run_steps low orb (wj_DB w) (wj_DB u)"
proof (cases e)
  case (StepUnit i now ans)
  then obtain p where p: "wj_Units w i = Some p" "unit_step (wa_OrgID (wx_Args x)) i now ans p w = Some u"
    using step by (auto split: option.splits)
  from p(2) show ?thesis
  proof (cases rule: unit_stepE)
    case (1 q d' rt l)
    then show ?thesis
      using plain_write_step [OF unit_path_write, of env x i "unit_calls i w"] work_invD(6) [OF inv p(1)] by auto
  qed
next
  case (Notify now)
  from step [unfolded Notify] show ?thesis
    by (cases rule: notifyE) (auto split: option.split intro: onState_step)
next
  case (End i)
  from step [unfolded End] show ?thesis by (cases rule: endE) (use advance_sel(2) in fastforce)
next
  case (Begin i)
  from step [unfolded Begin] show ?thesis by (cases rule: beginE) simp
next
  case (Main ev)
  from advance_sel(2) [OF mainE(1) [OF step [unfolded Main]]] show ?thesis by simp
next
  case (Others d')
  then show ?thesis using step fair by auto
qed

lemma work_reach_db: "work_reach (run_steps low orb) env x d w \<Longrightarrow> run_steps low orb d (wj_DB w)"
proof (induction rule: work_reach.induct)
  case (wr_step w e u)
  from work_step_db [OF work_inv_reach [OF wr_step(1)] wr_step(2,3)] wr_step(4) show ?case by (meson rtranclp_trans)
qed (simp add: begin_work_def)

section \<open>Only open steps are worked on\<close>

lemma unit_path_done: "unit_path p l q \<Longrightarrow> p = UDone res \<Longrightarrow> l = [] \<and> q = UDone res"
  by (induction rule: unit_path.induct) auto

lemma runFn_closed:
  assumes "\<not> (\<exists>cr. crByComponent x i = Some cr \<and> step_open (cr_Status cr))"
  shows "\<exists>res. runFn env x i = UDone res"
proof (cases "nodeByID x i")
  case (Some node)
  show ?thesis
  proof (cases "crByComponent x i")
    case None
    with Some show ?thesis by (simp add: runFn_def)
  next
    case cr: (Some cr)
    with assms have "cr_Status cr \<in> {StepSucceeded, StepFailed, StepSkipped}" by (cases "cr_Status cr") (auto simp: step_open_def)
    with Some cr show ?thesis by (auto simp: runFn_def runComponent_def Let_def)
  qed
qed (simp add: runFn_def)

lemma unit_path_open: "unit_path (runFn env x i) l p \<Longrightarrow> l \<noteq> [] \<Longrightarrow> \<exists>cr. crByComponent x i = Some cr \<and> step_open (cr_Status cr)"
  using runFn_closed [of x i env] unit_path_done by blast

section \<open>Executions\<close>

definition own_step :: "work_event \<Rightarrow> bool" where
  "own_step e \<longleftrightarrow> (case e of Others d \<Rightarrow> False | _ \<Rightarrow> True)"

lemma work_exec_reach:
  "work_reach R env x d w \<Longrightarrow> work_exec env x es w = Some u \<Longrightarrow> list_all own_step es \<Longrightarrow> work_reach R env x d u"
proof (induction es arbitrary: w)
  case (Cons e es)
  then obtain v where "work_step env x e w = Some v" "work_exec env x es v = Some u" by (auto split: option.splits)
  moreover have "e \<noteq> Others d'" for d' using Cons.prems(3) by (auto simp: own_step_def)
  ultimately show ?case using Cons wr_step by (metis list.pred_inject(2))
qed simp

end
