(* ===== verification/WorkRows.thy ===== *)
theory WorkRows
  imports WorkTrace
begin

text \<open>The rows of the steps follow the scheduler: while nobody else writes them, a report and its row agree.\<close>

section \<open>Rows\<close>

definition row_at :: "RunDB \<Rightarrow> uuid \<Rightarrow> ((uuid \<times> uuid) \<times> step_status) option" where
  "row_at d c = map_option (\<lambda>s. ((cr_OrganizationID s, cr_WorkflowRunID s), cr_Status s)) (find (\<lambda>s. cr_ID s = c) (rd_Steps d))"

fun marked :: "db_write \<Rightarrow> uuid \<Rightarrow> step_status \<Rightarrow> step_status" where
  "marked (WMark i status message name) c r = (if i = c then status else r)"
| "marked _ c r = r"

fun marks_only :: "uuid \<Rightarrow> db_write \<Rightarrow> bool" where
  "marks_only c (WMark i status message name) \<longleftrightarrow> i = c"
| "marks_only c _ \<longleftrightarrow> True"

lemma row_at_update:
  assumes "\<And>s. cr_ID (f s) = cr_ID s"
  shows "row_at (fst (update_steps P f now d)) c =
    map_option (\<lambda>s. if P s then ((cr_OrganizationID (f s), cr_WorkflowRunID (f s)), cr_Status (f s))
        else ((cr_OrganizationID s, cr_WorkflowRunID s), cr_Status s))
      (find (\<lambda>s. cr_ID s = c) (rd_Steps d))"
proof -
  have "find (\<lambda>s. cr_ID s = c) (map (\<lambda>s. if P s then (f s)\<lparr>cr_UpdatedAt := now\<rparr> else s) (rd_Steps d)) =
      map_option (\<lambda>s. if P s then (f s)\<lparr>cr_UpdatedAt := now\<rparr> else s) (find (\<lambda>s. cr_ID s = c) (rd_Steps d))"
    by (rule find_map_same) (simp add: assms)
  then show ?thesis by (auto simp: row_at_def update_steps_def update_rows_map map_option_case split: option.splits)
qed

lemma row_at_write:
  "row_at d c = Some ((org, run), r) \<Longrightarrow> row_at (fst (apply_write org now wr d)) c = Some ((org, run), marked wr c r)"
proof -
  assume "row_at d c = Some ((org, run), r)"
  then obtain z where z: "find (\<lambda>s. cr_ID s = c) (rd_Steps d) = Some z" "cr_OrganizationID z = org" "cr_WorkflowRunID z = run"
    "cr_Status z = r"
    by (auto simp: row_at_def)
  then have "cr_ID z = c" by (auto dest: find_SomeD)
  with z show ?thesis
    by (cases wr)
      (simp_all add: MarkComponentRun_def SetComponentRunLogs_def SetComponentRunPolicy_def SetComponentRunOutputs_def
        or_not_found_def row_at_update step_mark_def step_is_def)
qed

section \<open>A unit ends with its row settled\<close>

fun done_row :: "sched_status \<Rightarrow> step_status \<Rightarrow> bool \<Rightarrow> bool" where
  "done_row Succeeded r retry \<longleftrightarrow> r = StepSucceeded"
| "done_row Failed r retry \<longleftrightarrow> r = StepFailed \<or> retry \<and> r = StepRunning"
| "done_row Skipped r retry \<longleftrightarrow> r = StepSkipped"
| "done_row _ r retry \<longleftrightarrow> False"

primrec prog_settles :: "unit_prog \<Rightarrow> uuid \<Rightarrow> step_status \<Rightarrow> bool \<Rightarrow> bool" where
  "prog_settles (UDone res) = (\<lambda>c r rt. done_row (nr_Status res) r rt)"
| "prog_settles (UWrite w k) = (\<lambda>c r rt. marks_only c w \<and> (\<forall>b. prog_settles (k b) c (marked w c r) rt))"
| "prog_settles (URead k) = (\<lambda>c r rt. \<forall>d now. prog_settles (k d now) c r rt)"
| "prog_settles (UCall a k) = (\<lambda>c r rt. \<forall>ans. prog_settles (k ans) c r rt)"
| "prog_settles (URetryable e k) = (\<lambda>c r rt. (\<exists>res. k = UDone res \<and> nr_Status res = Failed) \<and> prog_settles k c r True)"

lemma done_row_mono: "done_row st r rt \<Longrightarrow> (rt \<Longrightarrow> rt') \<Longrightarrow> done_row st r rt'"
  by (cases st) auto

lemma prog_settles_mono: "prog_settles p c r rt \<Longrightarrow> (rt \<Longrightarrow> rt') \<Longrightarrow> prog_settles p c r rt'"
proof (induction p arbitrary: r rt rt')
  case (UWrite w k)
  have "prog_settles (k b) c (marked w c r) rt'" for b
    by (rule UWrite.IH [OF rangeI, of b "marked w c r" rt rt']) (use UWrite.prems in simp_all)
  then show ?case using UWrite.prems by simp
next
  case (URead k)
  have "prog_settles (k d now) c r rt'" for d now
    by (rule URead.IH [OF rangeI rangeI, of d now r rt rt']) (use URead.prems in simp_all)
  then show ?case by simp
next
  case (UCall a k)
  have "prog_settles (k ans) c r rt'" for ans
    by (rule UCall.IH [OF rangeI, of ans r rt rt']) (use UCall.prems in simp_all)
  then show ?case by simp
qed (auto intro: done_row_mono)

abbreviation settles_any :: "unit_prog \<Rightarrow> uuid \<Rightarrow> bool" where
  "settles_any q c \<equiv> \<forall>r rt. prog_settles q c r rt"

lemma capture_store_settles: "prog_settles k c r rt \<Longrightarrow> prog_settles (capture_store i secret a b k) c r rt"
  by (simp add: capture_store_def Let_def)

lemma captureTofuOutputs_settles: "prog_settles k c r rt \<Longrightarrow> prog_settles (captureTofuOutputs env x node i k) c r rt"
  by (simp add: captureTofuOutputs_def Let_def capture_store_settles split_beta)

lemma capture_completed_settles: "prog_settles k c r rt \<Longrightarrow> prog_settles (capture_completed env x ids k) c r rt"
proof (induction ids)
  case (Cons i ids)
  then show ?case
    by (cases "crByComponent x i"; cases "nodeByID x i") (simp_all add: captureTofuOutputs_settles)
qed simp

lemma unit_succeeded_settles: "settles_any (unit_succeeded env x node cr name final logs) (cr_ID cr)"
  by (simp add: unit_succeeded_def Let_def capture_completed_settles captureTofuOutputs_settles plain_result_def)

lemma unit_gated_settles: "settles_any (unit_gated env x node cr name final logs) (cr_ID cr)"
  by (simp add: unit_gated_def Let_def unit_succeeded_settles failed_result_def split_beta split: option.split)

lemma unit_finished_settles: "settles_any (unit_finished env x node cr name final) (cr_ID cr)"
  by (simp add: unit_finished_def Let_def unit_gated_settles failed_result_def)

lemma unit_executed_settles: "settles_any (unit_executed env x node cr name res) (cr_ID cr)"
  by (simp add: unit_executed_def unit_finished_settles split: sum.split)

lemma exec_await_settles: "(\<And>res. settles_any (k res) c) \<Longrightarrow> settles_any (exec_await name k) c"
  by (simp add: exec_await_def split: cluster_answer.split stream_end.split option.split)

lemma exec_submit_settles:
  "(\<And>name res. settles_any (k name res) c) \<Longrightarrow> (\<And>name. marks_only c (persist name)) \<Longrightarrow> settles_any (exec_submit q persist k) c"
  by (simp add: exec_submit_def exec_await_settles split: cluster_answer.split)

lemma exec_attach_settles:
  assumes "\<And>name res. settles_any (k name res) c" and "\<And>name. marks_only c (persist name)"
  shows "settles_any (exec_attach q persist k name) c"
  using assms
  by (auto simp: exec_attach_def exec_runActive_def exec_await_settles exec_submit_settles split: cluster_answer.split sum.split)

lemma Execute_settles:
  "(\<And>name res. settles_any (k name res) c) \<Longrightarrow> (\<And>name. marks_only c (persist name)) \<Longrightarrow> settles_any (Execute q persist k) c"
  by (simp add: Execute_def exec_recover_def exec_attach_settles)

lemma runComponent_settles: "prog_settles (runComponent env x node cr) (cr_ID cr) (cr_Status cr) rt"
proof -
  have "settles_any (unit_planned env x node cr req) (cr_ID cr)" for req
    unfolding unit_planned_def by (rule Execute_settles) (simp_all add: unit_executed_settles)
  then show ?thesis
    by (simp add: runComponent_def Let_def plain_result_def failed_result_def split: sum.split)
qed

lemma runFn_settles:
  "nodeByID x i \<noteq> None \<Longrightarrow> crByComponent x i = Some cr \<Longrightarrow> prog_settles (runFn env x i) (cr_ID cr) (cr_Status cr) rt"
  by (auto simp: runFn_def runComponent_settles)

lemma dom_foldl_upd: "dom (foldl (\<lambda>m n. m(f n \<mapsto> n)) m xs) = f ` set xs \<union> dom m"
  by (induction xs arbitrary: m) auto

lemma begun_node:
  assumes "sched_reach (work_nodes x) c s" and "executing i s"
  shows "nodeByID x i \<noteq> None"
proof -
  obtain n where n: "(n, Executing) \<in> set (sc_procs s)" "sn_ID n = i" using assms(2) by (auto simp: executing_def)
  moreover have "fst ` set (sc_procs s) \<subseteq> set (work_nodes x)" using book_inv_reach [OF assms(1)] by (simp add: book_inv_def)
  ultimately have "n \<in> set (work_nodes x)" by force
  then have "i \<in> gn_ID ` set (wx_nodes x)" using n(2) by (auto simp: work_nodes_def sched_node_def)
  then have "i \<in> dom (nodeByID x)" by (simp add: nodeByID_def by_id_def dom_foldl_upd)
  then show ?thesis by blast
qed

section \<open>The rows of an attempt\<close>

text \<open>Others leave the rows of this attempt's steps alone.\<close>

definition leaves_rows :: "WorkCtx \<Rightarrow> RunDB \<Rightarrow> RunDB \<Rightarrow> bool" where
  "leaves_rows x d d' \<longleftrightarrow> (\<forall>i cr. crByComponent x i = Some cr \<longrightarrow> row_at d' (cr_ID cr) = row_at d (cr_ID cr))"

definition row_key :: "WorkCtx \<Rightarrow> uuid \<times> uuid" where
  "row_key x = (wa_OrgID (wx_Args x), wa_WorkflowRunID (wx_Args x))"

text \<open>The rows are as they were read, each component with one of its own.\<close>

definition ctx_rows :: "WorkCtx \<Rightarrow> RunDB \<Rightarrow> bool" where
  "ctx_rows x d \<longleftrightarrow>
     (\<forall>i cr. crByComponent x i = Some cr \<longrightarrow> row_at d (cr_ID cr) = Some (row_key x, cr_Status cr)) \<and>
     (\<forall>i j a b. crByComponent x i = Some a \<longrightarrow> crByComponent x j = Some b \<longrightarrow> cr_ID a = cr_ID b \<longrightarrow> i = j)"

fun told_row :: "sched_status \<Rightarrow> step_status \<Rightarrow> bool \<Rightarrow> bool" where
  "told_row AwaitingApproval r retry \<longleftrightarrow> r = StepAwaiting"
| "told_row Succeeded r retry \<longleftrightarrow> r = StepSucceeded"
| "told_row Failed r retry \<longleftrightarrow> r = StepFailed"
| "told_row Skipped r retry \<longleftrightarrow> r = StepSkipped \<or> retry"
| "told_row _ r retry \<longleftrightarrow> False"

text \<open>Reports whose callback has run.\<close>

definition reported :: "work \<Rightarrow> uuid \<Rightarrow> sched_status \<Rightarrow> bool" where
  "reported w i st \<longleftrightarrow> (i, st) \<in> set (sc_emitted (wj_Sched w)) \<and> (i, st) \<notin> set (wj_Queue w) \<and> st \<noteq> Running"

definition row_fits :: "WorkCtx \<Rightarrow> work \<Rightarrow> uuid \<Rightarrow> StepRun \<Rightarrow> step_status \<Rightarrow> bool" where
  "row_fits x w i cr r \<longleftrightarrow>
     (case wj_Units w i of
        Some p \<Rightarrow> prog_settles p (cr_ID cr) r (wj_Retry w \<noteq> None)
      | None \<Rightarrow>
          if begun i (wj_Sched w) then \<exists>st. sc_results (wj_Sched w) i = Some st \<and> done_row st r (wj_Retry w \<noteq> None)
          else (\<forall>st. reported w i st \<longrightarrow> told_row st r (wj_Retry w \<noteq> None)) \<and>
            ((\<forall>st. \<not> reported w i st) \<longrightarrow> r = cr_Status cr))"

definition rows_inv :: "WorkCtx \<Rightarrow> work \<Rightarrow> bool" where
  "rows_inv x w \<longleftrightarrow> (\<forall>i cr. crByComponent x i = Some cr \<longrightarrow>
     (\<exists>r. row_at (wj_DB w) (cr_ID cr) = Some (row_key x, r) \<and> row_fits x w i cr r))"

lemma told_row_mono: "told_row st r rt \<Longrightarrow> (rt \<Longrightarrow> rt') \<Longrightarrow> told_row st r rt'"
  by (cases st) auto

lemma row_fits_keep:
  assumes fits: "row_fits x w i cr r" and units: "wj_Units u i = wj_Units w i"
    and b: "begun i (wj_Sched u) \<longleftrightarrow> begun i (wj_Sched w)" and res: "sc_results (wj_Sched w) \<subseteq>\<^sub>m sc_results (wj_Sched u)"
    and rep: "\<And>st. \<not> begun i (wj_Sched w) \<Longrightarrow> reported u i st \<longleftrightarrow> reported w i st"
    and rt: "wj_Retry w \<noteq> None \<Longrightarrow> wj_Retry u \<noteq> None"
  shows "row_fits x u i cr r"
proof (cases "wj_Units w i")
  case (Some p)
  then show ?thesis using fits units prog_settles_mono [OF _ rt] by (auto simp: row_fits_def)
next
  case None
  show ?thesis
  proof (cases "begun i (wj_Sched w)")
    case True
    then obtain st where "sc_results (wj_Sched w) i = Some st" "done_row st r (wj_Retry w \<noteq> None)"
      using fits None by (auto simp: row_fits_def)
    then show ?thesis using map_leD [OF res] done_row_mono [OF _ rt] True None units b by (auto simp: row_fits_def)
  next
    case False
    then show ?thesis using fits None units b rep told_row_mono [OF _ rt] by (auto simp: row_fits_def)
  qed
qed

text \<open>What was reported of a unit is its result, or that it is parked.\<close>

lemma emitted_state:
  assumes "sched_reach nodes c s" and "(i, st) \<in> set (sc_emitted s)" and "st \<noteq> Running"
  shows "(st = AwaitingApproval \<and> i \<in> sc_parked s \<and> sc_results s i = None) \<or>
    (st \<in> {Succeeded, Failed, Skipped} \<and> sc_results s i = Some st \<and> i \<notin> sc_parked s)"
proof -
  have book: "book_inv nodes s" by (rule book_inv_reach [OF assms(1)])
  have "(st = AwaitingApproval \<and> i \<in> sc_parked s) \<or> (st \<noteq> AwaitingApproval \<and> sc_results s i = Some st)"
    using emit_inv_reach [OF assms(1)] assms(2,3) unfolding emit_inv_def by blast
  then show ?thesis
  proof
    assume "st = AwaitingApproval \<and> i \<in> sc_parked s"
    then show ?thesis using book by (auto simp: book_inv_def)
  next
    assume *: "st \<noteq> AwaitingApproval \<and> sc_results s i = Some st"
    then have "st \<in> ran (sc_results s)" by (blast intro: ranI)
    then have "st \<in> {Succeeded, Failed, Skipped}" using book by (auto simp: book_inv_def)
    moreover have "i \<notin> sc_parked s" using book * by (auto simp: book_inv_def)
    ultimately show ?thesis using * by blast
  qed
qed

lemma emitted_one:
  assumes "sched_reach nodes c s" and "(i, st) \<in> set (sc_emitted s)" and "(i, st') \<in> set (sc_emitted s)"
    and "st \<noteq> Running" and "st' \<noteq> Running"
  shows "st = st'"
  using emitted_state [OF assms(1,2,4)] emitted_state [OF assms(1,3,5)] by auto

lemma executing_silent:
  assumes "sched_reach nodes c s" and "executing i s" and "(i, st) \<in> set (sc_emitted s)"
  shows "st = Running"
proof (rule ccontr)
  assume "st \<noteq> Running"
  from emitted_state [OF assms(1,3) this] executing_open [OF book_inv_reach [OF assms(1)] assms(2)] show False by auto
qed

text \<open>A step of the scheduler reports nothing anew whose callback has run.\<close>

lemma reported_advance:
  assumes inv: "work_inv env x w" and adv: "advance x e w = Some u"
  shows "reported u i st \<longleftrightarrow> reported w i st"
proof -
  note em = step_emits [OF work_invD(1) [OF inv] advance_sel(1) [OF adv]]
  show ?thesis using em(1,2) by (auto simp: reported_def advance_sel(7) [OF adv])
qed

lemma row_fits_advance:
  assumes inv: "work_inv env x w" and adv: "advance x e w = Some u" and na: "\<And>i. e \<noteq> Acquire i" and fits: "row_fits x w i cr r"
  shows "row_fits x u i cr r"
  by (rule row_fits_keep [OF fits])
    (use advance_sel [OF adv] step_emits(3) [OF work_invD(1) [OF inv] advance_sel(1) [OF adv]]
      begun_same [OF advance_sel(1) [OF adv] na] reported_advance [OF inv adv] in simp_all)

text \<open>One unit's row over one step.\<close>

lemma row_fits_begin:
  assumes inv: "work_inv env x w" and step: "work_step env x (Begin j) w = Some u" and cr: "crByComponent x i = Some cr"
    and fits: "row_fits x w i cr r"
  shows "row_fits x u i cr r"
  using step
proof (cases rule: beginE)
  case (1 t)
  note reach = work_invD(1) [OF inv] and once = acquire_once [OF work_invD(1) [OF inv] 1(1)]
  note em = step_emits [OF reach 1(1)]
  have emitted: "sc_emitted t = sc_emitted (wj_Sched w) @ [(j, Running)]" using 1(1) by (auto split: if_splits)
  show ?thesis
  proof (cases "i = j")
    case False
    show ?thesis
      by (rule row_fits_keep [OF fits])
        (use False em(3) begun_acquire [OF 1(1)] in \<open>auto simp: 1(2) reported_def emitted\<close>)
  next
    case True
    have "\<not> reported w j st" for st
      using executing_silent [OF em(4) once(2), of st] by (auto simp: reported_def emitted)
    moreover have "wj_Units w j = None" using work_invD(5) [OF inv] once(1) by (cases "wj_Units w j") auto
    ultimately have "r = cr_Status cr" using fits once(1) True by (simp add: row_fits_def)
    moreover have "nodeByID x j \<noteq> None" by (rule begun_node [OF em(4) once(2)])
    ultimately show ?thesis using runFn_settles [of x i cr] cr True by (simp add: row_fits_def 1(2))
  qed
qed

lemma unit_cr:
  assumes inv: "work_inv env x w" and p: "wj_Units w i = Some p" and step: "unit_step org i now ans p w = Some u"
  shows "crByComponent x i \<noteq> None"
proof
  assume none: "crByComponent x i = None"
  then obtain res where "runFn env x i = UDone res" by (cases "nodeByID x i") (auto simp: runFn_def)
  from unit_path_done [OF work_invD(6) [OF inv p] this] step show False by simp
qed

lemma unit_row:
  assumes step: "unit_step org i now ans p w = Some u" and row: "row_at (wj_DB w) c = Some ((org, run), r)"
    and s: "prog_settles p c r (wj_Retry w \<noteq> None)"
  shows "\<exists>r' q. row_at (wj_DB u) c = Some ((org, run), r') \<and> wj_Units u i = Some q \<and> prog_settles q c r' (wj_Retry u \<noteq> None)"
proof (cases p)
  case (UWrite wr k)
  obtain d' res where d': "apply_write org now wr (wj_DB w) = (d', res)" by (cases "apply_write org now wr (wj_DB w)")
  have "row_at d' c = Some ((org, run), marked wr c r)" using row_at_write [OF row, where wr = wr and now = now] d' by simp
  then show ?thesis using step s UWrite d' by auto
next
  case (URetryable e k)
  then show ?thesis using step s row by auto
qed (use step s row in auto)

lemma unit_other_row:
  assumes step: "unit_step org i now ans p w = Some u" and row: "row_at (wj_DB w) c = Some ((org, run), r)"
    and s: "prog_settles p c' r' rt" and "c \<noteq> c'"
  shows "row_at (wj_DB u) c = Some ((org, run), r)"
proof (cases p)
  case (UWrite wr k)
  obtain d' res where d': "apply_write org now wr (wj_DB w) = (d', res)" by (cases "apply_write org now wr (wj_DB w)")
  have "row_at d' c = Some ((org, run), marked wr c r)" using row_at_write [OF row, where wr = wr and now = now] d' by simp
  moreover have "marked wr c r = r" using s assms(4) UWrite by (cases wr) auto
  ultimately show ?thesis using step UWrite d' by auto
qed (use step row in auto)

lemma unit_step_frame:
  assumes "unit_step org i now ans p w = Some u"
  shows "wj_Sched u = wj_Sched w" "wj_Queue u = wj_Queue w" "j \<noteq> i \<Longrightarrow> wj_Units u j = wj_Units w j"
    and "wj_Retry w \<noteq> None \<Longrightarrow> wj_Retry u \<noteq> None"
  using assms by (cases p; auto split: prod.splits)+

text \<open>The callback of the first report.\<close>

lemma row_fits_notify:
  assumes inv: "work_inv env x w" and q: "wj_Queue w = (i, status) # q" and cr: "crByComponent x i = Some cr"
    and fits: "row_fits x w i cr r"
    and u: "wj_Sched u = wj_Sched w" "wj_Queue u = q" "wj_Units u = wj_Units w" "wj_Retry u = wj_Retry w"
    and r': "r' = (case onState x (i \<in> set (wj_Ran w)) (wj_Retry w \<noteq> None) i status of None \<Rightarrow> r | Some wr \<Rightarrow> marked wr (cr_ID cr) r)"
  shows "row_fits x u i cr r'"
proof -
  let ?s = "wj_Sched w"
  note reach = work_invD(1) [OF inv]
  have st: "(i, status) \<in> set (sc_emitted ?s)" "status \<noteq> Running" "(i, status) \<notin> set q"
    using work_invD(2) [OF inv] q by (auto simp: queue_ok_def)
  note state = emitted_state [OF reach st(1,2)]
  have idle: "wj_Units w i = None"
    using work_invD(4) [OF inv, of i] executing_silent [OF reach _ st(1)] st(2) by (cases "wj_Units w i") auto
  show ?thesis
  proof (cases "begun i ?s")
    case True
    then have "sc_results ?s i \<noteq> None" "i \<in> set (wj_Ran w)"
      using begun_settled [OF reach] executing_silent [OF reach _ st(1)] st(2) work_invD(3) [OF inv] by auto
    then have st': "status \<in> {Succeeded, Failed, Skipped}" "sc_results ?s i = Some status" using state by auto
    then have d: "done_row status r (wj_Retry w \<noteq> None)" using fits True idle by (auto simp: row_fits_def)
    have "r' = r" using st'(1) d \<open>i \<in> set (wj_Ran w)\<close> by (auto simp: r' onState_def cr split: option.splits)
    then show ?thesis using st' d True idle by (simp add: row_fits_def u)
  next
    case False
    then have notran: "i \<notin> set (wj_Ran w)" using work_invD(3) [OF inv] by simp
    have none: "\<not> reported w i st'" for st'
      using emitted_one [OF reach st(1) _ st(2)] q by (auto simp: reported_def)
    then have r: "r = cr_Status cr" using fits idle False by (simp add: row_fits_def)
    have only: "st' = status" if "(i, st') \<in> set (sc_emitted ?s)" "st' \<noteq> Running" for st'
      using emitted_one [OF reach that(1) st(1) that(2) st(2)] .
    have "reported u i st' \<longleftrightarrow> st' = status" for st'
      using only [of st'] st by (auto simp: reported_def u)
    moreover have "told_row status r' (wj_Retry w \<noteq> None)"
      using state
    proof (elim disjE conjE)
      assume "status = AwaitingApproval"
      then show ?thesis by (simp add: r' onState_def cr)
    next
      assume "status \<in> {Succeeded, Failed, Skipped}"
      then consider "status = Succeeded" | "status = Failed" | "status = Skipped" by blast
      then show ?thesis by cases (simp_all add: r' onState_def cr notran r)
    qed
    ultimately show ?thesis using idle False by (auto simp: row_fits_def u)
  qed
qed

lemma rows_inv_step:
  assumes inv: "work_inv env x w" and ctx: "ctx_rows x d" and rows: "rows_inv x w" and step: "work_step env x e w = Some u"
    and others: "\<And>d'. e = Others d' \<Longrightarrow> leaves_rows x (wj_DB w) d'"
  shows "rows_inv x u"
  unfolding rows_inv_def
proof (intro allI impI)
  fix i cr assume cr: "crByComponent x i = Some cr"
  let ?org = "wa_OrgID (wx_Args x)"
  obtain r where r: "row_at (wj_DB w) (cr_ID cr) = Some (row_key x, r)" "row_fits x w i cr r" using rows cr by (auto simp: rows_inv_def)
  have own: "cr_ID cr \<noteq> cr_ID cr'" if "crByComponent x j = Some cr'" "j \<noteq> i" for j cr'
    using ctx cr that unfolding ctx_rows_def by blast
  show "\<exists>r'. row_at (wj_DB u) (cr_ID cr) = Some (row_key x, r') \<and> row_fits x u i cr r'"
  proof (cases e)
    case (Begin j)
    have "wj_DB u = wj_DB w" using step [unfolded Begin] by (cases rule: beginE) simp
    then show ?thesis using row_fits_begin [OF inv step [unfolded Begin] cr r(2)] r(1) by auto
  next
    case (StepUnit j now ans)
    then obtain p where p: "wj_Units w j = Some p" "unit_step ?org j now ans p w = Some u"
      using step by (auto split: option.splits)
    note frame = unit_step_frame [OF p(2)]
    show ?thesis
    proof (cases "j = i")
      case True
      then have "prog_settles p (cr_ID cr) r (wj_Retry w \<noteq> None)" using r(2) p(1) by (simp add: row_fits_def)
      from unit_row [OF p(2) r(1) [unfolded row_key_def] this] True show ?thesis by (auto simp: row_fits_def row_key_def)
    next
      case False
      obtain cr' where cr': "crByComponent x j = Some cr'" using unit_cr [OF inv p] by auto
      then obtain r' where "row_fits x w j cr' r'" using rows by (auto simp: rows_inv_def)
      then have "prog_settles p (cr_ID cr') r' (wj_Retry w \<noteq> None)" using p(1) by (simp add: row_fits_def)
      from unit_other_row [OF p(2) r(1) [unfolded row_key_def] this own [OF cr' False]]
      have "row_at (wj_DB u) (cr_ID cr) = Some (row_key x, r)" by (simp add: row_key_def)
      moreover have "row_fits x u i cr r"
        by (rule row_fits_keep [OF r(2)]) (use frame False in \<open>auto simp: reported_def\<close>)
      ultimately show ?thesis by blast
    qed
  next
    case (End j)
    from step [unfolded End] show ?thesis
    proof (cases rule: endE)
      case (1 res)
      let ?v = "w\<lparr>wj_Units := (wj_Units w)(j := None)\<rparr>"
      have inv': "work_inv env x ?v" using inv by (auto simp: work_inv_def unit_calls_def)
      note sel = advance_sel [OF 1(3)]
      have "row_fits x u i cr r"
      proof (cases "i = j")
        case False
        have "row_fits x ?v i cr r" by (rule row_fits_keep [OF r(2)]) (use False in \<open>auto simp: reported_def\<close>)
        then show ?thesis by (intro row_fits_advance [OF inv' 1(3)]) simp_all
      next
        case True
        then have d: "done_row (nr_Status res) r (wj_Retry w \<noteq> None)" using r(2) 1(1) by (simp add: row_fits_def)
        then have "settle_status (nr_Status res) = nr_Status res" by (cases "nr_Status res") (simp_all add: settle_status_def)
        moreover have "wj_Sched u = set_phase j Settled (record_result j res (wj_Sched w))"
          using sel(1) by (auto split: if_splits)
        ultimately have "sc_results (wj_Sched u) j = Some (nr_Status res)" by simp
        moreover have "begun j (wj_Sched u)"
          using begun_same [OF sel(1)] work_invD(5) [OF inv 1(1)] by simp
        moreover have "wj_Units u j = None" using sel(4) by simp
        ultimately show ?thesis using d True sel(6) by (simp add: row_fits_def)
      qed
      then show ?thesis using r(1) sel(2) by simp
    qed
  next
    case (Notify now)
    from step [unfolded Notify] show ?thesis
    proof (cases rule: notifyE)
      case (1 j status q)
      let ?wr = "onState x (j \<in> set (wj_Ran w)) (wj_Retry w \<noteq> None) j status"
      have row: "row_at (wj_DB u) (cr_ID cr) = Some (row_key x, case ?wr of None \<Rightarrow> r | Some wr \<Rightarrow> marked wr (cr_ID cr) r)"
        using r(1) row_at_write [OF r(1) [unfolded row_key_def]] by (simp add: 1(2) row_key_def split: option.split)
      show ?thesis
      proof (cases "j = i")
        case True
        have "row_fits x u i cr (case ?wr of None \<Rightarrow> r | Some wr \<Rightarrow> marked wr (cr_ID cr) r)"
          by (rule row_fits_notify [OF inv _ cr r(2)]) (use 1 True in simp_all)
        with row show ?thesis by blast
      next
        case False
        have "(case ?wr of None \<Rightarrow> r | Some wr \<Rightarrow> marked wr (cr_ID cr) r) = r"
          using own [OF _ False] by (auto simp: onState_def split: option.splits sched_status.splits)
        moreover have "row_fits x u i cr r"
          by (rule row_fits_keep [OF r(2)]) (use 1 False in \<open>auto simp: reported_def\<close>)
        ultimately show ?thesis using row by auto
      qed
    qed
  next
    case (Main ev)
    note m = mainE [OF step [unfolded Main]]
    from row_fits_advance [OF inv m(1) m(2) r(2)] advance_sel(2) [OF m(1)] r(1) show ?thesis by auto
  next
    case (Others d')
    have u: "u = w\<lparr>wj_DB := d'\<rparr>" using step Others by simp
    have "row_fits x u i cr r" by (rule row_fits_keep [OF r(2)]) (simp_all add: u reported_def)
    moreover have "row_at d' (cr_ID cr) = row_at (wj_DB w) (cr_ID cr)"
      using others [OF Others] cr by (simp add: leaves_rows_def)
    ultimately show ?thesis using r(1) by (auto simp: u)
  qed
qed

lemma rows_inv_begin: "ctx_rows x d \<Longrightarrow> rows_inv x (begin_work x d)"
  by (auto simp: rows_inv_def ctx_rows_def row_fits_def begin_work_def init_begun reported_def)

lemma rows_inv_reach: "work_reach (leaves_rows x) env x d w \<Longrightarrow> ctx_rows x d \<Longrightarrow> rows_inv x w"
proof (induction rule: work_reach.induct)
  case (wr_step w e u)
  from rows_inv_step [OF work_inv_reach [OF wr_step(1)] wr_step(5) wr_step(4) [OF wr_step(5)] wr_step(2,3)] show ?case .
qed (rule rows_inv_begin)

section \<open>The rows the scheduler stands for\<close>

definition row_of_unit :: "sched \<Rightarrow> StepRun \<Rightarrow> step_status" where
  "row_of_unit s cr =
     (case sc_results s (cr_ComponentID cr) of
        Some Succeeded \<Rightarrow> StepSucceeded
      | Some Failed \<Rightarrow> StepFailed
      | Some Skipped \<Rightarrow> StepSkipped
      | _ \<Rightarrow> if cr_ComponentID cr \<in> sc_parked s then StepAwaiting else cr_Status cr)"

lemma crByComponent_Some: "crByComponent x i = Some cr \<Longrightarrow> cr \<in> set (wx_Steps x) \<and> cr_ComponentID cr = i"
proof -
  have "foldl (\<lambda>m s. m(cr_ComponentID s \<mapsto> s)) m ss i = Some cr \<Longrightarrow> m i = Some cr \<or> cr \<in> set ss \<and> cr_ComponentID cr = i" for m ss
  proof (induction ss arbitrary: m)
    case (Cons a ss)
    from Cons.IH [of "m(cr_ComponentID a \<mapsto> a)"] Cons.prems show ?case by (auto split: if_splits)
  qed simp
  from this [of Map.empty "wx_Steps x"] show "crByComponent x i = Some cr \<Longrightarrow> cr \<in> set (wx_Steps x) \<and> cr_ComponentID cr = i"
    by (simp add: crByComponent_def)
qed

lemma row_fits_result:
  assumes inv: "work_inv env x w" and quiet: "wj_Queue w = []" "wj_Units w i = None" "wj_Retry w = None"
    and i: "cr_ComponentID cr = i" and fits: "row_fits x w i cr r"
  shows "r = row_of_unit (wj_Sched w) cr"
proof -
  let ?s = "wj_Sched w"
  note reach = work_invD(1) [OF inv]
  have told: "told_inv ?s" by (rule told_inv_reach [OF reach])
  show ?thesis
  proof (cases "begun i ?s")
    case True
    then obtain st where "sc_results ?s i = Some st" "done_row st r False" using fits quiet by (auto simp: row_fits_def)
    then show ?thesis by (cases st) (simp_all add: row_of_unit_def i)
  next
    case False
    then have f: "reported w i st \<Longrightarrow> told_row st r False" "(\<forall>st. \<not> reported w i st) \<Longrightarrow> r = cr_Status cr" for st
      using fits quiet by (auto simp: row_fits_def)
    have rep: "reported w i st \<longleftrightarrow> (i, st) \<in> set (sc_emitted ?s)" for st
      using False by (auto simp: reported_def quiet(1) begun_def)
    show ?thesis
    proof (cases "sc_results ?s i")
      case (Some st)
      then have "told_row st r False" using f(1) rep told by (simp add: told_inv_def)
      moreover have "st \<in> {Succeeded, Failed, Skipped}"
        using Some book_inv_reach [OF reach] by (auto simp: book_inv_def ran_def)
      ultimately show ?thesis using Some by (auto simp: row_of_unit_def i)
    next
      case None
      show ?thesis
      proof (cases "i \<in> sc_parked ?s")
        case True
        then have "(i, AwaitingApproval) \<in> set (sc_emitted ?s)" using told by (simp add: told_inv_def)
        then have "told_row AwaitingApproval r False" using f(1) rep by blast
        then show ?thesis using None True by (simp add: row_of_unit_def i)
      next
        case parked: False
        have "\<not> reported w i st" for st
          using emitted_state [OF reach, of i st] None parked by (auto simp: reported_def)
        then show ?thesis using f(2) None parked by (simp add: row_of_unit_def i)
      qed
    qed
  qed
qed

end
