(* ===== verification/WorkEnds.thy ===== *)
theory WorkEnds
  imports WorkRows RunExpiry
begin

text \<open>How an attempt starts and ends: the rows it read, why a retry is pending, and what \<open>finish_work\<close> leaves.\<close>

section \<open>The start\<close>

lemma start_workD:
  assumes "start_work itf a remain now d0 = (d, Inr x)"
  shows "find_run d0 (wa_OrgID a) (wa_ApplicationID a) (wa_WorkflowRunID a) = Some (wx_Run x)"
    and "wx_Steps x = filter (step_of_run (wa_OrgID a) (wa_WorkflowRunID a)) (rd_Steps d0)" and "wx_Args x = a"
    and "wx_AttemptsRemain x = remain"
    and "d = fst (MarkRun (itf 1 (itf 0 d0)) (wa_OrgID a) (wa_WorkflowRunID a) RunRunning ''running workflow'' now)"
  using assms by (auto simp: start_work_def GetRun_def Let_def split: sum.splits option.splits)

lemma start_work_steps:
  assumes "start_work itf a remain now d0 = (d, Inr x)" and i: "interleaves (run_step low orb) itf"
  shows "run_steps low orb d0 d"
proof -
  have "run_steps low orb d0 (itf 1 (itf 0 d0))" by (rule interleaves_trans [OF i interleavesD [OF i]])
  then show ?thesis unfolding start_workD(5) [OF assms(1)] by (rule one_step) (rule st_mark_run, simp)
qed

lemma find_step_row: "distinct (map cr_ID ss) \<Longrightarrow> s \<in> set ss \<Longrightarrow> find (\<lambda>t. cr_ID t = cr_ID s) ss = Some s"
  by (induction ss) (auto simp: image_iff)

lemma MarkRun_rows [simp]: "row_at (fst (MarkRun d org i status message now)) c = row_at d c"
  by (simp add: MarkRun_def or_not_found_def row_at_def)

text \<open>Nobody writes between its reads: the rows are as the attempt read them.\<close>

lemma start_work_rows:
  assumes wf: "runs_wf low orb d0" and start: "start_work (\<lambda>k d. d) a remain now d0 = (d, Inr x)"
  shows "ctx_rows x d"
proof -
  note s = start_workD [OF start]
  have dist: "distinct (map cr_ID (rd_Steps d0))" using wf by (simp add: runs_wf_def)
  have row: "row_at d (cr_ID cr) = Some (row_key x, cr_Status cr)" if "crByComponent x i = Some cr" for i cr
  proof -
    have "cr \<in> set (rd_Steps d0)" "cr_OrganizationID cr = wa_OrgID a" "cr_WorkflowRunID cr = wa_WorkflowRunID a"
      using crByComponent_Some [OF that] s(2) by (auto simp: step_of_run_def)
    then show ?thesis using find_step_row [OF dist] by (simp add: s(3,5) row_key_def) (simp add: row_at_def)
  qed
  moreover have "i = j" if "crByComponent x i = Some a" "crByComponent x j = Some b" "cr_ID a = cr_ID b" for i j a b
  proof -
    have "a = b" using crByComponent_Some [OF that(1)] crByComponent_Some [OF that(2)] that(3) dist s(2)
      by (auto simp: distinct_map dest: inj_onD)
    then show ?thesis using crByComponent_Some [OF that(1)] crByComponent_Some [OF that(2)] by simp
  qed
  ultimately show ?thesis unfolding ctx_rows_def by blast
qed

text \<open>One step per component.\<close>

lemma crByComponent_own:
  assumes "distinct (map cr_ComponentID (wx_Steps x))" and "cr \<in> set (wx_Steps x)"
  shows "crByComponent x (cr_ComponentID cr) = Some cr"
proof -
  have "foldl (\<lambda>m s. m(cr_ComponentID s \<mapsto> s)) m ss (cr_ComponentID cr) = Some cr"
    if "distinct (map cr_ComponentID ss)" "cr \<in> set ss \<or> m (cr_ComponentID cr) = Some cr \<and> cr_ComponentID cr \<notin> cr_ComponentID ` set ss" for m ss
    using that by (induction ss arbitrary: m) (auto simp: image_iff)
  then show ?thesis using assms by (simp add: crByComponent_def)
qed

section \<open>Why a retry is pending\<close>

definition retry_inv :: "work \<Rightarrow> bool" where
  "retry_inv w \<longleftrightarrow> (wj_Retry w \<noteq> None \<longrightarrow>
     (\<exists>i. sc_results (wj_Sched w) i = Some Failed \<or> (\<exists>res. wj_Units w i = Some (UDone res) \<and> nr_Status res = Failed)))"

lemma retry_inv_keep:
  assumes "retry_inv w" and "wj_Retry u = wj_Retry w" and "sc_results (wj_Sched w) \<subseteq>\<^sub>m sc_results (wj_Sched u)"
    and "\<And>i res. wj_Units w i = Some (UDone res) \<Longrightarrow> nr_Status res = Failed \<Longrightarrow>
      wj_Units u i = Some (UDone res) \<or> sc_results (wj_Sched u) i = Some Failed"
  shows "retry_inv u"
  using assms(1,2) map_leD [OF assms(3)] assms(4) unfolding retry_inv_def by metis

lemma retry_inv_step:
  assumes inv: "work_inv env x w" and rows: "rows_inv x w" and r: "retry_inv w" and step: "work_step env x e w = Some u"
  shows "retry_inv u"
proof (cases e)
  case (Begin j)
  from step [unfolded Begin] show ?thesis
  proof (cases rule: beginE)
    case (1 t)
    have "wj_Units w j = None"
      using work_invD(5) [OF inv] acquire_once(1) [OF work_invD(1) [OF inv] 1(1)] by (cases "wj_Units w j") auto
    then show ?thesis
      by (intro retry_inv_keep [OF r]) (use step_emits(3) [OF work_invD(1) [OF inv] 1(1)] in \<open>auto simp: 1(2)\<close>)
  qed
next
  case (StepUnit i now ans)
  then obtain p where p: "wj_Units w i = Some p" "unit_step (wa_OrgID (wx_Args x)) i now ans p w = Some u"
    using step by (auto split: option.splits)
  note frame = unit_step_frame [OF p(2)]
  show ?thesis
  proof (cases "\<exists>e k. p = URetryable e k")
    case True
    then obtain e' k where k: "p = URetryable e' k" by blast
    obtain cr where cr: "crByComponent x i = Some cr" using unit_cr [OF inv p] by auto
    then obtain row where "row_fits x w i cr row" using rows by (auto simp: rows_inv_def)
    then obtain res where "k = UDone res" "nr_Status res = Failed" using p(1) k by (auto simp: row_fits_def)
    then show ?thesis using p(2) k by (auto simp: retry_inv_def)
  next
    case False
    then have "wj_Retry u = wj_Retry w" using p(2) by (cases p) (auto split: prod.splits)
    moreover have "\<And>res. p \<noteq> UDone res" using p(2) by auto
    ultimately show ?thesis
      by (intro retry_inv_keep [OF r]) (use frame p(1) in \<open>auto simp: frame(1)\<close>, metis frame(3) option.inject)
  qed
next
  case (End i)
  from step [unfolded End] show ?thesis
  proof (cases rule: endE)
    case (1 res)
    have inv': "work_inv env x (w\<lparr>wj_Units := (wj_Units w)(i := None)\<rparr>)" using inv by (auto simp: work_inv_def unit_calls_def)
    note sel = advance_sel [OF 1(3)]
    have "wj_Sched u = set_phase i Settled (record_result i res (wj_Sched w))" using sel(1) by (auto split: if_splits)
    then have "sc_results (wj_Sched u) i = Some (settle_status (nr_Status res))" by simp
    then show ?thesis
      by (intro retry_inv_keep [OF r])
        (use step_emits(3) [OF work_invD(1) [OF inv'] sel(1)] sel 1(1) in \<open>auto simp: settle_status_def\<close>)
  qed
next
  case (Notify now)
  from step [unfolded Notify] show ?thesis
    by (cases rule: notifyE) (intro retry_inv_keep [OF r]; simp)
next
  case (Main ev)
  note m = mainE(1) [OF step [unfolded Main]]
  show ?thesis
    by (intro retry_inv_keep [OF r])
      (use advance_sel [OF m] step_emits(3) [OF work_invD(1) [OF inv] advance_sel(1) [OF m]] in auto)
next
  case (Others d')
  then have u: "u = w\<lparr>wj_DB := d'\<rparr>" using step by simp
  show ?thesis by (rule retry_inv_keep [OF r]) (simp_all add: u)
qed

lemma retry_inv_reach:
  assumes "work_reach (leaves_rows x) env x d w" and "ctx_rows x d"
  shows "retry_inv w"
  using assms
proof (induction rule: work_reach.induct)
  case wr_begin
  then show ?case by (simp add: retry_inv_def begin_work_def)
next
  case (wr_step w e u)
  then show ?case using retry_inv_step [OF work_inv_reach [OF wr_step(1)] rows_inv_reach [OF wr_step(1)]] by blast
qed

section \<open>The end\<close>

lemma MarkRun_settles:
  assumes "r \<in> set (rd_Runs (fst (MarkRun d org i status message now)))" and "run_is org i r"
  shows "\<not> in_flight status \<Longrightarrow> \<not> in_flight (wr_Status r)" and "in_flight (wr_Status r) \<Longrightarrow> wr_Status r = status"
proof -
  let ?f = "\<lambda>s. if run_is org i s \<and> in_flight (wr_Status s) then run_mark status message now s else s"
  have "rd_Runs (fst (MarkRun d org i status message now)) = map ?f (rd_Runs d)"
    by (simp add: MarkRun_def or_not_found_def update_runs_def update_rows_map)
  with assms(1) have "r \<in> ?f ` set (rd_Runs d)" by (simp only: set_map)
  then obtain s where s: "r = ?f s" by (rule imageE)
  have k: "run_is org i (run_mark status message now s) = run_is org i s" "wr_Status (run_mark status message now s) = status"
    by (simp_all add: run_mark_def run_is_def)
  show "\<not> in_flight status \<Longrightarrow> \<not> in_flight (wr_Status r)" and "in_flight (wr_Status r) \<Longrightarrow> wr_Status r = status"
    using assms(2) k by (auto simp: s split: if_splits)
qed

lemma SettleStuck_runs [simp]: "rd_Runs (fst (SettleStuckComponentRuns d org i message now)) = rd_Runs d"
  by (simp add: SettleStuckComponentRuns_def update_steps_def)

lemma SettleStuck_row:
  assumes "row_at d c = Some ((org, i), r)"
  shows "\<exists>r'. row_at (fst (SettleStuckComponentRuns d org i message now)) c = Some ((org, i), r') \<and> \<not> step_open r'"
proof -
  obtain z where z: "find (\<lambda>s. cr_ID s = c) (rd_Steps d) = Some z" "cr_OrganizationID z = org" "cr_WorkflowRunID z = i"
    using assms by (auto simp: row_at_def)
  have "row_at (fst (SettleStuckComponentRuns d org i message now)) c =
      Some ((org, i), if step_open (cr_Status z) then StepSkipped else cr_Status z)"
    unfolding SettleStuckComponentRuns_def by (simp add: row_at_update settle_def z step_of_run_def)
  then show ?thesis by (auto simp: step_open_def)
qed

text \<open>A retry that is pending is the failure of a unit.\<close>

lemma done_failure:
  assumes "work_inv env x w" and "retry_inv w" and "wj_Retry w \<noteq> None" and "loop_done (wj_Sched w)"
  shows "\<exists>i. sc_results (wj_Sched w) i = Some Failed"
proof -
  have "sc_procs (wj_Sched w) = []" by (rule loop_done_facts(1) [OF work_invD(1) [OF assms(1)] assms(4)])
  then have "wj_Units w i = None" for i
    using work_invD(4) [OF assms(1), of i] by (cases "wj_Units w i") (auto simp: executing_def)
  then show ?thesis using assms(2,3) by (auto simp: retry_inv_def)
qed

lemma work_known: "known (work_nodes x) = gn_ID ` set (wx_nodes x)"
  by (force simp: known_def work_nodes_def sched_node_def)

text \<open>A run that succeeds has settled every step.\<close>

lemma succeeded_rows:
  assumes reach: "work_reach (leaves_rows x) env x d w" and ctx: "ctx_rows x d"
    and fin: "loop_done (wj_Sched w)" "wj_Queue w = []" and topo: "topo_ordered (known (work_nodes x)) {} (work_nodes x)"
    and mirror: "map cr_ComponentID (wx_Steps x) = map gn_ID (wx_nodes x)"
    and ok: "final_outcome (work_nodes x) (wj_Sched w) = run_outcome.RunSucceeded" and cr: "cr \<in> set (wx_Steps x)"
  shows "\<exists>r. row_at (wj_DB w) (cr_ID cr) = Some (row_key x, r) \<and> \<not> step_open r"
proof -
  let ?s = "wj_Sched w" and ?N = "work_nodes x"
  note inv = work_inv_reach [OF reach] and book = book_inv_reach [OF work_invD(1) [OF work_inv_reach [OF reach]]]
  have ids: "map sn_ID ?N = map gn_ID (wx_nodes x)" by (simp add: work_nodes_def sched_node_def comp_def)
  have dist: "distinct (map cr_ComponentID (wx_Steps x))" using topo_ordered_distinct [OF topo] ids mirror by simp
  have i: "cr_ComponentID cr \<in> known ?N" using cr mirror unfolding work_known by (metis image_eqI set_map)
  have none: "sc_parked ?s = {}" "\<not> hardFailed ?N ?s" "\<not> softFailed ?N ?s"
    using ok book by (auto simp: final_outcome_def book_inv_def split: if_splits)
  have settled: "sc_results ?s j \<noteq> None" if "j \<in> known ?N" for j
    using settled_or_gated [OF work_invD(1) [OF inv] fin(1) topo_ordered_wf [OF topo] that] none(1) by auto
  have nofail: "sc_results ?s j \<noteq> Some Failed" for j
  proof
    assume f: "sc_results ?s j = Some Failed"
    then have "j \<in> known ?N" using book by (auto simp: book_inv_def)
    then show False using f none(2,3) by (auto simp: hardFailed_def softFailed_def known_def list_ex_iff)
  qed
  have quiet: "wj_Retry w = None"
    using done_failure [OF inv retry_inv_reach [OF reach ctx] _ fin(1)] nofail by blast
  have "sc_procs ?s = []" by (rule loop_done_facts(1) [OF work_invD(1) [OF inv] fin(1)])
  then have idle: "wj_Units w (cr_ComponentID cr) = None"
    using work_invD(4) [OF inv, of "cr_ComponentID cr"] by (cases "wj_Units w (cr_ComponentID cr)") (auto simp: executing_def)
  obtain r where r: "row_at (wj_DB w) (cr_ID cr) = Some (row_key x, r)" "row_fits x w (cr_ComponentID cr) cr r"
    using rows_inv_reach [OF reach ctx] crByComponent_own [OF dist cr] by (auto simp: rows_inv_def)
  have "r = row_of_unit ?s cr" by (rule row_fits_result [OF inv fin(2) idle quiet refl r(2)])
  moreover obtain st where st: "sc_results ?s (cr_ComponentID cr) = Some st" using settled [OF i] by blast
  moreover have "st \<in> {Succeeded, Skipped}" using st nofail book by (auto simp: book_inv_def ran_def)
  ultimately show ?thesis using r(1) by (auto simp: row_of_unit_def step_open_def)
qed

text \<open>A run that is suspended has a step that awaits its approval.\<close>

lemma suspended_row:
  assumes reach: "work_reach (leaves_rows x) env x d w" and ctx: "ctx_rows x d"
    and fin: "loop_done (wj_Sched w)" "wj_Queue w = []"
    and mirror: "map cr_ComponentID (wx_Steps x) = map gn_ID (wx_nodes x)" "distinct (map cr_ComponentID (wx_Steps x))"
    and susp: "final_outcome (work_nodes x) (wj_Sched w) = RunSuspended"
  shows "\<exists>cr \<in> set (wx_Steps x). row_at (wj_DB w) (cr_ID cr) = Some (row_key x, StepAwaiting)"
proof -
  let ?s = "wj_Sched w"
  note inv = work_inv_reach [OF reach] and book = book_inv_reach [OF work_invD(1) [OF work_inv_reach [OF reach]]]
  obtain i where i: "i \<in> sc_parked ?s" using susp book by (auto simp: final_outcome_def book_inv_def split: if_splits)
  then have "i \<in> gn_ID ` set (wx_nodes x)" using book work_known [of x] by (auto simp: book_inv_def)
  then obtain cr where cr: "cr \<in> set (wx_Steps x)" "cr_ComponentID cr = i" using mirror(1) by (metis image_iff set_map)
  have "sc_procs ?s = []" by (rule loop_done_facts(1) [OF work_invD(1) [OF inv] fin(1)])
  then have idle: "wj_Units w i = None" using work_invD(4) [OF inv, of i] by (cases "wj_Units w i") (auto simp: executing_def)
  have told: "(i, AwaitingApproval) \<in> set (sc_emitted ?s)"
    using told_inv_reach [OF work_invD(1) [OF inv]] i by (simp add: told_inv_def)
  have "sc_results ?s i = None" using book i by (auto simp: book_inv_def)
  then have new: "\<not> begun i ?s"
    using begun_settled [OF work_invD(1) [OF inv], of i] \<open>sc_procs ?s = []\<close> by (auto simp: executing_def)
  obtain r where r: "row_at (wj_DB w) (cr_ID cr) = Some (row_key x, r)" "row_fits x w i cr r"
    using rows_inv_reach [OF reach ctx] crByComponent_own [OF mirror(2) cr(1)] cr(2) by (auto simp: rows_inv_def)
  have "reported w i AwaitingApproval" using told fin(2) by (simp add: reported_def)
  then have "r = StepAwaiting" using r(2) idle new by (auto simp: row_fits_def)
  then show ?thesis using cr(1) r(1) by blast
qed

text \<open>The three ends of an attempt whose context was not cancelled.\<close>

abbreviation run_of :: "WorkCtx \<Rightarrow> RunRow \<Rightarrow> bool" where
  "run_of x \<equiv> run_is (wa_OrgID (wx_Args x)) (wa_WorkflowRunID (wx_Args x))"

abbreviation retries :: "WorkCtx \<Rightarrow> run_outcome \<Rightarrow> string option \<Rightarrow> bool" where
  "retries x outcome retry \<equiv> outcome = run_outcome.RunFailed \<and> wx_AttemptsRemain x \<and> retry \<noteq> None"

lemma finish_suspended:
  assumes "finish_work env x itf t RunSuspended None retry d = (d', fin)"
  shows "we_Error fin = None" "we_Swept fin = []" "row_at d' c = row_at d c"
    and "r \<in> set (rd_Runs d') \<Longrightarrow> run_of x r \<Longrightarrow> in_flight (wr_Status r) \<Longrightarrow> wr_Status r = RunAwaiting"
  using assms MarkRun_settles(2) by (auto simp: finish_work_def Let_def)

lemma finish_retried:
  assumes "finish_work env x itf t outcome None retry d = (d', fin)" and "retries x outcome retry"
  shows "we_Error fin \<noteq> None" "d' = d"
  using assms by (auto simp: finish_work_def Let_def)

lemma finish_settled:
  assumes "finish_work env x (\<lambda>k d. d) t outcome None retry d = (d', fin)" and "outcome \<noteq> RunSuspended" and "\<not> retries x outcome retry"
  shows "d' = (let d1 = fst (MarkRun d (wa_OrgID (wx_Args x)) (wa_WorkflowRunID (wx_Args x)) (fst (final_status outcome))
                 (''workflow '' @ snd (final_status outcome)) t) in
               if outcome = run_outcome.RunSucceeded then d1
               else fst (SettleStuckComponentRuns d1 (wa_OrgID (wx_Args x)) (wa_WorkflowRunID (wx_Args x)) ''skipped (run did not complete)'' t))"
  using assms by (cases outcome) (auto simp: finish_work_def Let_def)

lemma finish_settled_runs:
  assumes "finish_work env x (\<lambda>k d. d) t outcome None retry d = (d', fin)" and "outcome \<noteq> RunSuspended" and "\<not> retries x outcome retry"
    and "r \<in> set (rd_Runs d')" and "run_of x r"
  shows "\<not> in_flight (wr_Status r)"
proof -
  have "\<not> in_flight (fst (final_status outcome))" using assms(2) by (cases outcome) (simp_all add: in_flight_def)
  moreover have "r \<in> set (rd_Runs (fst (MarkRun d (wa_OrgID (wx_Args x)) (wa_WorkflowRunID (wx_Args x)) (fst (final_status outcome))
                 (''workflow '' @ snd (final_status outcome)) t)))"
    using assms(4) finish_settled [OF assms(1-3)] by (simp add: Let_def split: if_splits)
  ultimately show ?thesis using MarkRun_settles(1) assms(5) by blast
qed

lemma finish_settled_row:
  assumes "finish_work env x (\<lambda>k d. d) t outcome None retry d = (d', fin)" and "outcome \<noteq> RunSuspended" and "\<not> retries x outcome retry"
    and "row_at d c = Some (row_key x, r)" and "outcome = run_outcome.RunSucceeded \<Longrightarrow> \<not> step_open r"
  shows "\<exists>st. row_at d' c = Some (row_key x, st) \<and> \<not> step_open st"
proof (cases "outcome = run_outcome.RunSucceeded")
  case True
  then show ?thesis using finish_settled [OF assms(1-3)] assms(4,5) by (simp add: Let_def)
next
  case False
  let ?d1 = "fst (MarkRun d (wa_OrgID (wx_Args x)) (wa_WorkflowRunID (wx_Args x)) (fst (final_status outcome))
                 (''workflow '' @ snd (final_status outcome)) t)"
  have "row_at ?d1 c = Some ((wa_OrgID (wx_Args x), wa_WorkflowRunID (wx_Args x)), r)" using assms(4) by (simp add: row_key_def)
  from SettleStuck_row [OF this] show ?thesis using finish_settled [OF assms(1-3)] False by (simp add: Let_def row_key_def)
qed

end
