(* ===== verification/TaskRunOnce.thy ===== *)
theory TaskRunOnce
  imports RunAttempt_Props
begin

text \<open>
  The TaskRuns of one step in the cluster: a unit's program beside a cluster that answers it truthfully and
  others that never start a TaskRun with its label.
\<close>

section \<open>The cluster\<close>

record job =
  jb_Label :: string
  jb_Run :: RunStatus

abbreviation job_name :: "job \<Rightarrow> string" where
  "job_name j \<equiv> rs_Name (jb_Run j)"

definition active_jobs :: "string \<Rightarrow> job list \<Rightarrow> job list" where
  "active_jobs v c = filter (\<lambda>j. jb_Label j = v \<and> \<not> Terminal (jb_Run j)) c"

definition cluster_wf :: "job list \<Rightarrow> bool" where
  "cluster_wf c \<longleftrightarrow> distinct (map job_name c) \<and> [] \<notin> set (map job_name c)"

definition component_selector :: "string \<Rightarrow> string" where
  "component_selector v = RunComponentLabel @ ''='' @ v"

text \<open>A TaskRun that was created: named by the server, labelled by its specification.\<close>

definition created_job :: "TaskRunSpec \<Rightarrow> RunStatus \<Rightarrow> job list \<Rightarrow> job list \<Rightarrow> bool" where
  "created_job spec st c c' \<longleftrightarrow>
     rs_Name st \<noteq> [] \<and> rs_Name st \<notin> set (map job_name c) \<and>
     c' = c @ [\<lparr>jb_Label = (case map_of (sp_Labels spec) RunComponentLabel of Some v \<Rightarrow> v | None \<Rightarrow> []), jb_Run = st\<rparr>]"

text \<open>
  Truthful answers. A submit that reports an error may have created the TaskRun all the same. A listing
  does not fail here: the executor takes a failed one for an empty one.
\<close>

fun answer_ok :: "job list \<Rightarrow> cluster_call \<Rightarrow> cluster_answer \<Rightarrow> job list \<Rightarrow> bool" where
  "answer_ok c (OpList sel) ans c' \<longleftrightarrow>
     c' = c \<and> ans = ARuns (map jb_Run (filter (\<lambda>j. component_selector (jb_Label j) = sel) c))"
| "answer_ok c (OpGet name) ans c' \<longleftrightarrow>
     c' = c \<and> (case ans of
       ARun st \<Rightarrow> st \<in> set (map jb_Run c) \<and> rs_Name st = name
     | AMissing e \<Rightarrow> name \<notin> set (map job_name c)
     | AError e \<Rightarrow> True
     | _ \<Rightarrow> False)"
| "answer_ok c (OpSubmit spec) ans c' \<longleftrightarrow>
     (case ans of
       ARun st \<Rightarrow> created_job spec st c c'
     | AError e \<Rightarrow> c' = c \<or> c' \<noteq> [] \<and> created_job spec (jb_Run (last c')) c c'
     | _ \<Rightarrow> False)"
| "answer_ok c _ ans c' \<longleftrightarrow> c' = c"

text \<open>What others and time do: TaskRuns end or disappear, and start only with other labels.\<close>

definition cluster_moves :: "string \<Rightarrow> job list \<Rightarrow> job list \<Rightarrow> bool" where
  "cluster_moves v c c' \<longleftrightarrow> cluster_wf c' \<and> job_name ` set (active_jobs v c') \<subseteq> job_name ` set (active_jobs v c)"

inductive cluster_path :: "string \<Rightarrow> unit_prog \<Rightarrow> job list \<Rightarrow> unit_prog \<Rightarrow> job list \<Rightarrow> bool" for v p c where
  cp_start: "cluster_path v p c p c"
| cp_write: "cluster_path v p c (UWrite w k) c' \<Longrightarrow> cluster_path v p c (k b) c'"
| cp_read: "cluster_path v p c (URead k) c' \<Longrightarrow> cluster_path v p c (k d now) c'"
| cp_call: "cluster_path v p c (UCall a k) c' \<Longrightarrow> answer_ok c' a ans c'' \<Longrightarrow> cluster_path v p c (k ans) c''"
| cp_retry: "cluster_path v p c (URetryable e k) c' \<Longrightarrow> cluster_path v p c k c'"
| cp_others: "cluster_path v p c q c' \<Longrightarrow> cluster_moves v c' c'' \<Longrightarrow> cluster_path v p c q c''"

section \<open>What a program knows\<close>

datatype knowledge = NothingKnown | AtMost string | NoneActive

fun holds :: "string \<Rightarrow> knowledge \<Rightarrow> job list \<Rightarrow> bool" where
  "holds v NothingKnown c \<longleftrightarrow> True"
| "holds v (AtMost name) c \<longleftrightarrow> job_name ` set (active_jobs v c) \<subseteq> {name}"
| "holds v NoneActive c \<longleftrightarrow> active_jobs v c = []"

fun learn :: "string \<Rightarrow> cluster_call \<Rightarrow> cluster_answer \<Rightarrow> knowledge \<Rightarrow> knowledge" where
  "learn v (OpList sel) (ARuns runs) K =
     (if sel = component_selector v then (if latestActiveRun runs = [] then NoneActive else AtMost (latestActiveRun runs)) else K)"
| "learn v (OpGet name) (AMissing e) K = (if K = AtMost name then NoneActive else K)"
| "learn v (OpGet name) (ARun st) K = (if Terminal st \<and> K = AtMost name then NoneActive else K)"
| "learn v _ _ K = K"

definition lists :: "cluster_call \<Rightarrow> cluster_answer \<Rightarrow> bool" where
  "lists c ans \<longleftrightarrow> (case c of OpList sel \<Rightarrow> (case ans of ARuns runs \<Rightarrow> True | _ \<Rightarrow> False) | _ \<Rightarrow> True)"

definition submits_as :: "string \<Rightarrow> cluster_call \<Rightarrow> bool" where
  "submits_as v c \<longleftrightarrow> (case c of OpSubmit spec \<Rightarrow> map_of (sp_Labels spec) RunComponentLabel = Some v | _ \<Rightarrow> True)"

text \<open>It submits once, for its own step, and only when it knows that nothing is active.\<close>

primrec prog_once :: "string \<Rightarrow> unit_prog \<Rightarrow> knowledge \<Rightarrow> bool \<Rightarrow> bool" where
  "prog_once v (UDone res) = (\<lambda>K s. True)"
| "prog_once v (UWrite w k) = (\<lambda>K s. \<forall>b. prog_once v (k b) K s)"
| "prog_once v (URead k) = (\<lambda>K s. \<forall>d now. prog_once v (k d now) K s)"
| "prog_once v (UCall c k) = (\<lambda>K s.
     submits_as v c \<and> (is_submit c \<longrightarrow> K = NoneActive \<and> \<not> s) \<and>
     (\<forall>ans. lists c ans \<longrightarrow> prog_once v (k ans) (learn v c ans K) (s \<or> is_submit c)))"
| "prog_once v (URetryable e k) = (\<lambda>K s. prog_once v k K s)"

lemma submits_as_other [simp]: "\<not> is_submit c \<Longrightarrow> submits_as v c"
  by (cases c) (simp_all add: submits_as_def)

lemma no_submit_once: "no_submit q \<Longrightarrow> prog_once v q K s"
proof (induction q arbitrary: K s)
  case (UWrite w k)
  then show ?case using UWrite.IH [OF rangeI] by simp
next
  case (URead k)
  then show ?case using URead.IH [OF rangeI rangeI] by simp
next
  case (UCall c k)
  then show ?case using UCall.IH [OF rangeI] by simp
qed simp_all

lemma exec_submit_once:
  assumes "\<And>name r. no_submit (k name r)" and "map_of (sp_Labels (stampLabels (xq_Spec r) (xq_Labels r))) RunComponentLabel = Some v"
  shows "prog_once v (exec_submit r persist k) NoneActive False"
  using assms by (simp add: exec_submit_def submits_as_def exec_await_quiet no_submit_once split: cluster_answer.split)

lemma exec_attach_once:
  assumes "\<And>name r. no_submit (k name r)" and "map_of (sp_Labels (stampLabels (xq_Spec r) (xq_Labels r))) RunComponentLabel = Some v"
    and "K = (if name = [] then NoneActive else AtMost name)"
  shows "prog_once v (exec_attach r persist k name) K False"
  using assms exec_submit_once [OF assms(1,2)]
  by (auto simp: exec_attach_def exec_runActive_def exec_await_quiet no_submit_once lists_def split: cluster_answer.split sum.split)

lemma Execute_once:
  assumes "\<And>name r. no_submit (k name r)" and "map_of (sp_Labels (stampLabels (xq_Spec r) (xq_Labels r))) RunComponentLabel = Some v"
    and "xq_RecoverSelector r = component_selector v"
  shows "prog_once v (Execute r persist k) (if xq_ExistingRun r = [] then NothingKnown else AtMost (xq_ExistingRun r)) False"
proof -
  have sel: "component_selector v \<noteq> []" by (simp add: component_selector_def)
  have att: "prog_once v (exec_attach r persist k name) (if name = [] then NoneActive else AtMost name) False" for name
    using assms(1,2) by (rule exec_attach_once) simp
  show ?thesis
  proof (cases "xq_ExistingRun r = []")
    case True
    have "prog_once v (exec_attach r persist k (latestActiveRun runs))
        (if latestActiveRun runs = [] then NoneActive else AtMost (latestActiveRun runs)) False" for runs by (rule att)
    with True sel show ?thesis
      by (auto simp: Execute_def exec_recover_def lists_def assms(3) split: cluster_answer.splits)
  next
    case False
    with att [of "xq_ExistingRun r"] show ?thesis by (simp add: Execute_def)
  qed
qed

text \<open>The plan passes the recorded run on.\<close>

lemma planComponent_existing:
  assumes "planComponent pf w app node action force existing runID crID units op now = Inr req"
  shows "rq_ExistingRun req = existing"
  using assms
  by (auto simp: planComponent_def planHelm_def planManifest_def planTofu_def Let_def try_bind_Inr run_request_def
    split: if_splits option.splits)

definition first_knowledge :: "StepRun \<Rightarrow> knowledge" where
  "first_knowledge cr = (if cr_RunName cr = [] then NothingKnown else AtMost (cr_RunName cr))"

lemma runComponent_once:
  "prog_once (pf_UUIDString (ve_Platform env) (cr_ID cr)) (runComponent env x node cr) (first_knowledge cr) False"
proof -
  let ?v = "pf_UUIDString (ve_Platform env) (cr_ID cr)"
  have "prog_once ?v (unit_planned env x node cr req) (first_knowledge cr) False" if "rq_ExistingRun req = cr_RunName cr" for req
  proof -
    let ?r = "exec_request env x cr req"
    have "xq_ExistingRun ?r = cr_RunName cr" "xq_RecoverSelector ?r = component_selector ?v"
      using that by (simp_all add: exec_request_def Let_def component_selector_def)
    moreover have "map_of (sp_Labels (stampLabels (xq_Spec ?r) (xq_Labels ?r))) RunComponentLabel = Some ?v"
      by (simp add: exec_request_def Let_def stampLabels_def)
    ultimately show ?thesis
      using Execute_once [of "unit_executed env x node cr" ?r ?v
          "\<lambda>name. WMark (cr_ID cr) StepRunning (''submitted run '' @ name) name"] unit_executed_quiet
      unfolding unit_planned_def first_knowledge_def by presburger
  qed
  then show ?thesis using planComponent_existing by (simp add: runComponent_def Let_def split: sum.split)
qed

lemma runFn_once:
  "crByComponent x i = Some cr \<Longrightarrow>
    prog_once (pf_UUIDString (ve_Platform env) (cr_ID cr)) (runFn env x i) (first_knowledge cr) False"
  by (simp add: runFn_def runComponent_once split: option.split)

section \<open>At most one is active\<close>

lemma active_distinct: "cluster_wf c \<Longrightarrow> distinct (map job_name (active_jobs v c))"
  by (simp add: cluster_wf_def active_jobs_def distinct_map_filter)

lemma active_card: "cluster_wf c \<Longrightarrow> length (active_jobs v c) = card (job_name ` set (active_jobs v c))"
  using distinct_card [OF active_distinct, of c v] by simp

lemma at_most_moves:
  assumes "cluster_wf c" and "length (active_jobs v c) \<le> 1" and "cluster_moves v c c'"
  shows "length (active_jobs v c') \<le> 1"
proof -
  have "card (job_name ` set (active_jobs v c')) \<le> card (job_name ` set (active_jobs v c))"
    using assms(3) by (intro card_mono) (simp_all add: cluster_moves_def)
  then show ?thesis using assms by (simp add: active_card cluster_moves_def)
qed

lemma holds_moves:
  assumes "holds v K c" and "cluster_moves v c c'"
  shows "holds v K c'"
proof -
  have sub: "job_name ` set (active_jobs v c') \<subseteq> job_name ` set (active_jobs v c)" using assms(2) by (simp add: cluster_moves_def)
  then have "active_jobs v c = [] \<Longrightarrow> active_jobs v c' = []" by simp
  then show ?thesis using assms(1) order_trans [OF sub] by (cases K) simp_all
qed

lemma wf_name_job:
  "cluster_wf c \<Longrightarrow> j \<in> set c \<Longrightarrow> j' \<in> set c \<Longrightarrow> job_name j = job_name j' \<Longrightarrow> j = j'"
  by (auto simp: cluster_wf_def distinct_map dest: inj_onD)

lemma active_mem: "j \<in> set (active_jobs v c) \<longleftrightarrow> j \<in> set c \<and> jb_Label j = v \<and> \<not> Terminal (jb_Run j)"
  by (auto simp: active_jobs_def)

lemma learn_list:
  assumes wf: "cluster_wf c" and one: "length (active_jobs v c) \<le> 1"
    and runs: "runs = map jb_Run (filter (\<lambda>j. component_selector (jb_Label j) = component_selector v) c)"
  shows "holds v (if latestActiveRun runs = [] then NoneActive else AtMost (latestActiveRun runs)) c"
proof -
  have mem: "r \<in> set runs \<longleftrightarrow> (\<exists>j \<in> set c. jb_Label j = v \<and> jb_Run j = r)" for r
    by (auto simp: runs component_selector_def)
  have "job_name j \<noteq> []" if "j \<in> set c" for j
    using wf imageI [OF that, of job_name] by (auto simp: cluster_wf_def)
  then have "rs_Name r \<noteq> []" if "r \<in> set runs" for r
    using that mem [of r] by auto
  then have named: "list_all (\<lambda>r. rs_Name r \<noteq> []) runs" by (simp add: list_all_iff)
  show ?thesis
  proof (cases "latestActiveRun runs = []")
    case True
    then have "list_all Terminal runs" using latestActiveRun_none [OF named] by simp
    then have "active_jobs v c = []" using mem by (auto simp: active_jobs_def filter_empty_conv list_all_iff)
    with True show ?thesis by simp
  next
    case False
    then obtain b where b: "foldl latest_active None runs = Some b" by (auto simp: latestActiveRun_def split: option.splits)
    from latest_active_mem [OF b] mem [of b] obtain j where j: "j \<in> set (active_jobs v c)" "jb_Run j = b"
      by (auto simp: active_mem)
    then have "active_jobs v c = [j]" using one by (cases "active_jobs v c") auto
    then show ?thesis using b j(2) False by (simp add: latestActiveRun_def)
  qed
qed

lemma learn_holds:
  assumes wf: "cluster_wf c" and one: "length (active_jobs v c) \<le> 1" and know: "holds v K c"
    and ans: "answer_ok c a ans c'" and no: "\<not> is_submit a"
  shows "c' = c" and "lists a ans" and "holds v (learn v a ans K) c"
proof -
  show "c' = c" using ans no by (cases a) auto
  show "lists a ans" using ans by (cases a) (auto simp: lists_def)
  show "holds v (learn v a ans K) c"
  proof (cases a)
    case (OpList sel)
    then obtain runs where runs: "ans = ARuns runs"
      "runs = map jb_Run (filter (\<lambda>j. component_selector (jb_Label j) = sel) c)" using ans by auto
    show ?thesis
    proof (cases "sel = component_selector v")
      case True
      with runs have "holds v (if latestActiveRun runs = [] then NoneActive else AtMost (latestActiveRun runs)) c"
        by (intro learn_list [OF wf one]) simp
      then show ?thesis unfolding OpList runs(1) learn.simps True by simp
    qed (use OpList know runs in simp)
  next
    case (OpGet name)
    show ?thesis
    proof (cases "K = AtMost name")
      case True
      have "active_jobs v c = []" if "\<And>j. j \<in> set c \<Longrightarrow> job_name j = name \<Longrightarrow> Terminal (jb_Run j)"
      proof -
        have "j \<notin> set (active_jobs v c)" for j
          using that [of j] know True active_mem [of j v c] by fastforce
        then show ?thesis by (cases "active_jobs v c") auto
      qed
      note gone = this
      show ?thesis
      proof (cases ans)
        case (ARun st)
        then obtain j where j: "j \<in> set c" "jb_Run j = st" "rs_Name st = name" using ans OpGet by auto
        have "active_jobs v c = []" if "Terminal st"
        proof (rule gone)
          fix j' assume "j' \<in> set c" "job_name j' = name"
          then have "j' = j" using wf_name_job [OF wf j(1)] j(2,3) by simp
          then show "Terminal (jb_Run j')" using that j(2) by simp
        qed
        then show ?thesis unfolding OpGet ARun using know True by simp
      next
        case (AMissing e)
        then have "name \<notin> job_name ` set c" using ans OpGet by simp
        then have "active_jobs v c = []" by (intro gone) auto
        then show ?thesis unfolding OpGet AMissing using True by simp
      qed (use ans OpGet know in simp_all)
    next
      case False
      then show ?thesis using OpGet know by (cases ans) auto
    qed
  qed (use know in auto)
qed

lemma created_one:
  assumes wf: "cluster_wf c" and none: "active_jobs v c = []" and new: "created_job spec st c c'"
  shows "cluster_wf c'" and "length (active_jobs v c') \<le> 1"
  using assms by (auto simp: created_job_def cluster_wf_def active_jobs_def)

lemma submit_one:
  assumes "cluster_wf c" and "active_jobs v c = []" and "answer_ok c a ans c'" and "is_submit a"
  shows "cluster_wf c'" and "length (active_jobs v c') \<le> 1" and "lists a ans"
  using assms created_one [OF assms(1,2)]
  by (cases a; auto simp: lists_def split: cluster_answer.splits)+

definition once_inv :: "string \<Rightarrow> unit_prog \<Rightarrow> job list \<Rightarrow> bool" where
  "once_inv v q c \<longleftrightarrow> cluster_wf c \<and> length (active_jobs v c) \<le> 1 \<and> (\<exists>K s. prog_once v q K s \<and> (\<not> s \<longrightarrow> holds v K c))"

lemma once_inv_call:
  assumes inv: "once_inv v (UCall a k) c" and ans: "answer_ok c a ans c'"
  shows "once_inv v (k ans) c'"
proof -
  obtain K s where K: "prog_once v (UCall a k) K s" "\<not> s \<longrightarrow> holds v K c" and wf: "cluster_wf c" and one: "length (active_jobs v c) \<le> 1"
    using inv by (auto simp: once_inv_def)
  show ?thesis
  proof (cases "is_submit a")
    case True
    then have "active_jobs v c = []" using K by auto
    from submit_one [OF wf this ans True] show ?thesis using K True by (auto simp: once_inv_def)
  next
    case no: False
    have same: "c' = c" "lists a ans" using ans no by (cases a; auto simp: lists_def)+
    have "\<not> s \<longrightarrow> holds v (learn v a ans K) c" using learn_holds(3) [OF wf one _ ans no] K(2) by blast
    then show ?thesis using K(1) same wf one no by (auto simp: once_inv_def)
  qed
qed

lemma cluster_path_once: "cluster_path v p c q c' \<Longrightarrow> once_inv v p c \<Longrightarrow> once_inv v q c'"
proof (induction rule: cluster_path.induct)
  case (cp_call a k c' ans c'')
  then show ?case using once_inv_call by blast
next
  case (cp_others q c' c'')
  then have "once_inv v q c'" by simp
  then show ?case
    using cp_others(2) at_most_moves [of c' v c''] holds_moves [of v _ c' c''] by (auto simp: once_inv_def cluster_moves_def)
qed (auto simp: once_inv_def)

section \<open>Running a program against a script\<close>

datatype feed = FWrite bool | FRead RunDB int | FCall cluster_answer "job list" | FRetry

fun feed_prog :: "unit_prog \<Rightarrow> job list \<Rightarrow> feed list \<Rightarrow> (unit_prog \<times> job list) option" where
  "feed_prog p c [] = Some (p, c)"
| "feed_prog (UWrite w k) c (FWrite b # fs) = feed_prog (k b) c fs"
| "feed_prog (URead k) c (FRead d now # fs) = feed_prog (k d now) c fs"
| "feed_prog (UCall a k) c (FCall ans c' # fs) = (if answer_ok c a ans c' then feed_prog (k ans) c' fs else None)"
| "feed_prog (URetryable e k) c (FRetry # fs) = feed_prog k c fs"
| "feed_prog _ c _ = None"

lemma feed_path: "cluster_path v p0 c0 p c \<Longrightarrow> feed_prog p c fs = Some (q, c') \<Longrightarrow> cluster_path v p0 c0 q c'"
proof (induction p c fs rule: feed_prog.induct)
  case (4 a k c ans c'' fs)
  then show ?case by (auto intro: cp_call split: if_splits)
qed (auto intro: cp_write cp_read cp_retry)

end
