(* ===== verification/Worker_Claims.thy ===== *)
theory Worker_Claims
  imports WorkEnds TaskRunOnce Planner_Claims Runs_Claims
begin

text \<open>The properties of an attempt at a run, with their witnesses.\<close>

section \<open>An example\<close>

























section \<open>Why a step runs\<close>



section \<open>Rows follow the scheduler\<close>



section \<open>How an attempt ends\<close>



section \<open>One TaskRun at a time\<close>






text \<open>
  Where the guarantee ends. A listing that fails counts as an empty one, and a recorded TaskRun that is gone
  or over is not followed by a search by label: both ways a TaskRun is submitted while another may be active.
\<close>

lemma listing_error_resubmits:
  assumes "xq_ExistingRun r = []" and "xq_RecoverSelector r \<noteq> []"
  obtains k' where "Execute r persist k = UCall (OpList (xq_RecoverSelector r)) k'" "k' (AError e) = exec_submit r persist k"
  using assms by (simp add: Execute_def exec_recover_def exec_attach_def)

lemma stale_name_resubmits:
  assumes "xq_ExistingRun r \<noteq> []"
  obtains k' where "Execute r persist k = UCall (OpGet (xq_ExistingRun r)) k'"
    "k' (AMissing e) = exec_submit r persist k" "\<And>st. Terminal st \<Longrightarrow> k' (ARun st) = exec_submit r persist k"
  using assms by (simp add: Execute_def exec_attach_def exec_runActive_def)

section \<open>What a manifest shows\<close>






end
