(* ===== verification/DBProg.thy ===== *)
theory DBProg
  imports Prelude
begin

text \<open>
  Operations on a database as programs of statements. A program runs at a number of statements already
  executed and a database; before its \<open>k\<close>-th statement others turn the database \<open>d\<close> into \<open>itf k d\<close>. A query
  reads it, a transaction changes it or fails and leaves it alone; an error ends the program.
\<close>

type_synonym ('d, 'e, 'a) db_prog = "nat \<times> 'd \<Rightarrow> (nat \<times> 'd) \<times> ('e + 'a)"

definition db_ret :: "'a \<Rightarrow> ('d, 'e, 'a) db_prog" where
  "db_ret x s = (s, Inr x)"

definition db_fail :: "'e \<Rightarrow> ('d, 'e, 'a) db_prog" where
  "db_fail e s = (s, Inl e)"

definition db_seq :: "('d, 'e, 'a) db_prog \<Rightarrow> ('a \<Rightarrow> ('d, 'e, 'b) db_prog) \<Rightarrow> ('d, 'e, 'b) db_prog" where
  "db_seq p q s = (case p s of (t, Inl e) \<Rightarrow> (t, Inl e) | (t, Inr x) \<Rightarrow> q x t)"

definition db_query :: "(nat \<Rightarrow> 'd \<Rightarrow> 'd) \<Rightarrow> ('d \<Rightarrow> 'a) \<Rightarrow> ('d, 'e, 'a) db_prog" where
  "db_query itf f s = ((Suc (fst s), itf (fst s) (snd s)), Inr (f (itf (fst s) (snd s))))"

text \<open>A check that may find a fault, and a value that may be one.\<close>

definition db_check :: "'e option \<Rightarrow> ('d, 'e, unit) db_prog" where
  "db_check f = (case f of None \<Rightarrow> db_ret () | Some e \<Rightarrow> db_fail e)"

definition db_lift :: "'e + 'a \<Rightarrow> ('d, 'e, 'a) db_prog" where
  "db_lift r s = (s, r)"

definition db_commit :: "(nat \<Rightarrow> 'd \<Rightarrow> 'd) \<Rightarrow> ('d \<Rightarrow> 'e + 'd) \<Rightarrow> ('d, 'e, unit) db_prog" where
  "db_commit itf f s =
     (let d = itf (fst s) (snd s) in
      case f d of Inl e \<Rightarrow> ((Suc (fst s), d), Inl e) | Inr d' \<Rightarrow> ((Suc (fst s), d'), Inr ()))"

text \<open>The run of a program: the database it leaves and what it returns.\<close>

definition db_run :: "('d, 'e, 'a) db_prog \<Rightarrow> 'd \<Rightarrow> 'd \<times> ('e + 'a)" where
  "db_run p d = (case p (0, d) of (s, r) \<Rightarrow> (snd s, r))"

section \<open>What holds throughout\<close>

text \<open>A program keeps a property of the database that everybody else keeps.\<close>

definition keeps :: "('d \<Rightarrow> bool) \<Rightarrow> ('d, 'e, 'a) db_prog \<Rightarrow> bool" where
  "keeps P p \<longleftrightarrow> (\<forall>s. P (snd s) \<longrightarrow> P (snd (fst (p s))))"

named_theorems keeps_rules

lemma keeps_ret [keeps_rules]: "keeps P (db_ret x)"
  by (simp add: keeps_def db_ret_def)

lemma keeps_fail [keeps_rules]: "keeps P (db_fail e)"
  by (simp add: keeps_def db_fail_def)

lemma keeps_lift [keeps_rules]: "keeps P (db_lift r)"
  by (simp add: keeps_def db_lift_def)

lemma keeps_check [keeps_rules]: "keeps P (db_check f)"
  by (simp add: db_check_def keeps_ret keeps_fail split: option.split)

lemma keeps_seq [keeps_rules]: "keeps P p \<Longrightarrow> (\<And>x. keeps P (q x)) \<Longrightarrow> keeps P (db_seq p q)"
  by (auto simp: keeps_def db_seq_def split: prod.splits sum.splits) (metis snd_conv fst_conv)+

lemma keeps_query: "(\<And>k d. P d \<Longrightarrow> P (itf k d)) \<Longrightarrow> keeps P (db_query itf f)"
  by (simp add: keeps_def db_query_def)

lemma keeps_commit: "(\<And>k d. P d \<Longrightarrow> P (itf k d)) \<Longrightarrow> (\<And>d d'. P d \<Longrightarrow> f d = Inr d' \<Longrightarrow> P d') \<Longrightarrow> keeps P (db_commit itf f)"
  by (auto simp: keeps_def db_commit_def Let_def split: sum.splits)

lemma keeps_run: "keeps P p \<Longrightarrow> P d \<Longrightarrow> db_run p d = (d', r) \<Longrightarrow> P d'"
  by (auto simp: keeps_def db_run_def split: prod.splits) (metis fst_conv snd_conv)

section \<open>With nobody in between\<close>

text \<open>A program that only reads, run alone, is a function of the database it saw: its answer.\<close>

definition answer :: "('d, 'e, 'a) db_prog \<Rightarrow> 'd \<Rightarrow> 'e + 'a" where
  "answer p d = snd (p (0, d))"

definition reads :: "('d, 'e, 'a) db_prog \<Rightarrow> bool" where
  "reads p \<longleftrightarrow> (\<forall>k d. \<exists>k'. p (k, d) = ((k', d), answer p d))"

named_theorems reads_rules

lemma readsI: "(\<And>k d. \<exists>k'. p (k, d) = ((k', d), f d)) \<Longrightarrow> reads p \<and> answer p = f"
  by (auto simp: reads_def answer_def fun_eq_iff) (metis snd_conv)+

lemma reads_ret: "reads (db_ret x :: ('d, 'e, 'a) db_prog) \<and> answer (db_ret x :: ('d, 'e, 'a) db_prog) = (\<lambda>_. Inr x)"
  by (rule readsI) (simp add: db_ret_def)

lemma reads_lift: "reads (db_lift r :: ('d, 'e, 'a) db_prog) \<and> answer (db_lift r :: ('d, 'e, 'a) db_prog) = (\<lambda>_. r)"
  by (rule readsI) (simp add: db_lift_def)

lemma reads_fail: "reads (db_fail e :: ('d, 'e, 'a) db_prog) \<and> answer (db_fail e :: ('d, 'e, 'a) db_prog) = (\<lambda>_. Inl e)"
  by (rule readsI) (simp add: db_fail_def)

lemma reads_check: "reads (db_check f :: ('d, 'e, unit) db_prog) \<and> answer (db_check f :: ('d, 'e, unit) db_prog) = (\<lambda>_. case f of None \<Rightarrow> Inr () | Some e \<Rightarrow> Inl e)"
  by (cases f) (simp_all add: db_check_def reads_ret reads_fail)

lemma reads_query: "reads (db_query (\<lambda>k d. d) f :: ('d, 'e, 'a) db_prog) \<and> answer (db_query (\<lambda>k d. d) f :: ('d, 'e, 'a) db_prog) = (\<lambda>d. Inr (f d))"
  by (rule readsI) (simp add: db_query_def)

lemma reads_seq_answer:
  assumes "reads p" and "\<And>x. reads (q x)"
  shows "reads (db_seq p q) \<and> answer (db_seq p q) = (\<lambda>d. try_bind (answer p d) (\<lambda>x. answer (q x) d))"
proof (rule readsI)
  fix k d
  obtain k1 where p: "p (k, d) = ((k1, d), answer p d)" using assms(1) unfolding reads_def by blast
  show "\<exists>k'. db_seq p q (k, d) = ((k', d), try_bind (answer p d) (\<lambda>x. answer (q x) d))"
  proof (cases "answer p d")
    case (Inr x)
    obtain k2 where "q x (k1, d) = ((k2, d), answer (q x) d)" using assms(2) unfolding reads_def by blast
    with p Inr show ?thesis by (simp add: db_seq_def)
  qed (simp add: db_seq_def p)
qed

lemmas [reads_rules] = reads_ret [THEN conjunct1] reads_lift [THEN conjunct1] reads_fail [THEN conjunct1]
  reads_check [THEN conjunct1] reads_query [THEN conjunct1] reads_seq_answer [THEN conjunct1]

lemmas answer_simps [simp] = reads_ret [THEN conjunct2] reads_lift [THEN conjunct2] reads_fail [THEN conjunct2]
  reads_query [THEN conjunct2]

lemma answer_check [simp]: "answer (db_check f) d = Inr u \<longleftrightarrow> f = None"
  by (simp add: reads_check split: option.split)

lemmas answer_seq = reads_seq_answer [THEN conjunct2]

lemma answer_seq_Inr:
  assumes "answer (db_seq p q) d = Inr y" and "reads p" and "\<And>x. reads (q x)"
  obtains x where "answer p d = Inr x" "answer (q x) d = Inr y"
  using assms by (auto simp: answer_seq try_bind_def split: sum.splits)

text \<open>What comes before the transaction decides whether it runs.\<close>

lemma run_alone:
  assumes "reads p"
  shows "db_run (db_seq p (\<lambda>x. db_seq (db_commit (\<lambda>k d. d) (t x)) (\<lambda>_. db_query (\<lambda>k d. d) (g x)))) d =
    (case answer p d of Inl e \<Rightarrow> (d, Inl e) | Inr x \<Rightarrow> (case t x d of Inl e \<Rightarrow> (d, Inl e) | Inr d' \<Rightarrow> (d', Inr (g x d'))))"
proof -
  obtain k where "p (0, d) = ((k, d), answer p d)" using assms unfolding reads_def by blast
  then show ?thesis by (simp add: db_run_def db_seq_def db_commit_def db_query_def split: sum.split)
qed

text \<open>One end of a program, from some statement on.\<close>

definition ends :: "('d, 'e, 'a) db_prog \<Rightarrow> 'd \<Rightarrow> 'd \<Rightarrow> 'e + 'a \<Rightarrow> bool" where
  "ends p d d' r \<longleftrightarrow> (\<exists>k k'. p (k, d) = ((k', d'), r))"

lemma run_ends: "db_run p d = (d', r) \<Longrightarrow> ends p d d' r"
  by (auto simp: db_run_def ends_def split: prod.splits) (metis prod.collapse)

lemma ends_reads: "ends p d d' r \<Longrightarrow> reads p \<Longrightarrow> d' = d \<and> r = answer p d"
  unfolding ends_def reads_def by (metis prod.inject)

lemma ends_seq:
  assumes "ends (db_seq p q) d d' r" and "reads p"
  obtains (failed) e where "answer p d = Inl e" "d' = d" "r = Inl e" | (passed) x where "answer p d = Inr x" "ends (q x) d d' r"
proof -
  obtain k k' where run: "db_seq p q (k, d) = ((k', d'), r)" using assms(1) unfolding ends_def by blast
  obtain k1 where p: "p (k, d) = ((k1, d), answer p d)" using assms(2) unfolding reads_def by blast
  show ?thesis
  proof (cases "answer p d")
    case (Inl e)
    then show ?thesis using failed run p by (simp add: db_seq_def)
  next
    case (Inr x)
    then have "q x (k1, d) = ((k', d'), r)" using run p by (simp add: db_seq_def)
    then show ?thesis using passed Inr unfolding ends_def by blast
  qed
qed

lemma ends_commit:
  assumes "ends (db_seq (db_commit (\<lambda>k d. d) f) q) d d' r"
  obtains (failed) e where "d' = d" "r = Inl e" | (committed) d1 where "f d = Inr d1" "ends (q ()) d1 d' r"
proof -
  obtain k k' where run: "db_seq (db_commit (\<lambda>k d. d) f) q (k, d) = ((k', d'), r)" using assms unfolding ends_def by blast
  show ?thesis
  proof (cases "f d")
    case (Inl e)
    then have "d' = d" "r = Inl e" using run by (auto simp: db_seq_def db_commit_def)
    then show ?thesis by (rule failed)
  next
    case (Inr d1)
    then have "q () (Suc k, d1) = ((k', d'), r)" using run by (simp add: db_seq_def db_commit_def)
    then show ?thesis using committed Inr unfolding ends_def by blast
  qed
qed

text \<open>A query whose result may be an error, and a check.\<close>

lemma ends_found:
  assumes "ends (db_seq (db_query (\<lambda>k d. d) f) (\<lambda>x. db_seq (db_lift x) q)) d d' r"
  obtains (failed) e where "d' = d" "r = Inl e" | (found) x where "f d = Inr x" "ends (q x) d d' r"
  using assms
proof (rule ends_seq)
  fix x assume x: "answer (db_query (\<lambda>k d. d) f) d = Inr x" and rest: "ends (db_seq (db_lift x) q) d d' r"
  from rest show ?thesis
  proof (rule ends_seq)
    fix y assume "answer (db_lift x) d = Inr y" and "ends (q y) d d' r"
    then show ?thesis using x by (intro found [of y]) simp_all
  qed (auto simp: reads_rules intro: failed)
qed (auto simp: reads_rules intro: failed)

lemma ends_check:
  assumes "ends (db_seq (db_check f) q) d d' r"
  obtains (failed) e where "d' = d" "r = Inl e" | (passed) "f = None" "ends (q ()) d d' r"
  using assms
proof (rule ends_seq)
  fix u assume "answer (db_check f) d = Inr u" and "ends (q u) d d' r"
  then show ?thesis by (intro passed) simp_all
qed (auto simp: reads_rules intro: failed)

end
