(* ===== verification/WorkflowSave.thy ===== *)
theory WorkflowSave
  imports DBProg RunReads Variables StateStore Validate
begin

text \<open>
  Saving a workflow (\<open>lib/workflows/service.go\<close>): the checks a save passes, the installation each
  component clones through (\<open>installations.go\<close>), the guards of state backends (\<open>backendguard.go\<close>) and of
  managed state (\<open>stateguard.go\<close>), and the transaction that replaces the stages and components.
\<close>

section \<open>Tables\<close>

text \<open>The columns of a cluster and of an installation that a save reads. Installations are newest first.\<close>

record ClusterRow =
  cu_ID :: uuid
  cu_OrganizationID :: uuid
  cu_InCluster :: bool

record InstallRow =
  gi_ID :: uuid
  gi_OrganizationID :: uuid
  gi_AccountLogin :: string

record FleetDB =
  fd_Runs :: RunDB
  fd_Vars :: "Variable list"
  fd_States :: "StateRow list"
  fd_Versions :: "VersionRow list"
  fd_Clusters :: "ClusterRow list"
  fd_Installs :: "InstallRow list"
  fd_Credentials :: "uuid list"

type_synonym fleet_itf = "nat \<Rightarrow> FleetDB \<Rightarrow> FleetDB"

datatype move_fault = MoveNoApplication | MoveNoStage | MoveUnknownStage string

datatype save_error =
    SaveRun run_error
  | SaveInvalid wf_error
  | TargetNotFound string
  | TargetNotRunner string
  | SaveMoved string string
  | NeedsSecretKey string
  | BackendChange "string list"
  | StateDeletion "string list"
  | StateLocked string
  | StateLockedWhileSaving
  | SaveConstraint
  | MoveTarget move_fault
  | NameTaken string string

type_synonym 'a save_prog = "(FleetDB, save_error, 'a) db_prog"

text \<open>Outside the repository: case folding, the derived apply id, UUID and URL parsing (host and path).\<close>

record SaveLib =
  sl_Low :: "nat \<Rightarrow> nat"
  sl_Orb :: "nat \<Rightarrow> nat"
  sl_Derive :: "uuid \<Rightarrow> uuid"
  sl_ParseUUID :: "string \<Rightarrow> uuid option"
  sl_ParseURL :: "string \<Rightarrow> (string \<times> string) option"
  sl_ManagedState :: bool

record ReplaceOptions =
  AllowBackendChange :: bool
  AllowStateDeletion :: bool

definition run_result :: "run_error + 'a \<Rightarrow> save_error + 'a" where
  "run_result r = (case r of Inl e \<Rightarrow> Inl (SaveRun e) | Inr x \<Rightarrow> Inr x)"

section \<open>Policies\<close>

fun normalize_components :: "(nat \<Rightarrow> nat) \<Rightarrow> ComponentInput list \<Rightarrow> wf_error + ComponentInput list" where
  "normalize_components low [] = Inr []"
| "normalize_components low (c # cs) =
     try_bind (normalizeApprovalPolicy low c) (\<lambda>p.
     try_bind (normalize_components low cs) (\<lambda>rest. Inr (c\<lparr>ci_ApprovalPolicy := p\<rparr> # rest)))"

fun normalize_stages :: "(nat \<Rightarrow> nat) \<Rightarrow> StageInput list \<Rightarrow> wf_error + StageInput list" where
  "normalize_stages low [] = Inr []"
| "normalize_stages low (st # sts) =
     try_bind (normalize_components low (si_Components st)) (\<lambda>cs.
     try_bind (normalize_stages low sts) (\<lambda>rest. Inr (st\<lparr>si_Components := cs\<rparr> # rest)))"

section \<open>Target clusters\<close>

definition deploys :: "ComponentInput \<Rightarrow> bool" where
  "deploys n \<longleftrightarrow> ci_Type n = TypeHelm \<or> ci_Type n = TypeManifest"

definition set_id :: "uuid option \<Rightarrow> uuid option" where
  "set_id i = (case i of None \<Rightarrow> None | Some j \<Rightarrow> nonzero j)"

definition target_ids :: "ComponentInput list \<Rightarrow> uuid list" where
  "target_ids nodes = remdups (List.map_filter (\<lambda>n. if deploys n then set_id (ci_TargetClusterID n) else None) nodes)"

definition target_fault :: "ClusterRow list \<Rightarrow> uuid \<Rightarrow> ComponentInput \<Rightarrow> save_error option" where
  "target_fault clusters runner n =
     (if \<not> deploys n then None
      else case set_id (ci_TargetClusterID n) of
        None \<Rightarrow> None
      | Some i \<Rightarrow>
          (case find (\<lambda>c. cu_ID c = i) clusters of
             None \<Rightarrow> Some (TargetNotFound (ci_Name n))
           | Some c \<Rightarrow> if cu_InCluster c \<and> cu_ID c \<noteq> runner then Some (TargetNotRunner (ci_Name n)) else None))"

definition validateComponentTargets :: "fleet_itf \<Rightarrow> uuid \<Rightarrow> AppRow \<Rightarrow> ComponentInput list \<Rightarrow> unit save_prog" where
  "validateComponentTargets itf org app nodes =
     (let ids = target_ids nodes in
      if ids = [] then db_ret ()
      else db_seq (db_query itf (\<lambda>d. filter (\<lambda>c. cu_OrganizationID c = org \<and> cu_ID c \<in> set ids) (fd_Clusters d)))
             (\<lambda>clusters. db_check (first_fault (target_fault clusters (ar_RunnerClusterID app)) nodes)))"

section \<open>Components that moved away\<close>

definition checkMovedComponents :: "fleet_itf \<Rightarrow> uuid \<Rightarrow> uuid \<Rightarrow> ComponentInput list \<Rightarrow> unit save_prog" where
  "checkMovedComponents itf org app nodes =
     (if nodes = [] then db_ret ()
      else db_seq (db_query itf (\<lambda>d. find (\<lambda>c. co_OrganizationID c = org \<and> co_ID c \<in> ci_ID ` set nodes \<and> co_ApplicationID c \<noteq> app)
                     (rd_Components (fd_Runs d))))
             (\<lambda>moved. case moved of
                None \<Rightarrow> db_ret ()
              | Some c \<Rightarrow>
                  db_seq (db_query itf (\<lambda>d. find (\<lambda>a. ar_ID a = co_ApplicationID c) (rd_Apps (fd_Runs d))))
                    (\<lambda>a. db_fail (SaveMoved (co_Name c) (case a of Some r \<Rightarrow> ar_Name r | None \<Rightarrow> ''another application'')))))"

section \<open>Installations\<close>

definition last_after :: "char \<Rightarrow> string \<Rightarrow> string" where
  "last_after c s = rev (takeWhile (\<lambda>x. x \<noteq> c) (rev s))"

text \<open>Host and path of a URL with a scheme, or of the form \<open>git@host:path\<close>.\<close>

definition repo_host_path :: "(string \<Rightarrow> (string \<times> string) option) \<Rightarrow> string \<Rightarrow> (string \<times> string) option" where
  "repo_host_path parse url =
     (if str_index ''://'' url \<noteq> None then parse url
      else case str_index '':'' url of
        None \<Rightarrow> None
      | Some i \<Rightarrow> if str_contains (take i url) ''/'' then None else Some (last_after (CHR ''@'') (take i url), drop (Suc i) url))"

definition githubRepoPath :: "SaveLib \<Rightarrow> string \<Rightarrow> string" where
  "githubRepoPath lib url =
     (case repo_host_path (sl_ParseURL lib) url of
        None \<Rightarrow> []
      | Some (host, path) \<Rightarrow>
          if \<not> equal_fold (sl_Orb lib) host ''github.com'' then []
          else
            let p = trim_suffix (trim_set ''/'' path) ''.git'' in
            case str_cut p ''/'' of (owner, name, ok) \<Rightarrow>
              if \<not> ok \<or> owner = [] \<or> name = [] \<or> str_contains name ''/'' then [] else p)"

definition githubOwner :: "SaveLib \<Rightarrow> string \<Rightarrow> string" where
  "githubOwner lib url = fst (str_cut (githubRepoPath lib url) ''/'')"

definition componentRepoURLs :: "ComponentInput \<Rightarrow> string list" where
  "componentRepoURLs c =
     (if ci_Type c = TypeManifest \<or> ci_Type c = TypeTerraform then [cfg (ci_Config c) ''repo_url'']
      else if ci_Type c = TypeHelm then
        (if cfg (ci_Config c) ''chart_source'' = SourceGit then [cfg (ci_Config c) ''repo_url''] else []) @
        (case decodeValuesSources (cfg (ci_Config c) ''values_sources'') of
           None \<Rightarrow> [] | Some sources \<Rightarrow> map (\<lambda>src. src_get src ''repo_url'') sources)
      else [])"

text \<open>The installation already named when it is one of the account's, else the newest of them.\<close>

definition account_installation :: "SaveLib \<Rightarrow> uuid option \<Rightarrow> InstallRow list \<Rightarrow> string \<Rightarrow> uuid option" where
  "account_installation lib named installs owner =
     (let own = map gi_ID (filter (\<lambda>i. equal_fold (sl_Orb lib) (gi_AccountLogin i) owner) installs) in
      case named of
        Some i \<Rightarrow> if i \<in> set own then Some i else (case own of [] \<Rightarrow> None | j # _ \<Rightarrow> Some j)
      | None \<Rightarrow> (case own of [] \<Rightarrow> None | j # _ \<Rightarrow> Some j))"

fun first_installation :: "SaveLib \<Rightarrow> uuid option \<Rightarrow> InstallRow list \<Rightarrow> string list \<Rightarrow> uuid option" where
  "first_installation lib named installs [] = None"
| "first_installation lib named installs (url # urls) =
     (if githubOwner lib url = [] then first_installation lib named installs urls
      else case account_installation lib named installs (githubOwner lib url) of
        Some i \<Rightarrow> Some i | None \<Rightarrow> first_installation lib named installs urls)"

definition resolveInstallation :: "SaveLib \<Rightarrow> InstallRow list \<Rightarrow> ComponentInput \<Rightarrow> ComponentInput" where
  "resolveInstallation lib installs c =
     c\<lparr>ci_GitHubInstallationID := first_installation lib (ci_GitHubInstallationID c) installs (componentRepoURLs c)\<rparr>"

definition resolve_stages :: "SaveLib \<Rightarrow> InstallRow list \<Rightarrow> StageInput list \<Rightarrow> StageInput list" where
  "resolve_stages lib installs stages = map (\<lambda>st. st\<lparr>si_Components := map (resolveInstallation lib installs) (si_Components st)\<rparr>) stages"

definition org_installs :: "uuid \<Rightarrow> FleetDB \<Rightarrow> InstallRow list" where
  "org_installs org d = filter (\<lambda>i. gi_OrganizationID i = org) (fd_Installs d)"

definition resolveInstallations :: "SaveLib \<Rightarrow> fleet_itf \<Rightarrow> uuid \<Rightarrow> StageInput list \<Rightarrow> StageInput list save_prog" where
  "resolveInstallations lib itf org stages =
     db_seq (db_query itf (org_installs org)) (\<lambda>installs. db_ret (resolve_stages lib installs stages))"

section \<open>State backends\<close>

definition backend_of :: "config \<Rightarrow> string" where
  "backend_of c = cfg c ''backend''"

fun needs_secret_key :: "ComponentInput list \<Rightarrow> save_error option" where
  "needs_secret_key [] = None"
| "needs_secret_key (n # ns) =
     (if ci_Type n = TypeTerraform \<and> backend_of (ci_Config n) = BackendSpacefleet then Some (NeedsSecretKey (ci_Name n))
      else needs_secret_key ns)"

definition latestRecordedState :: "SaveLib \<Rightarrow> uuid \<Rightarrow> uuid \<Rightarrow> FleetDB \<Rightarrow> StepRun option" where
  "latestRecordedState lib org i d =
     (case latest_steps (recorded_state (sl_Derive lib) org i) (fd_Runs d) of [] \<Rightarrow> None | s # _ \<Rightarrow> Some s)"

definition managesResources :: "SaveLib \<Rightarrow> uuid \<Rightarrow> uuid \<Rightarrow> FleetDB \<Rightarrow> bool" where
  "managesResources lib org i d =
     (case latestRecordedState lib org i d of None \<Rightarrow> False | Some s \<Rightarrow> cr_Resources s \<noteq> emptyTofuResources)"

definition stateManagesResources :: "SaveLib \<Rightarrow> uuid \<Rightarrow> uuid \<Rightarrow> StateRow list \<Rightarrow> FleetDB \<Rightarrow> bool" where
  "stateManagesResources lib org i states d =
     (case latestRecordedState lib org i d of
        Some s \<Rightarrow> cr_Resources s \<noteq> emptyTofuResources
      | None \<Rightarrow> list_ex (\<lambda>st. ts_CurrentVersion st > 0) states)"

definition tofu_components :: "uuid \<Rightarrow> uuid \<Rightarrow> FleetDB \<Rightarrow> Component list" where
  "tofu_components org app d =
     sort_key co_Ordinal (filter (\<lambda>c. co_OrganizationID c = org \<and> co_ApplicationID c = app \<and> co_Type c = TypeTerraform)
       (rd_Components (fd_Runs d)))"

text \<open>The names a loop of one query per item refuses, in order.\<close>

fun refused_names :: "fleet_itf \<Rightarrow> (('a \<Rightarrow> FleetDB \<Rightarrow> bool) \<times> ('a \<Rightarrow> string)) \<Rightarrow> 'a list \<Rightarrow> string list save_prog" where
  "refused_names itf f [] = db_ret []"
| "refused_names itf f (x # xs) =
     db_seq (db_query itf (fst f x)) (\<lambda>manages.
     db_seq (refused_names itf f xs) (\<lambda>rest. db_ret (if manages then snd f x # rest else rest)))"

definition switches_backend :: "Component list \<Rightarrow> ComponentInput \<Rightarrow> bool" where
  "switches_backend existing n \<longleftrightarrow>
     ci_Type n = TypeTerraform \<and>
     (case map_of (rev (map (\<lambda>c. (co_ID c, backend_of (co_Config c))) existing)) (ci_ID n) of
        None \<Rightarrow> False | Some old \<Rightarrow> old \<noteq> backend_of (ci_Config n))"

definition checkBackendChanges :: "SaveLib \<Rightarrow> fleet_itf \<Rightarrow> uuid \<Rightarrow> uuid \<Rightarrow> ComponentInput list \<Rightarrow> unit save_prog" where
  "checkBackendChanges lib itf org app nodes =
     db_seq (db_query itf (tofu_components org app)) (\<lambda>existing.
     db_seq (refused_names itf (\<lambda>n. managesResources lib org (ci_ID n), ci_Name) (filter (switches_backend existing) nodes))
       (\<lambda>refused. if refused = [] then db_ret () else db_fail (BackendChange refused)))"

section \<open>Managed state\<close>

text \<open>The components whose state goes, and how many rows that is.\<close>

record stateDeletion =
  sx_Components :: "uuid list"
  sx_Rows :: nat

definition removed_components :: "ComponentInput list \<Rightarrow> Component list \<Rightarrow> Component list" where
  "removed_components nodes stored = filter (\<lambda>c. co_ID c \<notin> ci_ID ` set nodes) stored"

definition app_states :: "uuid \<Rightarrow> uuid \<Rightarrow> uuid list \<Rightarrow> FleetDB \<Rightarrow> StateRow list" where
  "app_states org app is d =
     filter (\<lambda>r. ts_OrganizationID r = org \<and> ts_ApplicationID r = app \<and> ts_ComponentID r \<in> set is) (fd_States d)"

definition states_of :: "StateRow list \<Rightarrow> uuid \<Rightarrow> StateRow list" where
  "states_of rows i = filter (\<lambda>r. ts_ComponentID r = i) rows"

definition locked_component :: "StateRow list \<Rightarrow> Component \<Rightarrow> save_error option" where
  "locked_component rows c =
     (if list_ex (\<lambda>r. ts_LockID r \<noteq> None) (states_of rows (co_ID c)) then Some (StateLocked (co_Name c)) else None)"

definition state_deletion :: "StateRow list \<Rightarrow> Component list \<Rightarrow> stateDeletion" where
  "state_deletion rows removed =
     (let owners = filter (\<lambda>c. states_of rows (co_ID c) \<noteq> []) removed in
      \<lparr>sx_Components = map co_ID owners, sx_Rows = sum_list (map (\<lambda>c. length (states_of rows (co_ID c))) owners)\<rparr>)"

definition no_deletion :: stateDeletion where
  "no_deletion = \<lparr>sx_Components = [], sx_Rows = 0\<rparr>"

definition asks_first :: "StateRow list \<Rightarrow> Component \<Rightarrow> bool" where
  "asks_first rows c \<longleftrightarrow> backend_of (co_Config c) = BackendSpacefleet \<and> states_of rows (co_ID c) \<noteq> []"

definition checkStateDeletions ::
  "SaveLib \<Rightarrow> fleet_itf \<Rightarrow> uuid \<Rightarrow> uuid \<Rightarrow> ComponentInput list \<Rightarrow> bool \<Rightarrow> stateDeletion save_prog" where
  "checkStateDeletions lib itf org app nodes allow =
     db_seq (db_query itf (tofu_components org app)) (\<lambda>stored.
       let removed = removed_components nodes stored in
       if removed = [] then db_ret no_deletion
       else db_seq (db_query itf (app_states org app (map co_ID removed))) (\<lambda>rows.
         if rows = [] then db_ret no_deletion
         else db_seq (db_check (first_fault (locked_component rows) removed)) (\<lambda>_.
           db_seq (db_query itf (\<lambda>d. run_in_flight (fd_Runs d) org app)) (\<lambda>busy.
             if busy then db_fail (SaveRun ErrRunInFlight)
             else if allow then db_ret (state_deletion rows removed)
             else db_seq (refused_names itf (\<lambda>c. stateManagesResources lib org (co_ID c) (states_of rows (co_ID c)), co_Name)
                            (filter (asks_first rows) removed))
                    (\<lambda>refused. if refused = [] then db_ret (state_deletion rows removed) else db_fail (StateDeletion refused))))))"

text \<open>Versions go with their state.\<close>

definition deletes_state :: "uuid \<Rightarrow> uuid \<Rightarrow> stateDeletion \<Rightarrow> StateRow \<Rightarrow> bool" where
  "deletes_state org app del r \<longleftrightarrow>
     ts_OrganizationID r = org \<and> ts_ApplicationID r = app \<and> ts_ComponentID r \<in> set (sx_Components del) \<and> ts_LockID r = None"

definition deleteStates :: "uuid \<Rightarrow> uuid \<Rightarrow> stateDeletion \<Rightarrow> FleetDB \<Rightarrow> save_error + FleetDB" where
  "deleteStates org app del d =
     (if sx_Components del = [] then Inr d
      else
        let gone = filter (deletes_state org app del) (fd_States d) in
        if length gone \<noteq> sx_Rows del then Inl StateLockedWhileSaving
        else Inr (d\<lparr>fd_States := filter (\<lambda>r. \<not> deletes_state org app del r) (fd_States d),
                    fd_Versions := filter (\<lambda>v. tv_StateID v \<notin> ts_ID ` set gone) (fd_Versions d)\<rparr>))"

section \<open>The transaction\<close>

definition update_runs :: "(RunDB \<Rightarrow> RunDB) \<Rightarrow> FleetDB \<Rightarrow> FleetDB" where
  "update_runs f d = d\<lparr>fd_Runs := f (fd_Runs d)\<rparr>"

definition delete_workflow :: "uuid \<Rightarrow> uuid \<Rightarrow> FleetDB \<Rightarrow> FleetDB" where
  "delete_workflow org app d =
     (let ours = (\<lambda>st. sg_OrganizationID st = org \<and> sg_ApplicationID st = app);
          gone = sg_ID ` set (filter ours (rd_Stages (fd_Runs d))) in
      update_runs (\<lambda>r. r\<lparr>rd_Stages := filter (\<lambda>st. \<not> ours st) (rd_Stages r),
        rd_Components := filter (\<lambda>c. \<not> (co_OrganizationID c = org \<and> co_ApplicationID c = app) \<and> co_StageID c \<notin> gone) (rd_Components r)\<rparr>) d)"

definition new_stage :: "uuid \<Rightarrow> uuid \<Rightarrow> nat \<Rightarrow> StageInput \<Rightarrow> StageRow" where
  "new_stage org app k st =
     \<lparr>sg_ID = si_ID st, sg_OrganizationID = org, sg_ApplicationID = app, sg_Name = trim_space (si_Name st), sg_Ordinal = int k\<rparr>"

definition column_id :: "uuid option \<Rightarrow> uuid" where
  "column_id i = (case i of None \<Rightarrow> uuid_Nil | Some j \<Rightarrow> j)"

definition new_component :: "uuid \<Rightarrow> uuid \<Rightarrow> uuid \<Rightarrow> nat \<Rightarrow> ComponentInput \<Rightarrow> Component" where
  "new_component org app stageID j n =
     \<lparr>co_ID = ci_ID n, co_OrganizationID = org, co_ApplicationID = app, co_StageID = stageID, co_Ordinal = int j,
      co_Name = ci_Name n, co_Type = ci_Type n, co_Config = ci_Config n, co_ContinueOnFailure = ci_ContinueOnFailure n,
      co_RequiresApproval = ci_RequiresApproval n, co_ApprovalPolicy = ci_ApprovalPolicy n,
      co_TargetClusterID = column_id (ci_TargetClusterID n), co_TargetNamespace = ci_TargetNamespace n,
      co_ChartCredentialID = column_id (ci_ChartCredentialID n), co_GithubInstallationID = column_id (ci_GitHubInstallationID n)\<rparr>"

text \<open>Primary keys and foreign keys are checked by the insert.\<close>

definition insert_stage :: "StageRow \<Rightarrow> FleetDB \<Rightarrow> save_error + FleetDB" where
  "insert_stage st d =
     (if sg_ID st \<in> sg_ID ` set (rd_Stages (fd_Runs d)) \<or> sg_ApplicationID st \<notin> ar_ID ` set (rd_Apps (fd_Runs d)) then Inl SaveConstraint
      else Inr (update_runs (\<lambda>r. r\<lparr>rd_Stages := rd_Stages r @ [st]\<rparr>) d))"

definition component_keys_ok :: "FleetDB \<Rightarrow> Component \<Rightarrow> bool" where
  "component_keys_ok d c \<longleftrightarrow>
     co_ApplicationID c \<in> ar_ID ` set (rd_Apps (fd_Runs d)) \<and> co_StageID c \<in> sg_ID ` set (rd_Stages (fd_Runs d)) \<and>
     (co_TargetClusterID c = uuid_Nil \<or> co_TargetClusterID c \<in> cu_ID ` set (fd_Clusters d)) \<and>
     (co_ChartCredentialID c = uuid_Nil \<or> co_ChartCredentialID c \<in> set (fd_Credentials d)) \<and>
     (co_GithubInstallationID c = uuid_Nil \<or> co_GithubInstallationID c \<in> gi_ID ` set (fd_Installs d))"

definition createComponent :: "Component \<Rightarrow> FleetDB \<Rightarrow> save_error + FleetDB" where
  "createComponent c d =
     (if co_ID c \<in> co_ID ` set (rd_Components (fd_Runs d)) \<or> \<not> component_keys_ok d c then Inl SaveConstraint
      else Inr (update_runs (\<lambda>r. r\<lparr>rd_Components := rd_Components r @ [c]\<rparr>) d))"

fun create_components :: "uuid \<Rightarrow> uuid \<Rightarrow> uuid \<Rightarrow> nat \<Rightarrow> ComponentInput list \<Rightarrow> FleetDB \<Rightarrow> save_error + FleetDB" where
  "create_components org app stageID j [] d = Inr d"
| "create_components org app stageID j (n # ns) d =
     try_bind (createComponent (new_component org app stageID j n) d) (create_components org app stageID (Suc j) ns)"

fun create_stages :: "uuid \<Rightarrow> uuid \<Rightarrow> nat \<Rightarrow> StageInput list \<Rightarrow> FleetDB \<Rightarrow> save_error + FleetDB" where
  "create_stages org app k [] d = Inr d"
| "create_stages org app k (st # sts) d =
     try_bind (insert_stage (new_stage org app k st) d) (\<lambda>d1.
     try_bind (create_components org app (si_ID st) 0 (si_Components st) d1) (create_stages org app (Suc k) sts))"

definition delete_variables :: "uuid \<Rightarrow> uuid \<Rightarrow> uuid list \<Rightarrow> FleetDB \<Rightarrow> FleetDB" where
  "delete_variables org app keep d =
     d\<lparr>fd_Vars := filter (\<lambda>v. \<not> (va_OrganizationID v = org \<and> va_ApplicationID v = app \<and>
        (case va_ComponentID v of None \<Rightarrow> False | Some c \<Rightarrow> c \<notin> set keep))) (fd_Vars d)\<rparr>"

definition save_tx :: "uuid \<Rightarrow> uuid \<Rightarrow> StageInput list \<Rightarrow> stateDeletion \<Rightarrow> FleetDB \<Rightarrow> save_error + FleetDB" where
  "save_tx org app stages del d =
     try_bind (create_stages org app 0 stages (delete_workflow org app d)) (\<lambda>d1.
       deleteStates org app del (delete_variables org app (map ci_ID (flattenStages stages)) d1))"

section \<open>The save\<close>

definition save_checks ::
  "SaveLib \<Rightarrow> fleet_itf \<Rightarrow> uuid \<Rightarrow> uuid \<Rightarrow> StageInput list \<Rightarrow> ReplaceOptions \<Rightarrow> (StageInput list \<times> stateDeletion) save_prog" where
  "save_checks lib itf org app stages opts =
     db_seq (db_query itf (\<lambda>d. run_result (getApp (fd_Runs d) org app))) (\<lambda>found.
     db_seq (db_lift found) (\<lambda>row.
     db_seq (db_lift (case normalize_stages (sl_Low lib) stages of Inl e \<Rightarrow> Inl (SaveInvalid e) | Inr sts \<Rightarrow> Inr sts)) (\<lambda>sts.
     db_seq (db_check (map_option SaveInvalid (validateWorkflow (sl_ParseUUID lib) sts))) (\<lambda>_.
       let nodes = flattenStages sts in
       db_seq (validateComponentTargets itf org row nodes) (\<lambda>_.
       db_seq (checkMovedComponents itf org app nodes) (\<lambda>_.
       db_seq (resolveInstallations lib itf org sts) (\<lambda>resolved.
       db_seq (db_check (if sl_ManagedState lib then None else needs_secret_key nodes)) (\<lambda>_.
       db_seq (if AllowBackendChange opts then db_ret () else checkBackendChanges lib itf org app nodes) (\<lambda>_.
       db_seq (checkStateDeletions lib itf org app nodes (AllowStateDeletion opts)) (\<lambda>del.
         db_ret (resolved, del)))))))))))"

definition ReplaceWorkflowWith ::
  "SaveLib \<Rightarrow> fleet_itf \<Rightarrow> uuid \<Rightarrow> uuid \<Rightarrow> StageInput list \<Rightarrow> ReplaceOptions \<Rightarrow> WorkflowStage list save_prog" where
  "ReplaceWorkflowWith lib itf org app stages opts =
     db_seq (save_checks lib itf org app stages opts) (\<lambda>sd.
     db_seq (db_commit itf (save_tx org app (fst sd) (snd sd))) (\<lambda>_.
       db_query itf (\<lambda>d. loadStages (fd_Runs d) org app)))"

definition ReplaceWorkflow :: "SaveLib \<Rightarrow> fleet_itf \<Rightarrow> uuid \<Rightarrow> uuid \<Rightarrow> StageInput list \<Rightarrow> WorkflowStage list save_prog" where
  "ReplaceWorkflow lib itf org app stages =
     ReplaceWorkflowWith lib itf org app stages \<lparr>AllowBackendChange = False, AllowStateDeletion = False\<rparr>"

definition GetWorkflow :: "FleetDB \<Rightarrow> uuid \<Rightarrow> uuid \<Rightarrow> save_error + WorkflowStage list" where
  "GetWorkflow d org app = try_bind (run_result (getApp (fd_Runs d) org app)) (\<lambda>_. Inr (loadStages (fd_Runs d) org app))"

end
