(* ===== verification/WorkflowMove.thy ===== *)
theory WorkflowMove
  imports WorkflowSave
begin

text \<open>Moving a component to another stage or another application (\<open>lib/workflows/move.go\<close>).\<close>

record MoveInput =
  mv_ApplicationID :: uuid
  mv_StageID :: "uuid option"
  mv_NewStageName :: string
  mv_Name :: string

definition move_name :: "Component \<Rightarrow> MoveInput \<Rightarrow> string" where
  "move_name c inp = (let n = trim_space (mv_Name inp) in if n \<noteq> [] then n else co_Name c)"

text \<open>The part of a stored component the target check reads.\<close>

definition movedInput :: "Component \<Rightarrow> string \<Rightarrow> ComponentInput" where
  "movedInput c name =
     \<lparr>ci_ID = co_ID c, ci_Name = name, ci_Type = co_Type c, ci_Config = co_Config c, ci_ContinueOnFailure = False,
      ci_RequiresApproval = False, ci_ApprovalPolicy = zero_policy, ci_TargetClusterID = nonzero (co_TargetClusterID c),
      ci_TargetNamespace = [], ci_ChartCredentialID = None, ci_GitHubInstallationID = None\<rparr>"

definition component_states :: "uuid \<Rightarrow> uuid \<Rightarrow> uuid \<Rightarrow> FleetDB \<Rightarrow> StateRow list" where
  "component_states org app i d = app_states org app [i] d"

definition move_name_fault :: "MoveInput \<Rightarrow> string \<Rightarrow> save_error option" where
  "move_name_fault inp name =
     (let newStage = trim_space (mv_NewStageName inp) in
      if \<not> slug_Valid name then Some (SaveInvalid (ErrInvalidConfig name NameNotSlug))
      else if (mv_StageID inp = None) = (newStage = []) then Some (MoveTarget MoveNoStage)
      else if rune_count newStage > 100 then Some (SaveInvalid (ErrInvalidStage StageNameTooLong))
      else None)"

definition stage_in_app :: "uuid \<Rightarrow> uuid \<Rightarrow> uuid \<Rightarrow> FleetDB \<Rightarrow> bool" where
  "stage_in_app org app i d \<longleftrightarrow>
     list_ex (\<lambda>st. sg_OrganizationID st = org \<and> sg_ApplicationID st = app \<and> sg_ID st = i) (rd_Stages (fd_Runs d))"

definition name_taken :: "uuid \<Rightarrow> uuid \<Rightarrow> string \<Rightarrow> uuid \<Rightarrow> FleetDB \<Rightarrow> bool" where
  "name_taken org app name i d \<longleftrightarrow>
     list_ex (\<lambda>c. co_OrganizationID c = org \<and> co_ApplicationID c = app \<and> co_Name c = name \<and> co_ID c \<noteq> i) (rd_Components (fd_Runs d))"

text \<open>The queries between the input checks and the transaction.\<close>

definition move_guards :: "fleet_itf \<Rightarrow> uuid \<Rightarrow> uuid \<Rightarrow> AppRow \<Rightarrow> Component \<Rightarrow> string \<Rightarrow> unit save_prog" where
  "move_guards itf org app tgt c name =
     db_seq (db_query itf (name_taken org (ar_ID tgt) name (co_ID c))) (\<lambda>taken.
     db_seq (db_check (if taken then Some (NameTaken (ar_Name tgt) name) else None)) (\<lambda>_.
     db_seq (validateComponentTargets itf org tgt [movedInput c name]) (\<lambda>_.
     db_seq (db_query itf (\<lambda>d. run_in_flight (fd_Runs d) org app)) (\<lambda>busy.
     db_seq (db_check (if busy then Some (SaveRun ErrRunInFlight) else None)) (\<lambda>_.
     db_seq (if ar_ID tgt = app then db_ret False else db_query itf (\<lambda>d. run_in_flight (fd_Runs d) org (ar_ID tgt))) (\<lambda>busy2.
     db_seq (db_check (if busy2 then Some (SaveRun ErrRunInFlight) else None)) (\<lambda>_.
     db_seq (db_query itf (\<lambda>d. list_ex (\<lambda>r. ts_LockID r \<noteq> None) (component_states org app (co_ID c) d))) (\<lambda>locked.
       db_check (if locked then Some (StateLocked (co_Name c)) else None)))))))))"

section \<open>The transaction\<close>

definition stage_count :: "uuid \<Rightarrow> uuid \<Rightarrow> FleetDB \<Rightarrow> nat" where
  "stage_count org app d =
     length (filter (\<lambda>st. sg_OrganizationID st = org \<and> sg_ApplicationID st = app) (rd_Stages (fd_Runs d)))"

definition member_count :: "uuid \<Rightarrow> uuid \<Rightarrow> FleetDB \<Rightarrow> nat" where
  "member_count org stageID d =
     length (filter (\<lambda>c. co_OrganizationID c = org \<and> co_StageID c = stageID) (rd_Components (fd_Runs d)))"

definition move_stage :: "uuid \<Rightarrow> uuid \<Rightarrow> uuid \<Rightarrow> MoveInput \<Rightarrow> FleetDB \<Rightarrow> save_error + uuid \<times> FleetDB" where
  "move_stage newID org tgt inp d =
     (case mv_StageID inp of
        Some i \<Rightarrow> Inr (i, d)
      | None \<Rightarrow>
          try_bind (insert_stage \<lparr>sg_ID = newID, sg_OrganizationID = org, sg_ApplicationID = tgt,
              sg_Name = trim_space (mv_NewStageName inp), sg_Ordinal = int (stage_count org tgt d)\<rparr> d) (\<lambda>d1. Inr (newID, d1)))"

definition placed :: "uuid \<Rightarrow> uuid \<Rightarrow> int \<Rightarrow> string \<Rightarrow> Component \<Rightarrow> Component" where
  "placed tgt stageID ordinal name c =
     c\<lparr>co_ApplicationID := tgt, co_StageID := stageID, co_Ordinal := ordinal, co_Name := name\<rparr>"

definition place_component :: "uuid \<Rightarrow> uuid \<Rightarrow> uuid \<Rightarrow> uuid \<Rightarrow> int \<Rightarrow> string \<Rightarrow> FleetDB \<Rightarrow> save_error + FleetDB" where
  "place_component org i tgt stageID ordinal name d =
     (let this = (\<lambda>c. co_ID c = i \<and> co_OrganizationID c = org) in
      if \<not> list_ex this (rd_Components (fd_Runs d)) then Inl (SaveRun ErrNotFound)
      else if stageID \<notin> sg_ID ` set (rd_Stages (fd_Runs d)) \<or> tgt \<notin> ar_ID ` set (rd_Apps (fd_Runs d)) then Inl SaveConstraint
      else Inr (update_runs (\<lambda>r. r\<lparr>rd_Components := map (\<lambda>c. if this c then placed tgt stageID ordinal name c else c) (rd_Components r)\<rparr>) d))"

definition own_variable :: "uuid \<Rightarrow> uuid \<Rightarrow> uuid \<Rightarrow> Variable \<Rightarrow> bool" where
  "own_variable org app i v \<longleftrightarrow> in_scope org app (Some i) v"

definition free_state :: "uuid \<Rightarrow> uuid \<Rightarrow> uuid \<Rightarrow> StateRow \<Rightarrow> bool" where
  "free_state org app i r \<longleftrightarrow>
     ts_OrganizationID r = org \<and> ts_ApplicationID r = app \<and> ts_ComponentID r = i \<and> ts_LockID r = None"

text \<open>The rows keyed by the component; a key that is taken is a constraint error.\<close>

definition rekey :: "uuid \<Rightarrow> uuid \<Rightarrow> uuid \<Rightarrow> Component \<Rightarrow> FleetDB \<Rightarrow> save_error + FleetDB" where
  "rekey org app tgt c d =
     (let i = co_ID c;
          vars = map (\<lambda>v. if own_variable org app i v then v\<lparr>va_ApplicationID := tgt\<rparr> else v) (fd_Vars d);
          states = map (\<lambda>r. if free_state org app i r then r\<lparr>ts_ApplicationID := tgt\<rparr> else r) (fd_States d)
      in if \<not> distinct (map state_key states) then Inl SaveConstraint
         else if component_states org app i (d\<lparr>fd_States := states\<rparr>) \<noteq> [] then Inl (StateLocked (co_Name c))
         else Inr (d\<lparr>fd_Vars := vars, fd_States := states\<rparr>))"

definition move_tx :: "uuid \<Rightarrow> uuid \<Rightarrow> uuid \<Rightarrow> uuid \<Rightarrow> MoveInput \<Rightarrow> Component \<Rightarrow> string \<Rightarrow> FleetDB \<Rightarrow> save_error + FleetDB" where
  "move_tx newID org app tgt inp c name d =
     try_bind (move_stage newID org tgt inp d) (\<lambda>sd. case sd of (stageID, d1) \<Rightarrow>
       let ordinal = (if stageID = co_StageID c then co_Ordinal c else int (member_count org stageID d1)) in
       try_bind (place_component org (co_ID c) tgt stageID ordinal name d1) (\<lambda>d2.
         if tgt = app then Inr d2 else rekey org app tgt c d2))"

section \<open>The move\<close>

definition move_target :: "save_error + AppRow \<Rightarrow> save_error + AppRow" where
  "move_target r = (case r of Inl _ \<Rightarrow> Inl (MoveTarget MoveNoApplication) | Inr a \<Rightarrow> Inr a)"

definition stage_fault :: "uuid \<Rightarrow> AppRow \<Rightarrow> MoveInput \<Rightarrow> FleetDB \<Rightarrow> save_error option" where
  "stage_fault org tgt inp d =
     (case mv_StageID inp of
        None \<Rightarrow> None
      | Some i \<Rightarrow> if stage_in_app org (ar_ID tgt) i d then None else Some (MoveTarget (MoveUnknownStage (ar_Name tgt))))"

definition already_there :: "uuid \<Rightarrow> AppRow \<Rightarrow> MoveInput \<Rightarrow> Component \<Rightarrow> string \<Rightarrow> bool" where
  "already_there app tgt inp c name \<longleftrightarrow> mv_StageID inp = Some (co_StageID c) \<and> ar_ID tgt = app \<and> name = co_Name c"

definition MoveComponent :: "uuid \<Rightarrow> fleet_itf \<Rightarrow> uuid \<Rightarrow> uuid \<Rightarrow> uuid \<Rightarrow> MoveInput \<Rightarrow> Component save_prog" where
  "MoveComponent newID itf org app i inp =
     db_seq (db_query itf (\<lambda>d. run_result (get_component (fd_Runs d) org app i))) (\<lambda>found.
     db_seq (db_lift found) (\<lambda>c.
     db_seq (db_query itf (\<lambda>d. move_target (run_result (getApp (fd_Runs d) org (mv_ApplicationID inp))))) (\<lambda>found2.
     db_seq (db_lift found2) (\<lambda>tgt.
       let name = move_name c inp in
       db_seq (db_check (move_name_fault inp name)) (\<lambda>_.
       db_seq (if mv_StageID inp = None then db_ret None else db_query itf (stage_fault org tgt inp)) (\<lambda>fault.
       db_seq (db_check fault) (\<lambda>_.
         if already_there app tgt inp c name then db_ret c
         else
           db_seq (move_guards itf org app tgt c name) (\<lambda>_.
           db_seq (db_commit itf (move_tx newID org app (ar_ID tgt) inp c name)) (\<lambda>_.
           db_seq (db_query itf (\<lambda>d. run_result (get_component (fd_Runs d) org (ar_ID tgt) i))) db_lift)))))))))"

end
