(* ===== verification/WorkflowSave_Props.thy ===== *)
theory WorkflowSave_Props
  imports WorkflowMove Validate_Props
begin

text \<open>
  What the checks of a save establish when it runs alone, what its transaction leaves, and what it leaves
  alone whatever others do.
\<close>

section \<open>Checks only read\<close>

abbreviation alone :: fleet_itf where "alone \<equiv> \<lambda>k d. d"

lemma reads_refused:
  "reads (refused_names alone f xs) \<and> answer (refused_names alone f xs) = (\<lambda>d. Inr (map (snd f) (filter (\<lambda>x. fst f x d) xs)))"
proof (induction xs)
  case (Cons x xs)
  then show ?case by (simp add: reads_rules answer_seq fun_eq_iff if_distrib [of Inr] cong: if_cong)
qed (simp add: reads_rules)

lemmas [reads_rules] = reads_refused [THEN conjunct1]

lemma reads_targets [reads_rules]: "reads (validateComponentTargets alone org row nodes)"
  by (simp add: validateComponentTargets_def Let_def reads_rules)

lemma reads_moved [reads_rules]: "reads (checkMovedComponents alone org app nodes)"
  by (auto simp: checkMovedComponents_def reads_rules intro!: reads_rules split: option.split)

lemma reads_installs:
  "reads (resolveInstallations lib alone org stages) \<and>
   answer (resolveInstallations lib alone org stages) = (\<lambda>d. Inr (resolve_stages lib (org_installs org d) stages))"
  by (simp add: resolveInstallations_def reads_rules answer_seq)

lemmas [reads_rules] = reads_installs [THEN conjunct1]

lemma reads_backend [reads_rules]: "reads (checkBackendChanges lib alone org app nodes)"
  by (auto simp: checkBackendChanges_def intro!: reads_rules)

lemma reads_deletions [reads_rules]: "reads (checkStateDeletions lib alone org app nodes allow)"
  by (auto simp: checkStateDeletions_def Let_def intro!: reads_rules)

lemma reads_save_checks [reads_rules]: "reads (save_checks lib alone org app stages opts)"
  by (auto simp: save_checks_def Let_def intro!: reads_rules)

section \<open>What a passed check says\<close>

lemma set_tofu_components [simp]:
  "set (tofu_components org app d) =
     {c \<in> set (rd_Components (fd_Runs d)). co_OrganizationID c = org \<and> co_ApplicationID c = app \<and> co_Type c = TypeTerraform}"
  by (auto simp: tofu_components_def)

lemma save_checks_Inr:
  assumes "answer (save_checks lib alone org app stages opts) d = Inr (resolved, del)"
  obtains row sts where "getApp (fd_Runs d) org app = Inr row" "normalize_stages (sl_Low lib) stages = Inr sts"
    "validateWorkflow (sl_ParseUUID lib) sts = None" "resolved = resolve_stages lib (org_installs org d) sts"
    "AllowBackendChange opts \<or> answer (checkBackendChanges lib alone org app (flattenStages sts)) d = Inr ()"
    "answer (checkStateDeletions lib alone org app (flattenStages sts) (AllowStateDeletion opts)) d = Inr del"
  using assms unfolding save_checks_def Let_def
  by (elim answer_seq_Inr)
     (auto intro!: reads_rules simp: run_result_def reads_installs [THEN conjunct2] split: sum.splits if_splits)

lemma state_deletion_none: "removed = [] \<or> rows = [] \<Longrightarrow> state_deletion rows removed = no_deletion"
  by (auto simp: state_deletion_def no_deletion_def states_of_def)

lemma deletions_Inr:
  fixes removed :: "Component list" and rows :: "StateRow list"
  assumes "answer (checkStateDeletions lib alone org app nodes allow) d = Inr del"
    and removed: "removed = removed_components nodes (tofu_components org app d)"
    and rows: "rows = app_states org app (map co_ID removed) d"
  shows "del = state_deletion rows removed \<and> list_all (\<lambda>c. locked_component rows c = None) removed \<and>
    (allow \<or> (\<forall>c \<in> set removed. asks_first rows c \<longrightarrow> \<not> stateManagesResources lib org (co_ID c) (states_of rows (co_ID c)) d))"
proof (cases "removed = [] \<or> rows = []")
  case True
  then have "del = no_deletion"
    using assms(1) unfolding checkStateDeletions_def Let_def
    by (auto elim!: answer_seq_Inr simp: removed [symmetric] rows [symmetric] intro!: reads_rules split: if_splits)
  moreover have "\<not> asks_first rows c" "locked_component rows c = None" if "c \<in> set removed" for c
    using True that by (auto simp: asks_first_def states_of_def locked_component_def)
  ultimately show ?thesis using True by (simp add: state_deletion_none list_all_iff)
next
  case False
  then show ?thesis
    using assms(1) unfolding checkStateDeletions_def Let_def
    by (auto elim!: answer_seq_Inr simp: removed [symmetric] rows [symmetric] reads_refused [THEN conjunct2] filter_empty_conv
      first_fault_None list_all_iff intro!: reads_rules split: if_splits)
qed

lemma backend_Inr:
  assumes "answer (checkBackendChanges lib alone org app nodes) d = Inr u" and "n \<in> set nodes"
    and "switches_backend (tofu_components org app d) n"
  shows "\<not> managesResources lib org (ci_ID n) d"
  using assms unfolding checkBackendChanges_def
  by (auto elim!: answer_seq_Inr simp: reads_refused [THEN conjunct2] filter_empty_conv intro!: reads_rules split: if_splits)

section \<open>What the transaction leaves\<close>

definition place_all :: "uuid \<Rightarrow> uuid \<Rightarrow> uuid \<Rightarrow> nat \<Rightarrow> ComponentInput list \<Rightarrow> Component list" where
  "place_all org app stageID j ns = map (\<lambda>(k, n). new_component org app stageID k n) (enumerate j ns)"

definition add_rows :: "StageRow list \<Rightarrow> Component list \<Rightarrow> FleetDB \<Rightarrow> FleetDB" where
  "add_rows sts cs = update_runs (\<lambda>r. r\<lparr>rd_Stages := rd_Stages r @ sts, rd_Components := rd_Components r @ cs\<rparr>)"

lemma add_rows_add [simp]: "add_rows ss cs (add_rows ss' cs' d) = add_rows (ss' @ ss) (cs' @ cs) d"
  by (simp add: add_rows_def update_runs_def)

lemma add_rows_Nil [simp]: "add_rows [] [] d = d"
  by (simp add: add_rows_def update_runs_def)

lemma insert_stage_Inr:
  "insert_stage st d = Inr d' \<longleftrightarrow> sg_ID st \<notin> sg_ID ` set (rd_Stages (fd_Runs d)) \<and> sg_ApplicationID st \<in> ar_ID ` set (rd_Apps (fd_Runs d)) \<and> d' = add_rows [st] [] d"
  by (auto simp: insert_stage_def add_rows_def)

lemma createComponent_Inr:
  "createComponent c d = Inr d' \<longleftrightarrow> co_ID c \<notin> co_ID ` set (rd_Components (fd_Runs d)) \<and> component_keys_ok d c \<and> d' = add_rows [] [c] d"
  by (auto simp: createComponent_def add_rows_def)

lemma create_components_Inr:
  assumes "create_components org app stageID j ns d = Inr d'"
  shows "d' = add_rows [] (place_all org app stageID j ns) d \<and>
    (distinct (map co_ID (rd_Components (fd_Runs d))) \<longrightarrow> distinct (map co_ID (rd_Components (fd_Runs d'))))"
  using assms
proof (induction ns arbitrary: j d)
  case (Cons n ns)
  then obtain d1 where d1: "d1 = add_rows [] [new_component org app stageID j n] d"
      "co_ID (new_component org app stageID j n) \<notin> co_ID ` set (rd_Components (fd_Runs d))"
    and rest: "create_components org app stageID (Suc j) ns d1 = Inr d'"
    by (auto simp: try_bind_def createComponent_Inr split: sum.splits)
  have "rd_Components (fd_Runs d1) = rd_Components (fd_Runs d) @ [new_component org app stageID j n]"
    by (simp add: d1 add_rows_def update_runs_def)
  then have "distinct (map co_ID (rd_Components (fd_Runs d))) \<longrightarrow> distinct (map co_ID (rd_Components (fd_Runs d1)))"
    using d1(2) by simp
  moreover have "d' = add_rows [] (place_all org app stageID j (n # ns)) d"
    using Cons.IH [OF rest] d1(1) by (simp add: place_all_def)
  ultimately show ?case using Cons.IH [OF rest] by blast
qed (simp add: place_all_def)

text \<open>The rows of the new workflow, its \<open>k\<close>-th stage first.\<close>

definition stage_rows :: "uuid \<Rightarrow> uuid \<Rightarrow> nat \<Rightarrow> StageInput list \<Rightarrow> StageRow list" where
  "stage_rows org app k sts = map (\<lambda>(i, st). new_stage org app i st) (enumerate k sts)"

definition component_rows :: "uuid \<Rightarrow> uuid \<Rightarrow> StageInput list \<Rightarrow> Component list" where
  "component_rows org app sts = concat (map (\<lambda>st. place_all org app (si_ID st) 0 (si_Components st)) sts)"

lemma create_stages_Inr:
  assumes "create_stages org app k sts d = Inr d'"
  shows "d' = add_rows (stage_rows org app k sts) (component_rows org app sts) d \<and>
    distinct (map si_ID sts) \<and> si_ID ` set sts \<inter> sg_ID ` set (rd_Stages (fd_Runs d)) = {} \<and>
    (distinct (map co_ID (rd_Components (fd_Runs d))) \<longrightarrow> distinct (map co_ID (rd_Components (fd_Runs d'))))"
  using assms
proof (induction sts arbitrary: k d)
  case (Cons st sts)
  then obtain d1 d2 where d1: "d1 = add_rows [new_stage org app k st] [] d" "si_ID st \<notin> sg_ID ` set (rd_Stages (fd_Runs d))"
    and d2: "d2 = add_rows [] (place_all org app (si_ID st) 0 (si_Components st)) d1"
      "distinct (map co_ID (rd_Components (fd_Runs d1))) \<longrightarrow> distinct (map co_ID (rd_Components (fd_Runs d2)))"
    and rest: "create_stages org app (Suc k) sts d2 = Inr d'"
    by (auto simp: try_bind_def insert_stage_Inr new_stage_def dest: create_components_Inr split: sum.splits)
  have "rd_Stages (fd_Runs d2) = rd_Stages (fd_Runs d) @ [new_stage org app k st]"
    "rd_Components (fd_Runs d1) = rd_Components (fd_Runs d)"
    by (simp_all add: d1 d2 add_rows_def update_runs_def)
  with Cons.IH [OF rest] d1 d2 show ?case
    by (auto simp: stage_rows_def component_rows_def new_stage_def)
qed (simp add: stage_rows_def component_rows_def)

definition our_stage :: "uuid \<Rightarrow> uuid \<Rightarrow> StageRow \<Rightarrow> bool" where
  "our_stage org app st \<longleftrightarrow> sg_OrganizationID st = org \<and> sg_ApplicationID st = app"

definition our_component :: "uuid \<Rightarrow> uuid \<Rightarrow> Component \<Rightarrow> bool" where
  "our_component org app c \<longleftrightarrow> co_OrganizationID c = org \<and> co_ApplicationID c = app"

text \<open>A component outside the application whose stage is one of the application's goes with the stage.\<close>

definition stays :: "uuid \<Rightarrow> uuid \<Rightarrow> FleetDB \<Rightarrow> Component \<Rightarrow> bool" where
  "stays org app d c \<longleftrightarrow> \<not> our_component org app c \<and> co_StageID c \<notin> sg_ID ` set (filter (our_stage org app) (rd_Stages (fd_Runs d)))"

definition dropped_variable :: "uuid \<Rightarrow> uuid \<Rightarrow> uuid list \<Rightarrow> Variable \<Rightarrow> bool" where
  "dropped_variable org app keep v \<longleftrightarrow>
     va_OrganizationID v = org \<and> va_ApplicationID v = app \<and> (case va_ComponentID v of None \<Rightarrow> False | Some c \<Rightarrow> c \<notin> set keep)"

lemma save_tx_Inr:
  assumes "save_tx org app sts del d = Inr d'"
  shows "distinct (map si_ID sts)"
    and "si_ID ` set sts \<inter> sg_ID ` set (filter (\<lambda>st. \<not> our_stage org app st) (rd_Stages (fd_Runs d))) = {}"
    and "fd_Runs d' = (fd_Runs d)\<lparr>rd_Stages := filter (\<lambda>st. \<not> our_stage org app st) (rd_Stages (fd_Runs d)) @ stage_rows org app 0 sts,
      rd_Components := filter (stays org app d) (rd_Components (fd_Runs d)) @ component_rows org app sts\<rparr>"
    and "fd_Vars d' = filter (\<lambda>v. \<not> dropped_variable org app (map ci_ID (flattenStages sts)) v) (fd_Vars d)"
    and "fd_States d' = filter (\<lambda>r. \<not> deletes_state org app del r) (fd_States d)"
    and "fd_Clusters d' = fd_Clusters d" and "fd_Installs d' = fd_Installs d" and "fd_Credentials d' = fd_Credentials d"
    and "fd_Versions d' = filter (\<lambda>v. tv_StateID v \<notin> ts_ID ` set (filter (deletes_state org app del) (fd_States d))) (fd_Versions d)"
    and "distinct (map co_ID (rd_Components (fd_Runs d))) \<Longrightarrow> distinct (map co_ID (rd_Components (fd_Runs d')))"
proof -
  let ?d0 = "delete_workflow org app d"
  obtain d1 where d1: "create_stages org app 0 sts ?d0 = Inr d1"
    and d': "deleteStates org app del (delete_variables org app (map ci_ID (flattenStages sts)) d1) = Inr d'"
    using assms by (auto simp: save_tx_def try_bind_def split: sum.splits)
  note cr = create_stages_Inr [OF d1]
  have stages: "rd_Stages (fd_Runs ?d0) = filter (\<lambda>st. \<not> our_stage org app st) (rd_Stages (fd_Runs d))"
    by (simp add: delete_workflow_def update_runs_def our_stage_def Let_def)
  have comps: "rd_Components (fd_Runs ?d0) = filter (stays org app d) (rd_Components (fd_Runs d))"
    by (simp add: delete_workflow_def update_runs_def stays_def [abs_def] our_component_def our_stage_def Let_def)
  show "distinct (map si_ID sts)" using cr by blast
  show "si_ID ` set sts \<inter> sg_ID ` set (filter (\<lambda>st. \<not> our_stage org app st) (rd_Stages (fd_Runs d))) = {}"
    using cr stages by simp
  have runs: "fd_Runs d1 = (fd_Runs ?d0)\<lparr>rd_Stages := rd_Stages (fd_Runs ?d0) @ stage_rows org app 0 sts,
      rd_Components := rd_Components (fd_Runs ?d0) @ component_rows org app sts\<rparr>"
    using cr by (simp add: add_rows_def update_runs_def)
  have other: "fd_Vars d1 = fd_Vars d" "fd_States d1 = fd_States d" "fd_Clusters d1 = fd_Clusters d" "fd_Installs d1 = fd_Installs d"
    "fd_Credentials d1 = fd_Credentials d" "fd_Versions d1 = fd_Versions d"
    using cr by (simp_all add: add_rows_def update_runs_def delete_workflow_def Let_def)
  have base: "fd_Runs ?d0 = (fd_Runs d)\<lparr>rd_Stages := rd_Stages (fd_Runs ?d0), rd_Components := rd_Components (fd_Runs ?d0)\<rparr>"
    by (simp add: delete_workflow_def update_runs_def Let_def)
  have final: "d' = d1\<lparr>fd_Vars := filter (\<lambda>v. \<not> dropped_variable org app (map ci_ID (flattenStages sts)) v) (fd_Vars d1),
      fd_States := fd_States d', fd_Versions := fd_Versions d'\<rparr>"
    using d' by (auto simp: deleteStates_def delete_variables_def dropped_variable_def Let_def split: if_splits)
  show "fd_Runs d' = (fd_Runs d)\<lparr>rd_Stages := filter (\<lambda>st. \<not> our_stage org app st) (rd_Stages (fd_Runs d)) @ stage_rows org app 0 sts,
      rd_Components := filter (stays org app d) (rd_Components (fd_Runs d)) @ component_rows org app sts\<rparr>"
    by (subst final, simp add: runs, subst base, simp add: stages comps)
  show "fd_Vars d' = filter (\<lambda>v. \<not> dropped_variable org app (map ci_ID (flattenStages sts)) v) (fd_Vars d)"
    by (subst final, simp add: other)
  show "fd_States d' = filter (\<lambda>r. \<not> deletes_state org app del r) (fd_States d)"
    using d' by (auto simp: deleteStates_def delete_variables_def deletes_state_def other Let_def split: if_splits)
  show "fd_Clusters d' = fd_Clusters d" "fd_Installs d' = fd_Installs d" "fd_Credentials d' = fd_Credentials d"
    by (subst final, simp add: other)+
  show "fd_Versions d' = filter (\<lambda>v. tv_StateID v \<notin> ts_ID ` set (filter (deletes_state org app del) (fd_States d))) (fd_Versions d)"
    using d' by (auto simp: deleteStates_def delete_variables_def deletes_state_def other Let_def split: if_splits)
  show "distinct (map co_ID (rd_Components (fd_Runs d')))" if "distinct (map co_ID (rd_Components (fd_Runs d)))"
  proof -
    have "distinct (map co_ID (rd_Components (fd_Runs ?d0)))" using that by (simp add: comps distinct_map_filter)
    then have "distinct (map co_ID (rd_Components (fd_Runs d1)))" using cr by blast
    moreover have "fd_Runs d' = fd_Runs d1" by (subst final) simp
    ultimately show ?thesis by simp
  qed
qed

section \<open>The workflow that is read back\<close>

text \<open>Foreign key of the components.\<close>

definition stages_exist :: "FleetDB \<Rightarrow> bool" where
  "stages_exist d \<longleftrightarrow> co_StageID ` set (rd_Components (fd_Runs d)) \<subseteq> sg_ID ` set (rd_Stages (fd_Runs d))"

definition saved_workflow :: "uuid \<Rightarrow> uuid \<Rightarrow> StageInput list \<Rightarrow> WorkflowStage list" where
  "saved_workflow org app sts =
     map (\<lambda>st. \<lparr>ws_ID = si_ID st, ws_Name = trim_space (si_Name st),
        ws_Components = place_all org app (si_ID st) 0 (si_Components st)\<rparr>) sts"

lemma place_all_stage: "c \<in> set (place_all org app stageID j ns) \<Longrightarrow> co_StageID c = stageID \<and> co_OrganizationID c = org \<and> co_ApplicationID c = app"
  by (auto simp: place_all_def new_component_def)

lemma map_enumerate_upt: "map (\<lambda>(k, x). int k) (enumerate j xs) = map int [j..<j + length xs]"
  by (induction xs arbitrary: j) (simp_all del: upt_Suc add: upt_conv_Cons)

lemma sort_enumerated:
  assumes "\<And>k x. ord (f k x) = int k"
  shows "sort_key ord (map (\<lambda>(k, x). f k x) (enumerate j xs)) = map (\<lambda>(k, x). f k x) (enumerate j xs)"
proof -
  have "map ord (map (\<lambda>(k, x). f k x) (enumerate j xs)) = map (\<lambda>(k, x). int k) (enumerate j xs)"
    by (simp add: assms split_def comp_def)
  also have "\<dots> = map int [j..<j + length xs]" by (rule map_enumerate_upt)
  finally have "sorted (map ord (map (\<lambda>(k, x). f k x) (enumerate j xs)))" by (simp add: sorted_map)
  then show ?thesis by (rule sort_key_id_if_sorted)
qed

lemma filter_concat_one:
  assumes "distinct (map f xs)" and "x \<in> set xs" and "\<And>y c. y \<in> set xs \<Longrightarrow> c \<in> set (g y) \<Longrightarrow> P c \<longleftrightarrow> f y = f x"
  shows "filter P (concat (map g xs)) = g x"
  using assms
proof (induction xs)
  case (Cons y xs)
  have none: "filter P (concat (map g zs)) = []" if "\<And>z. z \<in> set zs \<Longrightarrow> z \<in> set (y # xs) \<and> f z \<noteq> f x" for zs
    using that Cons.prems(3) by (fastforce simp: filter_empty_conv)
  show ?case
  proof (cases "y = x")
    case True
    have "filter P (g y) = g y" using Cons.prems(3) [of y] True by (auto simp: filter_id_conv)
    moreover have "f z \<noteq> f x" if "z \<in> set xs" for z using Cons.prems(1) True that by (metis distinct.simps(2) image_eqI list.set_map list.simps(9))
    then have "filter P (concat (map g xs)) = []" by (intro none) simp
    ultimately show ?thesis using True by simp
  next
    case False
    then have "f y \<noteq> f x" using Cons.prems(1,2) by auto
    then have "filter P (g y) = []" using Cons.prems(3) [of y] by (auto simp: filter_empty_conv)
    with Cons False show ?thesis by auto
  qed
qed simp

lemma loadStages_saved:
  assumes tx: "save_tx org app sts del d = Inr d'" and fk: "stages_exist d"
  shows "loadStages (fd_Runs d') org app = saved_workflow org app sts"
proof -
  note st = save_tx_Inr [OF tx]
  have "filter (our_stage org app) (rd_Stages (fd_Runs d')) = stage_rows org app 0 sts"
    by (auto simp: st(3) stage_rows_def new_stage_def our_stage_def filter_id_conv filter_empty_conv)
  then have "sort_key sg_Ordinal (filter (our_stage org app) (rd_Stages (fd_Runs d'))) = stage_rows org app 0 sts"
    by (simp add: stage_rows_def sort_enumerated new_stage_def)
  moreover have "stage_components (fd_Runs d') org (new_stage org app k x) =
      \<lparr>ws_ID = si_ID x, ws_Name = trim_space (si_Name x), ws_Components = place_all org app (si_ID x) 0 (si_Components x)\<rparr>"
    if "x \<in> set sts" for k x
  proof -
    let ?P = "\<lambda>c. co_StageID c = si_ID x \<and> co_OrganizationID c = org"
    have "co_StageID c \<noteq> si_ID x" if c: "c \<in> set (rd_Components (fd_Runs d))" "stays org app d c" for c
    proof
      assume eq: "co_StageID c = si_ID x"
      then obtain s where s: "s \<in> set (rd_Stages (fd_Runs d))" "sg_ID s = si_ID x"
        using fk c(1) unfolding stages_exist_def by (metis (no_types, lifting) image_iff image_subset_iff)
      show False
      proof (cases "our_stage org app s")
        case True
        then have "sg_ID s \<in> sg_ID ` set (filter (our_stage org app) (rd_Stages (fd_Runs d)))" using s(1) by simp
        then show ?thesis using c(2) eq s(2) by (simp add: stays_def)
      next
        case False
        then have "sg_ID s \<in> sg_ID ` set (filter (\<lambda>st. \<not> our_stage org app st) (rd_Stages (fd_Runs d)))" using s(1) by simp
        then show ?thesis using st(2) \<open>x \<in> set sts\<close> s(2) by (metis disjoint_iff imageI)
      qed
    qed
    then have "filter ?P (filter (stays org app d) (rd_Components (fd_Runs d))) = []"
      by (auto simp: filter_empty_conv)
    moreover have "filter ?P (component_rows org app sts) = place_all org app (si_ID x) 0 (si_Components x)"
      unfolding component_rows_def by (rule filter_concat_one [OF st(1) that]) (auto dest: place_all_stage)
    ultimately have "filter ?P (rd_Components (fd_Runs d')) = place_all org app (si_ID x) 0 (si_Components x)"
      by (simp add: st(3))
    then show ?thesis by (simp add: stage_components_def new_stage_def place_all_def sort_enumerated new_component_def)
  qed
  ultimately show ?thesis
    unfolding loadStages_def saved_workflow_def our_stage_def [abs_def]
    by (simp add: stage_rows_def) (auto intro!: nth_equalityI simp: nth_enumerate_eq)
qed

end
