(* ===== verification/WorkflowFleet.thy ===== *)
theory WorkflowFleet
  imports WorkflowSave_Props
begin

text \<open>
  Saves and moves over all the tables: the transaction of a move, locked state under any interference, and
  the invariant that ties components, stages, variables and managed state together.
\<close>

section \<open>The transaction of a move\<close>

definition placed_rows :: "uuid \<Rightarrow> uuid \<Rightarrow> uuid \<Rightarrow> uuid \<Rightarrow> int \<Rightarrow> string \<Rightarrow> Component list \<Rightarrow> Component list" where
  "placed_rows org i tgt stageID ordinal name =
     map (\<lambda>x. if co_ID x = i \<and> co_OrganizationID x = org then placed tgt stageID ordinal name x else x)"

definition moved_vars :: "uuid \<Rightarrow> uuid \<Rightarrow> uuid \<Rightarrow> uuid \<Rightarrow> Variable list \<Rightarrow> Variable list" where
  "moved_vars org app tgt i = map (\<lambda>v. if own_variable org app i v then v\<lparr>va_ApplicationID := tgt\<rparr> else v)"

definition moved_states :: "uuid \<Rightarrow> uuid \<Rightarrow> uuid \<Rightarrow> uuid \<Rightarrow> StateRow list \<Rightarrow> StateRow list" where
  "moved_states org app tgt i = map (\<lambda>r. if free_state org app i r then r\<lparr>ts_ApplicationID := tgt\<rparr> else r)"

definition appended_stage :: "uuid \<Rightarrow> uuid \<Rightarrow> uuid \<Rightarrow> MoveInput \<Rightarrow> FleetDB \<Rightarrow> StageRow list" where
  "appended_stage newID org tgt inp d =
     (if mv_StageID inp = None then [\<lparr>sg_ID = newID, sg_OrganizationID = org, sg_ApplicationID = tgt,
        sg_Name = trim_space (mv_NewStageName inp), sg_Ordinal = int (stage_count org tgt d)\<rparr>] else [])"

definition move_place :: "uuid \<Rightarrow> MoveInput \<Rightarrow> uuid" where
  "move_place newID inp = (case mv_StageID inp of None \<Rightarrow> newID | Some i \<Rightarrow> i)"

definition move_ordinal :: "uuid \<Rightarrow> uuid \<Rightarrow> Component \<Rightarrow> FleetDB \<Rightarrow> int" where
  "move_ordinal org stageID c d = (if stageID = co_StageID c then co_Ordinal c else int (member_count org stageID d))"

lemma move_stage_Inr:
  assumes "move_stage newID org tgt inp d = Inr (stageID, d1)"
  shows "stageID = move_place newID inp \<and> d1 = add_rows (appended_stage newID org tgt inp d) [] d \<and>
    (mv_StageID inp = None \<longrightarrow> newID \<notin> sg_ID ` set (rd_Stages (fd_Runs d)))"
  using assms
  by (auto simp: move_stage_def move_place_def appended_stage_def try_bind_def insert_stage_Inr split: option.splits sum.splits)

lemma place_component_Inr:
  assumes "place_component org i tgt stageID ordinal name d = Inr d'"
  shows "d' = update_runs (\<lambda>r. r\<lparr>rd_Components := placed_rows org i tgt stageID ordinal name (rd_Components r)\<rparr>) d \<and>
    stageID \<in> sg_ID ` set (rd_Stages (fd_Runs d)) \<and> (\<exists>c \<in> set (rd_Components (fd_Runs d)). co_ID c = i \<and> co_OrganizationID c = org)"
  using assms by (auto simp: place_component_def placed_rows_def Let_def list_ex_iff split: if_splits)

lemma rekey_Inr:
  assumes "rekey org app tgt c d = Inr d'"
  shows "d' = d\<lparr>fd_Vars := moved_vars org app tgt (co_ID c) (fd_Vars d), fd_States := moved_states org app tgt (co_ID c) (fd_States d)\<rparr> \<and>
    component_states org app (co_ID c) d' = [] \<and> distinct (map state_key (fd_States d'))"
  using assms by (auto simp: rekey_def moved_vars_def moved_states_def component_states_def app_states_def Let_def split: if_splits)

lemma move_tx_Inr:
  assumes "move_tx newID org app tgt inp c name d = Inr d'"
  defines "stageID \<equiv> move_place newID inp"
  shows "fd_Runs d' = (fd_Runs d)\<lparr>rd_Stages := rd_Stages (fd_Runs d) @ appended_stage newID org tgt inp d,
      rd_Components := placed_rows org (co_ID c) tgt stageID (move_ordinal org stageID c d) name (rd_Components (fd_Runs d))\<rparr>"
    and "fd_Vars d' = (if tgt = app then fd_Vars d else moved_vars org app tgt (co_ID c) (fd_Vars d))"
    and "fd_States d' = (if tgt = app then fd_States d else moved_states org app tgt (co_ID c) (fd_States d))"
    and "fd_Versions d' = fd_Versions d" and "tgt \<noteq> app \<Longrightarrow> component_states org app (co_ID c) d' = []"
    and "stageID \<in> sg_ID ` set (rd_Stages (fd_Runs d'))"
    and "mv_StageID inp = None \<Longrightarrow> newID \<notin> sg_ID ` set (rd_Stages (fd_Runs d))"
proof -
  obtain d1 where d1: "move_stage newID org tgt inp d = Inr (stageID, d1)"
    using assms(1) move_stage_Inr unfolding move_tx_def stageID_def
    by (fastforce simp: try_bind_def split: sum.splits prod.splits)
  note st = move_stage_Inr [OF d1]
  let ?ord = "move_ordinal org stageID c d1"
  obtain d2 where d2: "place_component org (co_ID c) tgt stageID ?ord name d1 = Inr d2"
    and rest: "(if tgt = app then Inr d2 else rekey org app tgt c d2) = Inr d'"
    using assms(1) d1 unfolding move_tx_def move_ordinal_def by (auto simp: try_bind_def Let_def split: sum.splits)
  note pl = place_component_Inr [OF d2]
  have comps: "rd_Components (fd_Runs d1) = rd_Components (fd_Runs d)" using st by (simp add: add_rows_def update_runs_def)
  then have ord: "?ord = move_ordinal org stageID c d" by (simp add: move_ordinal_def member_count_def)
  have runs: "fd_Runs d2 = (fd_Runs d)\<lparr>rd_Stages := rd_Stages (fd_Runs d) @ appended_stage newID org tgt inp d,
      rd_Components := placed_rows org (co_ID c) tgt stageID ?ord name (rd_Components (fd_Runs d))\<rparr>"
    using st pl by (simp add: add_rows_def update_runs_def)
  have same: "fd_Vars d2 = fd_Vars d" "fd_States d2 = fd_States d" "fd_Versions d2 = fd_Versions d"
    using st pl by (simp_all add: add_rows_def update_runs_def)
  have d': "fd_Runs d' = fd_Runs d2 \<and> fd_Versions d' = fd_Versions d2 \<and>
      fd_Vars d' = (if tgt = app then fd_Vars d2 else moved_vars org app tgt (co_ID c) (fd_Vars d2)) \<and>
      fd_States d' = (if tgt = app then fd_States d2 else moved_states org app tgt (co_ID c) (fd_States d2)) \<and>
      (tgt \<noteq> app \<longrightarrow> component_states org app (co_ID c) d' = [])"
    using rest rekey_Inr [of org app tgt c d2 d'] by (auto split: if_splits)
  show "fd_Runs d' = (fd_Runs d)\<lparr>rd_Stages := rd_Stages (fd_Runs d) @ appended_stage newID org tgt inp d,
      rd_Components := placed_rows org (co_ID c) tgt stageID (move_ordinal org stageID c d) name (rd_Components (fd_Runs d))\<rparr>"
    using d' runs ord by simp
  show "fd_Vars d' = (if tgt = app then fd_Vars d else moved_vars org app tgt (co_ID c) (fd_Vars d))"
    "fd_States d' = (if tgt = app then fd_States d else moved_states org app tgt (co_ID c) (fd_States d))"
    "fd_Versions d' = fd_Versions d" "tgt \<noteq> app \<Longrightarrow> component_states org app (co_ID c) d' = []"
    using d' same by simp_all
  have "rd_Stages (fd_Runs d') = rd_Stages (fd_Runs d1)" using d' runs st by (simp add: add_rows_def update_runs_def)
  then show "stageID \<in> sg_ID ` set (rd_Stages (fd_Runs d'))" using pl by simp
  show "mv_StageID inp = None \<Longrightarrow> newID \<notin> sg_ID ` set (rd_Stages (fd_Runs d))" using st by simp
qed

section \<open>Locked state\<close>

text \<open>The row is there, with these versions.\<close>

definition held :: "StateRow \<Rightarrow> VersionRow list \<Rightarrow> FleetDB \<Rightarrow> bool" where
  "held r vs d \<longleftrightarrow> distinct (map ts_ID (fd_States d)) \<and> r \<in> set (fd_States d) \<and>
     filter (\<lambda>v. tv_StateID v = ts_ID r) (fd_Versions d) = vs"

lemma held_save_tx:
  assumes "ts_LockID r \<noteq> None" and "held r vs d" and "save_tx org app sts del d = Inr d'"
  shows "held r vs d'"
proof -
  note st = save_tx_Inr [OF assms(3)]
  have r: "r \<in> set (fd_States d)" "distinct (map ts_ID (fd_States d))" and vs: "filter (\<lambda>v. tv_StateID v = ts_ID r) (fd_Versions d) = vs"
    using assms(2) by (simp_all add: held_def)
  have "ts_ID r \<notin> ts_ID ` set (filter (deletes_state org app del) (fd_States d))"
  proof
    assume "ts_ID r \<in> ts_ID ` set (filter (deletes_state org app del) (fd_States d))"
    then obtain x where x: "x \<in> set (fd_States d)" "deletes_state org app del x" "ts_ID r = ts_ID x" by auto
    then have "r = x" using r inj_onD [of ts_ID "set (fd_States d)" r x] by (simp add: distinct_map)
    then show False using x(2) assms(1) by (simp add: deletes_state_def)
  qed
  then have "filter (\<lambda>v. tv_StateID v = ts_ID r) (fd_Versions d') = filter (\<lambda>v. tv_StateID v = ts_ID r) (fd_Versions d)"
    unfolding st(9) filter_filter by (intro filter_cong refl) metis
  then have "filter (\<lambda>v. tv_StateID v = ts_ID r) (fd_Versions d') = vs" using vs by simp
  then show ?thesis using r assms(1) by (simp add: held_def st(5) distinct_map_filter deletes_state_def)
qed

lemma held_move_tx:
  assumes "ts_LockID r \<noteq> None" and "held r vs d" and "move_tx newID org app tgt inp c name d = Inr d'"
  shows "held r vs d'"
proof -
  note mv = move_tx_Inr [OF assms(3)]
  have "\<not> free_state org app (co_ID c) r" using assms(1) by (simp add: free_state_def)
  then have "r \<in> set (moved_states org app tgt (co_ID c) (fd_States d))"
    using assms(2) by (auto simp: held_def moved_states_def image_iff intro!: bexI [of _ r])
  moreover have "map ts_ID (moved_states org app tgt (co_ID c) (fd_States d)) = map ts_ID (fd_States d)"
    by (simp add: moved_states_def)
  ultimately show ?thesis using assms(2) by (auto simp: held_def mv(3,4))
qed

lemma keeps_refused [keeps_rules]: "(\<And>k d. P d \<Longrightarrow> P (itf k d)) \<Longrightarrow> keeps P (refused_names itf f xs)"
  by (induction xs) (auto intro!: keeps_rules keeps_query)

lemma keeps_if [keeps_rules]: "keeps P p \<Longrightarrow> keeps P q \<Longrightarrow> keeps P (if b then p else q)"
  by simp

lemma keeps_targets: "(\<And>k d. P d \<Longrightarrow> P (itf k d)) \<Longrightarrow> keeps P (validateComponentTargets itf org row nodes)"
  unfolding validateComponentTargets_def Let_def by (intro keeps_rules keeps_query)

lemma keeps_moved:
  assumes "\<And>k d. P d \<Longrightarrow> P (itf k d)"
  shows "keeps P (checkMovedComponents itf org app nodes)"
proof -
  have "keeps P (case moved of None \<Rightarrow> db_ret () | Some c \<Rightarrow> db_seq (db_query itf (f c)) (\<lambda>a. db_fail (g c a)))" for moved f g
    by (cases moved) (auto intro!: keeps_rules keeps_query assms)
  then show ?thesis unfolding checkMovedComponents_def by (intro keeps_rules keeps_query assms)
qed

lemma keeps_installs: "(\<And>k d. P d \<Longrightarrow> P (itf k d)) \<Longrightarrow> keeps P (resolveInstallations lib itf org sts)"
  unfolding resolveInstallations_def by (intro keeps_rules keeps_query)

lemma keeps_backend: "(\<And>k d. P d \<Longrightarrow> P (itf k d)) \<Longrightarrow> keeps P (checkBackendChanges lib itf org app nodes)"
  unfolding checkBackendChanges_def by (intro keeps_rules keeps_query)

lemma keeps_deletions: "(\<And>k d. P d \<Longrightarrow> P (itf k d)) \<Longrightarrow> keeps P (checkStateDeletions lib itf org app nodes allow)"
  unfolding checkStateDeletions_def Let_def by (intro keeps_rules keeps_query)

lemma keeps_save_checks:
  assumes "\<And>k d. P d \<Longrightarrow> P (itf k d)"
  shows "keeps P (save_checks lib itf org app stages opts)"
  unfolding save_checks_def Let_def
  by (intro keeps_rules keeps_query keeps_targets keeps_moved keeps_installs keeps_backend keeps_deletions assms)

lemma keeps_save:
  assumes "\<And>k d. P d \<Longrightarrow> P (itf k d)" and "\<And>sts del d d'. P d \<Longrightarrow> save_tx org app sts del d = Inr d' \<Longrightarrow> P d'"
  shows "keeps P (ReplaceWorkflowWith lib itf org app stages opts)"
  unfolding ReplaceWorkflowWith_def
  by (intro keeps_rules keeps_query keeps_commit keeps_save_checks) (erule assms(1) | erule assms(2), assumption)+

lemma keeps_move:
  assumes itf: "\<And>k d. P d \<Longrightarrow> P (itf k d)" and "\<And>tgt c name d d'. P d \<Longrightarrow> move_tx newID org app tgt inp c name d = Inr d' \<Longrightarrow> P d'"
  shows "keeps P (MoveComponent newID itf org app i inp)"
  unfolding MoveComponent_def move_guards_def Let_def
  by (intro keeps_rules keeps_query keeps_targets keeps_commit) (erule assms(1) | erule assms(2), assumption)+

section \<open>What ties the tables together\<close>

definition lives :: "FleetDB \<Rightarrow> uuid \<Rightarrow> uuid \<Rightarrow> uuid \<Rightarrow> Component \<Rightarrow> bool" where
  "lives d i org app c \<longleftrightarrow> c \<in> set (rd_Components (fd_Runs d)) \<and> co_ID c = i \<and> co_OrganizationID c = org \<and> co_ApplicationID c = app"

text \<open>
  Every component is in a stage of its application, every component variable and every managed state belongs
  to a component that is where its key says; state only to OpenTofu components.
\<close>

definition homed :: "RunDB \<Rightarrow> bool" where
  "homed r \<longleftrightarrow> (\<forall>c \<in> set (rd_Components r). \<exists>st \<in> set (rd_Stages r).
     sg_ID st = co_StageID c \<and> sg_OrganizationID st = co_OrganizationID c \<and> sg_ApplicationID st = co_ApplicationID c)"

definition keyed_vars :: "FleetDB \<Rightarrow> bool" where
  "keyed_vars d \<longleftrightarrow> (\<forall>v \<in> set (fd_Vars d). \<forall>i. va_ComponentID v = Some i \<longrightarrow>
     (\<exists>c. lives d i (va_OrganizationID v) (va_ApplicationID v) c))"

definition keyed_states :: "FleetDB \<Rightarrow> bool" where
  "keyed_states d \<longleftrightarrow> (\<forall>r \<in> set (fd_States d).
     \<exists>c. lives d (ts_ComponentID r) (ts_OrganizationID r) (ts_ApplicationID r) c \<and> co_Type c = TypeTerraform)"

definition fleet_wf :: "FleetDB \<Rightarrow> bool" where
  "fleet_wf d \<longleftrightarrow> distinct (map sg_ID (rd_Stages (fd_Runs d))) \<and> distinct (map co_ID (rd_Components (fd_Runs d))) \<and>
     homed (fd_Runs d) \<and> keyed_vars d \<and> keyed_states d"

text \<open>No component of the save is stored as an OpenTofu component and sent as another type.\<close>

definition keeps_types :: "FleetDB \<Rightarrow> StageInput list \<Rightarrow> bool" where
  "keeps_types d stages \<longleftrightarrow> (\<forall>n \<in> set (flattenStages stages). \<forall>c \<in> set (rd_Components (fd_Runs d)).
     co_ID c = ci_ID n \<longrightarrow> co_Type c = TypeTerraform \<longrightarrow> ci_Type n = TypeTerraform)"

definition node_key :: "ComponentInput \<Rightarrow> uuid \<times> string \<times> config" where
  "node_key n = (ci_ID n, ci_Type n, ci_Config n)"

lemma normalize_components_keys: "normalize_components low cs = Inr cs' \<Longrightarrow> map node_key cs' = map node_key cs"
  by (induction cs arbitrary: cs') (auto simp: try_bind_def node_key_def split: sum.splits)

lemma normalize_stages_keys:
  "normalize_stages low stages = Inr sts \<Longrightarrow> map node_key (flattenStages sts) = map node_key (flattenStages stages)"
proof (induction stages arbitrary: sts)
  case (Cons st stages)
  then show ?case
    by (auto simp: try_bind_def flattenStages_def dest: normalize_components_keys split: sum.splits)
qed (simp add: flattenStages_def)

lemma resolve_stages_keys: "map node_key (flattenStages (resolve_stages lib installs sts)) = map node_key (flattenStages sts)"
  by (simp add: flattenStages_def resolve_stages_def resolveInstallation_def node_key_def [abs_def] comp_def map_concat)

lemma node_keys_mem:
  assumes "map node_key (flattenStages ss) = map node_key (flattenStages ts)" and "n \<in> set (flattenStages ss)"
  obtains m where "m \<in> set (flattenStages ts)" "ci_ID m = ci_ID n" "ci_Type m = ci_Type n" "ci_Config m = ci_Config n"
proof -
  have "node_key n \<in> node_key ` set (flattenStages ts)"
    using assms by (metis image_eqI list.set_map)
  then show ?thesis using that by (auto simp: node_key_def)
qed

lemma node_keys_ids:
  assumes "map node_key (flattenStages ss) = map node_key (flattenStages ts)"
  shows "map ci_ID (flattenStages ss) = map ci_ID (flattenStages ts)"
proof -
  have "map ci_ID (flattenStages x) = map fst (map node_key (flattenStages x))" for x by (simp add: node_key_def comp_def)
  then show ?thesis using assms by metis
qed

lemma map_enumerate_snd: "map (\<lambda>x. f (snd x)) (enumerate j xs) = map f xs"
  by (induction xs arbitrary: j) simp_all

lemma component_rows_of:
  "c \<in> set (component_rows org app sts) \<longleftrightarrow>
     (\<exists>st \<in> set sts. \<exists>k n. (k, n) \<in> set (enumerate 0 (si_Components st)) \<and> c = new_component org app (si_ID st) k n)"
  by (auto simp: component_rows_def place_all_def)

lemma component_rows_mem:
  assumes "n \<in> set (flattenStages sts)"
  obtains c where "c \<in> set (component_rows org app sts)" "co_ID c = ci_ID n" "co_Type c = ci_Type n" "co_Config c = ci_Config n"
    "co_OrganizationID c = org" "co_ApplicationID c = app"
proof -
  obtain st where st: "st \<in> set sts" "n \<in> set (si_Components st)" using assms by (auto simp: flattenStages_def)
  then obtain k where "(k, n) \<in> set (enumerate 0 (si_Components st))"
    by (metis in_set_conv_nth nth_enumerate_eq length_enumerate add_0)
  with st(1) show ?thesis using that [of "new_component org app (si_ID st) k n"] by (auto simp: component_rows_of new_component_def)
qed

lemma staying_component:
  assumes wf: "fleet_wf d" and "c \<in> set (rd_Components (fd_Runs d))" and "\<not> our_component org app c"
  shows "stays org app d c"
proof -
  obtain st where st: "st \<in> set (rd_Stages (fd_Runs d))" "sg_ID st = co_StageID c" "\<not> our_stage org app st"
    using assms unfolding fleet_wf_def homed_def our_component_def our_stage_def by metis
  have "co_StageID c \<notin> sg_ID ` set (filter (our_stage org app) (rd_Stages (fd_Runs d)))"
  proof
    assume "co_StageID c \<in> sg_ID ` set (filter (our_stage org app) (rd_Stages (fd_Runs d)))"
    then obtain s where s: "s \<in> set (rd_Stages (fd_Runs d))" "our_stage org app s" "sg_ID s = sg_ID st" using st(2) by auto
    have "distinct (map sg_ID (rd_Stages (fd_Runs d)))" using wf by (simp add: fleet_wf_def)
    then have "s = st" using s st inj_onD [of sg_ID "set (rd_Stages (fd_Runs d))" s st] by (simp add: distinct_map)
    then show False using s st by simp
  qed
  then show ?thesis using assms by (simp add: stays_def)
qed

text \<open>A save that runs alone: what its transaction was given.\<close>

lemma save_alone:
  assumes "db_run (ReplaceWorkflowWith lib alone org app stages opts) d = (d', r)"
  obtains (failed) e where "r = Inl e" "d' = d"
  | (saved) sts del where "normalize_stages (sl_Low lib) stages = Inr sts" "validateWorkflow (sl_ParseUUID lib) sts = None"
      "save_tx org app (resolve_stages lib (org_installs org d) sts) del d = Inr d'" "r = Inr (loadStages (fd_Runs d') org app)"
      "AllowBackendChange opts \<or> answer (checkBackendChanges lib alone org app (flattenStages sts)) d = Inr ()"
      "answer (checkStateDeletions lib alone org app (flattenStages sts) (AllowStateDeletion opts)) d = Inr del"
proof (cases "answer (save_checks lib alone org app stages opts) d")
  case (Inl e)
  then have "r = Inl e" "d' = d" using assms by (simp_all add: ReplaceWorkflowWith_def run_alone [OF reads_save_checks])
  then show ?thesis by (rule failed)
next
  case (Inr sd)
  obtain resolved del where sd: "sd = (resolved, del)" by (cases sd)
  show ?thesis
  proof (cases "save_tx org app resolved del d")
    case (Inl e)
    then have "r = Inl e" "d' = d" using assms Inr sd by (simp_all add: ReplaceWorkflowWith_def run_alone [OF reads_save_checks])
    then show ?thesis by (rule failed)
  next
    case tx: (Inr d2)
    then have d': "d' = d2" "r = Inr (loadStages (fd_Runs d2) org app)"
      using assms Inr sd by (auto simp: ReplaceWorkflowWith_def run_alone [OF reads_save_checks])
    from save_checks_Inr [OF Inr [unfolded sd]] show ?thesis using saved tx d' by metis
  qed
qed

text \<open>The managed state a save deletes is that of the OpenTofu components it removes.\<close>

lemma save_deletes:
  assumes "answer (checkStateDeletions lib alone org app nodes allow) d = Inr del" and r: "r \<in> set (fd_States d)"
  shows "deletes_state org app del r \<longleftrightarrow> ts_OrganizationID r = org \<and> ts_ApplicationID r = app \<and> ts_ComponentID r \<notin> ci_ID ` set nodes \<and>
    (\<exists>c \<in> set (tofu_components org app d). co_ID c = ts_ComponentID r)"
proof -
  let ?removed = "removed_components nodes (tofu_components org app d)"
  let ?rows = "app_states org app (map co_ID ?removed) d"
  have del: "del = state_deletion ?rows ?removed" and free: "list_all (\<lambda>c. locked_component ?rows c = None) ?removed"
    using deletions_Inr [OF assms(1) refl refl] by blast+
  have mem: "r \<in> set (states_of ?rows (co_ID c)) \<longleftrightarrow> ts_OrganizationID r = org \<and> ts_ApplicationID r = app \<and> ts_ComponentID r = co_ID c"
    if "c \<in> set ?removed" for c
    using r that by (auto simp: states_of_def app_states_def)
  show ?thesis
  proof
    assume "deletes_state org app del r"
    then obtain c where c: "c \<in> set ?removed" "co_ID c = ts_ComponentID r" "ts_OrganizationID r = org" "ts_ApplicationID r = app"
      by (auto simp: deletes_state_def del state_deletion_def Let_def)
    then show "ts_OrganizationID r = org \<and> ts_ApplicationID r = app \<and> ts_ComponentID r \<notin> ci_ID ` set nodes \<and>
        (\<exists>c \<in> set (tofu_components org app d). co_ID c = ts_ComponentID r)"
    proof -
      have "co_ID c \<notin> ci_ID ` set nodes" "c \<in> set (tofu_components org app d)" using c(1) by (auto simp: removed_components_def)
      then show ?thesis using c by metis
    qed
  next
    assume a: "ts_OrganizationID r = org \<and> ts_ApplicationID r = app \<and> ts_ComponentID r \<notin> ci_ID ` set nodes \<and>
        (\<exists>c \<in> set (tofu_components org app d). co_ID c = ts_ComponentID r)"
    then obtain c where c: "c \<in> set ?removed" "co_ID c = ts_ComponentID r" by (auto simp: removed_components_def)
    then have own: "r \<in> set (states_of ?rows (co_ID c))" using mem a by metis
    then have "states_of ?rows (co_ID c) \<noteq> []" by auto
    then have "co_ID c \<in> set (sx_Components del)" using c(1) by (auto simp: del state_deletion_def Let_def)
    moreover have "locked_component ?rows c = None" using free c(1) by (simp add: list_all_iff)
    then have "ts_LockID r = None" using own by (auto simp: locked_component_def list_ex_iff split: if_splits)
    ultimately show "deletes_state org app del r" using a c(2) by (simp add: deletes_state_def)
  qed
qed

lemma save_wf:
  assumes wf: "fleet_wf d" and types: "keeps_types d stages"
    and run: "db_run (ReplaceWorkflowWith lib alone org app stages opts) d = (d', r)"
  shows "fleet_wf d'"
  using run
proof (cases rule: save_alone)
  case (saved sts del)
  let ?rs = "resolve_stages lib (org_installs org d) sts"
  note st = save_tx_Inr [OF saved(3)]
  have keys: "map node_key (flattenStages ?rs) = map node_key (flattenStages stages)"
    using resolve_stages_keys normalize_stages_keys [OF saved(1)] by metis
  have ids: "map ci_ID (flattenStages ?rs) = map ci_ID (flattenStages sts)" by (rule node_keys_ids [OF resolve_stages_keys])
  have comps: "rd_Components (fd_Runs d') = filter (stays org app d) (rd_Components (fd_Runs d)) @ component_rows org app ?rs"
    and stages: "rd_Stages (fd_Runs d') = filter (\<lambda>s. \<not> our_stage org app s) (rd_Stages (fd_Runs d)) @ stage_rows org app 0 ?rs"
    by (simp_all add: st(3))
  have lives_other: "lives d' i o' a c" if "lives d i o' a c" "\<not> (o' = org \<and> a = app)" for i o' a c
    using that staying_component [OF wf, of c org app] by (auto simp: lives_def comps our_component_def)
  have lives_own: "\<exists>c'. lives d' i org app c' \<and> (co_Type c = TypeTerraform \<longrightarrow> co_Type c' = TypeTerraform)"
    if c: "lives d i org app c" "i \<in> ci_ID ` set (flattenStages sts)" for i c
  proof -
    obtain n where n: "n \<in> set (flattenStages ?rs)" "ci_ID n = i" using c(2) ids by (metis imageE image_eqI list.set_map)
    obtain c' where c': "c' \<in> set (component_rows org app ?rs)" "co_ID c' = i" "co_Type c' = ci_Type n" "co_OrganizationID c' = org"
      "co_ApplicationID c' = app" using component_rows_mem [OF n(1)] n(2) by metis
    obtain m where "m \<in> set (flattenStages stages)" "ci_ID m = i" "ci_Type m = ci_Type n" using node_keys_mem [OF keys n(1)] n(2) by metis
    then have "co_Type c = TypeTerraform \<longrightarrow> ci_Type n = TypeTerraform" using types c(1) by (auto simp: keeps_types_def lives_def)
    with c' show ?thesis by (auto simp: lives_def comps)
  qed
  have "distinct (map sg_ID (rd_Stages (fd_Runs d')))"
  proof -
    have "map sg_ID (stage_rows org app 0 ?rs) = map si_ID ?rs"
      by (simp add: stage_rows_def new_stage_def split_def comp_def map_enumerate_snd)
    moreover have "distinct (map sg_ID (rd_Stages (fd_Runs d)))" using wf by (simp add: fleet_wf_def)
    moreover have "set (map sg_ID (filter (\<lambda>s. \<not> our_stage org app s) (rd_Stages (fd_Runs d)))) \<inter> set (map si_ID ?rs) = {}"
      using st(2) by (simp only: set_map Int_commute)
    ultimately show ?thesis using st(1) by (simp only: stages map_append distinct_append distinct_map_filter)
  qed
  moreover have "distinct (map co_ID (rd_Components (fd_Runs d')))" using st(10) wf by (simp add: fleet_wf_def)
  moreover have "homed (fd_Runs d')"
    unfolding homed_def
  proof
    fix c assume "c \<in> set (rd_Components (fd_Runs d'))"
    then consider "c \<in> set (rd_Components (fd_Runs d))" "stays org app d c" | "c \<in> set (component_rows org app ?rs)" by (auto simp: comps)
    then show "\<exists>s \<in> set (rd_Stages (fd_Runs d')). sg_ID s = co_StageID c \<and> sg_OrganizationID s = co_OrganizationID c \<and> sg_ApplicationID s = co_ApplicationID c"
    proof cases
      case 1
      then obtain s where "s \<in> set (rd_Stages (fd_Runs d))" "sg_ID s = co_StageID c" "sg_OrganizationID s = co_OrganizationID c"
        "sg_ApplicationID s = co_ApplicationID c" using wf unfolding fleet_wf_def homed_def by blast
      moreover from this have "\<not> our_stage org app s" using 1(2) by (auto simp: stays_def our_stage_def our_component_def)
      ultimately show ?thesis by (auto simp: stages)
    next
      case 2
      then obtain x k n where x: "x \<in> set ?rs" "c = new_component org app (si_ID x) k n" by (auto simp: component_rows_of)
      then obtain j where "(j, x) \<in> set (enumerate 0 ?rs)" by (metis in_set_conv_nth nth_enumerate_eq length_enumerate add_0)
      then have "new_stage org app j x \<in> set (rd_Stages (fd_Runs d'))" by (force simp: stages stage_rows_def)
      then show ?thesis by (rule bexI [rotated]) (simp add: x(2) new_stage_def new_component_def)
    qed
  qed
  moreover have "keyed_vars d'"
    unfolding keyed_vars_def
  proof (intro ballI allI impI)
    fix v i assume v: "v \<in> set (fd_Vars d')" "va_ComponentID v = Some i"
    then have old: "v \<in> set (fd_Vars d)" "\<not> dropped_variable org app (map ci_ID (flattenStages sts)) v" by (auto simp: st(4) ids)
    then obtain c where c: "lives d i (va_OrganizationID v) (va_ApplicationID v) c" using wf v(2) by (auto simp: fleet_wf_def keyed_vars_def)
    show "\<exists>c. lives d' i (va_OrganizationID v) (va_ApplicationID v) c"
    proof (cases "va_OrganizationID v = org \<and> va_ApplicationID v = app")
      case True
      then have "i \<in> ci_ID ` set (flattenStages sts)" using old(2) v(2) by (simp add: dropped_variable_def)
      then show ?thesis using lives_own [of i c] c True by blast
    qed (use lives_other c in blast)
  qed
  moreover have "keyed_states d'"
    unfolding keyed_states_def
  proof
    fix r assume r: "r \<in> set (fd_States d')"
    then have old: "r \<in> set (fd_States d)" "\<not> deletes_state org app del r" by (auto simp: st(5))
    then obtain c where c: "lives d (ts_ComponentID r) (ts_OrganizationID r) (ts_ApplicationID r) c" "co_Type c = TypeTerraform"
      using wf by (auto simp: fleet_wf_def keyed_states_def)
    show "\<exists>c. lives d' (ts_ComponentID r) (ts_OrganizationID r) (ts_ApplicationID r) c \<and> co_Type c = TypeTerraform"
    proof (cases "ts_OrganizationID r = org \<and> ts_ApplicationID r = app")
      case True
      then have "\<exists>c \<in> set (tofu_components org app d). co_ID c = ts_ComponentID r" using c by (auto simp: lives_def)
      then have "ts_ComponentID r \<in> ci_ID ` set (flattenStages sts)" using old save_deletes [OF saved(6) old(1)] True by blast
      then show ?thesis using lives_own [of "ts_ComponentID r" c] c True by blast
    qed (use lives_other c in blast)
  qed
  ultimately show ?thesis by (simp add: fleet_wf_def)
qed (use wf in simp)

section \<open>A move that runs alone\<close>

lemma reads_guards [reads_rules]: "reads (move_guards alone org app tgt c name)"
  unfolding move_guards_def by (auto intro!: reads_rules)

lemma move_alone:
  assumes "db_run (MoveComponent newID alone org app i inp) d = (d', r)"
  obtains (failed) e where "r = Inl e" "d' = d"
  | (stayed) c tgt where "get_component (fd_Runs d) org app i = Inr c" "getApp (fd_Runs d) org (mv_ApplicationID inp) = Inr tgt"
      "already_there app tgt inp c (move_name c inp)" "d' = d" "r = Inr c"
  | (moved) c tgt where "get_component (fd_Runs d) org app i = Inr c" "getApp (fd_Runs d) org (mv_ApplicationID inp) = Inr tgt"
      "stage_fault org tgt inp d = None" "answer (move_guards alone org app tgt c (move_name c inp)) d = Inr ()"
      "move_tx newID org app (ar_ID tgt) inp c (move_name c inp) d = Inr d'"
      "r = run_result (get_component (fd_Runs d') org (ar_ID tgt) i)"
proof -
  have "ends (MoveComponent newID alone org app i inp) d d' r" by (rule run_ends [OF assms])
  then show ?thesis
    unfolding MoveComponent_def Let_def
  proof (cases rule: ends_found)
    case c: (found c)
    have get: "get_component (fd_Runs d) org app i = Inr c" using c(1) by (auto simp: run_result_def split: sum.splits)
    from c(2) show ?thesis
    proof (cases rule: ends_found)
      case tgt: (found tgt)
      have app: "getApp (fd_Runs d) org (mv_ApplicationID inp) = Inr tgt"
        using tgt(1) by (auto simp: run_result_def move_target_def split: sum.splits)
      let ?name = "move_name c inp"
      from tgt(2) show ?thesis
      proof (cases rule: ends_check)
        case passed
        have "reads (if mv_StageID inp = None then db_ret None else db_query alone (stage_fault org tgt inp))"
          by (auto intro!: reads_rules)
        from passed(2) this show ?thesis
        proof (cases rule: ends_seq)
          case stage: (passed sf)
          have none: "stage_fault org tgt inp d = sf"
            using stage(1) by (auto simp: stage_fault_def split: if_splits)
          from stage(2) show ?thesis
          proof (cases rule: ends_check)
            case ok: passed
            show ?thesis
            proof (cases "already_there app tgt inp c ?name")
              case True
              then have "ends (db_ret c) d d' r" using ok(2) by simp
              from ends_reads [OF this] show ?thesis using stayed get app True by (simp add: reads_rules)
            next
              case False
              from ok(2) [unfolded if_not_P [OF False]] reads_guards show ?thesis
              proof (cases rule: ends_seq)
                case guards: (passed u)
                from guards(2) show ?thesis
                proof (cases rule: ends_commit)
                  case committed: (committed d1)
                  from ends_reads [OF committed(2)]
                  have "d' = d1 \<and> r = run_result (get_component (fd_Runs d1) org (ar_ID tgt) i)"
                    by (simp add: reads_rules answer_seq try_bind_def)
                  then show ?thesis using moved get app none ok(1) guards(1) committed(1) by simp
                qed (auto intro: failed)
              qed (auto intro: failed)
            qed
          qed (auto intro: failed)
        qed (auto intro: failed)
      qed (auto intro: failed)
    qed (auto intro: failed)
  qed (auto intro: failed)
qed

definition own_state :: "uuid \<Rightarrow> uuid \<Rightarrow> uuid \<Rightarrow> StateRow \<Rightarrow> bool" where
  "own_state org app i r \<longleftrightarrow> ts_OrganizationID r = org \<and> ts_ApplicationID r = app \<and> ts_ComponentID r = i"

definition rekeyed_vars :: "uuid \<Rightarrow> uuid \<Rightarrow> uuid \<Rightarrow> uuid \<Rightarrow> FleetDB \<Rightarrow> Variable list" where
  "rekeyed_vars org app tgt i d = map (\<lambda>v. if own_variable org app i v then v\<lparr>va_ApplicationID := tgt\<rparr> else v) (fd_Vars d)"

definition rekeyed_states :: "uuid \<Rightarrow> uuid \<Rightarrow> uuid \<Rightarrow> uuid \<Rightarrow> FleetDB \<Rightarrow> StateRow list" where
  "rekeyed_states org app tgt i d = map (\<lambda>r. if own_state org app i r then r\<lparr>ts_ApplicationID := tgt\<rparr> else r) (fd_States d)"

lemma rekeyed_same [simp]: "rekeyed_vars org app app i d = fd_Vars d" "rekeyed_states org app app i d = fd_States d"
  by (auto simp: rekeyed_vars_def rekeyed_states_def own_variable_def in_scope_def own_state_def intro!: map_idI)

lemma guards_Inr:
  assumes "answer (move_guards alone org app tgt c name) d = Inr u"
  shows "\<not> name_taken org (ar_ID tgt) name (co_ID c) d" "\<not> run_in_flight (fd_Runs d) org app"
    "list_all (\<lambda>r. own_state org app (co_ID c) r \<longrightarrow> ts_LockID r = None) (fd_States d)"
  using assms unfolding move_guards_def
  by (auto elim!: answer_seq_Inr intro!: reads_rules split: if_splits
    simp: component_states_def app_states_def own_state_def list_ex_iff list_all_iff)

text \<open>A move that was made: the component in its new place, and what is keyed by it.\<close>

definition moved_to :: "uuid \<Rightarrow> uuid \<Rightarrow> MoveInput \<Rightarrow> Component \<Rightarrow> Component \<Rightarrow> FleetDB \<Rightarrow> FleetDB \<Rightarrow> bool" where
  "moved_to org app inp c c' d d' \<longleftrightarrow>
     c' = placed (mv_ApplicationID inp) (co_StageID c') (co_Ordinal c') (move_name c inp) c \<and>
     rd_Components (fd_Runs d') = map (\<lambda>x. if x = c then c' else x) (rd_Components (fd_Runs d)) \<and>
     fd_Vars d' = rekeyed_vars org app (mv_ApplicationID inp) (co_ID c) d \<and>
     fd_States d' = rekeyed_states org app (mv_ApplicationID inp) (co_ID c) d \<and>
     fd_Versions d' = fd_Versions d \<and> rd_Runs (fd_Runs d') = rd_Runs (fd_Runs d) \<and> rd_Steps (fd_Runs d') = rd_Steps (fd_Runs d)"

lemma get_component_Inr:
  "get_component r org app i = Inr c \<Longrightarrow>
     c \<in> set (rd_Components r) \<and> co_ID c = i \<and> co_OrganizationID c = org \<and> co_ApplicationID c = app"
  by (auto simp: get_component_def dest: find_SomeD split: option.splits)

lemma getApp_Inr: "getApp r org app = Inr a \<Longrightarrow> a \<in> set (rd_Apps r) \<and> ar_ID a = app \<and> ar_OrganizationID a = org"
  by (auto simp: getApp_def dest: find_SomeD split: option.splits)

lemma same_id_component:
  "distinct (map co_ID cs) \<Longrightarrow> x \<in> set cs \<Longrightarrow> c \<in> set cs \<Longrightarrow> co_ID x = co_ID c \<longleftrightarrow> x = c"
  using inj_onD [of co_ID "set cs" x c] by (auto simp: distinct_map)

lemma find_replaced:
  assumes "distinct (map f xs)" and "c \<in> set xs" and "f c' = f c" and "P c'" and "\<And>x. P x \<Longrightarrow> f x = f c"
  shows "find P (map (\<lambda>x. if x = c then c' else x) xs) = Some c'"
  using assms(1,2)
proof (induction xs)
  case (Cons x xs)
  show ?case
  proof (cases "x = c")
    case False
    then have "c \<in> set xs" using Cons.prems by simp
    moreover from this have "f x \<noteq> f c" using Cons.prems(1) by auto
    ultimately show ?thesis using Cons False assms(5) [of x] by auto
  qed (use assms(4) in simp)
qed simp

lemma moved_alone:
  assumes wf: "fleet_wf d" and c: "get_component (fd_Runs d) org app i = Inr c"
    and tgt: "getApp (fd_Runs d) org (mv_ApplicationID inp) = Inr tgt"
    and guards: "answer (move_guards alone org app tgt c (move_name c inp)) d = Inr ()"
    and tx: "move_tx newID org app (ar_ID tgt) inp c (move_name c inp) d = Inr d'"
  defines "c' \<equiv> placed (mv_ApplicationID inp) (move_place newID inp) (move_ordinal org (move_place newID inp) c d) (move_name c inp) c"
  shows "moved_to org app inp c c' d d'" and "get_component (fd_Runs d') org (ar_ID tgt) i = Inr c'"
proof -
  note mv = move_tx_Inr [OF tx]
  have id: "ar_ID tgt = mv_ApplicationID inp" using getApp_Inr [OF tgt] by simp
  have mem: "c \<in> set (rd_Components (fd_Runs d))" "co_ID c = i" "co_OrganizationID c = org" "co_ApplicationID c = app"
    using get_component_Inr [OF c] by simp_all
  have dist: "distinct (map co_ID (rd_Components (fd_Runs d)))" using wf by (simp add: fleet_wf_def)
  have comps: "rd_Components (fd_Runs d') = map (\<lambda>x. if x = c then c' else x) (rd_Components (fd_Runs d))"
    using same_id_component [OF dist _ mem(1)] mem(3) by (auto simp: mv(1) placed_rows_def c'_def id)
  have free: "free_state org app (co_ID c) r \<longleftrightarrow> own_state org app (co_ID c) r" if "r \<in> set (fd_States d)" for r
    using guards_Inr(3) [OF guards] that by (auto simp: list_all_iff free_state_def own_state_def)
  have "fd_Vars d' = rekeyed_vars org app (mv_ApplicationID inp) (co_ID c) d"
    by (cases "ar_ID tgt = app") (simp_all add: mv(2) id [symmetric], simp add: moved_vars_def rekeyed_vars_def)
  moreover have "fd_States d' = rekeyed_states org app (mv_ApplicationID inp) (co_ID c) d"
    by (cases "ar_ID tgt = app") (simp_all add: mv(3) id [symmetric], simp add: moved_states_def rekeyed_states_def free)
  ultimately show "moved_to org app inp c c' d d'"
    using comps by (simp add: moved_to_def mv(1,4)) (simp add: c'_def placed_def)
  have "find (\<lambda>x. co_OrganizationID x = org \<and> co_ApplicationID x = ar_ID tgt \<and> co_ID x = i) (rd_Components (fd_Runs d')) = Some c'"
    unfolding comps using mem by (intro find_replaced [OF dist mem(1)]) (auto simp: c'_def placed_def id)
  then show "get_component (fd_Runs d') org (ar_ID tgt) i = Inr c'" by (simp add: get_component_def)
qed

lemma move_wf:
  assumes wf: "fleet_wf d" and run: "db_run (MoveComponent newID alone org app i inp) d = (d', r)"
  shows "fleet_wf d'"
  using run
proof (cases rule: move_alone)
  case (moved c tgt)
  let ?c' = "placed (mv_ApplicationID inp) (move_place newID inp) (move_ordinal org (move_place newID inp) c d) (move_name c inp) c"
  let ?t = "mv_ApplicationID inp"
  note mv = move_tx_Inr [OF moved(5)] and to = moved_alone [OF wf moved(1,2,4,5)]
  have id: "ar_ID tgt = ?t" using getApp_Inr [OF moved(2)] by simp
  have mem: "c \<in> set (rd_Components (fd_Runs d))" "co_ID c = i" "co_OrganizationID c = org" "co_ApplicationID c = app"
    using get_component_Inr [OF moved(1)] by simp_all
  have comps: "rd_Components (fd_Runs d') = map (\<lambda>x. if x = c then ?c' else x) (rd_Components (fd_Runs d))"
    and vars: "fd_Vars d' = rekeyed_vars org app ?t (co_ID c) d" and states: "fd_States d' = rekeyed_states org app ?t (co_ID c) d"
    using to(1) by (simp_all add: moved_to_def)
  have stages: "rd_Stages (fd_Runs d') = rd_Stages (fd_Runs d) @ appended_stage newID org ?t inp d" by (simp add: mv(1) id)
  have here: "lives d' i org ?t ?c'" using mem by (auto simp: lives_def comps placed_def)
  have there: "lives d' k o' a x" if "lives d k o' a x" "x \<noteq> c" for k o' a x using that by (auto simp: lives_def comps)
  have "distinct (map sg_ID (rd_Stages (fd_Runs d')))"
    using wf mv(7) by (auto simp: stages appended_stage_def fleet_wf_def)
  moreover have "map co_ID (rd_Components (fd_Runs d')) = map co_ID (rd_Components (fd_Runs d))" by (simp add: comps placed_def)
  then have "distinct (map co_ID (rd_Components (fd_Runs d')))" using wf by (simp add: fleet_wf_def)
  moreover have "homed (fd_Runs d')"
    unfolding homed_def
  proof
    fix x assume "x \<in> set (rd_Components (fd_Runs d'))"
    then consider "x \<in> set (rd_Components (fd_Runs d))" | "x = ?c'" by (auto simp: comps split: if_splits)
    then show "\<exists>s \<in> set (rd_Stages (fd_Runs d')). sg_ID s = co_StageID x \<and> sg_OrganizationID s = co_OrganizationID x \<and> sg_ApplicationID s = co_ApplicationID x"
    proof cases
      case 1
      then show ?thesis using wf by (auto simp: fleet_wf_def homed_def stages)
    next
      case 2
      have "\<exists>s \<in> set (rd_Stages (fd_Runs d')). sg_ID s = move_place newID inp \<and> sg_OrganizationID s = org \<and> sg_ApplicationID s = ?t"
        using moved(3) by (auto simp: stage_fault_def stage_in_app_def list_ex_iff id stages move_place_def appended_stage_def split: option.splits if_splits)
      then show ?thesis using 2 mem by (simp add: placed_def)
    qed
  qed
  moreover have "keyed_vars d'"
    unfolding keyed_vars_def
  proof (intro ballI allI impI)
    fix v k assume v: "v \<in> set (fd_Vars d')" "va_ComponentID v = Some k"
    then obtain u where u: "u \<in> set (fd_Vars d)" "v = (if own_variable org app (co_ID c) u then u\<lparr>va_ApplicationID := ?t\<rparr> else u)"
      by (auto simp: vars rekeyed_vars_def)
    then have "va_ComponentID u = Some k" using v(2) by (auto split: if_splits)
    then obtain x where x: "lives d k (va_OrganizationID u) (va_ApplicationID u) x" using wf u(1) by (auto simp: fleet_wf_def keyed_vars_def)
    show "\<exists>x. lives d' k (va_OrganizationID v) (va_ApplicationID v) x"
    proof (cases "x = c")
      case True
      then have "own_variable org app (co_ID c) u" using x mem \<open>va_ComponentID u = Some k\<close> by (auto simp: own_variable_def in_scope_def lives_def)
      then have "va_OrganizationID v = org \<and> va_ApplicationID v = ?t \<and> k = i"
        using u(2) x True mem by (auto simp: own_variable_def in_scope_def lives_def)
      then show ?thesis using here by auto
    next
      case False
      then have "\<not> own_variable org app (co_ID c) u"
        using x mem \<open>va_ComponentID u = Some k\<close> wf same_id_component [of "rd_Components (fd_Runs d)" x c]
        by (auto simp: own_variable_def in_scope_def lives_def fleet_wf_def)
      then show ?thesis using there [OF x False] u(2) by auto
    qed
  qed
  moreover have "keyed_states d'"
    unfolding keyed_states_def
  proof
    fix s assume s: "s \<in> set (fd_States d')"
    then obtain u where u: "u \<in> set (fd_States d)" "s = (if own_state org app (co_ID c) u then u\<lparr>ts_ApplicationID := ?t\<rparr> else u)"
      by (auto simp: states rekeyed_states_def)
    then obtain x where x: "lives d (ts_ComponentID u) (ts_OrganizationID u) (ts_ApplicationID u) x" "co_Type x = TypeTerraform"
      using wf by (auto simp: fleet_wf_def keyed_states_def)
    show "\<exists>x. lives d' (ts_ComponentID s) (ts_OrganizationID s) (ts_ApplicationID s) x \<and> co_Type x = TypeTerraform"
    proof (cases "x = c")
      case True
      then have "own_state org app (co_ID c) u" using x mem by (auto simp: own_state_def lives_def)
      then have "ts_OrganizationID s = org \<and> ts_ApplicationID s = ?t \<and> ts_ComponentID s = i" using u(2) mem by (auto simp: own_state_def)
      moreover have "co_Type ?c' = TypeTerraform" using x(2) True by (simp add: placed_def)
      ultimately show ?thesis using here by (intro exI [of _ ?c']) simp
    next
      case False
      then have "\<not> own_state org app (co_ID c) u"
        using x mem wf same_id_component [of "rd_Components (fd_Runs d)" x c] by (auto simp: own_state_def lives_def fleet_wf_def)
      then show ?thesis using there [OF x(1) False] x(2) u(2) by auto
    qed
  qed
  ultimately show ?thesis by (simp add: fleet_wf_def)
qed (use wf in simp_all)

end
