(* ===== verification/Save_Claims.thy ===== *)
theory Save_Claims
  imports WorkflowFleet
begin

text \<open>The properties of workflow saves and moves, with their witnesses.\<close>

section \<open>An example\<close>

text \<open>
  Two applications of one organization; the first has an OpenTofu component on the managed backend, with a
  variable, a state and a recorded resource.
\<close>

definition demo_slib :: SaveLib where
  "demo_slib = \<lparr>sl_Low = id, sl_Orb = id, sl_Derive = (\<lambda>i. i + 1000), sl_ParseUUID = (\<lambda>_. None), sl_ParseURL = (\<lambda>_. None),
     sl_ManagedState = True\<rparr>"

definition demo_input :: ComponentInput where
  "demo_input = \<lparr>ci_ID = 20, ci_Name = ''db'', ci_Type = TypeTerraform, ci_Config = [''repo_url'' \<mapsto> ''git'', ''backend'' \<mapsto> BackendSpacefleet],
     ci_ContinueOnFailure = False, ci_RequiresApproval = True, ci_ApprovalPolicy = zero_policy, ci_TargetClusterID = None,
     ci_TargetNamespace = [], ci_ChartCredentialID = None, ci_GitHubInstallationID = None\<rparr>"

definition demo_stages :: "StageInput list" where
  "demo_stages = [\<lparr>si_ID = 10, si_Name = ''infra'', si_Components = [demo_input]\<rparr>]"

definition demo_shop :: "uuid \<Rightarrow> string \<Rightarrow> AppRow" where
  "demo_shop i name = \<lparr>ar_ID = i, ar_OrganizationID = 1, ar_Name = name, ar_RunnerClusterID = 5, ar_DriftIntervalMinutes = 0\<rparr>"

definition demo_state :: "string option \<Rightarrow> StateRow" where
  "demo_state lock = \<lparr>ts_ID = 50, ts_OrganizationID = 1, ts_ApplicationID = 2, ts_ComponentID = 20, ts_Workspace = ''default'',
     ts_CurrentVersion = 1, ts_Serial = 1, ts_Lineage = [], ts_LockID = lock, ts_LockInfo = None, ts_LockedAt = None, ts_LockedBy = None\<rparr>"

definition demo_record :: StepRun where
  "demo_record = \<lparr>cr_ID = 40, cr_OrganizationID = 1, cr_WorkflowRunID = 30, cr_ComponentID = 1020, cr_Name = ''db'', cr_Type = TypeTerraform,
     cr_Status = StepSucceeded, cr_Message = [], cr_RunName = [], cr_Logs = [], cr_Outputs = [], cr_Resources = ''[r]'', cr_Policy = [],
     cr_ChartRevision = [], cr_ValuesRevision = [], cr_ApprovedBy = [], cr_ApprovedAt = None, cr_Approvals = [], cr_StartedAt = None,
     cr_FinishedAt = Some 3, cr_UpdatedAt = 3\<rparr>"

definition demo_variable :: Variable where
  "demo_variable = \<lparr>va_ID = 60, va_OrganizationID = 1, va_ApplicationID = 2, va_ComponentID = Some 20, va_Name = ''SIZE'', va_Sensitive = False,
     va_Value = ''5'', va_EncryptedValue = None\<rparr>"

definition demo_fleet :: "string option \<Rightarrow> FleetDB" where
  "demo_fleet lock =
     \<lparr>fd_Runs = \<lparr>rd_Apps = [demo_shop 2 ''shop'', demo_shop 3 ''data''],
        rd_Stages = [\<lparr>sg_ID = 10, sg_OrganizationID = 1, sg_ApplicationID = 2, sg_Name = ''infra'', sg_Ordinal = 0\<rparr>],
        rd_Components = [new_component 1 2 10 0 demo_input], rd_Runs = [], rd_Steps = [demo_record]\<rparr>,
      fd_Vars = [demo_variable], fd_States = [demo_state lock], fd_Versions = [], fd_Clusters = [], fd_Installs = [], fd_Credentials = []\<rparr>"

definition demo_move :: MoveInput where
  "demo_move = \<lparr>mv_ApplicationID = 3, mv_StageID = None, mv_NewStageName = ''moved'', mv_Name = []\<rparr>"

definition no_options :: ReplaceOptions where
  "no_options = \<lparr>AllowBackendChange = False, AllowStateDeletion = False\<rparr>"

lemma ReplaceWorkflow_eq: "ReplaceWorkflow lib itf org app stages = ReplaceWorkflowWith lib itf org app stages no_options"
  by (simp add: ReplaceWorkflow_def no_options_def)

text \<open>The save of the stored workflow, a save of an empty one, and a move.\<close>

definition demo_saved :: "FleetDB \<times> (save_error + WorkflowStage list)" where
  "demo_saved = db_run (ReplaceWorkflow demo_slib alone 1 2 demo_stages) (demo_fleet None)"

definition demo_emptied :: "string option \<Rightarrow> FleetDB \<times> (save_error + WorkflowStage list)" where
  "demo_emptied lock = db_run (ReplaceWorkflow demo_slib alone 1 2 []) (demo_fleet lock)"


definition fleet_summary :: "FleetDB \<Rightarrow> (uuid \<times> uuid) list \<times> (uuid \<times> uuid \<times> uuid) list \<times> uuid list \<times> uuid list" where
  "fleet_summary d =
     (map (\<lambda>s. (sg_ID s, sg_ApplicationID s)) (rd_Stages (fd_Runs d)),
      map (\<lambda>c. (co_ID c, co_ApplicationID c, co_StageID c)) (rd_Components (fd_Runs d)),
      map va_ApplicationID (fd_Vars d), map ts_ApplicationID (fd_States d))"

lemma demo_saved_ok: "isl (snd demo_saved) = False \<and> fleet_summary (fst demo_saved) = ([(10, 2)], [(20, 2, 10)], [2], [2])"
  by code_simp


lemma demo_emptied_refused:
  "(case snd (demo_emptied None) of Inl (StateDeletion names) \<Rightarrow> names = [''db''] | _ \<Rightarrow> False) \<and>
   (case snd (demo_emptied (Some ''L'')) of Inl (StateLocked name) \<Rightarrow> name = ''db'' | _ \<Rightarrow> False)"
  by code_simp

lemma demo_fleet_wf: "fleet_wf (demo_fleet lock)"
  by (auto simp: fleet_wf_def homed_def keyed_vars_def keyed_states_def lives_def demo_fleet_def demo_input_def demo_state_def
    demo_variable_def new_component_def)

section \<open>What a save leaves\<close>

text \<open>
  C27: A save that runs alone replaces the workflow of one application and nothing else. Refused, it changes
  nothing. Made, the stages read back are those sent, in order, names trimmed, each component under its own id with
  its policy normalised and its installation resolved; what goes with it is the variables of components that are
  not in it and the managed state of the OpenTofu components it removes; other applications, runs, steps and every
  other variable and state are as before.
\<close>

theorem save_replaces_workflow:
  assumes "fleet_wf d" and "db_run (ReplaceWorkflowWith lib (\<lambda>k d. d) org app stages opts) d = (d', r)"
  shows "case r of Inl e \<Rightarrow> d' = d
    | Inr ws \<Rightarrow> \<exists>sts. normalize_stages (sl_Low lib) stages = Inr sts \<and> validateWorkflow (sl_ParseUUID lib) sts = None \<and>
        ws = saved_workflow org app (resolve_stages lib (org_installs org d) sts) \<and> loadStages (fd_Runs d') org app = ws \<and>
        filter (\<lambda>s. \<not> our_stage org app s) (rd_Stages (fd_Runs d')) = filter (\<lambda>s. \<not> our_stage org app s) (rd_Stages (fd_Runs d)) \<and>
        filter (\<lambda>c. \<not> our_component org app c) (rd_Components (fd_Runs d')) = filter (\<lambda>c. \<not> our_component org app c) (rd_Components (fd_Runs d)) \<and>
        rd_Runs (fd_Runs d') = rd_Runs (fd_Runs d) \<and> rd_Steps (fd_Runs d') = rd_Steps (fd_Runs d) \<and>
        fd_Vars d' = filter (\<lambda>v. \<not> dropped_variable org app (map ci_ID (flattenStages stages)) v) (fd_Vars d) \<and>
        fd_States d' = filter (\<lambda>s. \<not> (ts_OrganizationID s = org \<and> ts_ApplicationID s = app \<and>
          ts_ComponentID s \<notin> ci_ID ` set (flattenStages stages) \<and> (\<exists>c \<in> set (tofu_components org app d). co_ID c = ts_ComponentID s))) (fd_States d)"
  using assms(2)
proof (cases rule: save_alone)
  case (saved sts del)
  let ?rs = "resolve_stages lib (org_installs org d) sts"
  note st = save_tx_Inr [OF saved(3)]
  have fk: "stages_exist d" using assms(1) unfolding fleet_wf_def homed_def stages_exist_def by (metis (no_types, lifting) image_subset_iff rev_image_eqI)
  have ids: "map ci_ID (flattenStages ?rs) = map ci_ID (flattenStages stages)" "map ci_ID (flattenStages sts) = map ci_ID (flattenStages stages)"
    using node_keys_ids [OF resolve_stages_keys] node_keys_ids [OF normalize_stages_keys [OF saved(1)]] by metis+
  then have set_ids: "ci_ID ` set (flattenStages sts) = ci_ID ` set (flattenStages stages)" by (metis list.set_map)
  have others: "filter (\<lambda>c. \<not> our_component org app c) (rd_Components (fd_Runs d')) = filter (\<lambda>c. \<not> our_component org app c) (rd_Components (fd_Runs d))"
  proof -
    have "filter (\<lambda>c. \<not> our_component org app c) (component_rows org app ?rs) = []"
      by (auto simp: filter_empty_conv component_rows_of new_component_def our_component_def)
    moreover have "filter (\<lambda>c. stays org app d c \<and> \<not> our_component org app c) (rd_Components (fd_Runs d)) =
        filter (\<lambda>c. \<not> our_component org app c) (rd_Components (fd_Runs d))"
      using staying_component [OF assms(1)] by (intro filter_cong) auto
    ultimately show ?thesis by (simp add: st(3) conj_commute)
  qed
  have "filter (\<lambda>s. \<not> our_stage org app s) (stage_rows org app 0 ?rs) = []"
    by (auto simp: filter_empty_conv stage_rows_def new_stage_def our_stage_def)
  then have stages: "filter (\<lambda>s. \<not> our_stage org app s) (rd_Stages (fd_Runs d')) = filter (\<lambda>s. \<not> our_stage org app s) (rd_Stages (fd_Runs d))"
    by (simp add: st(3))
  have states: "fd_States d' = filter (\<lambda>s. \<not> (ts_OrganizationID s = org \<and> ts_ApplicationID s = app \<and>
      ts_ComponentID s \<notin> ci_ID ` set (flattenStages stages) \<and> (\<exists>c \<in> set (tofu_components org app d). co_ID c = ts_ComponentID s))) (fd_States d)"
    unfolding st(5) using save_deletes [OF saved(6)] set_ids by (intro filter_cong) auto
  show ?thesis
    using saved(1,2,4) loadStages_saved [OF saved(3) fk] others stages states st(4) ids by (simp add: st(3))
qed simp

theorem save_replaces_workflow_witness:
  "\<exists>ws. snd demo_saved = Inr ws \<and> loadStages (fd_Runs (fst demo_saved)) 1 2 = ws \<and>
     ws = saved_workflow 1 2 (resolve_stages demo_slib [] demo_stages)"
proof -
  obtain ws where ws: "snd demo_saved = Inr ws" using demo_saved_ok by (cases "snd demo_saved") auto
  have "db_run (ReplaceWorkflowWith demo_slib (\<lambda>k d. d) 1 2 demo_stages no_options) (demo_fleet None) = (fst demo_saved, Inr ws)"
    using ws by (metis demo_saved_def ReplaceWorkflow_eq prod.collapse)
  moreover have "normalize_stages id demo_stages = Inr demo_stages"
    by (simp add: demo_stages_def demo_input_def normalizeApprovalPolicy_def zero_policy_def maxApprovalTimeoutMinutes_def)
  moreover have "org_installs 1 (demo_fleet None) = []" by (simp add: org_installs_def demo_fleet_def)
  ultimately show ?thesis using save_replaces_workflow [OF demo_fleet_wf \<open>db_run _ _ = _\<close>] ws
    by (auto simp: demo_slib_def)
qed

section \<open>Locked state\<close>



section \<open>A move takes everything along\<close>



section \<open>The tables stay tied together\<close>

datatype fleet_op = SaveOp uuid uuid "StageInput list" ReplaceOptions | MoveOp uuid uuid uuid uuid MoveInput

fun serve_fleet :: "SaveLib \<Rightarrow> fleet_op list \<Rightarrow> FleetDB \<Rightarrow> FleetDB" where
  "serve_fleet lib [] d = d"
| "serve_fleet lib (SaveOp org app stages opts # ops) d = serve_fleet lib ops (fst (db_run (ReplaceWorkflowWith lib (\<lambda>k d. d) org app stages opts) d))"
| "serve_fleet lib (MoveOp newID org app i inp # ops) d = serve_fleet lib ops (fst (db_run (MoveComponent newID (\<lambda>k d. d) org app i inp) d))"




section \<open>Resources keep their state\<close>





section \<open>Where the guarantees end\<close>

text \<open>
  A stored OpenTofu component sent as a manifest keeps its state without being asked about it; removed afterwards, it
  leaves the state behind, tied to no component.
\<close>

definition demo_switched :: "StageInput list" where
  "demo_switched = [\<lparr>si_ID = 10, si_Name = ''infra'', si_Components =
     [demo_input\<lparr>ci_Type := TypeManifest, ci_Config := [''repo_url'' \<mapsto> ''git'', ''path'' \<mapsto> ''k8s''], ci_TargetClusterID := Some 5\<rparr>]\<rparr>]"

definition demo_stranded :: FleetDB where
  "demo_stranded = serve_fleet demo_slib [SaveOp 1 2 demo_switched no_options, SaveOp 1 2 [] no_options]
     ((demo_fleet None)\<lparr>fd_Clusters := [\<lparr>cu_ID = 5, cu_OrganizationID = 1, cu_InCluster = False\<rparr>]\<rparr>)"

lemma type_switch_strands_state: "fleet_summary demo_stranded = ([], [], [], [2])"
  by code_simp

text \<open>
  Two moves of one component at a time: the second, to application 4, was checked before the first, to application
  3, committed. Its transaction moves the component on and leaves variables and state in application 3.
\<close>

definition demo_race_db :: FleetDB where
  "demo_race_db = update_runs (\<lambda>r. r\<lparr>rd_Apps := rd_Apps r @ [demo_shop 4 ''web'']\<rparr>) (demo_fleet None)"

definition demo_race_itf :: fleet_itf where
  "demo_race_itf k d = (if k = 6 then fst (db_run (MoveComponent 70 alone 1 2 20 demo_move) d) else d)"

lemma racing_moves_strand_rows:
  "fleet_summary (fst (db_run (MoveComponent 71 demo_race_itf 1 2 20 (demo_move\<lparr>mv_ApplicationID := 4\<rparr>)) demo_race_db)) =
     ([(10, 2), (70, 3), (71, 4)], [(20, 4, 71)], [3], [3])"
  by code_simp

end
