(* ===== verification/Spec2Isabelle.thy ===== *)
theory Spec2Isabelle
  imports Scheduler_Claims Snapshot_Claims Validate_Claims Script_Claims Interpolate Variables_Claims
    Planner_Claims State_Claims Runs_Claims Worker_Claims Save_Claims
begin

text \<open>
  A verification development for Spacefleet, a service that deploys applications to Kubernetes. An
  application has a workflow: components (Helm charts, plain manifests, OpenTofu modules) in stages. A
  run takes a snapshot of the workflow as a graph of execution units, and a worker runs that graph,
  each unit as one Tekton TaskRun whose script and environment it plans. OpenTofu steps may keep their
  state in Spacefleet itself, through OpenTofu's \<open>http\<close> backend.

  \<^bold>\<open>Theories and code.\<close> Paths are below \<open>src/\<close>.

  \<^item> \<open>Prelude\<close>: generic lemmas, the error monad \<open>try_bind\<close>. \<open>GoStrings\<close>: Go strings as byte lists, UTF-8,
  the \<open>strings\<close> functions in use. \<open>Json\<close>, \<open>Base64\<close>: \<open>encoding/json\<close> and \<open>encoding/base64\<close> as used.
  \<^item> \<open>Scheduler\<close>: \<open>lib/workflows/scheduler.go\<close>, the state machine of \<open>schedule\<close> with its goroutines as
  interleaved events. \<open>Scheduler_Props\<close>, \<open>_Safety\<close>, \<open>_Live\<close>, \<open>_Ref\<close>, \<open>_Final\<close> hold its invariants, the
  measure that bounds every execution, and the equality with a sequential reference evaluation;
  \<open>Scheduler_Claims\<close> the properties.
  \<^item> \<open>Workflow\<close>, \<open>Validate\<close>: \<open>lib/slug\<close>, \<open>lib/workflows/stages.go\<close>, \<open>dag.go\<close>: what a save checks.
  \<^item> \<open>Snapshot\<close>: \<open>expandExecutionNodes\<close>, \<open>snapshotComponents\<close>, approval policies (\<open>runs.go\<close>,
  \<open>approvals.go\<close>), what a plan without changes completes. \<open>Snapshot_Barrier\<close> composes it with the
  scheduler.
  \<^item> \<open>Interpolate\<close>: \<open>lib/interpolate\<close>. \<open>Render\<close>, \<open>Outputs\<close>: \<open>lib/workflows/interpolation.go\<close> and the
  recorded outputs of \<open>worker.go\<close>.
  \<^item> \<open>Shell\<close>, \<open>HelmScript\<close>, \<open>TofuScript\<close>, \<open>TofuStateOp\<close>, \<open>TofuPlan\<close>: \<open>lib/helm\<close>, \<open>lib/manifest\<close>, \<open>lib/tofu\<close>:
  the scripts, byte for byte, and the parsers of what they print. \<open>Script_Props\<close> has a model of how a
  POSIX shell reads a script, over which the properties speak.
  \<^item> \<open>Secrets\<close>: \<open>lib/secrets\<close>, with the locale of what stores of sealed values rely on. \<open>Variables\<close>:
  \<open>lib/variables/service.go\<close>.
  \<^item> \<open>Deploy\<close>: \<open>lib/deploy/resolver.go\<close>, \<open>lib/cloudauth\<close>. \<open>Planner\<close>: \<open>lib/workflows/planner.go\<close>, from a unit
  to the TaskRun request, every early return included. \<open>Planner_Secrets\<close> relates two workers that differ
  in secret values only.
  \<^item> \<open>StateToken\<close>: \<open>lib/tofustate/token.go\<close>. \<open>StateStore\<close>: \<open>lib/tofustate/service.go\<close>. \<open>StateHTTP\<close>: the four
  endpoints of \<open>lib/api/tofustate.go\<close>. \<open>StateStore_Props\<close> has the atomic steps of the database (a locale of
  steps, invariant and preorder, interpreted on them) and shows each operation to be a sequence of them
  whatever others do between its statements; \<open>StateHTTP_Props\<close> the frame of a request; \<open>StateStore_Seq\<close>
  the outcome of operations that run alone.
  \<^item> \<open>Runs\<close>: the run tables and the ways a run starts (\<open>lib/workflows/runs.go\<close>, \<open>stateops.go\<close>, \<open>scoped.go\<close>).
  \<open>RunControl\<close>: the executor's transitions, approval gates, cancelling, the reapers, the drift schedule
  (\<open>runs.go\<close>, \<open>approvals.go\<close>, \<open>recovery.go\<close>, \<open>drift.go\<close>). \<open>RunReads\<close>: the reads of \<open>runs.go\<close>. \<open>Atomic\<close>: the locale
  of atomic steps that the run tables (\<open>Runs_Props\<close>) and the state tables share. \<open>RunTrace\<close>: sequences of
  requests, each with what others do between its statements. \<open>RunExpiry\<close>, \<open>RunSingle\<close>: sweeps and starts with
  nobody in between.
  \<^item> \<open>PolicyGate\<close>: \<open>lib/policy/policy.go\<close> and \<open>lib/workflows/policygate.go\<close>, the Rego interpreter an argument.
  \<open>TektonRun\<close>: \<open>lib/tekton/run.go\<close>, the manifest of a TaskRun and its Secret, as trees of JSON.
  \<^item> \<open>RunWorker\<close>: what a unit does (\<open>runComponent\<close> of \<open>lib/workflows/worker.go\<close> over \<open>Execute\<close> of
  \<open>lib/tekton/runexec.go\<close>), as a program of writes, reads and cluster calls. \<open>RunAttempt\<close>: \<open>Work\<close> of \<open>worker.go\<close>:
  its reads, the machine of scheduler, callback queue, unit programs and tables, and its end. \<open>RunAttempt_Props\<close>
  has the shapes of the programs, \<open>Scheduler_Units\<close> what the scheduler says of a unit that began, \<open>WorkTrace\<close>
  the reachable states of the machine, \<open>WorkRows\<close> its simulation of the scheduler in the rows, \<open>WorkEnds\<close> how an
  attempt ends, \<open>TaskRunOnce\<close> a unit against a cluster that moves by itself; \<open>Worker_Claims\<close> the properties.
  \<^item> \<open>DBProg\<close>: programs of queries and transactions, with what others do in between. \<open>WorkflowSave\<close>: the save
  (\<open>ReplaceWorkflowWith\<close> of \<open>lib/workflows/service.go\<close>, \<open>installations.go\<close>, \<open>backendguard.go\<close>, \<open>stateguard.go\<close>) over
  the tables of a fleet (\<open>FleetDB\<close>); \<open>WorkflowMove\<close>: \<open>move.go\<close>. \<open>WorkflowSave_Props\<close> says what each check lets through,
  \<open>WorkflowFleet\<close> what save and move leave behind, the invariant \<open>fleet_wf\<close> of the tables and the versions with
  interleaved others (\<open>keeps\<close>); \<open>Save_Claims\<close> the properties and the two places where they end.

  \<^bold>\<open>Conventions.\<close> A Go struct is a record, an enumeration of strings keeps its strings, an error is the
  left side of a sum with a constructor per message, \<open>nil\<close> is \<open>None\<close>. UUIDs are 128-bit words, bytes are
  characters. A table is a list of rows, its unique indexes are checked by the insert. Loops are
  structural recursion or carry a measure; the only fuel is the code's own \<open>lockAttempts\<close>. What the code
  calls outside the repository (the cipher, gzip, MD5, the keyed HMAC, the UUID text, the Kubernetes
  and cloud APIs) is an argument, and what is relied on is a named hypothesis of the property, with a
  witness that has a concrete function for it.

  \<^bold>\<open>Properties.\<close> The theories named \<open>_Claims\<close>, and \<open>Interpolate\<close> and \<open>Scheduler_Ref\<close>, hold the properties
  C1, C2, ..., each with the sentence it stands for and a witness.

  \<^bold>\<open>Not modelled.\<close> The data layer and the API types generated into \<open>ent\<close> and \<open>lib/api/gen.go\<close>; the Kubernetes,
  Tekton, GitHub and cloud clients; sessions, mail and notifications; the job queue and process wiring;
  the user interface. They are input and output around the parts above.
  Of an attempt: the recovery from a panic, the events for notifications, the report to a pull request; the
  snapshot of a run is a value here, JSON in its row, so it cannot fail to parse.
\<close>

end
